(* ===== verification/Prelude.thy ===== *)
theory Prelude
  imports Main "HOL-Library.Word"
begin

unbundle bit_operations_syntax

text \<open>
  Shared vocabulary of the development: the C integer types at their widths
  (\<^verbatim>\<open>alt_types.h\<close>), the ways a C function of this code base can go wrong, the
  collections of rewrite rules the component theories fill, and the contract of a state
  machine with an invariant, which every machine of the development interprets.
\<close>

section \<open>Machine integers\<close>

type_synonym u8 = "8 word"
type_synonym u16 = "16 word"
type_synonym u32 = "32 word"

text \<open>
  \<^verbatim>\<open>INT_MAX\<close> of the 32-bit target, as an unsigned value (the drivers compare unsigned
  fields with it).
\<close>

definition INT_MAX :: u32 where
  "INT_MAX = 0x7FFFFFFF"

section \<open>Undefined behaviour as a value\<close>

text \<open>
  Where the C code would dereference a null pointer or index outside an array, the model
  returns one of these instead of a result.
\<close>

datatype fault = NullDeref | OutOfBounds

section \<open>Error numbers\<close>

text \<open>The values of newlib's \<^verbatim>\<open>errno.h\<close> that the HAL uses.\<close>

abbreviation (input) EIO :: int where "EIO \<equiv> 5"
abbreviation (input) EWOULDBLOCK :: int where "EWOULDBLOCK \<equiv> 11"
abbreviation (input) EACCES :: int where "EACCES \<equiv> 13"
abbreviation (input) ENODEV :: int where "ENODEV \<equiv> 19"
abbreviation (input) EINVAL :: int where "EINVAL \<equiv> 22"
abbreviation (input) EMFILE :: int where "EMFILE \<equiv> 24"
abbreviation (input) ENOTTY :: int where "ENOTTY \<equiv> 25"
abbreviation (input) EBADFD :: int where "EBADFD \<equiv> 81"
abbreviation (input) ENOSYS :: int where "ENOSYS \<equiv> 88"
abbreviation (input) ENOTSUP :: int where "ENOTSUP \<equiv> 134"

section \<open>Collections\<close>

named_theorems bus_simps \<open>effect of an operation on the decoded bus trace\<close>
named_theorems ready_simps \<open>an operation leaves the bus pins idle\<close>
named_theorems fd_simps \<open>effect of a system call on the descriptor table\<close>

section \<open>Runs of a step function\<close>

fun iterate :: "('s \<Rightarrow> 's) \<Rightarrow> nat \<Rightarrow> 's \<Rightarrow> 's" where
  "iterate f 0 s = s"
| "iterate f (Suc n) s = iterate f n (f s)"

lemma iterate_add: "iterate f (m + n) s = iterate f n (iterate f m s)"
  by (induction m arbitrary: s) auto

lemma iterate_Suc_right: "iterate f (Suc n) s = f (iterate f n s)"
  by (induction n arbitrary: s) auto

text \<open>
  The contract of a component that is a state machine: an invariant that the start state has
  and that every step keeps. It then holds after any number of steps.
\<close>

locale invariant_machine =
  fixes start :: "'s \<Rightarrow> bool"
    and step :: "'s \<Rightarrow> 's"
    and inv :: "'s \<Rightarrow> bool"
  assumes inv_start: "start s \<Longrightarrow> inv s"
    and inv_step: "inv s \<Longrightarrow> inv (step s)"
begin

lemma inv_run: "inv s \<Longrightarrow> inv (iterate step n s)"
  by (induction n arbitrary: s) (auto intro: inv_step)

lemma run_from_start: "start s \<Longrightarrow> inv (iterate step n s)"
  by (intro inv_run inv_start)

end

text \<open>The same contract for a machine driven by events from its environment.\<close>

locale event_machine =
  fixes step :: "'e \<Rightarrow> 's \<Rightarrow> 's"
    and inv :: "'s \<Rightarrow> bool"
  assumes inv_event: "inv s \<Longrightarrow> inv (step e s)"
begin

lemma inv_events: "inv s \<Longrightarrow> inv (fold step es s)"
  by (induction es arbitrary: s) (auto intro: inv_event)

end

section \<open>Generic lemmas\<close>

lemma unat_u32: "unat (x :: u32) < 2 ^ 32"
  using unsigned_less [of x, where ?'a = nat] by simp

lemma unat_minus_1_u32: "unat (- 1 :: u32) = 4294967295"
  by (simp add: unsigned_minus_1_eq_mask mask_eq_exp_minus_1)

lemma unat_pred_u32: "r \<noteq> 0 \<Longrightarrow> unat (r - 1 :: u32) = unat r - 1"
  by (rule unat_minus_one)

lemma sint_u32:
  fixes r :: u32
  shows "sint r = (if uint r < 2 ^ 31 then uint r else uint r - 2 ^ 32)"
proof -
  have "sint r = (uint r + 2 ^ 31) mod 2 ^ 32 - 2 ^ 31"
    using int_word_sint [of "uint r", where ?'a = 32] by simp
  also have "\<dots> = (if uint r < 2 ^ 31 then uint r else uint r - 2 ^ 32)"
  proof (cases "uint r < 2 ^ 31")
    case False
    then have m: "(uint r - 2 ^ 31 + 2 ^ 32) mod 2 ^ 32 = uint r - 2 ^ 31"
      using uint_bounded [of r] by (subst mod_add_self2) simp
    have e: "uint r + 2 ^ 31 = uint r - 2 ^ 31 + 2 ^ 32" by simp
    show ?thesis unfolding e m using False by simp
  qed simp
  finally show ?thesis .
qed

lemma uint_less_u32: "uint (r :: u32) < 2 ^ 31 \<longleftrightarrow> unat r < 2 ^ 31"
proof -
  have "unat r < 2 ^ 31 \<longleftrightarrow> int (unat r) < int (2 ^ 31)" by (simp only: of_nat_less_iff)
  then show ?thesis by simp
qed

lemma sint_small: "unat (r :: u32) < 2 ^ 31 \<Longrightarrow> sint r = int (unat r)"
  using sint_u32 [of r] uint_less_u32 [of r] by simp

lemma sint_large: "\<not> unat (r :: u32) < 2 ^ 31 \<Longrightarrow> sint r < 0"
  using sint_u32 [of r] uint_less_u32 [of r] uint_bounded [of r] by simp

lemma unat_minus_u32: "sint (a :: u32) < 0 \<Longrightarrow> int (unat (- a)) = - sint a"
proof -
  assume "sint a < 0"
  then have n: "\<not> uint a < 2 ^ 31" using sint_u32 [of a] by auto
  moreover have "uint a mod 2 ^ 32 = uint a" using uint_bounded [of a] by simp
  moreover have "uint a \<noteq> 0" using n by simp
  ultimately have "uint (- a) = 2 ^ 32 - uint a" by (simp add: uint_word_ariths zmod_zminus1_eq_if)
  then show ?thesis using n sint_u32 [of a] by simp
qed

lemma and_single: "(x :: u32) AND push_bit n 1 \<noteq> 0 \<longleftrightarrow> n < 32 \<and> bit x n"
proof -
  have "x AND push_bit n 1 = (if bit x n then push_bit n 1 else 0)"
    by (rule bit_word_eqI) (auto simp: bit_simps)
  moreover have "push_bit n (1 :: u32) = 0 \<longleftrightarrow> \<not> n < 32"
    by (auto simp: push_bit_eq_mult)
  moreover have "bit x n \<Longrightarrow> n < 32" using bit_imp_le_length [of x n] by simp
  ultimately show ?thesis by auto
qed

lemma and_mask_less: "unat ((x :: u32) AND 0xF) < 16"
proof -
  have "x AND 0xF \<le> 0xF" by (rule word_and_le1)
  then have "unat (x AND 0xF) \<le> unat (0xF :: u32)" by (simp only: word_le_nat_alt)
  then show ?thesis by simp
qed

text \<open>Results that may be a fault.\<close>

lemma map_sum_Inr_iff: "map_sum id f x = Inr z \<longleftrightarrow> (\<exists>w. x = Inr w \<and> z = f w)"
  by (cases x) auto

lemma map_sum_Inl_iff: "map_sum id f x = Inl e \<longleftrightarrow> x = Inl e"
  by (cases x) auto

lemma list_update_Cons_numeral [simp]:
  "(x # xs)[numeral n := y] = x # xs[pred_numeral n := y]"
  by (simp add: numeral_eq_Suc)

end
