(* ===== verification/Game.thy ===== *)
theory Game
  imports Prelude
begin

text \<open>
  The game, which is hardware: \<^verbatim>\<open>game_controller.sv\<close> with \<^verbatim>\<open>signal_controller.sv\<close>, \<^verbatim>\<open>user_ship.sv\<close>,
  \<^verbatim>\<open>laser.sv\<close>, \<^verbatim>\<open>eship_row.sv\<close>, \<^verbatim>\<open>enemy-ship.sv\<close>, \<^verbatim>\<open>boss.sv\<close> and the two hit controllers. Each module
  is a record of its registers and a step function: the values the registers take at the next edge
  of the 50 MHz clock, from their present values and the inputs. Wires are functions of the state.
  Coordinates have ten bits and wrap, as in the expressions of the source. What a module draws is in
  \<open>Draw\<close>.

  Some registers have an asynchronous reset. The reset comes from a register of the same clock, so
  at the end of a cycle with reset they hold what the synchronous ones do.
\<close>

type_synonym coord = "10 word"

section \<open>The frame clock\<close>

text \<open>Every moving module has its own copy of this detector, which the reset does not touch.\<close>

record edge_detector =
  frame_clk_delayed :: bool
  frame_clk_rising_edge :: bool

definition detect_edge :: "bool \<Rightarrow> edge_detector \<Rightarrow> edge_detector" where
  "detect_edge frame_clk e =
     \<lparr>frame_clk_delayed = frame_clk, frame_clk_rising_edge = (frame_clk \<and> \<not> frame_clk_delayed e)\<rparr>"

section \<open>The player's ship (user_ship.sv)\<close>

record user_ship =
  us_edge :: edge_detector
  User_Ship_X_Pos :: coord
  User_Ship_Y_Pos :: coord
  User_Ship_X_Motion :: coord
  User_Ship_Y_Motion :: coord

abbreviation (input) User_Ship_X_Step :: coord where "User_Ship_X_Step \<equiv> 2"
abbreviation (input) User_Ship_Size :: coord where "User_Ship_Size \<equiv> 40"

text \<open>The motion that the keys and the edges of the screen ask for.\<close>

definition ship_motion :: "u8 \<Rightarrow> coord \<Rightarrow> coord \<times> coord" where
  "ship_motion keycode x =
     (if x + User_Ship_Size \<ge> 639 then (NOT User_Ship_X_Step + 1, 0)
      else if x \<le> 0 then (User_Ship_X_Step, 0)
      else if keycode = 0x04 then (NOT User_Ship_X_Step + 1, 0)
      else if keycode = 0x07 then (User_Ship_X_Step, 0)
      else (0, 0))"

definition user_ship_step :: "bool \<Rightarrow> bool \<Rightarrow> u8 \<Rightarrow> user_ship \<Rightarrow> user_ship" where
  "user_ship_step Reset frame_clk keycode s =
     (let s' = (if Reset then
                  s\<lparr>User_Ship_X_Pos := 320, User_Ship_Y_Pos := 479 - User_Ship_Size,
                    User_Ship_X_Motion := User_Ship_X_Step, User_Ship_Y_Motion := 0\<rparr>
                else if frame_clk_rising_edge (us_edge s) then
                  (let (xm, ym) = ship_motion keycode (User_Ship_X_Pos s)
                   in s\<lparr>User_Ship_X_Pos := User_Ship_X_Pos s + User_Ship_X_Motion s,
                        User_Ship_Y_Pos := User_Ship_Y_Pos s + User_Ship_Y_Motion s,
                        User_Ship_X_Motion := xm, User_Ship_Y_Motion := ym\<rparr>)
                else s)
      in s'\<lparr>us_edge := detect_edge frame_clk (us_edge s)\<rparr>)"

section \<open>The laser (laser.sv)\<close>

record user_laser =
  l_edge :: edge_detector
  laser_X_Pos :: coord
  laser_Y_Pos :: coord
  laser_Y_Motion :: coord
  space_pressed :: bool

abbreviation (input) laser_Y_Step :: coord where "laser_Y_Step \<equiv> 4"
abbreviation (input) laser_X_Size :: coord where "laser_X_Size \<equiv> 20"
abbreviation (input) laser_Y_Size :: coord where "laser_Y_Size \<equiv> 49"
abbreviation (input) laser_Y_Max :: coord where "laser_Y_Max \<equiv> 479"
abbreviation (input) Space :: u8 where "Space \<equiv> 0x2C"

text \<open>Where the laser waits and where a shot starts.\<close>

definition laser_at_ship :: "coord \<Rightarrow> coord \<Rightarrow> user_laser \<Rightarrow> user_laser" where
  "laser_at_ship ux uy l =
     l\<lparr>laser_X_Pos := ux + 5, laser_Y_Pos := uy + 2, laser_Y_Motion := 0, space_pressed := False\<rparr>"

definition laser_fired :: "bool \<Rightarrow> coord \<Rightarrow> coord \<Rightarrow> user_laser \<Rightarrow> user_laser" where
  "laser_fired pressed ux uy l =
     l\<lparr>laser_X_Pos := ux + 8, laser_Y_Pos := uy + 2, laser_Y_Motion := NOT laser_Y_Step + 1,
       space_pressed := pressed\<rparr>"

text \<open>The update at a frame, before the space key sets \<open>space_pressed\<close>.\<close>

definition laser_frame :: "u8 \<Rightarrow> coord \<Rightarrow> coord \<Rightarrow> user_laser \<Rightarrow> user_laser" where
  "laser_frame keycode ux uy l =
     (if space_pressed l then
        if laser_Y_Pos l \<ge> laser_Y_Max \<and> keycode = Space then laser_fired True ux uy l
        else if laser_Y_Pos l \<ge> laser_Y_Max then l\<lparr>space_pressed := False\<rparr>
        else l\<lparr>laser_Y_Motion := NOT laser_Y_Step + 1, laser_Y_Pos := laser_Y_Pos l + laser_Y_Motion l\<rparr>
      else laser_at_ship ux uy l)"

definition user_laser_step ::
  "bool \<Rightarrow> bool \<Rightarrow> u8 \<Rightarrow> coord \<Rightarrow> coord \<Rightarrow> bool \<Rightarrow> bool \<Rightarrow> bool \<Rightarrow> user_laser \<Rightarrow> user_laser" where
  "user_laser_step Reset frame_clk keycode ux uy play boss_fight laser_hit l =
     (let l' = (if Reset then
                  l\<lparr>laser_X_Pos := 320, laser_Y_Pos := laser_Y_Max, laser_Y_Motion := 0, space_pressed := False\<rparr>
                else if \<not> play \<and> \<not> boss_fight then laser_at_ship ux uy l
                else if laser_hit then laser_fired (keycode = Space) ux uy l
                else if frame_clk_rising_edge (l_edge l) then
                  (let l = laser_frame keycode ux uy l
                   in if keycode = Space then l\<lparr>space_pressed := True\<rparr> else l)
                else l)
      in l'\<lparr>l_edge := detect_edge frame_clk (l_edge l)\<rparr>)"

section \<open>Hit detection (hit_controller.sv, hit_controller_boss.sv)\<close>

definition hit_test :: "coord \<Rightarrow> coord \<Rightarrow> coord \<Rightarrow> coord \<Rightarrow> bool" where
  "hit_test lx ly ex ey \<longleftrightarrow>
     (lx \<ge> ex \<and> lx \<le> ex + 30 \<or> lx + laser_X_Size \<ge> ex \<and> lx + laser_X_Size \<le> ex + 30)
     \<and> (ly \<ge> ey \<and> ly \<le> ey + 30 \<or> ly + laser_Y_Size \<ge> ey \<and> ly + laser_Y_Size \<le> ey + 30)"

text \<open>The latch \<open>enemy_hit\<close>; \<open>finished\<close> is the input \<^verbatim>\<open>done\<close>.\<close>

definition hit_controller :: "bool \<Rightarrow> bool \<Rightarrow> bool \<Rightarrow> bool \<Rightarrow> bool" where
  "hit_controller Reset finished hit enemy_hit =
     (if Reset then False else if finished then False else if \<not> enemy_hit then hit else True)"

definition hit_controller_boss :: "bool \<Rightarrow> bool \<Rightarrow> bool \<Rightarrow> bool \<Rightarrow> bool \<Rightarrow> bool" where
  "hit_controller_boss Reset boss_fight finished hit enemy_hit =
     (if Reset then False
      else if boss_fight then (if finished then False else if \<not> enemy_hit then hit else True)
      else False)"

section \<open>Enemies (enemy-ship.sv, eship_row.sv) and boss (boss.sv)\<close>

record enemy =
  e_edge :: edge_detector
  X_Pos :: coord
  Y_Pos :: coord
  X_Motion :: coord
  Y_Motion :: coord
  enemy_hit :: bool

definition place :: "coord \<Rightarrow> coord \<Rightarrow> coord \<Rightarrow> coord \<Rightarrow> enemy \<Rightarrow> enemy" where
  "place x y xm ym e = e\<lparr>X_Pos := x, Y_Pos := y, X_Motion := xm, Y_Motion := ym\<rparr>"

definition at_bottom :: "enemy \<Rightarrow> bool" where
  "at_bottom e \<longleftrightarrow> Y_Pos e \<ge> 479 - 40 - 30"

definition enemy_motion :: "enemy \<Rightarrow> coord \<times> coord" where
  "enemy_motion e =
     (if X_Pos e + 30 \<ge> 639 then (NOT 1 + 1, 10)
      else if X_Pos e \<le> 0 + 1 then (1, 10)
      else (X_Motion e, 0))"

definition enemy_move :: "coord \<Rightarrow> coord \<Rightarrow> bool \<Rightarrow> enemy \<Rightarrow> enemy" where
  "enemy_move x0 y0 play e =
     (if \<not> play then place x0 y0 1 0 e
      else if at_bottom e then place x0 y0 1 0 e
      else if enemy_hit e then place 639 0 0 0 e
      else if frame_clk_rising_edge (e_edge e) then
        (let (xm, ym) = enemy_motion e in place (X_Pos e + X_Motion e) (Y_Pos e + Y_Motion e) xm ym e)
      else e)"

definition enemy_step ::
  "bool \<Rightarrow> bool \<Rightarrow> coord \<Rightarrow> coord \<Rightarrow> bool \<Rightarrow> bool \<Rightarrow> coord \<Rightarrow> coord \<Rightarrow> enemy \<Rightarrow> enemy" where
  "enemy_step Reset frame_clk x0 y0 play finished lx ly e =
     (if Reset then place x0 y0 1 0 e else enemy_move x0 y0 play e)
       \<lparr>enemy_hit := hit_controller Reset finished (hit_test lx ly (X_Pos e) (Y_Pos e)) (enemy_hit e),
        e_edge := detect_edge frame_clk (e_edge e)\<rparr>"

text \<open>The outputs \<open>gameover\<close>, \<open>enemy_count\<close> and \<open>laser_hit\<close>, of a ship and of a row.\<close>

definition enemy_gameover :: "bool \<Rightarrow> enemy \<Rightarrow> bool" where
  "enemy_gameover play e \<longleftrightarrow> play \<and> at_bottom e"

definition enemy_count :: "enemy \<Rightarrow> 5 word" where
  "enemy_count e = (if enemy_hit e then 1 else 0)"

definition enemy_laser_hit :: "bool \<Rightarrow> coord \<Rightarrow> coord \<Rightarrow> enemy \<Rightarrow> bool" where
  "enemy_laser_hit play lx ly e \<longleftrightarrow> hit_test lx ly (X_Pos e) (Y_Pos e) \<and> play"

definition row_xs :: "coord list" where
  "row_xs = [50, 100, 150, 200, 250, 300]"

definition eship_row_step ::
  "bool \<Rightarrow> bool \<Rightarrow> coord \<Rightarrow> bool \<Rightarrow> bool \<Rightarrow> coord \<Rightarrow> coord \<Rightarrow> enemy list \<Rightarrow> enemy list" where
  "eship_row_step Reset frame_clk y_offset play finished lx ly es =
     map2 (\<lambda>x0 e. enemy_step Reset frame_clk x0 y_offset play finished lx ly e) row_xs es"

definition score_row :: "enemy list \<Rightarrow> 5 word" where
  "score_row es = sum_list (map enemy_count es)"

text \<open>The boss has the registers of an enemy.\<close>

definition boss_motion :: "u8 \<Rightarrow> enemy \<Rightarrow> coord \<times> coord" where
  "boss_motion keycode b =
     (if X_Pos b + 30 \<ge> 639 then (NOT 5 + 1, 10)
      else if X_Pos b \<le> 0 + 1 then (5, 10)
      else if keycode = Space then (NOT (X_Motion b) + 1, 2)
      else (X_Motion b, 0))"

definition boss_move :: "u8 \<Rightarrow> bool \<Rightarrow> enemy \<Rightarrow> enemy" where
  "boss_move keycode boss_fight b =
     (if \<not> boss_fight then place 320 0 5 0 b
      else if at_bottom b then place 320 0 5 0 b
      else if enemy_hit b then place 639 0 0 0 b
      else if frame_clk_rising_edge (e_edge b) then
        (let (xm, ym) = boss_motion keycode b in place (X_Pos b + X_Motion b) (Y_Pos b + Y_Motion b) xm ym b)
      else b)"

definition boss_step :: "bool \<Rightarrow> bool \<Rightarrow> u8 \<Rightarrow> bool \<Rightarrow> bool \<Rightarrow> coord \<Rightarrow> coord \<Rightarrow> enemy \<Rightarrow> enemy" where
  "boss_step Reset frame_clk keycode boss_fight finished lx ly b =
     (if Reset then place 320 0 5 0 b else boss_move keycode boss_fight b)
       \<lparr>enemy_hit := hit_controller_boss Reset boss_fight finished (hit_test lx ly (X_Pos b) (Y_Pos b)) (enemy_hit b),
        e_edge := detect_edge frame_clk (e_edge b)\<rparr>"

section \<open>The screens (signal_controller.sv)\<close>

datatype screen = START | PLAY | BOSS_LOGO | BOSS_FIGHT | GAMEOVER | WIN

abbreviation (input) Enter :: u8 where "Enter \<equiv> 0x28"

fun next_screen :: "u8 \<Rightarrow> bool \<Rightarrow> bool \<Rightarrow> bool \<Rightarrow> screen \<Rightarrow> screen" where
  "next_screen keycode died killed_all1 killed_all2 START = (if keycode = Enter then PLAY else START)"
| "next_screen keycode died killed_all1 killed_all2 PLAY =
     (if died then GAMEOVER else if killed_all1 then BOSS_LOGO else PLAY)"
| "next_screen keycode died killed_all1 killed_all2 BOSS_LOGO =
     (if keycode = Enter then BOSS_FIGHT else BOSS_LOGO)"
| "next_screen keycode died killed_all1 killed_all2 BOSS_FIGHT =
     (if died then GAMEOVER else if killed_all2 then WIN else BOSS_FIGHT)"
| "next_screen keycode died killed_all1 killed_all2 GAMEOVER = (if keycode = Enter then START else GAMEOVER)"
| "next_screen keycode died killed_all1 killed_all2 WIN = (if keycode = Enter then START else WIN)"

definition signal_controller :: "bool \<Rightarrow> u8 \<Rightarrow> bool \<Rightarrow> bool \<Rightarrow> bool \<Rightarrow> screen \<Rightarrow> screen" where
  "signal_controller Reset keycode died killed_all1 killed_all2 s =
     (if Reset then START else next_screen keycode died killed_all1 killed_all2 s)"

section \<open>The game (game_controller.sv)\<close>

record game =
  screen :: screen
  ship :: user_ship
  ulaser :: user_laser
  row1 :: "enemy list"
  row2 :: "enemy list"
  row3 :: "enemy list"
  bboi :: enemy

definition score :: "game \<Rightarrow> 5 word" where
  "score g = score_row (row1 g) + score_row (row2 g) + score_row (row3 g) + enemy_count (bboi g)"

definition died :: "game \<Rightarrow> bool" where
  "died g \<longleftrightarrow> list_ex (enemy_gameover (screen g = PLAY)) (row1 g)
     \<or> list_ex (enemy_gameover (screen g = PLAY)) (row2 g)
     \<or> list_ex (enemy_gameover (screen g = PLAY)) (row3 g)
     \<or> enemy_gameover (screen g = BOSS_FIGHT) (bboi g)"

definition finished :: "game \<Rightarrow> bool" where
  "finished g \<longleftrightarrow> died g \<or> score g = 0x13"

definition laser_hit :: "game \<Rightarrow> bool" where
  "laser_hit g \<longleftrightarrow>
     (let lx = laser_X_Pos (ulaser g); ly = laser_Y_Pos (ulaser g)
      in list_ex (enemy_laser_hit (screen g = PLAY) lx ly) (row1 g)
       \<or> list_ex (enemy_laser_hit (screen g = PLAY) lx ly) (row2 g)
       \<or> list_ex (enemy_laser_hit (screen g = PLAY) lx ly) (row3 g)
       \<or> enemy_laser_hit (screen g = BOSS_FIGHT) lx ly (bboi g))"

definition game_step :: "bool \<Rightarrow> bool \<Rightarrow> u8 \<Rightarrow> game \<Rightarrow> game" where
  "game_step Reset frame_clk keycode g =
     (let play = (screen g = PLAY); boss_fight = (screen g = BOSS_FIGHT);
          lx = laser_X_Pos (ulaser g); ly = laser_Y_Pos (ulaser g)
      in \<lparr>screen = signal_controller Reset keycode (died g) (score g = 0x12) (score g = 0x13) (screen g),
          ship = user_ship_step Reset frame_clk keycode (ship g),
          ulaser = user_laser_step Reset frame_clk keycode (User_Ship_X_Pos (ship g)) (User_Ship_Y_Pos (ship g))
                     play boss_fight (laser_hit g) (ulaser g),
          row1 = eship_row_step Reset frame_clk 0 play (finished g) lx ly (row1 g),
          row2 = eship_row_step Reset frame_clk 80 play (finished g) lx ly (row2 g),
          row3 = eship_row_step Reset frame_clk 160 play (finished g) lx ly (row3 g),
          bboi = boss_step Reset frame_clk keycode boss_fight (finished g) lx ly (bboi g)\<rparr>)"

text \<open>An input of one clock cycle, and the state after a sequence of them.\<close>

type_synonym cycle_input = "bool \<times> bool \<times> u8"

fun game_clock :: "cycle_input \<Rightarrow> game \<Rightarrow> game" where
  "game_clock (Reset, frame_clk, keycode) g = game_step Reset frame_clk keycode g"

text \<open>At power-up the registers hold anything; the game starts with a cycle of reset.\<close>

definition power_up :: "game \<Rightarrow> bool" where
  "power_up g \<longleftrightarrow> length (row1 g) = 6 \<and> length (row2 g) = 6 \<and> length (row3 g) = 6"

definition after_reset :: "bool \<Rightarrow> u8 \<Rightarrow> cycle_input list \<Rightarrow> game \<Rightarrow> game" where
  "after_reset f k es g = fold game_clock es (game_step True f k g)"

end
