(* ===== verification/GameProps.thy ===== *)
theory GameProps
  imports Game
begin

text \<open>
  What the game keeps whatever the player does: where the ships are, what the score counts, when
  the boss may be fought, what the hit detection detects, and how long a shot flies.
\<close>

section \<open>Coordinates as numbers\<close>

lemma unat_coord: "unat (x :: coord) < 1024"
  using unsigned_less [of x, where ?'a = nat] by simp

lemma coord_cases: obtains n where "x = (of_nat n :: coord)" "n < 1024"
  using unat_coord [of x] by (metis of_nat_unat ucast_id)

lemma unat_of_coord: "n < 1024 \<Longrightarrow> unat (of_nat n :: coord) = n"
  by (simp add: unsigned_of_nat take_bit_nat_eq_self)

lemma unat_plus_coord: "unat (x + y :: coord) = (unat x + unat y) mod 1024"
  by (simp add: unat_word_ariths)

lemma unat_minus_1_coord: "unat (- 1 :: coord) = 1023"
  by (simp add: unsigned_minus_1_eq_mask mask_eq_exp_minus_1)

lemmas coord_simps = word_le_nat_alt word_less_nat_alt word_unat_eq_iff unat_plus_coord

lemma mod_back:
  "n < 1024 \<Longrightarrow> (n + 1023) mod 1024 = (if n < 1 then n + 1023 else n - (1 :: nat))"
  "n < 1024 \<Longrightarrow> (n + 1022) mod 1024 = (if n < 2 then n + 1022 else n - (2 :: nat))"
  "n < 1024 \<Longrightarrow> (n + 1019) mod 1024 = (if n < 5 then n + 1019 else n - (5 :: nat))"
  by (auto simp: le_mod_geq)

section \<open>The player's ship\<close>

text \<open>
  The ship moves on even columns. At the left edge it is put two pixels outside for one frame,
  which is column 1022, since its position is updated with the old motion.
\<close>

definition ship_ok :: "user_ship \<Rightarrow> bool" where
  "ship_ok s \<longleftrightarrow>
     User_Ship_Y_Pos s = 439 \<and> User_Ship_Y_Motion s = 0 \<and> User_Ship_X_Motion s \<in> {0, 2, - 2}
     \<and> even (unat (User_Ship_X_Pos s))
     \<and> (unat (User_Ship_X_Pos s) \<le> 600
        \<or> User_Ship_X_Pos s = 602 \<and> User_Ship_X_Motion s = - 2
        \<or> User_Ship_X_Pos s = 1022 \<and> User_Ship_X_Motion s = 2)"

lemma ship_reset: "ship_ok (user_ship_step True f k s)"
  by (simp add: ship_ok_def user_ship_step_def)

lemma ship_moves:
  assumes "x = of_nat n" "n < 1024" "even n" "xm \<in> {0, 2, - 2 :: coord}"
    and n: "n \<le> 600 \<or> n = 602 \<and> xm = - 2 \<or> n = 1022 \<and> xm = 2" and m: "ship_motion k x = (xm', ym')"
  shows "ym' = 0 \<and> xm' \<in> {0, 2, - 2} \<and> even (unat (x + xm))
     \<and> (unat (x + xm) \<le> 600 \<or> x + xm = 602 \<and> xm' = - 2 \<or> x + xm = 1022 \<and> xm' = 2)"
proof -
  define N where "N = unat (x + xm)"
  have u: "unat x = n" using assms(1,2) by (simp add: unat_of_coord)
  have m': "ym' = 0" "xm' \<in> {0, 2, - 2}" using m by (auto simp: ship_motion_def split: if_splits)
  have N: "N = (n + unat xm) mod 1024" by (simp add: unat_plus_coord u N_def)
  have e: "n = 600 \<Longrightarrow> xm' = - 2" "n = 0 \<Longrightarrow> xm' = 2"
    using m by (simp_all add: ship_motion_def coord_simps u split: if_splits)
  have pos: "n = 0 \<or> 2 \<le> n" "n \<le> 598 \<or> n = 600 \<or> 600 < n" using assms(3) by presburger+
  consider "xm = 0" "n \<le> 600" | "xm = 2" "n \<le> 598" | "xm = 2" "n = 600" | "xm = 2" "n = 1022"
    | "xm = - 2" "n = 0" | "xm = - 2" "2 \<le> n" "n \<le> 602"
    using assms(4) n pos by auto
  then have "even N \<and> (N \<le> 600 \<or> N = 602 \<and> xm' = - 2 \<or> N = 1022 \<and> xm' = 2)"
  proof cases
    case 6
    then have "N = n - 2" "n - 2 \<le> 600" using N by (simp_all add: mod_back)
    then show ?thesis using assms(3) by simp
  qed (use N e assms(3) in simp_all)
  moreover have "x + xm = c \<longleftrightarrow> N = unat c" for c by (simp add: N_def word_unat_eq_iff)
  ultimately show ?thesis using m' by (simp add: N_def)
qed

lemma ship_step: "ship_ok s \<Longrightarrow> ship_ok (user_ship_step r f k s)"
proof (cases r)
  case False
  assume s: "ship_ok s"
  show ?thesis
  proof (cases "frame_clk_rising_edge (us_edge s)")
    case True
    obtain xm ym where m: "ship_motion k (User_Ship_X_Pos s) = (xm, ym)" by fastforce
    obtain n where n: "User_Ship_X_Pos s = of_nat n" "n < 1024" by (rule coord_cases)
    have u: "unat (User_Ship_X_Pos s) = n" using n by (simp add: unat_of_coord)
    have "even n" "User_Ship_X_Motion s \<in> {0, 2, - 2}"
      "n \<le> 600 \<or> n = 602 \<and> User_Ship_X_Motion s = - 2 \<or> n = 1022 \<and> User_Ship_X_Motion s = 2"
      using s u by (auto simp: ship_ok_def)
    from ship_moves [OF n this m] s show ?thesis using False True m
      by (simp add: user_ship_step_def ship_ok_def)
  qed (use s False in \<open>simp add: user_ship_step_def ship_ok_def\<close>)
qed (simp add: ship_reset)

section \<open>The enemies\<close>

definition on_track :: "enemy \<Rightarrow> bool" where
  "on_track e \<longleftrightarrow>
     X_Motion e \<in> {1, - 1} \<and> Y_Motion e \<in> {0, 10} \<and> unat (X_Pos e) \<le> 610 \<and> unat (Y_Pos e) \<le> 418
     \<and> (unat (X_Pos e) = 0 \<longrightarrow> X_Motion e = 1) \<and> (unat (X_Pos e) = 610 \<longrightarrow> X_Motion e = - 1)"

lemma place_fields [simp]:
  "X_Pos (place x y xm ym e) = x" "Y_Pos (place x y xm ym e) = y" "X_Motion (place x y xm ym e) = xm"
  "Y_Motion (place x y xm ym e) = ym" "enemy_hit (place x y xm ym e) = enemy_hit e"
  "e_edge (place x y xm ym e) = e_edge e"
  by (simp_all add: place_def)

lemma enemy_on_track:
  assumes "on_track e" "\<not> at_bottom e" "enemy_motion e = (xm, ym)"
  shows "on_track (place (X_Pos e + X_Motion e) (Y_Pos e + Y_Motion e) xm ym e')"
proof -
  define n where "n = unat (X_Pos e)"
  define m where "m = unat (Y_Pos e)"
  have "m < 409" using assms(2) by (simp add: at_bottom_def coord_simps m_def)
  moreover have "unat (Y_Pos e + Y_Motion e) = (m + unat (Y_Motion e)) mod 1024"
    by (simp add: unat_plus_coord m_def)
  ultimately have y: "unat (Y_Pos e + Y_Motion e) \<le> 418" using assms(1) by (auto simp: on_track_def)
  have x: "unat (X_Pos e + X_Motion e) = (n + unat (X_Motion e)) mod 1024"
    by (simp add: unat_plus_coord n_def)
  have n: "n \<le> 610" "n = 0 \<longrightarrow> X_Motion e = 1" "n = 610 \<longrightarrow> X_Motion e = - 1" "X_Motion e \<in> {1, - 1}"
    using assms(1) by (auto simp: on_track_def n_def)
  have "(n = 609 \<or> n = 610 \<longrightarrow> xm = - 1 \<and> ym = 10) \<and> (n \<le> 1 \<longrightarrow> xm = 1 \<and> ym = 10)
      \<and> (2 \<le> n \<and> n \<le> 608 \<longrightarrow> xm = X_Motion e \<and> ym = 0)"
    using assms(3) n(1) by (auto simp: enemy_motion_def coord_simps n_def [symmetric] split: if_splits)
  moreover have pos: "n = 0 \<or> 1 \<le> n" "n \<le> 609 \<or> n = 610 \<or> 610 < n" by presburger+
  moreover consider "X_Motion e = 1" "n \<le> 609" | "X_Motion e = - 1" "1 \<le> n" "n \<le> 610"
    using n pos by auto
  then have "unat (X_Pos e + X_Motion e) = (if X_Motion e = 1 then n + 1 else n - 1)"
    by cases (use x in \<open>simp_all add: mod_back unat_minus_1_coord\<close>)
  ultimately show ?thesis using n y unfolding on_track_def place_fields by (cases "n \<le> 1"; cases "n \<le> 608") auto
qed

lemma origin_on_track: "x \<in> set row_xs \<Longrightarrow> y \<in> {0, 80, 160} \<Longrightarrow> on_track (place x y 1 0 e)"
  by (auto simp: on_track_def row_xs_def)

text \<open>The boss moves in steps of five and is put outside at the left edge in the same way.\<close>

definition boss_ok :: "enemy \<Rightarrow> bool" where
  "boss_ok b \<longleftrightarrow>
     X_Motion b \<in> {5, - 5} \<and> Y_Motion b \<in> {0, 2, 10} \<and> unat (Y_Pos b) \<le> 418
     \<and> (5 dvd unat (X_Pos b) \<and> unat (X_Pos b) \<le> 610
        \<or> X_Pos b = 615 \<and> X_Motion b = - 5 \<or> X_Pos b = 1019 \<and> X_Motion b = 5)"

lemma boss_moves:
  assumes "boss_ok b" "\<not> at_bottom b" "boss_motion k b = (xm, ym)"
  shows "boss_ok (place (X_Pos b + X_Motion b) (Y_Pos b + Y_Motion b) xm ym b')"
proof -
  define n where "n = unat (X_Pos b)"
  define m where "m = unat (Y_Pos b)"
  have "m < 409" using assms(2) by (simp add: at_bottom_def coord_simps m_def)
  moreover have "unat (Y_Pos b + Y_Motion b) = (m + unat (Y_Motion b)) mod 1024"
    by (simp add: unat_plus_coord m_def)
  ultimately have y: "unat (Y_Pos b + Y_Motion b) \<le> 418" using assms(1) by (auto simp: boss_ok_def)
  have x: "unat (X_Pos b + X_Motion b) = (n + unat (X_Motion b)) mod 1024"
    by (simp add: unat_plus_coord n_def)
  have n: "5 dvd n \<and> n \<le> 610 \<or> n = 615 \<and> X_Motion b = - 5 \<or> n = 1019 \<and> X_Motion b = 5"
    "X_Motion b \<in> {5, - 5}"
    using assms(1) by (auto simp: boss_ok_def n_def)
  have xm: "xm \<in> {5, - 5}" "ym \<in> {0, 2, 10}"
    using assms(3) n(2) by (auto simp: boss_motion_def split: if_splits)
  have e: "n = 610 \<or> n = 615 \<Longrightarrow> xm = - 5" "n = 0 \<Longrightarrow> xm = 5"
    using assms(3) by (auto simp: boss_motion_def coord_simps n_def [symmetric] split: if_splits)
  define N where "N = unat (X_Pos b + X_Motion b)"
  have pos: "n = 0 \<or> 5 \<le> n \<or> \<not> 5 dvd n" "n < 610 \<or> n = 610 \<or> 610 < n" using dvd_imp_le [of 5 n] by auto
  consider "X_Motion b = 5" "5 dvd n" "n < 610" | "X_Motion b = 5" "n = 610" | "X_Motion b = 5" "n = 1019"
    | "X_Motion b = - 5" "n = 0" | "X_Motion b = - 5" "5 dvd n" "5 \<le> n" "n \<le> 615"
    using n pos by auto
  then have N: "5 dvd N \<and> N \<le> 610 \<or> N = 615 \<and> xm = - 5 \<or> N = 1019 \<and> xm = 5"
  proof cases
    case 1
    then obtain j where j: "n = 5 * j" by (elim dvdE)
    with 1 have "N = 5 * Suc j" "j < 122" using x by (simp_all add: N_def)
    then show ?thesis by auto
  next
    case 5
    then obtain j where j: "n = 5 * j" by (elim dvdE)
    with 5 have "N = 5 * (j - 1)" "1 \<le> j" "j \<le> 123" using x by (simp_all add: N_def mod_back)
    then show ?thesis by auto
  qed (use x e in \<open>simp_all add: N_def\<close>)
  have "X_Pos b + X_Motion b = c \<longleftrightarrow> N = unat c" for c by (simp add: N_def word_unat_eq_iff)
  then show ?thesis using N xm y unfolding boss_ok_def place_fields N_def [symmetric] by simp
qed

section \<open>Hits and score\<close>

definition enemies :: "game \<Rightarrow> enemy list" where
  "enemies g = row1 g @ row2 g @ row3 g"

definition hits :: "enemy list \<Rightarrow> nat" where
  "hits es = length (filter enemy_hit es)"

lemma score_row_hits: "score_row es = of_nat (hits es)"
  by (induction es) (auto simp: score_row_def enemy_count_def hits_def)

lemma score_hits: "score g = of_nat (hits (enemies g) + (if enemy_hit (bboi g) then 1 else 0))"
  by (simp add: score_def score_row_hits enemies_def hits_def enemy_count_def)

lemma hits_all: "hits es = length es \<longleftrightarrow> (\<forall>e\<in>set es. enemy_hit e)"
  using length_filter_less [of _ es enemy_hit] by (auto simp: hits_def) blast

lemma score_number:
  assumes "length (enemies g) = 18" "n < 32"
  shows "score g = of_nat n \<longleftrightarrow> hits (enemies g) + (if enemy_hit (bboi g) then 1 else 0) = n"
proof -
  define h where "h = hits (enemies g) + (if enemy_hit (bboi g) then 1 else 0)"
  have "hits (enemies g) \<le> 18" using assms(1) length_filter_le [of enemy_hit "enemies g"] by (simp add: hits_def)
  then have "h < 32" by (simp add: h_def)
  then have "of_nat h = (of_nat n :: 5 word) \<longleftrightarrow> h = n"
    using assms(2) by (simp add: word_unat_eq_iff unsigned_of_nat take_bit_nat_eq_self)
  then show ?thesis by (simp add: score_hits h_def del: of_nat_add)
qed

lemma step_fields [simp]:
  "screen (game_step r f k g) =
     signal_controller r k (died g) (score g = 0x12) (score g = 0x13) (screen g)"
  "ship (game_step r f k g) = user_ship_step r f k (ship g)"
  "bboi (game_step r f k g) =
     boss_step r f k (screen g = BOSS_FIGHT) (finished g) (laser_X_Pos (ulaser g)) (laser_Y_Pos (ulaser g)) (bboi g)"
  by (simp_all add: game_step_def Let_def)

abbreviation origins :: "(coord \<times> coord) list" where
  "origins \<equiv> map (\<lambda>x. (x, 0)) row_xs @ map (\<lambda>x. (x, 80)) row_xs @ map (\<lambda>x. (x, 160)) row_xs"

definition rows_ok :: "game \<Rightarrow> bool" where
  "rows_ok g \<longleftrightarrow> length (row1 g) = 6 \<and> length (row2 g) = 6 \<and> length (row3 g) = 6"

lemma rows_ok_step: "rows_ok g \<Longrightarrow> rows_ok (game_step r f k g)"
  by (simp add: rows_ok_def game_step_def Let_def eship_row_step_def row_xs_def)

lemma rows_18: "rows_ok g \<Longrightarrow> length (enemies g) = 18"
  by (simp add: rows_ok_def enemies_def)

text \<open>Each enemy takes its own step, from its own origin.\<close>

lemma map2_const: "map2 (\<lambda>(x, y) e. F x y e) (map (\<lambda>x. (x, c)) xs) es = map2 (\<lambda>x e. F x c e) xs es"
  by (induction xs es rule: list_induct2') auto

lemma enemies_step:
  assumes "rows_ok g"
  shows "enemies (game_step r f k g) =
     map2 (\<lambda>(x, y) e. enemy_step r f x y (screen g = PLAY) (finished g) (laser_X_Pos (ulaser g)) (laser_Y_Pos (ulaser g)) e)
       origins (enemies g)"
proof -
  have l: "length row_xs = 6" by (simp add: row_xs_def)
  show ?thesis
    using assms l
    by (simp add: enemies_def game_step_def Let_def eship_row_step_def map2_const rows_ok_def)
qed

lemma enemy_after_step:
  assumes "rows_ok g" "e' \<in> set (enemies (game_step r f k g))"
  obtains x y e where "x \<in> set row_xs" "y \<in> {0, 80, 160}" "e \<in> set (enemies g)"
    "e' = enemy_step r f x y (screen g = PLAY) (finished g) (laser_X_Pos (ulaser g)) (laser_Y_Pos (ulaser g)) e"
proof -
  obtain x y e where "((x, y), e) \<in> set (zip origins (enemies g))"
    "e' = enemy_step r f x y (screen g = PLAY) (finished g) (laser_X_Pos (ulaser g)) (laser_Y_Pos (ulaser g)) e"
    using assms(2) unfolding enemies_step [OF assms(1)] by auto
  moreover from this(1) have "(x, y) \<in> set origins" "e \<in> set (enemies g)"
    by (auto dest: set_zip_leftD set_zip_rightD simp del: set_map)
  ultimately show thesis using that by auto
qed

lemma step_hit [simp]:
  "enemy_hit (enemy_step r f x y p d lx ly e) = hit_controller r d (hit_test lx ly (X_Pos e) (Y_Pos e)) (enemy_hit e)"
  by (simp add: enemy_step_def)

lemma on_track_update [simp]:
  "on_track (e\<lparr>enemy_hit := h, e_edge := d\<rparr>) = on_track e" "on_track (e\<lparr>e_edge := d\<rparr>) = on_track e"
  "on_track (e\<lparr>enemy_hit := h\<rparr>) = on_track e"
  by (simp_all add: on_track_def)

section \<open>The invariant\<close>

text \<open>
  Where the ships are, and that the boss is met only with all enemies hit. The latches are not
  claimed to be clear when a game starts; see below.
\<close>

definition game_inv :: "game \<Rightarrow> bool" where
  "game_inv g \<longleftrightarrow> rows_ok g \<and> ship_ok (ship g)
     \<and> (screen g = START \<longrightarrow> (\<forall>e\<in>set (enemies g). on_track e))
     \<and> (screen g = PLAY \<longrightarrow> (\<forall>e\<in>set (enemies g). on_track e \<or> enemy_hit e))
     \<and> (screen g \<in> {BOSS_LOGO, BOSS_FIGHT} \<longrightarrow> (\<forall>e\<in>set (enemies g). enemy_hit e) \<and> boss_ok (bboi g))
     \<and> (screen g \<noteq> BOSS_FIGHT \<longrightarrow> \<not> enemy_hit (bboi g))"

lemma not_played_on_track:
  "x \<in> set row_xs \<Longrightarrow> y \<in> {0, 80, 160} \<Longrightarrow> r \<or> \<not> p \<Longrightarrow> on_track (enemy_step r f x y p d lx ly e)"
  using origin_on_track by (auto simp: enemy_step_def enemy_move_def)

lemma played_on_track:
  assumes "on_track e \<or> enemy_hit e" "\<not> at_bottom e"
  shows "on_track (enemy_step False f x y True False lx ly e) \<or> enemy_hit (enemy_step False f x y True False lx ly e)"
proof (cases "enemy_hit e")
  case True
  then show ?thesis by (simp add: hit_controller_def)
next
  case False
  obtain xm ym where m: "enemy_motion e = (xm, ym)" by fastforce
  have "on_track e" using assms(1) False by simp
  from this enemy_on_track [OF this assms(2) m] show ?thesis
    using False assms(2) m by (simp add: enemy_step_def enemy_move_def)
qed

lemma boss_away: "r \<or> \<not> b \<Longrightarrow> boss_ok (boss_step r f k b d lx ly e) \<and> \<not> enemy_hit (boss_step r f k b d lx ly e)"
  by (auto simp: boss_step_def boss_move_def boss_ok_def hit_controller_boss_def)

lemma boss_fought:
  assumes "boss_ok b" "\<not> at_bottom b" "\<not> enemy_hit b"
  shows "boss_ok (boss_step False f k True d lx ly b)"
proof -
  obtain xm ym where m: "boss_motion k b = (xm, ym)" by fastforce
  from boss_moves [OF assms(1,2) m, of b] show ?thesis
    using assms m by (auto simp: boss_step_def boss_move_def boss_ok_def)
qed

lemma died_iff:
  "died g \<longleftrightarrow> screen g = PLAY \<and> (\<exists>e\<in>set (enemies g). at_bottom e) \<or> screen g = BOSS_FIGHT \<and> at_bottom (bboi g)"
  by (auto simp: died_def enemies_def enemy_gameover_def list_ex_iff)

lemma score_all:
  assumes "rows_ok g" "\<not> enemy_hit (bboi g)"
  shows "score g = 0x12 \<longleftrightarrow> (\<forall>e\<in>set (enemies g). enemy_hit e)" "score g \<noteq> 0x13"
proof -
  note l = rows_18 [OF assms(1)]
  have "hits (enemies g) \<le> 18" using l length_filter_le [of enemy_hit "enemies g"] by (simp add: hits_def)
  then show "score g = 0x12 \<longleftrightarrow> (\<forall>e\<in>set (enemies g). enemy_hit e)" "score g \<noteq> 0x13"
    using score_number [OF l, of 18] score_number [OF l, of 19] assms(2) hits_all [of "enemies g"] l by auto
qed

lemma score_boss:
  assumes "rows_ok g" "\<forall>e\<in>set (enemies g). enemy_hit e"
  shows "score g = 0x13 \<longleftrightarrow> enemy_hit (bboi g)"
  using score_number [OF rows_18 [OF assms(1)], of 19] hits_all [of "enemies g"] assms rows_18 [OF assms(1)] by auto

lemma hits_kept:
  assumes "rows_ok g" "\<forall>e\<in>set (enemies g). enemy_hit e" "\<not> finished g"
  shows "\<forall>e\<in>set (enemies (game_step False f k g)). enemy_hit e"
proof
  fix e' assume "e' \<in> set (enemies (game_step False f k g))"
  from enemy_after_step [OF assms(1) this] show "enemy_hit e'"
    using assms(2,3) by (metis (full_types) step_hit hit_controller_def)
qed

lemma not_played_step:
  assumes "rows_ok g" "r \<or> screen g \<noteq> PLAY"
  shows "\<forall>e\<in>set (enemies (game_step r f k g)). on_track e"
proof
  fix e' assume "e' \<in> set (enemies (game_step r f k g))"
  from enemy_after_step [OF assms(1) this] show "on_track e'"
    using not_played_on_track assms(2) by metis
qed

lemma game_inv_reset: "rows_ok g \<Longrightarrow> game_inv (game_step True f k g)"
  using not_played_step [of g True f k] boss_away [of True]
  by (simp add: game_inv_def rows_ok_step ship_reset signal_controller_def)

lemma game_inv_step: "game_inv g \<Longrightarrow> game_inv (game_step r f k g)"
proof (cases r)
  case True
  assume "game_inv g"
  then have "rows_ok g" by (simp add: game_inv_def)
  from game_inv_reset [OF this] show ?thesis using True by simp
next
  case r: False
  assume inv: "game_inv g"
  then have ok: "rows_ok g" "ship_ok (ship g)" by (simp_all add: game_inv_def)
  note away = not_played_step [OF ok(1), of False f k]
  note base = rows_ok_step [OF ok(1), of False f k] ship_step [OF ok(2), of False f k]
  show ?thesis
  proof (cases "screen g")
    case PLAY
    then have b: "\<not> enemy_hit (bboi g)" using inv by (simp add: game_inv_def)
    note sc = score_all [OF ok(1) b]
    have fin: "finished g \<longleftrightarrow> died g" using sc(2) by (simp add: finished_def)
    have tr: "\<forall>e\<in>set (enemies (game_step False f k g)). on_track e \<or> enemy_hit e" if "\<not> died g"
    proof
      fix e' assume "e' \<in> set (enemies (game_step False f k g))"
      from enemy_after_step [OF ok(1) this] obtain x y e where e: "e \<in> set (enemies g)"
        "e' = enemy_step False f x y (screen g = PLAY) (finished g) (laser_X_Pos (ulaser g)) (laser_Y_Pos (ulaser g)) e"
        by blast
      moreover have "on_track e \<or> enemy_hit e" using inv PLAY e(1) by (simp add: game_inv_def)
      moreover have "\<not> at_bottom e" using that e(1) PLAY by (auto simp: died_iff)
      ultimately show "on_track e' \<or> enemy_hit e'" using played_on_track that fin PLAY by simp
    qed
    have all: "\<forall>e\<in>set (enemies (game_step False f k g)). enemy_hit e" if "\<not> died g" "score g = 0x12"
      using hits_kept [OF ok(1)] that sc(1) fin by blast
    show ?thesis
      using r PLAY base tr all boss_away [of False False]
      by (auto simp: game_inv_def signal_controller_def)
  next
    case BOSS_FIGHT
    then have e: "\<forall>e\<in>set (enemies g). enemy_hit e" and b: "boss_ok (bboi g)" using inv by (simp_all add: game_inv_def)
    note sc = score_boss [OF ok(1) e]
    show ?thesis
    proof (cases "died g \<or> score g = 0x13")
      case True
      then have "\<not> enemy_hit (bboi (game_step False f k g))"
        by (simp add: boss_step_def hit_controller_boss_def finished_def)
      then show ?thesis using True r BOSS_FIGHT base by (auto simp: game_inv_def signal_controller_def)
    next
      case False
      then have "\<not> finished g" "\<not> at_bottom (bboi g)" using BOSS_FIGHT by (auto simp: finished_def died_iff)
      then show ?thesis
        using False r BOSS_FIGHT base hits_kept [OF ok(1) e] boss_fought [OF b] sc
        by (simp add: game_inv_def signal_controller_def)
    qed
  next
    case BOSS_LOGO
    then have e: "\<forall>e\<in>set (enemies g). enemy_hit e" and b: "\<not> enemy_hit (bboi g)"
      using inv by (simp_all add: game_inv_def)
    have "\<not> finished g" using BOSS_LOGO score_all(2) [OF ok(1) b] by (simp add: finished_def died_iff)
    then show ?thesis
      using r BOSS_LOGO base hits_kept [OF ok(1) e] boss_away [of False False] b
      by (simp add: game_inv_def signal_controller_def)
  qed (use r base away boss_away [of False False] in \<open>auto simp: game_inv_def signal_controller_def\<close>)
qed

interpretation galaga: event_machine game_clock game_inv
  by unfold_locales (auto simp: game_inv_step split: prod.splits)

lemma game_inv_run: "power_up g \<Longrightarrow> game_inv (after_reset f k es g)"
  unfolding after_reset_def
  by (intro galaga.inv_events game_inv_reset) (simp add: power_up_def rows_ok_def)

section \<open>A shot\<close>

text \<open>
  The cycles of a shot: frame clock, key, position of the ship, in play or in the fight and without
  a hit. The number of frames among them is the number of cycles that start with the rising edge
  detected.
\<close>

type_synonym cycle = "bool \<times> u8 \<times> coord \<times> coord \<times> bool"

fun shot_cycle :: "cycle \<Rightarrow> user_laser \<Rightarrow> user_laser" where
  "shot_cycle (frame_clk, keycode, ux, uy, fight) l =
     user_laser_step False frame_clk keycode ux uy (\<not> fight) fight False l"

fun frames :: "cycle list \<Rightarrow> user_laser \<Rightarrow> nat" where
  "frames [] l = 0"
| "frames (c # cs) l =
     (if frame_clk_rising_edge (l_edge l) then 1 else 0) + frames cs (shot_cycle c l)"

text \<open>A laser that is \<open>y\<close> rows from the upper edge, \<open>n\<close> frames later.\<close>

definition in_flight :: "coord \<Rightarrow> nat \<Rightarrow> nat \<Rightarrow> user_laser \<Rightarrow> bool" where
  "in_flight x y n l \<longleftrightarrow>
     space_pressed l \<and> laser_X_Pos l = x \<and> laser_Y_Motion l = - 4 \<and> laser_Y_Pos l = of_nat y - 4 * of_nat n"

lemma unat_flight:
  "y < 479 \<Longrightarrow> n \<le> y div 4 + 1 \<Longrightarrow>
   unat (of_nat y - 4 * of_nat n :: coord) = (if n \<le> y div 4 then y - 4 * n else 1020 + y mod 4)"
proof -
  assume y: "y < 479" and n: "n \<le> y div 4 + 1"
  have yy: "y = 4 * (y div 4) + y mod 4" by simp
  show ?thesis
  proof (cases "n \<le> y div 4")
    case True
    then have "4 * n \<le> y" by linarith
    then have "(of_nat y - 4 * of_nat n :: coord) = of_nat (y - 4 * n)" by simp
    moreover have "y - 4 * n < 1024" using y by simp
    ultimately show ?thesis using True by (simp only: unat_of_coord if_True)
  next
    case False
    then have nn: "n = y div 4 + 1" using n by simp
    have "of_nat y = (4 * of_nat (y div 4) + of_nat (y mod 4) :: coord)"
      using arg_cong [OF yy, of "of_nat :: nat \<Rightarrow> coord"] by (simp only: of_nat_add of_nat_mult of_nat_numeral)
    then have "(of_nat y - 4 * of_nat n :: coord) = of_nat (y mod 4) - 4" by (simp add: nn algebra_simps)
    also have "\<dots> = of_nat (1020 + y mod 4)" by simp
    finally have "(of_nat y - 4 * of_nat n :: coord) = of_nat (1020 + y mod 4)" .
    moreover have "1020 + y mod 4 < 1024" by simp
    ultimately show ?thesis using False by (simp only: unat_of_coord if_False)
  qed
qed

lemma flight_cycle:
  assumes "in_flight x y n l" "y < 479" "n \<le> y div 4 + 1" "fst (snd c) \<noteq> Space"
  shows "if \<not> frame_clk_rising_edge (l_edge l) then in_flight x y n (shot_cycle c l)
     else if n \<le> y div 4 then in_flight x y (n + 1) (shot_cycle c l)
     else \<not> space_pressed (shot_cycle c l)"
proof -
  obtain f k ux uy b where c: "c = (f, k, ux, uy, b)" by (cases c) auto
  have "laser_Y_Pos l \<ge> 479 \<longleftrightarrow> \<not> n \<le> y div 4"
    using unat_flight [OF assms(2,3)] assms(1,2) by (auto simp: in_flight_def word_le_nat_alt)
  then show ?thesis
    using assms(1,4) by (auto simp: c user_laser_step_def laser_frame_def in_flight_def algebra_simps)
qed

lemma shot_flies:
  assumes "y < 479"
  shows "in_flight x y n l \<Longrightarrow> n \<le> y div 4 + 1 \<Longrightarrow> \<forall>c\<in>set cs. fst (snd c) \<noteq> Space \<Longrightarrow>
     n + frames cs l \<le> y div 4 + 1 \<Longrightarrow> in_flight x y (n + frames cs l) (fold shot_cycle cs l)"
proof (induction cs arbitrary: l n)
  case (Cons c cs)
  show ?case
  proof (cases "frame_clk_rising_edge (l_edge l)")
    case True
    then have "n \<le> y div 4" using Cons.prems(4) by simp
    then have "in_flight x y (n + 1) (shot_cycle c l)"
      using flight_cycle [OF Cons.prems(1) assms Cons.prems(2), of c] True Cons.prems(3) by simp
    from Cons.IH [OF this] show ?thesis using Cons.prems True by simp
  next
    case False
    then have "in_flight x y n (shot_cycle c l)"
      using flight_cycle [OF Cons.prems(1) assms Cons.prems(2), of c] Cons.prems(3) by simp
    from Cons.IH [OF this] show ?thesis using Cons.prems False by simp
  qed
qed simp

end
