(* ===== verification/GameClaims.thy ===== *)
theory GameClaims
  imports GameProps
begin

text \<open>
  The properties of the game, for every sequence of clock cycles after a reset, and the concrete
  games that show their hypotheses can hold.
\<close>

section \<open>A game\<close>

abbreviation (input) no_edge :: edge_detector where
  "no_edge \<equiv> \<lparr>frame_clk_delayed = False, frame_clk_rising_edge = False\<rparr>"

definition enemy_at :: "coord \<Rightarrow> coord \<Rightarrow> enemy" where
  "enemy_at x y = \<lparr>e_edge = no_edge, X_Pos = x, Y_Pos = y, X_Motion = 1, Y_Motion = 0, enemy_hit = False\<rparr>"

definition demo_game :: game where
  "demo_game =
     \<lparr>screen = START,
      ship = \<lparr>us_edge = no_edge, User_Ship_X_Pos = 320, User_Ship_Y_Pos = 439, User_Ship_X_Motion = 2,
              User_Ship_Y_Motion = 0\<rparr>,
      ulaser = \<lparr>l_edge = no_edge, laser_X_Pos = 320, laser_Y_Pos = 479, laser_Y_Motion = 0, space_pressed = False\<rparr>,
      row1 = map (\<lambda>x. enemy_at x 0) row_xs, row2 = map (\<lambda>x. enemy_at x 80) row_xs,
      row3 = map (\<lambda>x. enemy_at x 160) row_xs, bboi = enemy_at 320 0\<rparr>"

lemma demo_power_up: "power_up demo_game"
  by (simp add: power_up_def demo_game_def row_xs_def)

section \<open>Positions\<close>

text \<open>
  Claim C10. Whatever keys are pressed, in every cycle after a reset the player's ship is on its row
  and inside the screen or in column 1022, where it is for one frame at the left edge; in play every
  enemy that has not been hit is inside the screen and above the player's row; and in the boss fight
  so is the boss, or it is in column 1019, outside the left edge.
\<close>

theorem ships_stay_on_screen:
  assumes "power_up g" and "z = after_reset f k es g"
  shows "User_Ship_Y_Pos (ship z) = 439
     \<and> (unat (User_Ship_X_Pos (ship z)) \<le> 602 \<or> User_Ship_X_Pos (ship z) = 1022)
     \<and> (screen z = PLAY \<longrightarrow> (\<forall>e\<in>set (enemies z). \<not> enemy_hit e \<longrightarrow> unat (X_Pos e) \<le> 610 \<and> unat (Y_Pos e) \<le> 418))
     \<and> (screen z = BOSS_FIGHT \<longrightarrow>
          unat (Y_Pos (bboi z)) \<le> 418 \<and> (unat (X_Pos (bboi z)) \<le> 615 \<or> X_Pos (bboi z) = 1019))"
proof -
  have inv: "game_inv z" using game_inv_run [OF assms(1)] assms(2) by simp
  have six: "unat x \<le> 602" if "x = 602" for x :: coord using that by simp
  have "ship_ok (ship z)" using inv by (simp add: game_inv_def)
  then have "User_Ship_Y_Pos (ship z) = 439 \<and> (unat (User_Ship_X_Pos (ship z)) \<le> 602 \<or> User_Ship_X_Pos (ship z) = 1022)"
    unfolding ship_ok_def using six by force
  moreover have "unat (X_Pos e) \<le> 610 \<and> unat (Y_Pos e) \<le> 418"
    if "screen z = PLAY" "e \<in> set (enemies z)" "\<not> enemy_hit e" for e
  proof -
    have "on_track e" using inv that by (auto simp: game_inv_def)
    then show ?thesis by (simp add: on_track_def)
  qed
  moreover have "unat (Y_Pos (bboi z)) \<le> 418 \<and> (unat (X_Pos (bboi z)) \<le> 615 \<or> X_Pos (bboi z) = 1019)"
    if "screen z = BOSS_FIGHT"
  proof -
    have "boss_ok (bboi z)" using inv that by (simp add: game_inv_def)
    then show ?thesis unfolding boss_ok_def by (elim conjE disjE) simp_all
  qed
  ultimately show ?thesis by blast
qed

theorem ships_stay_on_screen_witness:
  "let z = after_reset False 0 [(False, True, 0x28)] demo_game
   in screen z = PLAY \<and> User_Ship_Y_Pos (ship z) = 439
      \<and> (\<forall>e\<in>set (enemies z). \<not> enemy_hit e \<longrightarrow> unat (Y_Pos e) \<le> 418)"
proof -
  define z where "z = after_reset False 0 [(False, True, 0x28)] demo_game"
  have "screen z = PLAY" by (simp add: z_def after_reset_def signal_controller_def)
  then show ?thesis
    unfolding Let_def z_def [symmetric] using ships_stay_on_screen [OF demo_power_up z_def] by blast
qed

text \<open>
  The frame outside the screen does occur: at column 0, still moving left, the ship is moved before
  its motion is turned. With the key held it goes back and forth between the two columns.
\<close>

lemma ship_leaves_left:
  assumes "User_Ship_X_Pos s = 0" "User_Ship_X_Motion s = - 2" "frame_clk_rising_edge (us_edge s)"
  shows "User_Ship_X_Pos (user_ship_step False f k s) = 1022"
  using assms by (simp add: user_ship_step_def ship_motion_def)

section \<open>Score and screens\<close>

text \<open>
  Claim C9. In every cycle after a reset the score is the number of enemies hit, the boss
  included; the screens of the boss are shown only with all eighteen enemies hit; the game is won
  only out of the fight, in a cycle in which the boss has been hit as well; and it is lost only in a
  cycle in which an enemy or the boss has reached the bottom.
\<close>

theorem boss_needs_all_hits:
  assumes "power_up g" and "z = after_reset f k es g" and "z' = game_clock i z"
  shows "score z = of_nat (hits (enemies z) + (if enemy_hit (bboi z) then 1 else 0))
     \<and> length (enemies z) = 18
     \<and> (screen z \<in> {BOSS_LOGO, BOSS_FIGHT} \<longrightarrow> (\<forall>e\<in>set (enemies z). enemy_hit e))
     \<and> (screen z' = WIN \<and> screen z \<noteq> WIN \<longrightarrow>
          screen z = BOSS_FIGHT \<and> enemy_hit (bboi z) \<and> (\<forall>e\<in>set (enemies z). enemy_hit e))
     \<and> (screen z' = GAMEOVER \<and> screen z \<noteq> GAMEOVER \<longrightarrow> (\<exists>e\<in>set (bboi z # enemies z). at_bottom e))"
proof -
  obtain r fc kc where i: "i = (r, fc, kc)" by (cases i) auto
  have inv: "game_inv z" using game_inv_run [OF assms(1)] assms(2) by simp
  then have ok: "rows_ok z" by (simp add: game_inv_def)
  have e: "\<forall>e\<in>set (enemies z). enemy_hit e" if "screen z \<in> {BOSS_LOGO, BOSS_FIGHT}"
    using inv that unfolding game_inv_def by blast
  have w: "screen z = BOSS_FIGHT \<and> score z = 0x13" if "screen z' = WIN" "screen z \<noteq> WIN"
    using that by (cases "screen z") (auto simp: assms(3) i signal_controller_def split: if_splits)
  have l: "died z" if "screen z' = GAMEOVER" "screen z \<noteq> GAMEOVER"
    using that by (cases "screen z") (auto simp: assms(3) i signal_controller_def split: if_splits)
  show ?thesis
    using score_hits [of z] rows_18 [OF ok] e w l score_boss [OF ok] by (auto simp: died_iff)
qed

theorem boss_needs_all_hits_witness:
  "score (after_reset False 0 [(False, True, 0x28)] demo_game) =
     of_nat (hits (enemies (after_reset False 0 [(False, True, 0x28)] demo_game)))
   \<and> length (enemies (after_reset False 0 [(False, True, 0x28)] demo_game)) = 18"
proof -
  have "\<not> enemy_hit (bboi (after_reset False 0 [(False, True, 0x28)] demo_game))"
    by (simp add: after_reset_def boss_step_def hit_controller_boss_def signal_controller_def)
  then show ?thesis using boss_needs_all_hits [OF demo_power_up refl refl, of False 0 "[(False, True, 0x28)]"] by simp
qed

section \<open>From one game to the next\<close>

text \<open>
  The latches are cleared in the cycle in which a game ends, and no later than that. If the laser is
  still in flight over the place to which an enemy goes back, the enemy is hit again in the next
  cycle, with no game in play. The hit is kept, so that the next game starts with this enemy hidden
  and counted; and with the enter key held it starts two cycles later, the start screen included.
\<close>

lemma enemy_nth:
  assumes "rows_ok g" "i < 18"
  shows "enemies (game_step r f k g) ! i =
    enemy_step r f (fst (origins ! i)) (snd (origins ! i)) (screen g = PLAY) (finished g)
      (laser_X_Pos (ulaser g)) (laser_Y_Pos (ulaser g)) (enemies g ! i)"
proof -
  have "length origins = 18" by (simp add: row_xs_def)
  then show ?thesis unfolding enemies_step [OF assms(1)] using assms(2) rows_18 [OF assms(1)]
    by (simp add: split_beta del: map_append)
qed

lemma next_game_starts_hit:
  assumes inv: "game_inv g" and play: "screen g = PLAY" and i: "i < 18" "at_bottom (enemies g ! i)"
    and flight: "\<not> laser_hit g" "\<not> frame_clk_rising_edge (l_edge (ulaser g))"
      "hit_test (laser_X_Pos (ulaser g)) (laser_Y_Pos (ulaser g)) (fst (origins ! i)) (snd (origins ! i))"
    and z: "z = fold game_clock [(False, f0, k0), (False, f1, Enter), (False, f2, Enter)] g"
  shows "screen z = PLAY \<and> enemy_hit (enemies z ! i)"
proof -
  define g1 where "g1 = game_step False f0 k0 g"
  define g2 where "g2 = game_step False f1 Enter g1"
  have inv': "game_inv g1" "game_inv g2" unfolding g2_def g1_def using inv by (simp_all add: game_inv_step)
  then have ok: "rows_ok g" "rows_ok g1" "rows_ok g2" using inv by (simp_all add: game_inv_def)
  have "enemies g ! i \<in> set (enemies g)" using i(1) rows_18 [OF ok(1)] by simp
  then have dead: "died g" using play i(2) by (auto simp: died_iff)
  then have s1: "screen g1 = GAMEOVER" using play by (simp add: g1_def signal_controller_def)
  then have s2: "screen g2 = START" by (simp add: g2_def signal_controller_def)
  have fin: "\<not> finished g1" "\<not> finished g2"
    using inv' s1 s2 score_all(2) [OF ok(2)] score_all(2) [OF ok(3)] by (simp_all add: finished_def died_iff game_inv_def)
  have l: "laser_X_Pos (ulaser g1) = laser_X_Pos (ulaser g)" "laser_Y_Pos (ulaser g1) = laser_Y_Pos (ulaser g)"
    using play flight(1,2) by (simp_all add: g1_def game_step_def user_laser_step_def Let_def)
  have "X_Pos (enemies g1 ! i) = fst (origins ! i)" "Y_Pos (enemies g1 ! i) = snd (origins ! i)"
    unfolding g1_def enemy_nth [OF ok(1) i(1)] using i(2) play by (simp_all add: enemy_step_def enemy_move_def)
  then have "enemy_hit (enemies g2 ! i)"
    unfolding g2_def enemy_nth [OF ok(2) i(1)] using flight(3) l fin(1) by (simp add: hit_controller_def)
  then have "enemy_hit (enemies (game_step False f2 Enter g2) ! i)"
    unfolding enemy_nth [OF ok(3) i(1)] using fin(2) by (simp add: hit_controller_def)
  moreover have "screen (game_step False f2 Enter g2) = PLAY" using s2 by (simp add: signal_controller_def)
  ultimately show ?thesis by (simp add: z g1_def g2_def)
qed

section \<open>Hit detection\<close>

text \<open>
  Claim C29. Where no sum wraps, the hit test holds exactly when the box of the laser (20 by 49) and
  the box of the ship (30 by 30) meet, edges included, except when the laser, which is longer,
  reaches out of the ship above and below: a ship that comes into the middle of the beam from the
  side is not hit.
\<close>

theorem hit_test_is_overlap:
  assumes "unat lx + 20 < 1024" and "unat ly + 49 < 1024" and "unat ex + 30 < 1024" and "unat ey + 30 < 1024"
  shows "hit_test lx ly ex ey \<longleftrightarrow>
     (unat lx \<le> unat ex + 30 \<and> unat ex \<le> unat lx + 20 \<and> unat ly \<le> unat ey + 30 \<and> unat ey \<le> unat ly + 49)
     \<and> \<not> (unat ly < unat ey \<and> unat ey + 30 < unat ly + 49)"
proof -
  have u: "unat (lx + 20) = unat lx + 20" "unat (ly + 49) = unat ly + 49" "unat (ex + 30) = unat ex + 30"
    "unat (ey + 30) = unat ey + 30"
    using assms by (simp_all add: unat_plus_coord)
  show ?thesis unfolding hit_test_def word_le_nat_alt u by linarith
qed

theorem hit_test_is_overlap_witness:
  "hit_test 100 200 110 180 \<and> \<not> hit_test 100 200 110 210"
  using hit_test_is_overlap [of 100 200 110 180] hit_test_is_overlap [of 100 200 110 210] by simp

section \<open>A shot\<close>

text \<open>
  A shot that hits nothing goes straight up four rows a frame, in play and in the fight,
  however the ship moves meanwhile and whatever keys but the space key are pressed, and is over,
  so that the next one can be fired, two frames after it has reached the last row above the edge.
\<close>

lemma shot_returns:
  assumes "unat (laser_Y_Pos l) < 479" and "space_pressed l" and "laser_Y_Motion l = - 4"
    and "\<forall>c\<in>set cs. fst (snd c) \<noteq> Space"
  shows "(frames cs l \<le> unat (laser_Y_Pos l) div 4 \<longrightarrow>
           space_pressed (fold shot_cycle cs l)
           \<and> laser_X_Pos (fold shot_cycle cs l) = laser_X_Pos l
           \<and> unat (laser_Y_Pos (fold shot_cycle cs l)) = unat (laser_Y_Pos l) - 4 * frames cs l)
     \<and> (frames cs l = unat (laser_Y_Pos l) div 4 + 1 \<and> frame_clk_rising_edge (l_edge (fold shot_cycle cs l))
          \<and> fst (snd c) \<noteq> Space \<longrightarrow>
          \<not> space_pressed (shot_cycle c (fold shot_cycle cs l)))"
proof -
  define y where "y = unat (laser_Y_Pos l)"
  have y: "y < 479" using assms(1) by (simp add: y_def)
  have "of_nat y = laser_Y_Pos l" unfolding y_def by (metis of_nat_unat ucast_id)
  then have "in_flight (laser_X_Pos l) y 0 l" using assms(2,3) by (simp add: in_flight_def)
  note fl = shot_flies [OF y this _ assms(4)]
  have 1: "space_pressed (fold shot_cycle cs l) \<and> laser_X_Pos (fold shot_cycle cs l) = laser_X_Pos l
      \<and> unat (laser_Y_Pos (fold shot_cycle cs l)) = y - 4 * frames cs l" if "frames cs l \<le> y div 4"
    using fl that unat_flight [OF y, of "frames cs l"] by (simp add: in_flight_def)
  have 2: "\<not> space_pressed (shot_cycle c (fold shot_cycle cs l))"
    if "frames cs l = y div 4 + 1" "frame_clk_rising_edge (l_edge (fold shot_cycle cs l))" "fst (snd c) \<noteq> Space"
  proof -
    have "in_flight (laser_X_Pos l) y (y div 4 + 1) (fold shot_cycle cs l)" using fl that(1) by simp
    from flight_cycle [OF this y _ that(3)] show ?thesis using that(2) by simp
  qed
  show ?thesis using 1 2 unfolding y_def [symmetric] by blast
qed

definition demo_shot :: user_laser where
  "demo_shot =
     \<lparr>l_edge = no_edge, laser_X_Pos = 100, laser_Y_Pos = 5, laser_Y_Motion = - 4, space_pressed = True\<rparr>"

lemma shot_returns_example:
  "unat (laser_Y_Pos (fold shot_cycle [(True, 0, 100, 439, False), (False, 0, 100, 439, False)] demo_shot)) = 1
   \<and> \<not> space_pressed (shot_cycle (False, 0, 100, 439, False)
        (fold shot_cycle [(True, 0, 100, 439, False), (False, 0, 100, 439, False), (True, 0, 100, 439, False),
           (False, 0, 100, 439, False), (True, 0, 100, 439, False)] demo_shot))"
proof -
  let ?on = "(True, 0, 100, 439, False) :: cycle" and ?off = "(False, 0, 100, 439, False) :: cycle"
  have y: "unat (laser_Y_Pos demo_shot) = 5" "space_pressed demo_shot" "laser_Y_Motion demo_shot = - 4"
    by (simp_all add: demo_shot_def)
  have "frames [?on, ?off] demo_shot = 1" by code_simp
  moreover have "frames [?on, ?off, ?on, ?off, ?on] demo_shot = 2
      \<and> frame_clk_rising_edge (l_edge (fold shot_cycle [?on, ?off, ?on, ?off, ?on] demo_shot))" by code_simp
  ultimately show ?thesis
    using shot_returns [of demo_shot "[?on, ?off]"] shot_returns [of demo_shot "[?on, ?off, ?on, ?off, ?on]" ?off] y
    by simp
qed

end
