(* ===== verification/GameRun.thy ===== *)
theory GameRun
  imports GameClaims
begin

text \<open>
  The game can be won: a player who presses enter and then only holds the space key shoots down the
  eighteen enemies, and after one more press of enter and the space key again the boss.

  The run is proved for the game of \<open>Game\<close> and not for a copy of it. First, frames: a frame of the
  video is some cycles with the frame clock high and some with it low, and whatever their number, a
  frame is one cycle of moves (\<open>tock\<close>) between cycles in which nothing moves (\<open>tick\<close>). Then a
  calculation of a frame in integers (\<open>salvo\<close>, \<open>duel\<close>), which is the game as long as no ship gets
  down to the player (\<open>frame_play\<close>, \<open>frame_boss\<close>). The 3211 frames of the first fight and the 71 of the
  second are then computed in the kernel. At 60 frames a second the first fight takes 54 seconds.
\<close>

section \<open>Frames\<close>

text \<open>
  The cycles of a frame in which the keyboard gives the key code \<open>k\<close>: the frame clock is high for
  \<open>fst f\<close> cycles and low for \<open>snd f\<close>. With the timing of \<open>vga_controller.sv\<close> the frame clock is high
  for 836800 cycles and low for 3200; six cycles are enough for what follows.
\<close>

definition frame_cycles :: "u8 \<Rightarrow> nat \<times> nat \<Rightarrow> cycle_input list" where
  "frame_cycles k f = replicate (fst f) (False, True, k) @ replicate (snd f) (False, False, k)"

definition hold :: "u8 \<Rightarrow> (nat \<times> nat) list \<Rightarrow> cycle_input list" where
  "hold k fs = concat (map (frame_cycles k) fs)"

definition full_frame :: "nat \<times> nat \<Rightarrow> bool" where
  "full_frame f \<longleftrightarrow> 1 \<le> fst f \<and> 1 \<le> snd f \<and> 6 \<le> fst f + snd f"

lemma full_frame_ticks: "full_frame f \<Longrightarrow> \<exists>n. fst f + snd f - 2 = Suc (Suc (Suc n))"
  unfolding full_frame_def by presburger

text \<open>The detectors of the frame clock all have the same registers, and nothing else depends on them.\<close>

definition set_edges :: "edge_detector \<Rightarrow> game \<Rightarrow> game" where
  "set_edges d g = g\<lparr>ship := (ship g)\<lparr>us_edge := d\<rparr>, ulaser := (ulaser g)\<lparr>l_edge := d\<rparr>,
     row1 := map (e_edge_update (\<lambda>_. d)) (row1 g), row2 := map (e_edge_update (\<lambda>_. d)) (row2 g),
     row3 := map (e_edge_update (\<lambda>_. d)) (row3 g), bboi := (bboi g)\<lparr>e_edge := d\<rparr>\<rparr>"

abbreviation (input) edges :: "bool \<Rightarrow> bool \<Rightarrow> edge_detector" where
  "edges c r \<equiv> \<lparr>frame_clk_delayed = c, frame_clk_rising_edge = r\<rparr>"

lemma enemy_edge [simp]:
  "at_bottom (e\<lparr>e_edge := d\<rparr>) = at_bottom e" "enemy_count (e\<lparr>e_edge := d\<rparr>) = enemy_count e"
  "enemy_gameover p (e\<lparr>e_edge := d\<rparr>) = enemy_gameover p e"
  "enemy_laser_hit p lx ly (e\<lparr>e_edge := d\<rparr>) = enemy_laser_hit p lx ly e"
  by (simp_all add: at_bottom_def enemy_count_def enemy_gameover_def enemy_laser_hit_def)

lemma row_edge [simp]:
  "score_row (map (e_edge_update (\<lambda>_. d)) es) = score_row es"
  "list_ex (enemy_gameover p) (map (e_edge_update (\<lambda>_. d)) es) = list_ex (enemy_gameover p) es"
  "list_ex (enemy_laser_hit p lx ly) (map (e_edge_update (\<lambda>_. d)) es) = list_ex (enemy_laser_hit p lx ly) es"
  by (simp_all add: score_row_def comp_def list_ex_iff)

lemma set_edges_wires [simp]:
  "screen (set_edges d g) = screen g" "died (set_edges d g) = died g" "score (set_edges d g) = score g"
  "finished (set_edges d g) = finished g" "laser_hit (set_edges d g) = laser_hit g"
  by (simp_all add: set_edges_def died_def score_def finished_def laser_hit_def)

lemma set_edges_twice [simp]: "set_edges d (set_edges d' g) = set_edges d g"
  by (simp add: set_edges_def)

lemma enemy_step_edge:
  "enemy_step False v x y p fin lx ly (e\<lparr>e_edge := d\<rparr>)
     = (enemy_step False w x y p fin lx ly (e\<lparr>e_edge := edges c (frame_clk_rising_edge d)\<rparr>))\<lparr>e_edge := detect_edge v d\<rparr>"
  by (simp add: enemy_step_def enemy_move_def place_def enemy_motion_def at_bottom_def split: prod.split)

lemma boss_step_edge:
  "boss_step False v k p fin lx ly (e\<lparr>e_edge := d\<rparr>)
     = (boss_step False w k p fin lx ly (e\<lparr>e_edge := edges c (frame_clk_rising_edge d)\<rparr>))\<lparr>e_edge := detect_edge v d\<rparr>"
  by (simp add: boss_step_def boss_move_def place_def boss_motion_def at_bottom_def split: prod.split)

lemma row_step_edge:
  "eship_row_step False v y p fin lx ly (map (e_edge_update (\<lambda>_. d)) es)
     = map (e_edge_update (\<lambda>_. detect_edge v d))
         (eship_row_step False w y p fin lx ly (map (e_edge_update (\<lambda>_. edges c (frame_clk_rising_edge d))) es))"
  unfolding eship_row_step_def map2_map_map [where f = "\<lambda>x. x", simplified] 
  by (simp add: zip_map2 comp_def case_prod_unfold) (subst enemy_step_edge [where w = w and c = c], simp)

lemma ship_step_edge:
  "user_ship_step False v k (s\<lparr>us_edge := d\<rparr>)
     = (user_ship_step False w k (s\<lparr>us_edge := edges c (frame_clk_rising_edge d)\<rparr>))\<lparr>us_edge := detect_edge v d\<rparr>"
  by (simp add: user_ship_step_def split: prod.split)

lemma laser_frame_edge [simp]: "laser_frame k ux uy (l\<lparr>l_edge := d\<rparr>) = (laser_frame k ux uy l)\<lparr>l_edge := d\<rparr>"
  by (simp add: laser_frame_def laser_fired_def laser_at_ship_def)

lemma laser_step_edge:
  "user_laser_step False v k ux uy p b h (l\<lparr>l_edge := d\<rparr>)
     = (user_laser_step False w k ux uy p b h (l\<lparr>l_edge := edges c (frame_clk_rising_edge d)\<rparr>))\<lparr>l_edge := detect_edge v d\<rparr>"
  by (simp add: user_laser_step_def laser_fired_def laser_at_ship_def Let_def)

lemma clock_edges:
  "game_step False v k (set_edges d g)
     = set_edges (detect_edge v d) (game_step False w k (set_edges (edges c (frame_clk_rising_edge d)) g))"
proof -
  note inst = ship_step_edge [where v = v and d = d and w = w and c = c]
    laser_step_edge [where v = v and d = d and w = w and c = c]
    row_step_edge [where v = v and d = d and w = w and c = c]
    boss_step_edge [where v = v and d = d and w = w and c = c]
  show ?thesis
    unfolding game_step_def set_edges_wires Let_def by (simp add: set_edges_def inst del: row_edge)
qed


abbreviation (input) low :: edge_detector where "low \<equiv> edges False False"

text \<open>A cycle without and one with the edge, both with the frame clock low.\<close>

definition tick :: "u8 \<Rightarrow> game \<Rightarrow> game" where
  "tick k g = game_step False False k (set_edges low g)"

definition tock :: "u8 \<Rightarrow> game \<Rightarrow> game" where
  "tock k g = game_step False False k (set_edges (edges True True) g)"

lemma set_edges_tick:
  "set_edges low (tick k g) = tick k g" "set_edges low (tock k g) = tock k g"
  using clock_edges [of False k low g False False] clock_edges [of False k "edges True True" g False True]
  by (simp_all add: tick_def tock_def detect_edge_def)

lemma tick_edges [simp]: "tick k (set_edges d g) = tick k g"
  by (simp add: tick_def)

lemma clock_ticks:
  "game_step False v k (set_edges low g) = set_edges (edges v v) (tick k g)"
  "game_step False v k (set_edges (edges True False) g) = set_edges (edges v False) (tick k g)"
  "game_step False v k (set_edges (edges True True) g) = set_edges (edges v False) (tock k g)"
  using clock_edges [of v k low g False False] clock_edges [of v k "edges True False" g False False]
    clock_edges [of v k "edges True True" g False True]
  by (simp_all add: tick_def tock_def detect_edge_def)

lemma high_cycles:
  "fold game_clock (replicate n (False, True, k)) (set_edges (edges True False) g)
     = set_edges (edges True False) (iterate (tick k) n g)"
  by (induction n arbitrary: g) (simp_all add: clock_ticks del: fold_replicate)

lemma low_cycles:
  "fold game_clock (replicate n (False, False, k)) (set_edges low g) = set_edges low (iterate (tick k) n g)"
  by (induction n arbitrary: g) (simp_all add: clock_ticks del: fold_replicate)

lemma frame_runs:
  assumes "full_frame f"
  shows "fold game_clock (frame_cycles k f) (set_edges low g)
     = set_edges low (iterate (tick k) (fst f + snd f - 2) (tock k (tick k g)))"
proof -
  obtain a b where f: "f = (Suc a, Suc b)"
    using assms by (cases f) (auto simp: full_frame_def dest!: Suc_le_D)
  have l: "fold game_clock (replicate b (False, False, k)) (set_edges (edges False False) h)
     = set_edges low (iterate (tick k) b h)" for h
    by (rule low_cycles)
  show ?thesis
  proof (cases a)
    case 0
    then show ?thesis by (simp del: fold_replicate add: frame_cycles_def f clock_ticks l)
  next
    case (Suc a')
    have "iterate (tick k) b (tick k (iterate (tick k) a' h)) = iterate (tick k) (a' + Suc b) h" for h
      using iterate_Suc_right [of "tick k" a' h] by (simp add: iterate_add)
    with Suc show ?thesis by (simp del: fold_replicate add: frame_cycles_def f clock_ticks high_cycles l)
  qed
qed


section \<open>The fight in integers\<close>

type_synonym flyer = "int \<times> int \<times> int \<times> int"
type_synonym bolt = "int \<times> int \<times> int \<times> bool"

definition fly :: "flyer \<Rightarrow> flyer" where
  "fly s = (case s of (x, y, xm, ym) \<Rightarrow>
     if 609 \<le> x then (x + xm, y + ym, - 1, 10)
     else if x \<le> 1 then (x + xm, y + ym, 1, 10)
     else (x + xm, y + ym, xm, 0))"

definition struck :: "int \<Rightarrow> int \<Rightarrow> flyer \<Rightarrow> bool" where
  "struck lx ly s = (case s of (x, y, xm, ym) \<Rightarrow>
     (x \<le> lx \<and> lx \<le> x + 30 \<or> x \<le> lx + 20 \<and> lx + 20 \<le> x + 30) \<and>
     (y \<le> ly \<and> ly \<le> y + 30 \<or>
      (if ly < 975 then y \<le> ly + 49 \<and> ly + 49 \<le> y + 30 else y \<le> ly - 975 \<and> ly - 975 \<le> y + 30)))"

definition climb :: "bolt \<Rightarrow> bolt" where
  "climb l = (case l of (lx, ly, lym, p) \<Rightarrow>
     if p then if 479 \<le> ly then (330, 441, - 4, True)
               else if ly + lym < 0 then (lx, ly + lym + 1024, - 4, True) else (lx, ly + lym, - 4, True)
     else (327, 441, 0, True))"

text \<open>The registers that such a tuple of coordinates and motions describes.\<close>

definition ship_at :: "flyer \<Rightarrow> bool \<Rightarrow> enemy" where
  "ship_at s h = (case s of (x, y, xm, ym) \<Rightarrow>
     \<lparr>e_edge = low, X_Pos = of_int x, Y_Pos = of_int y, X_Motion = of_int xm, Y_Motion = of_int ym, enemy_hit = h\<rparr>)"

definition bolt_at :: "bolt \<Rightarrow> user_laser" where
  "bolt_at l = (case l of (lx, ly, lym, p) \<Rightarrow>
     \<lparr>l_edge = low, laser_X_Pos = of_int lx, laser_Y_Pos = of_int ly, laser_Y_Motion = of_int lym, space_pressed = p\<rparr>)"

definition parked :: user_ship where
  "parked = \<lparr>us_edge = low, User_Ship_X_Pos = 322, User_Ship_Y_Pos = 439, User_Ship_X_Motion = 0, User_Ship_Y_Motion = 0\<rparr>"

abbreviation (input) gone :: flyer where "gone \<equiv> (639, 0, 0, 0)"

definition in_view :: "flyer \<Rightarrow> bool" where
  "in_view s = (case s of (x, y, xm, ym) \<Rightarrow> 0 \<le> x \<and> x \<le> 639 \<and> 0 \<le> y \<and> y < 409)"

definition bolt_ok :: "bolt \<Rightarrow> bool" where
  "bolt_ok l = (case l of (lx, ly, lym, p) \<Rightarrow>
     0 \<le> lx \<and> lx \<le> 330 \<and> 0 \<le> ly \<and> ly < 1024 \<and> (lym = 0 \<or> lym = - 4))"

lemma uint_of_coord: "0 \<le> n \<Longrightarrow> n < 1024 \<Longrightarrow> uint (of_int n :: coord) = n"
  by (simp add: unsigned_of_int take_bit_int_eq_self)

lemma coord_le: "0 \<le> a \<Longrightarrow> a < 1024 \<Longrightarrow> 0 \<le> b \<Longrightarrow> b < 1024 \<Longrightarrow> (of_int a :: coord) \<le> of_int b \<longleftrightarrow> a \<le> b"
  by (simp add: word_le_def uint_of_coord)

lemma coord_bounds:
  "0 \<le> x \<Longrightarrow> x < 640 \<Longrightarrow> (639 :: coord) \<le> of_int x + 30 \<longleftrightarrow> 609 \<le> x"
  "0 \<le> x \<Longrightarrow> x < 640 \<Longrightarrow> (of_int x :: coord) \<le> 1 \<longleftrightarrow> x \<le> 1"
  "0 \<le> x \<Longrightarrow> x < 1024 \<Longrightarrow> (409 :: coord) \<le> of_int x \<longleftrightarrow> 409 \<le> x"
  "0 \<le> x \<Longrightarrow> x < 1024 \<Longrightarrow> (479 :: coord) \<le> of_int x \<longleftrightarrow> 479 \<le> x"
  using coord_le [of 639 "x + 30"] coord_le [of x 1] coord_le [of 409 x] coord_le [of 479 x] by simp_all

lemma overlap_int:
  "0 \<le> x \<Longrightarrow> x < 640 \<Longrightarrow> 0 \<le> l \<Longrightarrow> l < 1024 \<Longrightarrow>
   of_int x \<le> (of_int l :: coord) \<and> of_int l \<le> (of_int x + 30 :: coord) \<longleftrightarrow> x \<le> l \<and> l \<le> x + 30"
  using coord_le [of x l] coord_le [of l "x + 30"] by simp

lemma coord_wrap: "(of_int (n - 1024) :: coord) = of_int n"
  by simp

lemma hit_test_int:
  assumes "in_view (x, y, xm, ym)" "bolt_ok (lx, ly, lym, p)"
  shows "hit_test (of_int lx) (of_int ly) (of_int x) (of_int y) = struck lx ly (x, y, xm, ym)"
proof -
  have x: "0 \<le> x" "x < 640" and y: "0 \<le> y" "y < 640" and lx: "0 \<le> lx" "lx < 331" and ly: "0 \<le> ly" "ly < 1024"
    using assms by (auto simp: in_view_def bolt_ok_def)
  have e: "(of_int lx :: coord) + 20 = of_int (lx + 20)"
    "(of_int ly :: coord) + 49 = of_int (if ly < 975 then ly + 49 else ly - 975)"
    using coord_wrap [of "ly + 49"] by simp_all
  show ?thesis
    unfolding hit_test_def e using x y lx ly
      overlap_int [of x lx] overlap_int [of x "lx + 20"] overlap_int [of y ly]
      overlap_int [of y "if ly < 975 then ly + 49 else ly - 975"]
    by (simp add: struck_def split del: if_split) (simp split: if_splits)
qed

lemma at_bottom_int: "in_view s \<Longrightarrow> \<not> at_bottom (ship_at s h)"
  by (simp add: at_bottom_def in_view_def ship_at_def coord_bounds split: prod.splits)

text \<open>One cycle without and one with the edge of the frame clock, of a ship and of the laser.\<close>

definition latch :: "int \<Rightarrow> int \<Rightarrow> flyer \<times> bool \<Rightarrow> flyer \<times> bool" where
  "latch lx ly e = (if snd e then gone else fst e, snd e \<or> struck lx ly (fst e))"

definition advance :: "flyer \<times> bool \<Rightarrow> flyer \<times> bool" where
  "advance e = (if snd e then gone else fly (fst e), snd e)"

lemma ship_at_fields [simp]:
  "enemy_hit (ship_at s h) = h" "e_edge (ship_at s h) = low"
  by (simp_all add: ship_at_def split: prod.splits)

lemma tick_ship:
  "in_view s \<Longrightarrow> bolt_ok (lx, ly, lym, p) \<Longrightarrow>
   enemy_step False False x0 y0 True False (of_int lx) (of_int ly) (ship_at s h)
     = (case latch lx ly (s, h) of (s', h') \<Rightarrow> ship_at s' h')"
  using at_bottom_int [of s h]
  by (cases s) (simp add: enemy_step_def enemy_move_def latch_def hit_controller_def place_def detect_edge_def
      ship_at_def hit_test_int)

lemma tock_ship:
  assumes "in_view s" "bolt_ok (lx, ly, lym, p)" "\<not> struck lx ly s"
  shows "enemy_step False False x0 y0 True False (of_int lx) (of_int ly) ((ship_at s h)\<lparr>e_edge := edges True True\<rparr>)
     = (case advance (s, h) of (s', h') \<Rightarrow> ship_at s' h')"
proof -
  obtain x y xm ym where s: "s = (x, y, xm, ym)" by (cases s)
  have "\<not> hit_test (of_int lx) (of_int ly) (of_int x) (of_int y)"
    using hit_test_int assms s by blast
  with assms(1) show ?thesis
    by (simp add: s enemy_step_def enemy_move_def advance_def hit_controller_def place_def detect_edge_def
        ship_at_def fly_def enemy_motion_def at_bottom_def coord_bounds in_view_def)
qed

lemma tock_bolt:
  assumes "bolt_ok l"
  shows "user_laser_step False False Space 322 439 True b False ((bolt_at l)\<lparr>l_edge := edges True True\<rparr>) = bolt_at (climb l)"
proof -
  obtain lx ly lym p where l: "l = (lx, ly, lym, p)" by (cases l)
  have "(of_int (ly + lym + 1024) :: coord) = of_int (ly + lym)" by simp
  then show ?thesis using assms coord_bounds(4) [of ly]
    by (simp add: l user_laser_step_def laser_frame_def laser_fired_def laser_at_ship_def bolt_at_def climb_def
        detect_edge_def bolt_ok_def)
qed


section \<open>The whole game\<close>

type_synonym fleet = "(flyer \<times> bool) list"

definition fleet_at :: "fleet \<Rightarrow> enemy list" where
  "fleet_at es = map (\<lambda>(s, h). ship_at s h) es"

definition game_at :: "screen \<Rightarrow> bolt \<Rightarrow> fleet \<Rightarrow> fleet \<Rightarrow> fleet \<Rightarrow> flyer \<times> bool \<Rightarrow> game" where
  "game_at sc l r1 r2 r3 b = \<lparr>screen = sc, ship = parked, ulaser = bolt_at l, row1 = fleet_at r1, row2 = fleet_at r2,
     row3 = fleet_at r3, bboi = ship_at (fst b) (snd b)\<rparr>"

abbreviation (input) boss_home :: flyer where "boss_home \<equiv> (320, 0, 5, 0)"
abbreviation (input) fired :: bolt where "fired \<equiv> (330, 441, - 4, True)"

definition hit_any :: "bolt \<Rightarrow> fleet \<Rightarrow> bool" where
  "hit_any l es = list_ex (\<lambda>e. struck (fst l) (fst (snd l)) (fst e)) es"

definition fleet_ok :: "fleet \<Rightarrow> bool" where
  "fleet_ok es \<longleftrightarrow> length es = 6 \<and> list_all (\<lambda>e. in_view (fst e)) es"

lemma fleet_wires:
  assumes "fleet_ok es" "bolt_ok (lx, ly, lym, p)"
  shows "\<not> list_ex (enemy_gameover b) (fleet_at es)"
    and "list_ex (enemy_laser_hit True (of_int lx) (of_int ly)) (fleet_at es) = hit_any (lx, ly, lym, p) es"
proof -
  have "enemy_laser_hit True (of_int lx) (of_int ly) (ship_at s h) = struck lx ly s" if "in_view s" for s h
    using that assms(2) by (cases s) (simp add: enemy_laser_hit_def ship_at_def hit_test_int)
  then show "list_ex (enemy_laser_hit True (of_int lx) (of_int ly)) (fleet_at es) = hit_any (lx, ly, lym, p) es"
    using assms(1) unfolding fleet_at_def hit_any_def list_ex_iff set_map bex_simps
    by (intro bex_cong refl) (auto simp: list_all_iff fleet_ok_def)
  show "\<not> list_ex (enemy_gameover b) (fleet_at es)"
    using assms(1) at_bottom_int
    by (fastforce simp: fleet_at_def list_ex_iff list_all_iff fleet_ok_def enemy_gameover_def)
qed

lemma row_step_int:
  assumes "fleet_ok es" "bolt_ok (lx, ly, lym, p)"
  shows "eship_row_step False False y True False (of_int lx) (of_int ly) (fleet_at es) = fleet_at (map (latch lx ly) es)"
    and "\<not> hit_any (lx, ly, lym, p) es \<Longrightarrow>
      eship_row_step False False y True False (of_int lx) (of_int ly) (map (e_edge_update (\<lambda>_. edges True True)) (fleet_at es))
        = fleet_at (map advance es)"
proof -
  have l: "length es = 6" "\<And>i. i < 6 \<Longrightarrow> in_view (fst (es ! i))"
    using assms(1) by (auto simp: fleet_ok_def list_all_length)
  have m: "map2 f row_xs xs = map g es" if "length xs = 6" "\<And>i. i < 6 \<Longrightarrow> f (row_xs ! i) (xs ! i) = g (es ! i)"
    for f :: "coord \<Rightarrow> enemy \<Rightarrow> enemy" and g xs
    using that l(1) by (intro nth_equalityI) (simp_all add: row_xs_def)
  show "eship_row_step False False y True False (of_int lx) (of_int ly) (fleet_at es) = fleet_at (map (latch lx ly) es)"
    unfolding eship_row_step_def fleet_at_def map_map
    by (rule m) (use l tick_ship [OF _ assms(2)] in \<open>simp_all add: case_prod_unfold\<close>)
  assume n: "\<not> hit_any (lx, ly, lym, p) es"
  have "\<not> struck lx ly (fst (es ! i))" if "i < 6" for i
    using n that l(1) by (auto simp: hit_any_def list_ex_length)
  then show "eship_row_step False False y True False (of_int lx) (of_int ly) (map (e_edge_update (\<lambda>_. edges True True)) (fleet_at es))
      = fleet_at (map advance es)"
    unfolding eship_row_step_def fleet_at_def map_map
    by (intro m) (use l tock_ship [OF _ assms(2)] in \<open>simp_all add: case_prod_unfold\<close>)
qed

lemma low_edges:
  "set_edges low (game_at sc l r1 r2 r3 b) = game_at sc l r1 r2 r3 b"
proof -
  have "(ship_at s h)\<lparr>e_edge := low\<rparr> = ship_at s h" for s h by (simp add: ship_at_def split: prod.split)
  then show ?thesis
    by (simp add: set_edges_def game_at_def parked_def bolt_at_def fleet_at_def comp_def case_prod_unfold split: prod.split)
qed

lemma bolt_at_fields [simp]:
  "laser_X_Pos (bolt_at (lx, ly, lym, p)) = of_int lx" "laser_Y_Pos (bolt_at (lx, ly, lym, p)) = of_int ly"
  "l_edge (bolt_at l) = low"
  by (simp_all add: bolt_at_def split: prod.split)

lemma game_at_fields [simp]:
  "screen (game_at sc l r1 r2 r3 b) = sc" "ship (game_at sc l r1 r2 r3 b) = parked"
  "ulaser (game_at sc l r1 r2 r3 b) = bolt_at l" "row1 (game_at sc l r1 r2 r3 b) = fleet_at r1"
  "row2 (game_at sc l r1 r2 r3 b) = fleet_at r2" "row3 (game_at sc l r1 r2 r3 b) = fleet_at r3"
  "bboi (game_at sc l r1 r2 r3 b) = ship_at (fst b) (snd b)"
  by (simp_all add: game_at_def)

lemma fleet_at_enemies:
  "(\<forall>e\<in>set (fleet_at es). enemy_hit e) \<longleftrightarrow> list_all snd es" "length (fleet_at es) = length es"
  by (auto simp: fleet_at_def list_all_iff)

definition game_ok :: "bolt \<Rightarrow> fleet \<Rightarrow> fleet \<Rightarrow> fleet \<Rightarrow> bool" where
  "game_ok l r1 r2 r3 \<longleftrightarrow> bolt_ok l \<and> fleet_ok r1 \<and> fleet_ok r2 \<and> fleet_ok r3"

lemma game_at_wires:
  assumes "game_ok l r1 r2 r3"
  shows "score (game_at sc l r1 r2 r3 (s, False)) = 0x12 \<longleftrightarrow> list_all snd (r1 @ r2 @ r3)"
    and "score (game_at sc l r1 r2 r3 (s, False)) \<noteq> 0x13"
    and "\<not> died (game_at PLAY l r1 r2 r3 b)"
    and "laser_hit (game_at PLAY l r1 r2 r3 b) \<longleftrightarrow> hit_any l (r1 @ r2 @ r3)"
proof -
  let ?g = "game_at sc l r1 r2 r3 (s, False)"
  have f: "bolt_ok l" "fleet_ok r1" "fleet_ok r2" "fleet_ok r3" using assms by (auto simp: game_ok_def)
  have r: "rows_ok ?g" using f by (simp add: rows_ok_def fleet_at_enemies fleet_ok_def)
  have e: "(\<forall>e\<in>set (enemies ?g). enemy_hit e) \<longleftrightarrow> list_all snd (r1 @ r2 @ r3)"
    by (simp add: enemies_def ball_Un fleet_at_enemies)
  show "score ?g = 0x12 \<longleftrightarrow> list_all snd (r1 @ r2 @ r3)" "score ?g \<noteq> 0x13"
    using score_all [OF r] e by simp_all
  obtain lx ly lym p where l: "l = (lx, ly, lym, p)" by (cases l)
  show "\<not> died (game_at PLAY l r1 r2 r3 b)" using f by (simp add: l died_def fleet_wires enemy_gameover_def)
  show "laser_hit (game_at PLAY l r1 r2 r3 b) \<longleftrightarrow> hit_any l (r1 @ r2 @ r3)"
    using f fleet_wires(2) [of _ lx ly lym p]
    by (simp add: l laser_hit_def enemy_laser_hit_def [of False] list_ex_append hit_any_def)
qed

lemma ship_waits:
  "k = Space \<or> k = Enter \<Longrightarrow> user_ship_step False False k parked = parked"
  "k = Space \<or> k = Enter \<Longrightarrow> user_ship_step False False k (parked\<lparr>us_edge := edges True True\<rparr>) = parked"
  by (auto simp add: parked_def user_ship_step_def detect_edge_def ship_motion_def)

lemma parked_fields: "User_Ship_X_Pos parked = 322" "User_Ship_Y_Pos parked = 439"
  by (simp_all add: parked_def)

lemma boss_at_home:
  "boss_step False False k False fin lx ly (ship_at s False) = ship_at boss_home False"
  "boss_step False False k False fin lx ly ((ship_at s False)\<lparr>e_edge := edges c r\<rparr>) = ship_at boss_home False"
  by (simp_all add: boss_step_def boss_move_def place_def hit_controller_boss_def ship_at_def detect_edge_def split: prod.split)

lemma laser_without_edge:
  "p \<or> b \<Longrightarrow> user_laser_step False False k 322 439 p b h (bolt_at l) = bolt_at (if h then (330, 441, - 4, k = Space) else l)"
  by (auto simp add: user_laser_step_def laser_fired_def bolt_at_def detect_edge_def split: prod.split)

lemma tick_play:
  assumes "game_ok l r1 r2 r3" and k: "k = Space \<or> k = Enter"
  shows "tick k (game_at PLAY l r1 r2 r3 (boss_home, False))
     = game_at (if list_all snd (r1 @ r2 @ r3) then BOSS_LOGO else PLAY)
         (if hit_any l (r1 @ r2 @ r3) then (330, 441, - 4, k = Space) else l)
         (map (latch (fst l) (fst (snd l))) r1) (map (latch (fst l) (fst (snd l))) r2)
         (map (latch (fst l) (fst (snd l))) r3) (boss_home, False)"
proof -
  obtain lx ly lym p where l: "l = (lx, ly, lym, p)" by (cases l)
  have f: "bolt_ok (lx, ly, lym, p)" "fleet_ok r1" "fleet_ok r2" "fleet_ok r3" using assms by (auto simp: game_ok_def l)
  show ?thesis
    unfolding tick_def low_edges using game_at_wires [OF assms(1)] f
    by (intro game.equality) (simp_all add: game_step_def Let_def finished_def signal_controller_def ship_waits [OF k]
        parked_fields boss_at_home laser_without_edge row_step_int l)
qed

lemma set_edges_fields [simp]:
  "ship (set_edges d g) = (ship g)\<lparr>us_edge := d\<rparr>" "ulaser (set_edges d g) = (ulaser g)\<lparr>l_edge := d\<rparr>"
  "row1 (set_edges d g) = map (e_edge_update (\<lambda>_. d)) (row1 g)"
  "row2 (set_edges d g) = map (e_edge_update (\<lambda>_. d)) (row2 g)"
  "row3 (set_edges d g) = map (e_edge_update (\<lambda>_. d)) (row3 g)" "bboi (set_edges d g) = (bboi g)\<lparr>e_edge := d\<rparr>"
  by (simp_all add: set_edges_def)

lemma tock_play:
  assumes "game_ok l r1 r2 r3" "\<not> hit_any l (r1 @ r2 @ r3)" "\<not> list_all snd (r1 @ r2 @ r3)"
  shows "tock Space (game_at PLAY l r1 r2 r3 (boss_home, False))
     = game_at PLAY (climb l) (map advance r1) (map advance r2) (map advance r3) (boss_home, False)"
proof -
  obtain lx ly lym p where l: "l = (lx, ly, lym, p)" by (cases l)
  have f: "bolt_ok (lx, ly, lym, p)" "fleet_ok r1" "fleet_ok r2" "fleet_ok r3" using assms by (auto simp: game_ok_def l)
  have n: "\<not> hit_any (lx, ly, lym, p) r1" "\<not> hit_any (lx, ly, lym, p) r2" "\<not> hit_any (lx, ly, lym, p) r3"
    using assms(2) by (auto simp: l hit_any_def)
  show ?thesis
    unfolding tock_def using game_at_wires [OF assms(1)] f n assms(2,3)
    by (intro game.equality) (simp_all add: game_step_def Let_def finished_def signal_controller_def ship_waits parked_fields
        boss_at_home tock_bolt row_step_int l)
qed

text \<open>
  A frame of play with the space key: all move, then those struck are marked, and a cycle later they
  are gone and the laser has returned to the ship.
\<close>

fun pass :: "int \<Rightarrow> int \<Rightarrow> fleet \<Rightarrow> bool \<times> bool \<times> fleet" where
  "pass lx ly [] = (False, True, [])"
| "pass lx ly ((s, True) # es) = (case pass lx ly es of (h, v, es') \<Rightarrow> (h, v, (gone, True) # es'))"
| "pass lx ly ((s, False) # es) =
     (case fly s of s' \<Rightarrow> case pass lx ly es of (h, v, es') \<Rightarrow>
        if struck lx ly s' then (True, v \<and> in_view s', (gone, True) # es')
        else (h, v \<and> in_view s', (s', False) # es'))"

definition tidy :: "fleet \<Rightarrow> bool" where
  "tidy es \<longleftrightarrow> list_all (\<lambda>e. snd e \<longrightarrow> fst e = gone) es"

lemma gone_safe [simp]: "in_view gone" "bolt_ok (lx, ly, lym, p) \<Longrightarrow> \<not> struck lx ly gone"
  by (simp_all add: in_view_def struck_def bolt_ok_def)

lemma fired_safe: "in_view s \<Longrightarrow> \<not> struck 330 441 s"
  by (cases s) (auto simp: in_view_def struck_def)

definition buried :: "flyer \<times> bool \<Rightarrow> flyer \<times> bool" where
  "buried e = (if snd e then (gone, True) else e)"

lemma pass_moves:
  "tidy es \<Longrightarrow> bolt_ok (lx, ly, lym, p) \<Longrightarrow> pass lx ly es =
     (hit_any (lx, ly, lym, p) (map advance es), list_all (\<lambda>e. in_view (fst e)) (map advance es),
      map buried (map (latch lx ly) (map advance es)))"
  by (induction lx ly es rule: pass.induct)
    (auto simp: hit_any_def tidy_def advance_def latch_def buried_def)

lemma tidy_append: "tidy (xs @ ys) \<longleftrightarrow> tidy xs \<and> tidy ys"
  by (simp add: tidy_def)

lemma hit_any_append: "hit_any l (xs @ ys) \<longleftrightarrow> hit_any l xs \<or> hit_any l ys"
  by (simp add: hit_any_def)

lemma tidy_moves:
  "tidy (map buried es)"
  "list_all snd (map buried es) \<longleftrightarrow> list_all snd es"
  "list_all snd (map advance es) \<longleftrightarrow> list_all snd es"
  by (auto simp: tidy_def buried_def advance_def list_all_iff)

lemma latch_missed:
  assumes "tidy es" "\<not> hit_any (lx, ly, lym, p) es"
  shows "map (latch lx ly) es = es" "map buried es = es"
proof -
  have "latch lx ly e = e \<and> buried e = e" if "e \<in> set es" for e
  proof -
    have "snd e \<longrightarrow> fst e = gone" "\<not> struck lx ly (fst e)"
      using that assms by (auto simp: tidy_def hit_any_def list_all_iff list_ex_iff)
    then show ?thesis by (cases e) (auto simp: latch_def buried_def)
  qed
  then show "map (latch lx ly) es = es" "map buried es = es" by (simp_all add: map_idI)
qed

lemma latch_twice:
  assumes "list_all (\<lambda>e. in_view (fst e)) es"
  shows "map (latch 330 441) (map (latch lx ly) es) = map buried (map (latch lx ly) es)"
  using assms by (auto simp: latch_def buried_def list_all_iff fired_safe)


definition in_order :: "bolt \<Rightarrow> fleet \<Rightarrow> fleet \<Rightarrow> fleet \<Rightarrow> bool" where
  "in_order l r1 r2 r3 \<longleftrightarrow> game_ok l r1 r2 r3 \<and> tidy (r1 @ r2 @ r3) \<and> \<not> hit_any l (r1 @ r2 @ r3)"

lemma climb_ok: "bolt_ok l \<Longrightarrow> bolt_ok (climb l)"
  by (cases l) (auto simp: bolt_ok_def climb_def)

lemma in_order_ticks:
  assumes "in_order l r1 r2 r3" "\<not> list_all snd (r1 @ r2 @ r3)"
    and k: "k = Space \<or> k = Enter"
  shows "tick k (game_at PLAY l r1 r2 r3 (boss_home, False)) = game_at PLAY l r1 r2 r3 (boss_home, False)"
    and "iterate (tick k) n (game_at PLAY l r1 r2 r3 (boss_home, False)) = game_at PLAY l r1 r2 r3 (boss_home, False)"
proof -
  obtain lx ly lym p where l: "l = (lx, ly, lym, p)" by (cases l)
  have f: "game_ok (lx, ly, lym, p) r1 r2 r3" "tidy r1" "tidy r2" "tidy r3" "\<not> hit_any (lx, ly, lym, p) r1"
    "\<not> hit_any (lx, ly, lym, p) r2" "\<not> hit_any (lx, ly, lym, p) r3" "\<not> hit_any (lx, ly, lym, p) (r1 @ r2 @ r3)"
    using assms(1) by (auto simp: in_order_def l tidy_def hit_any_def)
  show t: "tick k (game_at PLAY l r1 r2 r3 (boss_home, False)) = game_at PLAY l r1 r2 r3 (boss_home, False)"
    using tick_play [OF f(1) k] f assms(2) by (simp add: l latch_missed)
  show "iterate (tick k) n (game_at PLAY l r1 r2 r3 (boss_home, False)) = game_at PLAY l r1 r2 r3 (boss_home, False)"
    by (induction n) (simp_all add: t)
qed

text \<open>The state two cycles after the moves.\<close>

lemma settled_frame:
  assumes ok: "game_ok l r1 r2 r3" and t: "tidy (r1 @ r2 @ r3)" and a: "\<not> list_all snd (r1 @ r2 @ r3)"
  defines "q r \<equiv> map buried (map (latch (fst l) (fst (snd l))) r)"
  defines "l' \<equiv> if hit_any l (r1 @ r2 @ r3) then fired else l"
  shows "tick Space (tick Space (game_at PLAY l r1 r2 r3 (boss_home, False)))
     = game_at (if list_all snd (q r1 @ q r2 @ q r3) then BOSS_LOGO else PLAY) l' (q r1) (q r2) (q r3) (boss_home, False)"
    and "in_order l' (q r1) (q r2) (q r3)"
proof -
  obtain lx ly lym p where l: "l = (lx, ly, lym, p)" by (cases l)
  let ?L = "map (latch lx ly)"
  have f: "bolt_ok (lx, ly, lym, p)" "fleet_ok r1" "fleet_ok r2" "fleet_ok r3" "tidy r1" "tidy r2" "tidy r3"
    using ok t by (auto simp: game_ok_def l tidy_def)
  have in_view: "list_all (\<lambda>e. in_view (fst e)) r1" "list_all (\<lambda>e. in_view (fst e)) r2" "list_all (\<lambda>e. in_view (fst e)) r3"
    using f by (auto simp: fleet_ok_def)
  have L: "fleet_ok (?L r)" "\<not> hit_any fired (?L r)" "map (latch 330 441) (?L r) = q r" "fleet_ok (q r)" "\<not> hit_any fired (q r)"
    if "fleet_ok r" for r
    using that latch_twice [of r lx ly]
    by (auto simp: fleet_ok_def list_all_iff latch_def hit_any_def list_ex_iff fired_safe q_def l buried_def in_view_def struck_def)
  have all: "list_all snd (?L r1 @ ?L r2 @ ?L r3) \<longleftrightarrow> list_all snd (q r1 @ q r2 @ q r3)"
    using tidy_moves(2) [of "?L _"] by (simp add: q_def l)
  have g: "game_ok l' (?L r1) (?L r2) (?L r3)"
    using f L by (simp add: game_ok_def l'_def l bolt_ok_def)
  have first: "tick Space (game_at PLAY l r1 r2 r3 (boss_home, False)) = game_at PLAY l' (?L r1) (?L r2) (?L r3) (boss_home, False)"
    using tick_play [OF ok, of Space] a by (simp add: l'_def l)
  note second = tick_play [OF g, of Space, simplified refl simp_thms if_True, folded first, unfolded all]
  have "tick Space (tick Space (game_at PLAY l r1 r2 r3 (boss_home, False)))
     = game_at (if list_all snd (q r1 @ q r2 @ q r3) then BOSS_LOGO else PLAY) l' (q r1) (q r2) (q r3) (boss_home, False) \<and> in_order l' (q r1) (q r2) (q r3)"
  proof (cases "hit_any l (r1 @ r2 @ r3)")
    case True
    then have "l' = fired" by (simp add: l'_def)
    moreover have "tidy (q r)" for r unfolding q_def by (rule tidy_moves(1))
    moreover have "bolt_ok fired" by (simp add: bolt_ok_def)
    ultimately show ?thesis using second f(2-4) L
      by (simp add: hit_any_append in_order_def game_ok_def tidy_append del: map_map)
  next
    case False
    then have l': "l' = l" by (simp add: l'_def)
    have m: "?L r = r" "q r = r" if "r \<in> {r1, r2, r3}" for r
      using f that False latch_missed [of r lx ly lym p] by (auto simp: q_def l hit_any_def simp del: map_map)
    with l' show ?thesis using second ok t False by (simp add: in_order_def l)
  qed
  then show "tick Space (tick Space (game_at PLAY l r1 r2 r3 (boss_home, False)))
     = game_at (if list_all snd (q r1 @ q r2 @ q r3) then BOSS_LOGO else PLAY) l' (q r1) (q r2) (q r3) (boss_home, False)" "in_order l' (q r1) (q r2) (q r3)" by auto
qed


section \<open>Between the fights\<close>

definition home_row :: "int \<Rightarrow> fleet" where
  "home_row y = map (\<lambda>x. ((x, y, 1, 0), True)) [50, 100, 150, 200, 250, 300]"

abbreviation (input) aboard :: bolt where "aboard \<equiv> (327, 441, 0, False)"

lemma six:
  assumes "length es = 6"
  obtains a b c d e f where "es = [a, b, c, d, e, f]"
  using assms by (auto simp: eval_nat_numeral length_Suc_conv)

lemma row_idle:
  assumes "length es = 6" "\<forall>e\<in>set es. enemy_hit e" "of_int y = y0"
  shows "eship_row_step False False y0 False False lx ly es = fleet_at (home_row y)"
proof -
  obtain a b c d e f where "es = [a, b, c, d, e, f]" using assms(1) by (rule six)
  moreover have "enemy_step False False x0 y0 False False lx ly e = ship_at (x, y, 1, 0) True"
    if "enemy_hit e" "of_int x = x0" for x x0 e
    using that assms(3)
    by (intro enemy.equality) (simp_all add: enemy_step_def enemy_move_def place_def hit_controller_def ship_at_def detect_edge_def)
  ultimately show ?thesis using assms(2)
    by (simp add: eship_row_step_def row_xs_def fleet_at_def home_row_def)
qed

lemma laser_waits:
  "user_laser_step False False k 322 439 False False h l = bolt_at aboard"
  by (simp add: user_laser_step_def laser_at_ship_def bolt_at_def detect_edge_def)

definition logo_shown :: game where
  "logo_shown = game_at BOSS_LOGO aboard (home_row 0) (home_row 80) (home_row 160) (boss_home, False)"

lemma all_hit_score:
  assumes "length r1 = 6" "length r2 = 6" "length r3 = 6" "list_all snd (r1 @ r2 @ r3)"
  shows "score (game_at sc l r1 r2 r3 (s, h)) = (if h then 0x13 else 0x12)"
proof -
  let ?g = "game_at sc l r1 r2 r3 (s, h)"
  have r: "rows_ok ?g" using assms by (simp add: rows_ok_def fleet_at_enemies)
  have e: "\<forall>e\<in>set (enemies ?g). enemy_hit e" using assms(4) by (simp add: enemies_def ball_Un fleet_at_enemies)
  show ?thesis using score_all(1) [OF r] score_boss [OF r e] e by (cases h) simp_all
qed

lemma tick_logo:
  assumes "length r1 = 6" "length r2 = 6" "length r3 = 6" "list_all snd (r1 @ r2 @ r3)" "k = Space \<or> k = Enter"
  shows "tick k (game_at BOSS_LOGO l r1 r2 r3 (s, False)) = logo_shown\<lparr>screen := if k = Enter then BOSS_FIGHT else BOSS_LOGO\<rparr>"
    and "tock Space (game_at BOSS_LOGO l r1 r2 r3 (s, False)) = logo_shown"
proof -
  let ?g = "game_at BOSS_LOGO l r1 r2 r3 (s, False)"
  have f: "\<not> died ?g" "score ?g = 0x12" "laser_hit ?g \<longleftrightarrow> False"
    using all_hit_score [OF assms(1-4)] by (simp_all add: died_def enemy_gameover_def list_ex_iff laser_hit_def enemy_laser_hit_def)
  have r: "length (fleet_at r1) = 6" "length (fleet_at r2) = 6" "length (fleet_at r3) = 6"
    "\<forall>e\<in>set (fleet_at r1). enemy_hit e" "\<forall>e\<in>set (fleet_at r2). enemy_hit e" "\<forall>e\<in>set (fleet_at r3). enemy_hit e"
    using assms fleet_at_enemies by simp_all
  show "tick k ?g = logo_shown\<lparr>screen := if k = Enter then BOSS_FIGHT else BOSS_LOGO\<rparr>"
    unfolding tick_def low_edges logo_shown_def using assms(5) f r
    by (intro game.equality) (auto simp: game_step_def Let_def finished_def signal_controller_def ship_waits parked_fields
        laser_waits boss_at_home row_idle)
  show "tock Space ?g = logo_shown"
    unfolding tock_def logo_shown_def using f r
    by (intro game.equality) (simp_all add: game_step_def Let_def finished_def signal_controller_def ship_waits parked_fields
        laser_waits boss_at_home row_idle)
qed

lemma logo_stays:
  "tick Space logo_shown = logo_shown" "iterate (tick Space) n logo_shown = logo_shown" "set_edges low logo_shown = logo_shown"
  "tock Space logo_shown = logo_shown"
proof -
  have h: "length (home_row y) = 6" "list_all snd (home_row y)" for y by (simp_all add: home_row_def)
  show t: "tick Space logo_shown = logo_shown" "tock Space logo_shown = logo_shown"
    using tick_logo [of "home_row 0" "home_row 80" "home_row 160" Space] h
    by (simp_all add: logo_shown_def)
  show "iterate (tick Space) n logo_shown = logo_shown" by (induction n) (simp_all add: t)
  show "set_edges low logo_shown = logo_shown" by (simp add: logo_shown_def low_edges)
qed

section \<open>The first fight\<close>

definition in_play :: "bolt \<times> fleet \<times> fleet \<times> fleet \<Rightarrow> game" where
  "in_play c = (case c of (l, r1, r2, r3) \<Rightarrow> game_at PLAY l r1 r2 r3 (boss_home, False))"

text \<open>One frame in integers; nothing if a ship gets too low.\<close>

definition salvo :: "bolt \<times> fleet \<times> fleet \<times> fleet \<Rightarrow> (bolt \<times> fleet \<times> fleet \<times> fleet) option" where
  "salvo c = (case c of (l, r1, r2, r3) \<Rightarrow> case climb l of (lx, ly, lym, p) \<Rightarrow>
     case (pass lx ly r1, pass lx ly r2, pass lx ly r3) of ((h1, v1, s1), (h2, v2, s2), (h3, v3, s3)) \<Rightarrow>
       if v1 \<and> v2 \<and> v3 then Some (if h1 \<or> h2 \<or> h3 then fired else (lx, ly, lym, p), s1, s2, s3) else None)"

definition beaten :: "bolt \<times> fleet \<times> fleet \<times> fleet \<Rightarrow> bool" where
  "beaten c = (case c of (l, r1, r2, r3) \<Rightarrow> list_all snd r1 \<and> list_all snd r2 \<and> list_all snd r3)"

fun volley :: "nat \<Rightarrow> bolt \<times> fleet \<times> fleet \<times> fleet \<Rightarrow> (bolt \<times> fleet \<times> fleet \<times> fleet) option" where
  "volley 0 c = Some c"
| "volley (Suc n) c = (if beaten c then None else case salvo c of None \<Rightarrow> None | Some c' \<Rightarrow> volley n c')"

definition prepared :: "bolt \<times> fleet \<times> fleet \<times> fleet \<Rightarrow> bool" where
  "prepared c = (case c of (l, r1, r2, r3) \<Rightarrow> in_order l r1 r2 r3)"

lemma frame_play:
  assumes r: "prepared c" and a: "\<not> beaten c" and f: "full_frame f" and s: "salvo c = Some c'"
  shows "fold game_clock (frame_cycles Space f) (in_play c) = (if beaten c' then logo_shown else in_play c')"
    and "prepared c'"
proof -
  obtain l r1 r2 r3 where c: "c = (l, r1, r2, r3)" by (cases c)
  obtain lx ly lym p where l: "climb l = (lx, ly, lym, p)" by (cases "climb l")
  have ok: "in_order l r1 r2 r3" "bolt_ok l" "fleet_ok r1" "fleet_ok r2" "fleet_ok r3" "tidy r1" "tidy r2" "tidy r3"
    using r by (auto simp: prepared_def c in_order_def game_ok_def tidy_append)
  have l_ok: "bolt_ok (lx, ly, lym, p)" using climb_ok [OF ok(2)] l by simp
  define m :: "fleet \<Rightarrow> fleet" where "m = map advance"
  define q where "q r = map buried (map (latch lx ly) (m r))" for r
  have passes: "pass lx ly r = (hit_any (lx, ly, lym, p) (m r), list_all (\<lambda>e. in_view (fst e)) (m r), q r)" if "tidy r" for r
    using pass_moves [OF that l_ok] by (simp add: m_def q_def)
  define l' where "l' = (if hit_any (lx, ly, lym, p) (m r1 @ m r2 @ m r3) then fired else (lx, ly, lym, p))"
  have in_view: "list_all (\<lambda>e. in_view (fst e)) (m r1)" "list_all (\<lambda>e. in_view (fst e)) (m r2)" "list_all (\<lambda>e. in_view (fst e)) (m r3)"
    and c': "c' = (l', q r1, q r2, q r3)"
    using s ok(6-8) by (auto simp: salvo_def c l passes hit_any_append l'_def split: if_splits)
  have alive: "\<not> list_all snd (r1 @ r2 @ r3)" using a by (auto simp: beaten_def c)
  have tidy: "tidy (m r)" if "tidy r" for r
    using that by (auto simp: tidy_def m_def advance_def list_all_iff)
  have m_ok: "game_ok (lx, ly, lym, p) (m r1) (m r2) (m r3)" "tidy (m r1 @ m r2 @ m r3)" "\<not> list_all snd (m r1 @ m r2 @ m r3)"
    using ok l_ok in_view tidy alive by (simp_all add: game_ok_def fleet_ok_def tidy_append tidy_moves m_def)
  have settled: "tick Space (tick Space (in_play ((lx, ly, lym, p), m r1, m r2, m r3)))
      = (if beaten c' then game_at BOSS_LOGO l' (q r1) (q r2) (q r3) (boss_home, False) else in_play c')"
    and in_order: "in_order l' (q r1) (q r2) (q r3)"
    using settled_frame [OF m_ok] by (simp_all add: q_def l'_def in_play_def c' beaten_def del: map_map)
  then show p': "prepared c'" by (simp add: c' prepared_def)
  have moved: "tock Space (tick Space (in_play c)) = in_play ((lx, ly, lym, p), m r1, m r2, m r3)"
    using in_order_ticks(1) [OF ok(1) alive, of Space] tock_play [of l r1 r2 r3] ok(1) alive
    by (simp add: in_play_def c l m_def in_order_def)
  obtain n where n: "fst f + snd f - 2 = Suc (Suc (Suc n))"
    using full_frame_ticks [OF f] by blast
  have q6: "length (q r1) = 6" "length (q r2) = 6" "length (q r3) = 6"
    using in_order by (simp_all add: in_order_def game_ok_def fleet_ok_def)
  have edges: "set_edges low (in_play c) = in_play c" by (simp add: in_play_def c low_edges)
  have "fold game_clock (frame_cycles Space f) (in_play c) = set_edges low (iterate (tick Space) (Suc n) (tick Space (tick Space
      (in_play ((lx, ly, lym, p), m r1, m r2, m r3)))))"
    using frame_runs [OF f, of Space "in_play c"] by (simp add: n moved edges)
  also have "\<dots> = (if beaten c' then logo_shown else in_play c')"
  proof (cases "beaten c'")
    case True
    then have "tick Space (game_at BOSS_LOGO l' (q r1) (q r2) (q r3) (boss_home, False)) = logo_shown"
      using tick_logo(1) [OF q6, of Space] by (simp add: beaten_def c' logo_shown_def game_at_def)
    with True show ?thesis by (simp add: settled logo_stays low_edges logo_shown_def [symmetric]) 
  next
    case False
    then show ?thesis using in_order_ticks(2) [OF in_order, of Space "Suc n"] 
      by (simp add: settled) (simp add: in_play_def c' beaten_def low_edges)
  qed
  finally show "fold game_clock (frame_cycles Space f) (in_play c) = (if beaten c' then logo_shown else in_play c')" .
qed

definition after_volley :: "bolt \<times> fleet \<times> fleet \<times> fleet \<Rightarrow> game" where
  "after_volley c = (if beaten c then logo_shown else in_play c)"

lemma hold_Cons: "fold game_clock (hold k (f # fs)) g = fold game_clock (hold k fs) (fold game_clock (frame_cycles k f) g)"
  by (simp add: hold_def)

lemma volley_frames:
  "volley n c = Some c' \<Longrightarrow> prepared c \<Longrightarrow> list_all full_frame fs \<Longrightarrow> length fs = n \<Longrightarrow>
   fold game_clock (hold Space fs) (after_volley c) = after_volley c'"
proof (induction n arbitrary: c fs)
  case (Suc n)
  then obtain d where d: "\<not> beaten c" "salvo c = Some d" "volley n d = Some c'"
    by (auto split: if_splits option.splits)
  obtain f fs' where fs: "fs = f # fs'" using Suc.prems(4) by (cases fs) auto
  have f: "full_frame f" "list_all full_frame fs'" "length fs' = n" using Suc.prems fs by auto
  note frame = frame_play [OF Suc.prems(2) d(1) f(1) d(2)]
  from frame(1) d(1) have "fold game_clock (frame_cycles Space f) (after_volley c) = after_volley d"
    by (simp add: after_volley_def)
  with Suc.IH [OF d(3) frame(2) f(2,3)] show ?case by (simp add: fs hold_Cons)
qed (simp add: hold_def)

lemma logo_frames: "list_all full_frame fs \<Longrightarrow> fold game_clock (hold Space fs) logo_shown = logo_shown"
proof (induction fs)
  case (Cons f fs)
  then have "fold game_clock (frame_cycles Space f) logo_shown = logo_shown"
    using frame_runs [of f Space logo_shown] by (simp add: logo_stays)
  with Cons show ?case by (simp add: hold_Cons)
qed (simp add: hold_def)

section \<open>The fight with the boss\<close>

definition boss_fly :: "u8 \<Rightarrow> flyer \<Rightarrow> flyer" where
  "boss_fly k s = (case s of (x, y, xm, ym) \<Rightarrow>
     if 609 \<le> x then (x + xm, y + ym, - 5, 10)
     else if x \<le> 1 then (x + xm, y + ym, 5, 10)
     else if k = Space then (x + xm, y + ym, - xm, 2)
     else (x + xm, y + ym, xm, 0))"

text \<open>The shot hits the boss within so many frames.\<close>

fun duel :: "nat \<Rightarrow> bolt \<Rightarrow> flyer \<Rightarrow> bool" where
  "duel 0 l s = False"
| "duel (Suc n) l s = (case (climb l, boss_fly Space s) of ((lx, ly, lym, p), s') \<Rightarrow>
     in_view s' \<and> (if struck lx ly s' then True else duel n (lx, ly, lym, p) s'))"

definition boss_game :: "bolt \<Rightarrow> flyer \<Rightarrow> bool \<Rightarrow> game" where
  "boss_game l s h = game_at BOSS_FIGHT l (home_row 0) (home_row 80) (home_row 160) (s, h)"

lemma boss_game_low: "set_edges low (boss_game l s h) = boss_game l s h"
  by (simp add: boss_game_def low_edges)

lemma home_row_simps [simp]: "length (home_row y) = 6" "list_all snd (home_row y)" "length (fleet_at (home_row y)) = 6"
  "\<forall>e\<in>set (fleet_at (home_row y)). enemy_hit e"
  by (simp_all add: home_row_def fleet_at_def)

lemma boss_wires:
  assumes "in_view s" "bolt_ok l"
  shows "\<not> died (boss_game l s h)" "score (boss_game l s h) = (if h then 0x13 else 0x12)"
    "laser_hit (boss_game l s h) \<longleftrightarrow> struck (fst l) (fst (snd l)) s"
proof -
  obtain x y xm ym where s: "s = (x, y, xm, ym)" by (cases s)
  obtain lx ly lym p where l: "l = (lx, ly, lym, p)" by (cases l)
  have "hit_test (of_int lx) (of_int ly) (of_int x) (of_int y) = struck lx ly (x, y, xm, ym)"
    using hit_test_int assms by (simp add: s l)
  then show "laser_hit (boss_game l s h) \<longleftrightarrow> struck (fst l) (fst (snd l)) s"
    by (simp add: boss_game_def laser_hit_def enemy_laser_hit_def list_ex_iff l) (simp add: ship_at_def s)
  show "\<not> died (boss_game l s h)"
    using at_bottom_int [OF assms(1)] by (simp add: boss_game_def died_def enemy_gameover_def list_ex_iff)
  show "score (boss_game l s h) = (if h then 0x13 else 0x12)"
    by (simp add: boss_game_def all_hit_score)
qed

lemma boss_ship_tick:
  assumes "in_view s" "bolt_ok (lx, ly, lym, p)"
  shows "boss_step False False k True False (of_int lx) (of_int ly) (ship_at s False) = ship_at s (struck lx ly s)"
    and "\<not> struck lx ly s \<Longrightarrow> boss_step False False k True False (of_int lx) (of_int ly) ((ship_at s False)\<lparr>e_edge := edges True True\<rparr>)
      = ship_at (boss_fly k s) False"
proof -
  obtain x y xm ym where s: "s = (x, y, xm, ym)" by (cases s)
  have h: "hit_test (of_int lx) (of_int ly) (of_int x) (of_int y) = struck lx ly (x, y, xm, ym)"
    using hit_test_int assms by (simp add: s)
  then show "boss_step False False k True False (of_int lx) (of_int ly) (ship_at s False) = ship_at s (struck lx ly s)"
    using at_bottom_int [OF assms(1), of False]
    by (simp add: s boss_step_def boss_move_def hit_controller_boss_def ship_at_def detect_edge_def place_def)
  assume "\<not> struck lx ly s"
  with h assms(1) show "boss_step False False k True False (of_int lx) (of_int ly) ((ship_at s False)\<lparr>e_edge := edges True True\<rparr>)
      = ship_at (boss_fly k s) False"
    by (simp add: s boss_step_def boss_move_def hit_controller_boss_def ship_at_def detect_edge_def place_def boss_fly_def
        boss_motion_def at_bottom_def in_view_def coord_bounds not_eq_complement)
qed

lemma tick_boss:
  assumes "in_view s" "bolt_ok l" "k = Space \<or> k = Enter"
  shows "tick k (boss_game l s False) = boss_game (if struck (fst l) (fst (snd l)) s then (330, 441, - 4, k = Space) else l) s
       (struck (fst l) (fst (snd l)) s)"
proof -
  obtain lx ly lym p where l: "l = (lx, ly, lym, p)" by (cases l)
  note w = boss_wires [OF assms(1,2), of False, unfolded boss_game_def]
  have b: "bolt_ok (lx, ly, lym, p)" using assms(2) l by simp
  show ?thesis
    unfolding tick_def boss_game_def low_edges using w boss_ship_tick(1) [OF assms(1) b]
    by (intro game.equality) (simp_all add: game_step_def Let_def finished_def signal_controller_def ship_waits [OF assms(3)]
        parked_fields laser_without_edge row_idle l)
qed

lemma tock_boss:
  assumes "in_view s" "bolt_ok l" "\<not> struck (fst l) (fst (snd l)) s" "k = Space \<or> k = Enter \<and> l = aboard"
  shows "tock k (boss_game l s False) = boss_game (if k = Space then climb l else aboard) (boss_fly k s) False"
proof -
  obtain lx ly lym p where l: "l = (lx, ly, lym, p)" by (cases l)
  note w = boss_wires [OF assms(1,2), of False, unfolded boss_game_def]
  have b: "bolt_ok (lx, ly, lym, p)" "\<not> struck lx ly s" "k = Space \<or> k = Enter" using assms l by auto
  have "user_laser_step False False k 322 439 False True False ((bolt_at l)\<lparr>l_edge := edges True True\<rparr>)
      = bolt_at (if k = Space then climb l else aboard)"
    using tock_bolt [OF assms(2), of True] assms(4)
    by (auto simp: user_laser_step_def laser_frame_def laser_at_ship_def bolt_at_def detect_edge_def)
  then show ?thesis
    unfolding tock_def boss_game_def using w boss_ship_tick(2) [OF assms(1) b(1,2)] assms(3)
    by (intro game.equality) (simp_all add: game_step_def Let_def finished_def signal_controller_def ship_waits [OF b(3)]
        parked_fields row_idle l)
qed

lemma screen_tick: "screen (tick k g) = next_screen k (died g) (score g = 0x12) (score g = 0x13) (screen g)"
  by (simp add: tick_def signal_controller_def)

lemma win_ticks: "screen g = WIN \<Longrightarrow> screen (iterate (tick Space) n g) = WIN"
  by (induction n arbitrary: g) (simp_all add: screen_tick)

lemma win_stays: "screen g = WIN \<Longrightarrow> screen (fold game_clock (hold Space fs) g) = WIN"
proof -
  have c: "screen g = WIN \<Longrightarrow> screen (fold game_clock (replicate n (False, v, Space)) g) = WIN" for n v g
    by (induction n arbitrary: g) (simp_all add: signal_controller_def del: fold_replicate)
  show "screen g = WIN \<Longrightarrow> screen (fold game_clock (hold Space fs) g) = WIN"
    by (induction fs arbitrary: g) (simp_all add: hold_def frame_cycles_def c del: fold_replicate)
qed

lemma frame_boss:
  assumes "in_view s" "bolt_ok l" "\<not> struck (fst l) (fst (snd l)) s" "full_frame f"
    and k: "k = Space \<or> k = Enter \<and> l = aboard"
    and l': "l' = (if k = Space then climb l else aboard)" and s': "s' = boss_fly k s" "in_view s'"
  shows "\<not> struck (fst l') (fst (snd l')) s' \<Longrightarrow> fold game_clock (frame_cycles k f) (boss_game l s False) = boss_game l' s' False"
    and "k = Space \<Longrightarrow> struck (fst l') (fst (snd l')) s' \<Longrightarrow> screen (fold game_clock (frame_cycles k f) (boss_game l s False)) = WIN"
proof -
  obtain n where n: "fst f + snd f - 2 = Suc (Suc (Suc n))" using full_frame_ticks [OF assms(4)] by blast
  have ok: "bolt_ok l'" using climb_ok [OF assms(2)] by (simp add: l' bolt_ok_def)
  have k': "k = Space \<or> k = Enter" using k by blast
  have first: "fold game_clock (frame_cycles k f) (boss_game l s False)
      = set_edges low (iterate (tick k) (Suc (Suc (Suc n))) (boss_game l' s' False))"
    using frame_runs [OF assms(4), of k "boss_game l s False"] tick_boss [OF assms(1,2) k'] tock_boss [OF assms(1-3) k] assms(3)
    by (simp add: n l' s'(1) boss_game_low)
  note t = tick_boss [OF s'(2) ok k']
  { assume "\<not> struck (fst l') (fst (snd l')) s'"
    then have "iterate (tick k) m (boss_game l' s' False) = boss_game l' s' False" for m
      by (induction m) (simp_all add: t)
    with first show "fold game_clock (frame_cycles k f) (boss_game l s False) = boss_game l' s' False"
      by (simp only: boss_game_low) }
  assume h: "k = Space" "struck (fst l') (fst (snd l')) s'"
  have "bolt_ok fired" by (simp add: bolt_ok_def)
  then have "screen (tick Space (boss_game fired s' True)) = WIN"
    using boss_wires [OF s'(2), of fired True] by (simp add: screen_tick) (simp add: boss_game_def)
  with h t win_ticks [of "tick Space (boss_game fired s' True)" "Suc n"] show "screen (fold game_clock (frame_cycles k f) (boss_game l s False)) = WIN"
    by (simp add: first [unfolded h(1)])
qed

lemma duel_frames:
  "duel n l s \<Longrightarrow> in_view s \<Longrightarrow> bolt_ok l \<Longrightarrow> \<not> struck (fst l) (fst (snd l)) s \<Longrightarrow> list_all full_frame fs \<Longrightarrow>
   n \<le> length fs \<Longrightarrow> screen (fold game_clock (hold Space fs) (boss_game l s False)) = WIN"
proof (induction n arbitrary: l s fs)
  case (Suc n)
  obtain f fs' where fs: "fs = f # fs'" "full_frame f" "list_all full_frame fs'" "n \<le> length fs'"
    using Suc.prems(5,6) by (cases fs) auto
  obtain lx ly lym p where l: "climb l = (lx, ly, lym, p)" by (cases "climb l")
  define s' where "s' = boss_fly Space s"
  have v: "in_view s'" and d: "struck lx ly s' \<or> duel n (lx, ly, lym, p) s'"
    using Suc.prems(1) by (auto simp: l s'_def split: if_splits)
  note frame = frame_boss [OF Suc.prems(2-4) fs(2), of Space "climb l" s', simplified l fst_conv snd_conv]
  show ?case
  proof (cases "struck lx ly s'")
    case True
    then have "screen (fold game_clock (frame_cycles Space f) (boss_game l s False)) = WIN"
      using frame(2) v s'_def by simp
    then show ?thesis by (simp add: fs hold_Cons win_stays)
  next
    case False
    have "fold game_clock (frame_cycles Space f) (boss_game l s False) = boss_game (lx, ly, lym, p) s' False"
      using frame(1) v s'_def False by simp
    moreover have "bolt_ok (lx, ly, lym, p)" using climb_ok [OF Suc.prems(3)] l by simp
    ultimately show ?thesis using Suc.IH [of "(lx, ly, lym, p)" s' fs'] d v False fs by (simp add: hold_Cons)
  qed
qed simp

section \<open>The start\<close>

definition start_row :: "int \<Rightarrow> int \<Rightarrow> fleet" where
  "start_row d y = map (\<lambda>x. ((x + d, y, 1, 0), False)) [50, 100, 150, 200, 250, 300]"

definition start_game :: game where
  "start_game = (game_at START (320, 479, 0, False) (start_row 0 0) (start_row 0 80) (start_row 0 160) (boss_home, False))
     \<lparr>ship := \<lparr>us_edge = low, User_Ship_X_Pos = 320, User_Ship_Y_Pos = 439, User_Ship_X_Motion = 2, User_Ship_Y_Motion = 0\<rparr>\<rparr>"

lemma reset_starts:
  assumes "power_up g"
  shows "game_step True False k g = start_game"
proof -
  have row: "eship_row_step True False (of_int y) p fin lx ly es = fleet_at (start_row 0 y)" if e: "length es = 6" for y p fin lx ly es
  proof -
    obtain a b c d e f where "es = [a, b, c, d, e, f]" using e by (rule six)
    then show ?thesis
      by (simp add: eship_row_step_def row_xs_def fleet_at_def start_row_def enemy_step_def place_def hit_controller_def
          ship_at_def detect_edge_def)
  qed
  show ?thesis
    using assms row [of _ 0] row [of _ 80] row [of _ 160] unfolding start_game_def power_up_def
    by (intro game.equality) (simp_all add: game_step_def Let_def signal_controller_def user_ship_step_def
        user_laser_step_def detect_edge_def bolt_at_def boss_step_def place_def hit_controller_boss_def ship_at_def)
qed

definition first_frame :: "bolt \<times> fleet \<times> fleet \<times> fleet" where
  "first_frame = ((325, 441, 0, False), start_row 1 0, start_row 1 80, start_row 1 160)"

lemma enter_starts:
  "tick Enter start_game = start_game\<lparr>screen := PLAY, ulaser := bolt_at (325, 441, 0, False)\<rparr>" (is ?t1)
  "tock Enter (start_game\<lparr>screen := PLAY, ulaser := bolt_at (325, 441, 0, False)\<rparr>) = in_play first_frame" (is ?t2)
  "set_edges low start_game = start_game"
proof -
  note defs = start_game_def game_at_def start_row_def fleet_at_def ship_at_def bolt_at_def set_edges_def parked_def
    first_frame_def in_play_def
  show ?t1 unfolding tick_def by (simp add: defs) code_simp
  show ?t2 unfolding tock_def by (simp add: defs) code_simp
  show "set_edges low start_game = start_game" by (simp add: defs)
qed

section \<open>The whole run\<close>

text \<open>The first fight in four parts, each computed from one listed state to the next.\<close>

definition after_800 :: "bolt \<times> fleet \<times> fleet \<times> fleet" where
  "after_800 =
    ((330, 349, - 4, True),
     [((369, 30, - 1, 0), False), ((319, 30, - 1, 0), False), ((269, 30, - 1, 0), False), ((219, 30, - 1, 0), False), ((169, 30, - 1, 0), False), ((119, 30, - 1, 0), False)],
     [((369, 110, - 1, 0), False), ((319, 110, - 1, 0), False), ((639, 0, 0, 0), True), ((219, 110, - 1, 0), False), ((639, 0, 0, 0), True), ((639, 0, 0, 0), True)],
     [((639, 0, 0, 0), True), ((639, 0, 0, 0), True), ((639, 0, 0, 0), True), ((639, 0, 0, 0), True), ((639, 0, 0, 0), True), ((119, 190, - 1, 0), False)])"

definition after_1600 :: "bolt \<times> fleet \<times> fleet \<times> fleet" where
  "after_1600 =
    ((330, 21, - 4, True),
     [((639, 0, 0, 0), True), ((481, 60, 1, 0), False), ((639, 0, 0, 0), True), ((581, 60, 1, 0), False), ((589, 90, - 1, 0), False), ((539, 90, - 1, 0), False)],
     [((639, 0, 0, 0), True), ((481, 140, 1, 0), False), ((639, 0, 0, 0), True), ((639, 0, 0, 0), True), ((639, 0, 0, 0), True), ((639, 0, 0, 0), True)],
     [((639, 0, 0, 0), True), ((639, 0, 0, 0), True), ((639, 0, 0, 0), True), ((639, 0, 0, 0), True), ((639, 0, 0, 0), True), ((639, 0, 0, 0), True)])"

definition after_2400 :: "bolt \<times> fleet \<times> fleet \<times> fleet" where
  "after_2400 =
    ((330, 157, - 4, True),
     [((639, 0, 0, 0), True), ((61, 120, 1, 0), False), ((639, 0, 0, 0), True), ((161, 120, 1, 0), False), ((639, 0, 0, 0), True), ((639, 0, 0, 0), True)],
     [((639, 0, 0, 0), True), ((61, 200, 1, 0), False), ((639, 0, 0, 0), True), ((639, 0, 0, 0), True), ((639, 0, 0, 0), True), ((639, 0, 0, 0), True)],
     [((639, 0, 0, 0), True), ((639, 0, 0, 0), True), ((639, 0, 0, 0), True), ((639, 0, 0, 0), True), ((639, 0, 0, 0), True), ((639, 0, 0, 0), True)])"

definition all_gone :: "bolt \<times> fleet \<times> fleet \<times> fleet" where
  "all_gone =
    ((330, 441, - 4, True),
     [((639, 0, 0, 0), True), ((639, 0, 0, 0), True), ((639, 0, 0, 0), True), ((639, 0, 0, 0), True), ((639, 0, 0, 0), True), ((639, 0, 0, 0), True)],
     [((639, 0, 0, 0), True), ((639, 0, 0, 0), True), ((639, 0, 0, 0), True), ((639, 0, 0, 0), True), ((639, 0, 0, 0), True), ((639, 0, 0, 0), True)],
     [((639, 0, 0, 0), True), ((639, 0, 0, 0), True), ((639, 0, 0, 0), True), ((639, 0, 0, 0), True), ((639, 0, 0, 0), True), ((639, 0, 0, 0), True)])"

lemma volley_800: "volley 800 first_frame = Some after_800" by code_simp
lemma volley_1600: "volley 800 after_800 = Some after_1600" by code_simp
lemma volley_2400: "volley 800 after_1600 = Some after_2400" by code_simp
lemma volley_3211: "volley 811 after_2400 = Some all_gone" by code_simp

lemma volley_add: "volley m c = Some d \<Longrightarrow> volley (m + n) c = volley n d"
  by (induction m arbitrary: c) (auto split: if_splits option.splits)

lemma first_fight: "volley 3211 first_frame = Some all_gone"
  using volley_add [OF volley_800, of 2411] volley_add [OF volley_1600, of 1611] volley_add [OF volley_2400, of 811]
    volley_3211 by simp

lemma second_fight: "duel 71 aboard (325, 0, 5, 0)"
  by code_simp

lemma first_frame_prepared: "prepared first_frame" "\<not> beaten first_frame" "beaten all_gone"
  by (simp_all add: prepared_def in_order_def first_frame_def game_ok_def bolt_ok_def fleet_ok_def start_row_def in_view_def
      tidy_def hit_any_def struck_def beaten_def all_gone_def)

lemma enter_frame:
  assumes "full_frame f"
  shows "fold game_clock (frame_cycles Enter f) start_game = after_volley first_frame"
proof -
  have p: "iterate (tick Enter) n (in_play first_frame) = in_play first_frame" "set_edges low (in_play first_frame) = in_play first_frame" for n
    using first_frame_prepared(1,2) in_order_ticks(2) [where k = Enter]
    by (auto simp: prepared_def beaten_def in_play_def first_frame_def low_edges)
  show ?thesis
    using frame_runs [OF assms, of Enter start_game] first_frame_prepared(2)
    by (simp add: enter_starts p after_volley_def)
qed

lemma enter_boss:
  assumes "full_frame f"
  shows "fold game_clock (frame_cycles Enter f) logo_shown = boss_game aboard (325, 0, 5, 0) False"
proof -
  let ?b = "boss_game aboard (325, 0, 5, 0) False"
  have v: "in_view boss_home" "in_view (325, 0, 5, 0)" "bolt_ok aboard" "\<not> struck 327 441 boss_home"
    "\<not> struck 327 441 (325, 0, 5, 0)"
    by (simp_all add: in_view_def bolt_ok_def struck_def)
  have "tick Enter logo_shown = boss_game aboard boss_home False"
    using tick_logo(1) [of "home_row 0" "home_row 80" "home_row 160" Enter aboard boss_home]
    by (simp add: logo_shown_def boss_game_def game_at_def)
  moreover have "tock Enter (boss_game aboard boss_home False) = ?b"
    using tock_boss [OF v(1,3), of Enter] v(4) by (simp add: boss_fly_def)
  moreover have "iterate (tick Enter) n ?b = ?b" for n
    by (induction n) (simp_all add: tick_boss [OF v(2,3)] v(5))
  ultimately show ?thesis
    using frame_runs [OF assms, of Enter logo_shown] by (simp add: logo_stays boss_game_low)
qed

lemma hold_append: "hold k (xs @ ys) = hold k xs @ hold k ys"
  by (simp add: hold_def)

text \<open>
  Claim C5. Holding the space key wins: from power-up, after the reset, one frame with enter, at least
  3211 with space, one with enter and at least 71 with space, the game shows the winning screen,
  however many cycles the frames have.
\<close>

theorem holding_space_wins:
  assumes "power_up g" "full_frame e" "full_frame e'" "list_all full_frame ss" "list_all full_frame ss'"
    and "3211 \<le> length ss" "71 \<le> length ss'"
  shows "screen (after_reset False k (frame_cycles Enter e @ hold Space ss @ frame_cycles Enter e' @ hold Space ss') g) = WIN"
proof -
  have "list_all full_frame (take 3211 ss)" "list_all full_frame (drop 3211 ss)" "length (take 3211 ss) = 3211"
    using assms(4,6) by (auto simp: list_all_iff dest: in_set_takeD in_set_dropD)
  then have "fold game_clock (hold Space (take 3211 ss @ drop 3211 ss)) (after_volley first_frame) = logo_shown"
    using volley_frames [OF first_fight first_frame_prepared(1), of "take 3211 ss"] logo_frames [of "drop 3211 ss"] first_frame_prepared(3)
    by (simp add: hold_append after_volley_def del: append_take_drop_id)
  then have "fold game_clock (hold Space ss) (after_volley first_frame) = logo_shown" by simp
  moreover have "screen (fold game_clock (hold Space ss') (boss_game aboard (325, 0, 5, 0) False)) = WIN"
    using assms(5,7) by (intro duel_frames [OF second_fight]) (simp_all add: in_view_def bolt_ok_def struck_def)
  ultimately show ?thesis
    using reset_starts [OF assms(1)] enter_frame [OF assms(2)] enter_boss [OF assms(3)]
    by (simp add: after_reset_def)
qed

theorem holding_space_wins_witness:
  "screen (after_reset False 0 (frame_cycles Enter (4, 2) @ hold Space (replicate 3211 (4, 2)) @ frame_cycles Enter (4, 2)
     @ hold Space (replicate 71 (4, 2))) demo_game) = WIN"
  by (rule holding_space_wins) (simp_all add: demo_power_up full_frame_def list_all_iff)

end
