(* ===== verification/GameEnds.thy ===== *)
theory GameEnds
  imports GameRun
begin

text \<open>
  The game ends: each of its two fights is over after a bounded number of frames, for every player and
  every length of the frames. In the first fight an enemy that is not hit follows one fixed way
  (\<open>orbit\<close>), which all enemies share, each entering it at its own place, and which reaches the bottom
  with frame 8492. The boss has no fixed way, since the space key turns it, but each frame takes it nearer
  to the next turn or down. At 60 frames a second the bounds are 142 and 468 seconds.
\<close>

section \<open>Frames in any sequence of cycles\<close>

text \<open>The number of rising edges of the frame clock in a sequence of cycles.\<close>

fun frame_starts :: "cycle_input list \<Rightarrow> nat" where
  "frame_starts (i # j # is) = (if \<not> fst (snd i) \<and> fst (snd j) then 1 else 0) + frame_starts (j # is)"
| "frame_starts is = 0"

text \<open>The cycles in which a detector that starts in state \<open>d\<close> reports a frame.\<close>

fun rises :: "edge_detector \<Rightarrow> cycle_input list \<Rightarrow> nat" where
  "rises d [] = 0"
| "rises d (i # is) = (if frame_clk_rising_edge d then 1 else 0) + rises (detect_edge (fst (snd i)) d) is"

lemma starts_rise: "frame_starts is \<le> Suc (rises d is)"
proof -
  have c: "frame_clk_delayed e = fst (snd i) \<Longrightarrow>
      frame_starts (i # js) + (if frame_clk_rising_edge e then 1 else 0) \<le> Suc (rises e js)" for i js and e :: edge_detector
  proof (induction js arbitrary: i e)
    case (Cons j js)
    show ?case using Cons.IH [of "detect_edge (fst (snd j)) e" j] Cons.prems
      by (auto simp: detect_edge_def split: if_splits)
  qed simp
  show ?thesis
  proof (cases "is")
    case (Cons j js)
    then show ?thesis using c [of "detect_edge (fst (snd j)) d" j js] by (auto simp: detect_edge_def split: if_splits)
  qed simp
qed

section \<open>The way of an enemy\<close>

text \<open>Where an enemy is after \<open>n\<close> frames that starts in the upper left place.\<close>

definition orbit :: "nat \<Rightarrow> flyer" where
  "orbit n = iterate fly n (50, 0, 1, 0)"

definition on_orbit :: "int \<Rightarrow> nat \<Rightarrow> enemy \<Rightarrow> bool" where
  "on_orbit y0 n e = (case orbit n of (x, y, xm, ym) \<Rightarrow>
     y0 + y \<le> 418 \<and> X_Pos e = of_int x \<and> Y_Pos e = of_int (y0 + y) \<and> X_Motion e = of_int xm \<and> Y_Motion e = of_int ym)"

definition flying :: "flyer \<Rightarrow> bool" where
  "flying s = (case s of (x, y, xm, ym) \<Rightarrow>
     (xm = 1 \<or> xm = - 1) \<and> (ym = 0 \<or> ym = 10) \<and> 0 \<le> x \<and> x \<le> 610 \<and> (x = 0 \<longrightarrow> xm = 1) \<and> (x = 610 \<longrightarrow> xm = - 1) \<and> 0 \<le> y)"

lemma orbit_Suc: "orbit (Suc n) = fly (orbit n)"
  by (simp add: orbit_def iterate_Suc_right del: iterate.simps)

lemma flying_orbit: "flying (orbit n)"
proof (induction n)
  case (Suc n)
  have "flying s \<Longrightarrow> flying (fly s)" for s by (cases s) (auto simp: flying_def fly_def)
  with Suc show ?case by (simp add: orbit_Suc)
qed (simp add: orbit_def flying_def)

lemma orbit_sinks: "fst (snd (orbit n)) \<le> fst (snd (orbit (n + m)))"
proof (induction m)
  case (Suc m)
  have "flying s \<Longrightarrow> fst (snd s) \<le> fst (snd (fly s))" for s by (cases s) (auto simp: flying_def fly_def)
  from this [OF flying_orbit [of "n + m"]] Suc show ?case by (simp add: orbit_Suc)
qed simp

lemma orbit_bottom: "orbit 8492 = (2, 410, 1, 10)"
  unfolding orbit_def by code_simp

lemma orbit_origins: "list_all (\<lambda>i. orbit (50 * i) = (50 + 50 * int i, 0, 1, 0)) [0..<6]"
  unfolding orbit_def by code_simp

lemma orbit_origin: "i < 6 \<Longrightarrow> orbit (50 * i) = (50 + 50 * int i, 0, 1, 0)"
  using orbit_origins by (simp add: list_all_iff)

lemma below_8492: "8492 \<le> n \<Longrightarrow> 410 \<le> fst (snd (orbit n))"
  using orbit_sinks [of 8492 "n - 8492"] by (simp add: orbit_bottom)

lemma on_orbit_bottom: "0 \<le> y0 \<Longrightarrow> on_orbit y0 n e \<Longrightarrow> 8492 \<le> n \<Longrightarrow> at_bottom e"
  using below_8492 [of n] by (auto simp: on_orbit_def at_bottom_def coord_bounds simp del: of_int_add split: prod.splits)

lemma on_orbit_edge [simp]:
  "on_orbit y0 n (e\<lparr>enemy_hit := h, e_edge := d\<rparr>) = on_orbit y0 n e"
  by (simp add: on_orbit_def)

lemma on_orbit_step:
  assumes "on_orbit y0 n e" "0 \<le> y0" "\<not> at_bottom e" "\<not> enemy_hit e"
  shows "on_orbit y0 (n + (if frame_clk_rising_edge (e_edge e) then 1 else 0)) (enemy_step False f x0 yy True fin lx ly e)"
proof -
  obtain x y xm ym where o: "orbit n = (x, y, xm, ym)" by (cases "orbit n")
  have b: "0 \<le> x" "x \<le> 610" "0 \<le> y" "ym = 0 \<or> ym = 10" using flying_orbit [of n] by (auto simp: o flying_def)
  have e: "y0 + y \<le> 418" "X_Pos e = of_int x" "Y_Pos e = of_int (y0 + y)" "X_Motion e = of_int xm" "Y_Motion e = of_int ym"
    using assms(1) by (auto simp: on_orbit_def o)
  have "y0 + y < 409"
    using assms(2,3) b e by (simp add: at_bottom_def coord_bounds del: of_int_add)
  then show ?thesis
    using assms(3,4) b e
    by (auto simp: enemy_step_def enemy_move_def on_orbit_def orbit_Suc o fly_def enemy_motion_def coord_bounds)
qed

lemma home_on_orbit:
  assumes "i < 18" "r \<or> \<not> p"
  shows "\<exists>n. on_orbit (uint (snd (origins ! i))) n (enemy_step r f (fst (origins ! i)) (snd (origins ! i)) p fin lx ly e)"
proof -
  have "on_orbit y0 (50 * j) (enemy_step r f (of_int (50 + 50 * int j)) (of_int y0) p fin lx ly e)"
    if "j < 6" "y0 \<le> 400" for j y0
    using assms(2) that by (auto simp: on_orbit_def orbit_origin enemy_step_def enemy_move_def)
  note h = this [of 0] this [of 1] this [of 2] this [of 3] this [of 4] this [of 5]
  have "i \<in> {0, 1, 2, 3, 4, 5, 6, 7, 8, 9, 10, 11, 12, 13, 14, 15, 16, 17}"
    unfolding insert_iff empty_iff using assms(1) by presburger
  then show ?thesis using h [of 0] h [of 80] h [of 160] by (elim insertE) (auto simp: row_xs_def)
qed

section \<open>Every enemy is on that way\<close>

definition ways_inv :: "game \<Rightarrow> bool" where
  "ways_inv g \<longleftrightarrow> game_inv g \<and> (screen g = PLAY \<longrightarrow>
     (\<forall>i<18. enemy_hit (enemies g ! i) \<or> (\<exists>n. on_orbit (uint (snd (origins ! i))) n (enemies g ! i))))"

lemma play_step:
  assumes "game_inv g" "screen g = PLAY" "\<not> died g" "i < 18"
    and "enemy_hit (enemies g ! i) \<or> on_orbit (uint (snd (origins ! i))) n (enemies g ! i)"
  shows "enemy_hit (enemies (game_step False f k g) ! i)
     \<or> on_orbit (uint (snd (origins ! i))) (n + (if frame_clk_rising_edge (e_edge (enemies g ! i)) then 1 else 0))
          (enemies (game_step False f k g) ! i)"
proof -
  have ok: "rows_ok g" "\<not> enemy_hit (bboi g)" using assms(1,2) by (simp_all add: game_inv_def)
  have fin: "\<not> finished g" using assms(3) score_all(2) [OF ok] by (simp add: finished_def)
  have b: "\<not> at_bottom (enemies g ! i)"
    using assms(2-4) rows_18 [OF ok(1)] by (auto simp: died_iff)
  show ?thesis
  proof (cases "enemy_hit (enemies g ! i)")
    case True
    then show ?thesis using fin by (simp add: enemy_nth [OF ok(1) assms(4)] hit_controller_def)
  next
    case False
    then show ?thesis using on_orbit_step [OF _ _ b False] assms(2,5)
      by (simp add: enemy_nth [OF ok(1) assms(4)])
  qed
qed

lemma ways_inv_step: "ways_inv g \<Longrightarrow> ways_inv (game_step r f k g)"
proof -
  assume inv: "ways_inv g"
  then have g: "game_inv g" and ok: "rows_ok g" by (simp_all add: ways_inv_def game_inv_def)
  have "enemy_hit (enemies (game_step r f k g) ! i) \<or> (\<exists>n. on_orbit (uint (snd (origins ! i))) n (enemies (game_step r f k g) ! i))"
    if p: "screen (game_step r f k g) = PLAY" and i: "i < 18" for i
  proof (cases "r \<or> screen g \<noteq> PLAY")
    case True
    then show ?thesis using home_on_orbit [OF i] by (simp add: enemy_nth [OF ok i])
  next
    case False
    then have "\<not> died g" using p by (auto simp: signal_controller_def)
    moreover obtain n where "enemy_hit (enemies g ! i) \<or> on_orbit (uint (snd (origins ! i))) n (enemies g ! i)"
      using inv False i by (auto simp: ways_inv_def)
    ultimately show ?thesis using play_step [OF g _ _ i, of n f k] False by auto
  qed
  then show ?thesis using game_inv_step [OF g] by (simp add: ways_inv_def)
qed

lemma ways_inv_fold: "ways_inv g \<Longrightarrow> ways_inv (fold game_clock es g)"
  by (induction es arbitrary: g) (auto simp: ways_inv_step)

lemma ways_inv_run: "power_up g \<Longrightarrow> ways_inv (after_reset f k es g)"
proof -
  assume p: "power_up g"
  have "ways_inv (game_step True f k g)"
    using game_inv_run [OF p, of f k "[]"] by (simp add: ways_inv_def after_reset_def signal_controller_def)
  then show ?thesis by (simp add: after_reset_def ways_inv_fold)
qed

section \<open>The first fight ends\<close>

text \<open>The screen that a game shows before, between and after a sequence of cycles.\<close>

definition shown_throughout :: "screen \<Rightarrow> cycle_input list \<Rightarrow> game \<Rightarrow> bool" where
  "shown_throughout sc is g \<longleftrightarrow> (\<forall>n\<le>length is. screen (fold game_clock (take n is) g) = sc)"

lemma shown_Cons: "shown_throughout sc (i # is) g \<longleftrightarrow> screen g = sc \<and> shown_throughout sc is (game_clock i g)"
proof
  assume a: "shown_throughout sc (i # is) g"
  have "screen g = sc" using a [unfolded shown_throughout_def, rule_format, of 0] by simp
  moreover have "screen (fold game_clock (take n is) (game_clock i g)) = sc" if "n \<le> length is" for n
    using a [unfolded shown_throughout_def, rule_format, of "Suc n"] that by simp
  ultimately show "screen g = sc \<and> shown_throughout sc is (game_clock i g)" by (simp add: shown_throughout_def)
next
  assume a: "screen g = sc \<and> shown_throughout sc is (game_clock i g)"
  show "shown_throughout sc (i # is) g"
    unfolding shown_throughout_def
  proof (intro allI impI)
    fix n assume "n \<le> length (i # is)"
    then show "screen (fold game_clock (take n (i # is)) g) = sc"
      using a by (cases n) (simp_all add: shown_throughout_def)
  qed
qed

lemma shown_screen: "shown_throughout sc is g \<Longrightarrow> screen g = sc"
  unfolding shown_throughout_def by (erule allE [of _ 0]) simp

lemma play_run:
  assumes "i < 18"
  shows "game_inv g \<Longrightarrow> \<forall>c\<in>set is. \<not> fst c \<Longrightarrow> shown_throughout PLAY is g \<Longrightarrow>
    enemy_hit (enemies g ! i) \<or> on_orbit (uint (snd (origins ! i))) n (enemies g ! i) \<Longrightarrow>
    enemy_hit (enemies (fold game_clock is g) ! i)
    \<or> on_orbit (uint (snd (origins ! i))) (n + rises (e_edge (enemies g ! i)) is) (enemies (fold game_clock is g) ! i)"
proof (induction "is" arbitrary: g n)
  case (Cons c "is")
  obtain f k where c: "c = (False, f, k)" using Cons.prems(2) by (cases c) auto
  let ?g = "game_step False f k g"
  have s: "screen g = PLAY" "shown_throughout PLAY is ?g" using Cons.prems(3) by (simp_all add: shown_Cons c)
  then have "\<not> died g" using shown_screen [OF s(2)] by (auto simp: signal_controller_def)
  note step = play_step [OF Cons.prems(1) s(1) this assms Cons.prems(4), of f k]
  have e: "e_edge (enemies ?g ! i) = detect_edge f (e_edge (enemies g ! i))"
    using Cons.prems(1) by (simp add: enemy_nth [OF _ assms] game_inv_def enemy_step_def)
  show ?case using Cons.IH [OF game_inv_step [OF Cons.prems(1)] _ s(2) step] Cons.prems(2)
    by (simp add: c e add.assoc)
qed simp

lemma starts_snoc: "frame_starts (js @ [c]) \<le> Suc (frame_starts js)"
  by (induction js rule: frame_starts.induct) auto

lemma shown_snoc:
  assumes "shown_throughout sc (js @ [c]) g"
  shows "shown_throughout sc js g" "screen (fold game_clock js g) = sc" "screen (game_clock c (fold game_clock js g)) = sc"
proof -
  note a = assms [unfolded shown_throughout_def, rule_format]
  have "screen (fold game_clock (take n js) g) = sc" if "n \<le> length js" for n
    using a [of n] that by simp
  then show "shown_throughout sc js g" by (simp add: shown_throughout_def)
  show "screen (fold game_clock js g) = sc" using a [of "length js"] by simp
  show "screen (game_clock c (fold game_clock js g)) = sc" using a [of "Suc (length js)"] by simp
qed

lemma play_ends:
  assumes "ways_inv g" "\<forall>c\<in>set is. \<not> fst c" "shown_throughout PLAY is g"
  shows "frame_starts is \<le> 8493"
proof (cases "is" rule: rev_cases)
  case (snoc js c)
  define h where "h = fold game_clock js g"
  note s = shown_snoc [OF assms(3) [unfolded snoc], folded h_def]
  have g: "game_inv g" and w: "ways_inv h"
    using assms(1) ways_inv_fold by (auto simp: ways_inv_def h_def)
  then have ok: "rows_ok h" "\<not> enemy_hit (bboi h)" using s(2) by (simp_all add: ways_inv_def game_inv_def)
  obtain f k where c: "c = (False, f, k)" using assms(2) snoc by (cases c) auto
  have "\<not> died h" "score h \<noteq> 0x12" using s(2,3) by (auto simp: c signal_controller_def split: if_splits)
  then obtain i where i: "i < 18" "\<not> enemy_hit (enemies h ! i)" "\<not> at_bottom (enemies h ! i)"
    using score_all(1) [OF ok] rows_18 [OF ok(1)] s(2) by (metis died_iff in_set_conv_nth)
  define d where "d = e_edge (enemies g ! i)"
  have "\<forall>c\<in>set js. \<not> fst c" using assms(2) snoc by simp
  moreover obtain n where "enemy_hit (enemies g ! i) \<or> on_orbit (uint (snd (origins ! i))) n (enemies g ! i)"
    using assms(1) shown_screen [OF s(1)] i(1) by (auto simp: ways_inv_def)
  ultimately have "on_orbit (uint (snd (origins ! i))) (n + rises d js) (enemies h ! i)"
    using play_run [OF i(1) g _ s(1), of n] i(2) by (simp add: h_def d_def)
  then have "rises d js < 8492" using on_orbit_bottom [of "uint (snd (origins ! i))" "n + rises d js"] i(3) by fastforce
  then show ?thesis using starts_rise [of js d] starts_snoc [of js c] by (simp add: snoc)
qed simp

section \<open>The fight with the boss ends\<close>

text \<open>
  Each frame takes the boss nearer to the next turn or down. A frame down counts for more than the
  way between two turns.
\<close>

definition way_to_turn :: "enemy \<Rightarrow> nat" where
  "way_to_turn b =
     (if X_Motion b = 5 then if X_Pos b = 1019 then 124 else (615 - unat (X_Pos b)) div 5 else unat (X_Pos b) div 5 + 1)"

definition boss_way :: "enemy \<Rightarrow> nat" where
  "boss_way b = (430 - unat (Y_Pos b) - unat (Y_Motion b)) * 65 + way_to_turn b"

lemma way_to_turn_bound: "boss_ok b \<Longrightarrow> way_to_turn b \<le> 124"
  by (auto simp: way_to_turn_def boss_ok_def)

lemma boss_nearer:
  assumes "boss_ok b" "\<not> at_bottom b" "boss_motion k b = (xm, ym)"
  shows "boss_way (place (X_Pos b + X_Motion b) (Y_Pos b + Y_Motion b) xm ym b') < boss_way b"
proof -
  define n where "n = unat (X_Pos b)"
  define m where "m = unat (Y_Pos b)"
  define j where "j = unat (Y_Motion b)"
  let ?b = "place (X_Pos b + X_Motion b) (Y_Pos b + Y_Motion b) xm ym b'"
  have m: "m < 409" using assms(2) by (simp add: at_bottom_def coord_simps m_def)
  have j: "j \<le> 10" using assms(1) by (auto simp: boss_ok_def j_def)
  have y: "unat (Y_Pos ?b) = m + j" using m j by (simp add: unat_plus_coord m_def [symmetric] j_def [symmetric])
  have w: "way_to_turn ?b \<le> 124" by (rule way_to_turn_bound [OF boss_moves [OF assms]])
  have x: "unat (X_Pos ?b) = (n + unat (X_Motion b)) mod 1024" by (simp add: unat_plus_coord n_def)
  have n: "5 dvd n \<and> n \<le> 610 \<or> n = 615 \<and> X_Motion b = - 5 \<or> n = 1019 \<and> X_Motion b = 5" "X_Motion b \<in> {5, - 5}"
    using assms(1) by (auto simp: boss_ok_def n_def)
  consider "ym = 10 \<or> ym = 2" | "ym = 0" "xm = X_Motion b" "n \<noteq> 0" "n < 609 \<or> n = 1019"
    using assms(3) n by (auto simp: boss_motion_def coord_simps n_def [symmetric] split: if_splits)
  then show ?thesis
  proof cases
    case 1
    then have "430 - (m + j) - unat ym + 2 \<le> 430 - m - j" using m j by auto
    then show ?thesis using w y by (simp add: boss_way_def m_def [symmetric] j_def [symmetric])
  next
    case 2
    have p: "X_Pos b = 1019 \<longleftrightarrow> n = 1019" "X_Pos ?b = 1019 \<longleftrightarrow> unat (X_Pos ?b) = 1019"
      by (simp_all add: word_unat_eq_iff n_def)
    have t: "way_to_turn b = (if X_Motion b = 5 then if n = 1019 then 124 else (615 - n) div 5 else n div 5 + 1)"
      "way_to_turn ?b = (if xm = 5 then if unat (X_Pos ?b) = 1019 then 124 else (615 - unat (X_Pos ?b)) div 5
         else unat (X_Pos ?b) div 5 + 1)"
      using p by (simp_all add: way_to_turn_def n_def)
    consider "X_Motion b = 5" "n = 1019" | i where "X_Motion b = 5" "n = 5 * i" "i \<le> 121"
      | i where "X_Motion b = - 5" "n = 5 * Suc i" "i \<le> 120"
    proof -
      have "\<exists>i. n = 5 * Suc i \<and> i \<le> 120" if e: "n \<noteq> 1019"
      proof -
        obtain q where "n = 5 * q" using n(1) 2(4) e by (auto elim: dvdE)
        then show ?thesis using 2(3,4) e by (cases q) auto
      qed
      then show thesis using that n by (cases "n = 1019") fastforce+
    qed
    then have "way_to_turn ?b < way_to_turn b"
    proof cases
      case 1
      then show ?thesis using x t 2(2) by simp
    next
      case (2 i)
      then show ?thesis using x t \<open>xm = X_Motion b\<close> by simp
    next
      case (3 i)
      then show ?thesis using x t \<open>xm = X_Motion b\<close> by (simp add: mod_back)
    qed
    then show ?thesis using 2 y by (simp add: boss_way_def m_def [symmetric] j_def [symmetric])
  qed
qed

lemma boss_run_step:
  assumes "game_inv g" "screen g = BOSS_FIGHT" "screen (game_step False f k g) = BOSS_FIGHT"
  shows "boss_way (bboi (game_step False f k g)) + (if frame_clk_rising_edge (e_edge (bboi g)) then 1 else 0) \<le> boss_way (bboi g)"
proof -
  let ?b = "bboi g"
  have ok: "rows_ok g" "\<forall>e\<in>set (enemies g). enemy_hit e" "boss_ok ?b" using assms(1,2) by (simp_all add: game_inv_def)
  have n: "\<not> died g" "score g \<noteq> 0x13"
    using assms(2,3) by (auto simp: signal_controller_def split: if_splits)
  then have h: "\<not> enemy_hit ?b" "\<not> at_bottom ?b" using score_boss [OF ok(1,2)] assms(2) by (auto simp: died_iff)
  obtain xm ym where m: "boss_motion k ?b = (xm, ym)" by fastforce
  have w: "boss_way (e\<lparr>enemy_hit := x, e_edge := d\<rparr>) = boss_way e" for e x d
    by (simp add: boss_way_def way_to_turn_def)
  show ?thesis
    using boss_nearer [OF ok(3) h(2) m, of ?b] h m assms(2)
    by (simp add: boss_step_def boss_move_def w)
qed

lemma boss_run:
  "game_inv g \<Longrightarrow> \<forall>c\<in>set is. \<not> fst c \<Longrightarrow> shown_throughout BOSS_FIGHT is g \<Longrightarrow>
   boss_way (bboi (fold game_clock is g)) + rises (e_edge (bboi g)) is \<le> boss_way (bboi g)"
proof (induction "is" arbitrary: g)
  case (Cons c "is")
  obtain f k where c: "c = (False, f, k)" using Cons.prems(2) by (cases c) auto
  let ?g = "game_step False f k g"
  have s: "screen g = BOSS_FIGHT" "shown_throughout BOSS_FIGHT is ?g" using Cons.prems(3) by (simp_all add: shown_Cons c)
  have e: "e_edge (bboi ?g) = detect_edge f (e_edge (bboi g))" by (simp add: boss_step_def)
  show ?case
    using Cons.IH [OF game_inv_step [OF Cons.prems(1)] _ s(2)] boss_run_step [OF Cons.prems(1) s(1) shown_screen [OF s(2)]]
      Cons.prems(2) by (simp add: c e del: step_fields)
qed simp

lemma boss_fight_ends:
  assumes "game_inv g" "\<forall>c\<in>set is. \<not> fst c" "shown_throughout BOSS_FIGHT is g"
  shows "frame_starts is \<le> 28075"
proof -
  have "boss_ok (bboi g)" using assms(1) shown_screen [OF assms(3)] by (simp add: game_inv_def)
  then have "way_to_turn (bboi g) \<le> 124" by (rule way_to_turn_bound)
  moreover have "(430 - unat (Y_Pos (bboi g)) - unat (Y_Motion (bboi g))) * 65 \<le> 430 * 65" by (intro mult_le_mono1) simp
  ultimately have "boss_way (bboi g) \<le> 28074" by (simp add: boss_way_def)
  then show ?thesis using boss_run [OF assms] starts_rise [of "is" "e_edge (bboi g)"] by simp
qed

text \<open>
  Claim C6. No fight lasts for ever: whatever keys are pressed and however long the frames are, in any
  state that can be reached the screen of the first fight is left within 8494 frames and that of the
  fight with the boss within 28076.
\<close>

theorem every_fight_ends:
  assumes "power_up g" "\<forall>c\<in>set is. \<not> fst c"
  shows "(8494 \<le> frame_starts is \<longrightarrow> \<not> shown_throughout PLAY is (after_reset f k es g))
     \<and> (28076 \<le> frame_starts is \<longrightarrow> \<not> shown_throughout BOSS_FIGHT is (after_reset f k es g))"
  using play_ends [OF ways_inv_run [OF assms(1)] assms(2), of f k es]
    boss_fight_ends [OF game_inv_run [OF assms(1)] assms(2), of f k es]
  by auto

lemma starts_of_frames: "frame_starts (concat (replicate n [(False, False, k), (False, True, k)])) = n"
proof -
  have "frame_starts ((False, True, k) # concat (replicate n [(False, False, k), (False, True, k)])) = n"
    by (induction n) simp_all
  then show ?thesis by (cases n) simp_all
qed

theorem every_fight_ends_witness:
  "\<not> shown_throughout PLAY (concat (replicate 8494 [(False, False, 0), (False, True, 0)]))
     (after_reset False 0 [(False, False, 0x28)] demo_game)
   \<and> screen (after_reset False 0 [(False, False, 0x28)] demo_game) = PLAY"
proof -
  let ?is = "concat (replicate 8494 [(False, False, 0), (False, True, 0)]) :: cycle_input list"
  have "\<forall>c\<in>set ?is. \<not> fst c" by (auto simp: set_concat)
  from every_fight_ends [OF demo_power_up this, of False 0 "[(False, False, 0x28)]"]
  have "\<not> shown_throughout PLAY ?is (after_reset False 0 [(False, False, 0x28)] demo_game)"
    by (simp only: starts_of_frames order_refl simp_thms)
  moreover have "screen (after_reset False 0 [(False, False, 0x28)] demo_game) = PLAY"
    by (simp add: after_reset_def signal_controller_def)
  ultimately show ?thesis by blast
qed

end
