(* ===== verification/Irq.thy ===== *)
theory Irq
  imports Prelude
begin

text \<open>
  Interrupts of the processor's own controller: registration and the enabling of single lines
  (\<^verbatim>\<open>alt_iic.c\<close>, \<^verbatim>\<open>alt_iic_isr_register.c\<close>, \<^verbatim>\<open>alt_irq_register.c\<close>, \<^verbatim>\<open>alt_legacy_irq.h\<close>,
  \<^verbatim>\<open>alt_irq.h\<close>) and the dispatcher (\<^verbatim>\<open>alt_irq_handler.c\<close>). The devices are a state of any
  type; which lines they raise and what a handler does to them are parameters.
\<close>

section \<open>State\<close>

type_synonym 's isr = "nat \<Rightarrow> 's \<Rightarrow> 's"

text \<open>\<open>served\<close> records the calls of handlers; only the statements use it.\<close>

record 's irq_sys =
  alt_irq :: "('s isr option \<times> nat) list"
  alt_irq_active :: u32
  ienable :: u32
  cpu_status :: u32
  devs :: 's
  served :: "nat list"

abbreviation (input) ALT_NIRQ :: nat where "ALT_NIRQ \<equiv> 32"
abbreviation (input) PIE :: u32 where "PIE \<equiv> 1"

definition alt_irq_disable_all :: "'s irq_sys \<Rightarrow> u32 \<times> 's irq_sys" where
  "alt_irq_disable_all m = (cpu_status m, m\<lparr>cpu_status := cpu_status m AND NOT PIE\<rparr>)"

definition alt_irq_enable_all :: "u32 \<Rightarrow> 's irq_sys \<Rightarrow> 's irq_sys" where
  "alt_irq_enable_all context m = m\<lparr>cpu_status := context\<rparr>"

definition alt_irq_pending :: "('s \<Rightarrow> u32) \<Rightarrow> 's irq_sys \<Rightarrow> u32" where
  "alt_irq_pending lines m = lines (devs m) AND ienable m"

section \<open>Single lines\<close>

text \<open>A shift by 32 or more has no defined result.\<close>

definition line :: "u32 \<Rightarrow> u32" where
  "line irq = push_bit (unat irq) 1"

definition alt_irq_enable :: "u32 \<Rightarrow> 's irq_sys \<Rightarrow> fault + (int \<times> 's irq_sys)" where
  "alt_irq_enable irq m =
     (if 32 \<le> irq then Inl OutOfBounds
      else
        (let (status, m) = alt_irq_disable_all m;
             m = m\<lparr>alt_irq_active := alt_irq_active m OR line irq\<rparr>;
             m = m\<lparr>ienable := alt_irq_active m\<rparr>
         in Inr (0, alt_irq_enable_all status m)))"

definition alt_irq_disable :: "u32 \<Rightarrow> 's irq_sys \<Rightarrow> fault + (int \<times> 's irq_sys)" where
  "alt_irq_disable irq m =
     (if 32 \<le> irq then Inl OutOfBounds
      else
        (let (status, m) = alt_irq_disable_all m;
             m = m\<lparr>alt_irq_active := alt_irq_active m AND NOT (line irq)\<rparr>;
             m = m\<lparr>ienable := alt_irq_active m\<rparr>
         in Inr (0, alt_irq_enable_all status m)))"

definition alt_ic_irq_enable :: "u32 \<Rightarrow> u32 \<Rightarrow> 's irq_sys \<Rightarrow> fault + (int \<times> 's irq_sys)" where
  "alt_ic_irq_enable ic_id irq m = alt_irq_enable irq m"

definition alt_ic_irq_disable :: "u32 \<Rightarrow> u32 \<Rightarrow> 's irq_sys \<Rightarrow> fault + (int \<times> 's irq_sys)" where
  "alt_ic_irq_disable ic_id irq m = alt_irq_disable irq m"

definition alt_ic_irq_enabled :: "u32 \<Rightarrow> u32 \<Rightarrow> 's irq_sys \<Rightarrow> fault + u32" where
  "alt_ic_irq_enabled ic_id irq m =
     (if 32 \<le> irq then Inl OutOfBounds
      else Inr (if ienable m AND line irq \<noteq> 0 then 1 else 0))"

section \<open>Registration\<close>

definition set_isr :: "nat \<Rightarrow> 's isr option \<Rightarrow> nat \<Rightarrow> 's irq_sys \<Rightarrow> 's irq_sys" where
  "set_isr n isr context m = m\<lparr>alt_irq := (alt_irq m)[n := (isr, context)]\<rparr>"

text \<open>The enhanced interface: the number is converted to a signed \<^verbatim>\<open>int\<close> before the test.\<close>

definition alt_iic_isr_register ::
  "u32 \<Rightarrow> u32 \<Rightarrow> 's isr option \<Rightarrow> nat \<Rightarrow> 's irq_sys \<Rightarrow> fault + (int \<times> 's irq_sys)" where
  "alt_iic_isr_register ic_id irq isr context m =
     (if sint irq < int ALT_NIRQ then
        if sint irq < 0 then Inl OutOfBounds
        else
          (let (status, m) = alt_irq_disable_all m;
               m = set_isr (nat (sint irq)) isr context m
           in case (if isr \<noteq> None then alt_ic_irq_enable ic_id irq m
                    else alt_ic_irq_disable ic_id irq m) of
                Inl f \<Rightarrow> Inl f
              | Inr (rc, m) \<Rightarrow> Inr (rc, alt_irq_enable_all status m))
      else Inr (- EINVAL, m))"

definition alt_ic_isr_register ::
  "u32 \<Rightarrow> u32 \<Rightarrow> 's isr option \<Rightarrow> nat \<Rightarrow> 's irq_sys \<Rightarrow> fault + (int \<times> 's irq_sys)" where
  "alt_ic_isr_register ic_id irq isr context m = alt_iic_isr_register ic_id irq isr context m"

text \<open>The older interface compares the number as it is, unsigned.\<close>

definition alt_irq_register ::
  "u32 \<Rightarrow> nat \<Rightarrow> 's isr option \<Rightarrow> 's irq_sys \<Rightarrow> fault + (int \<times> 's irq_sys)" where
  "alt_irq_register irq context handler m =
     (if irq < of_nat ALT_NIRQ then
        (let (status, m) = alt_irq_disable_all m;
             m = set_isr (unat irq) handler context m
         in case (if handler \<noteq> None then alt_irq_enable irq m else alt_irq_disable irq m) of
              Inl f \<Rightarrow> Inl f
            | Inr (rc, m) \<Rightarrow> Inr (rc, alt_irq_enable_all status m))
      else Inr (- EINVAL, m))"

section \<open>Dispatch\<close>

text \<open>The inner loop: test each bit in turn; it has no other exit than a bit that is set.\<close>

partial_function (option) lowest_active :: "u32 \<Rightarrow> u32 \<Rightarrow> u32 \<Rightarrow> u32 option" where
  "lowest_active active msk i =
     (if active AND msk \<noteq> 0 then Some i else lowest_active active (push_bit 1 msk) (i + 1))"

definition call_isr :: "nat \<Rightarrow> 's irq_sys \<Rightarrow> fault + 's irq_sys" where
  "call_isr i m =
     (if length (alt_irq m) \<le> i then Inl OutOfBounds
      else case alt_irq m ! i of
             (None, _) \<Rightarrow> Inl NullDeref
           | (Some h, context) \<Rightarrow> Inr (m\<lparr>devs := h context (devs m), served := served m @ [i]\<rparr>))"

partial_function (option) irq_rounds ::
  "('s \<Rightarrow> u32) \<Rightarrow> u32 \<Rightarrow> 's irq_sys \<Rightarrow> (fault + 's irq_sys) option" where
  "irq_rounds lines active m =
     (case lowest_active active 1 0 of
        None \<Rightarrow> None
      | Some i \<Rightarrow>
          (case call_isr (unat i) m of
             Inl f \<Rightarrow> Some (Inl f)
           | Inr m \<Rightarrow>
               if alt_irq_pending lines m \<noteq> 0 then irq_rounds lines (alt_irq_pending lines m) m
               else Some (Inr m)))"

definition alt_irq_handler :: "('s \<Rightarrow> u32) \<Rightarrow> 's irq_sys \<Rightarrow> (fault + 's irq_sys) option" where
  "alt_irq_handler lines m = irq_rounds lines (alt_irq_pending lines m) m"

section \<open>The inner loop\<close>

lemma lowest_active_from:
  "k \<le> n \<Longrightarrow> n < 32 \<Longrightarrow> bit active n \<Longrightarrow> \<forall>j<n. \<not> bit active j \<Longrightarrow>
   lowest_active active (push_bit k 1) (of_nat k) = Some (of_nat n)"
proof (induction "n - k" arbitrary: k)
  case 0
  then have "active AND push_bit k 1 \<noteq> 0" unfolding and_single by simp
  with 0 show ?case by (subst lowest_active.simps) simp
next
  case (Suc d)
  then have "\<not> (active AND push_bit k 1 \<noteq> 0)" unfolding and_single by simp
  moreover have "push_bit 1 (push_bit k 1) = (push_bit (Suc k) 1 :: u32)" by simp
  moreover have "lowest_active active (push_bit (Suc k) 1) (of_nat (Suc k)) = Some (of_nat n)"
    using Suc.prems Suc.hyps(2) by (intro Suc.hyps(1)) auto
  ultimately show ?case by (subst lowest_active.simps) (simp add: add.commute mult.commute)
qed

lemma lowest_active_first:
  "n < 32 \<Longrightarrow> bit active n \<Longrightarrow> \<forall>j<n. \<not> bit active j \<Longrightarrow>
   lowest_active active 1 0 = Some (of_nat n)"
  using lowest_active_from [of 0 n active] by simp

lemma lowest_active_spurious: "lowest_active 0 msk i = None"
proof -
  have "lowest_active active msk i = Some r \<Longrightarrow> active \<noteq> 0" for active r
  proof (induction active msk i r rule: lowest_active.raw_induct [rotated, consumes 1, case_names step])
    case (step scan active msk i r)
    then show ?case by (auto split: if_splits)
  qed
  then show ?thesis by (cases "lowest_active 0 msk i") auto
qed

section \<open>Dispatching\<close>

definition pending_list :: "u32 \<Rightarrow> nat list" where
  "pending_list active = filter (bit active) [0..<32]"

text \<open>
  What the drivers owe the dispatcher: every enabled line has a handler, and a handler clears
  its own line and no other.
\<close>

definition serving :: "('s \<Rightarrow> u32) \<Rightarrow> 's irq_sys \<Rightarrow> bool" where
  "serving lines m \<longleftrightarrow> length (alt_irq m) = 32 \<and>
     (\<forall>i<32. bit (ienable m) i \<longrightarrow>
        (\<exists>h c. alt_irq m ! i = (Some h, c) \<and> (\<forall>s. lines (h c s) = lines s AND NOT (push_bit i 1))))"

lemma pending_list_empty: "pending_list active = [] \<longleftrightarrow> active = 0"
proof
  assume "pending_list active = []"
  then have "\<not> bit active j" for j
    using bit_imp_le_length [of active j] by (auto simp: pending_list_def filter_empty_conv)
  then show "active = 0" by (intro bit_word_eqI) simp
qed (simp add: pending_list_def)

lemma pending_list_Cons:
  assumes "pending_list active = n # ns"
  shows "n < 32" "bit active n" "\<forall>j<n. \<not> bit active j"
    "pending_list (active AND NOT (push_bit n 1)) = ns"
proof -
  have "n \<in> set (pending_list active)" using assms by simp
  then show n: "n < 32" "bit active n" by (auto simp: pending_list_def)
  have "sorted (pending_list active)" "distinct (pending_list active)"
    by (simp_all add: pending_list_def sorted_wrt_filter)
  then have ns: "\<forall>j\<in>set ns. n \<le> j" "n \<notin> set ns" using assms by simp_all
  show "\<forall>j<n. \<not> bit active j"
  proof (intro allI impI notI)
    fix j assume "j < n" "bit active j"
    then have "j \<in> set (pending_list active)" using n(1) by (simp add: pending_list_def)
    with assms ns \<open>j < n\<close> show False by auto
  qed
  have "pending_list (active AND NOT (push_bit n 1)) = filter (\<lambda>j. j \<noteq> n) (pending_list active)"
    unfolding pending_list_def filter_filter
    by (rule filter_cong) (auto simp: bit_simps)
  also have "\<dots> = ns" using assms ns(2) by (auto simp: filter_id_conv)
  finally show "pending_list (active AND NOT (push_bit n 1)) = ns" .
qed

lemma call_isr_serving:
  assumes "serving lines m" "alt_irq_pending lines m = active" "pending_list active = n # ns"
  shows "\<exists>m'. call_isr n m = Inr m' \<and> serving lines m' \<and> served m' = served m @ [n]
     \<and> alt_irq_pending lines m' = active AND NOT (push_bit n 1)"
proof -
  note n = pending_list_Cons(1,2) [OF assms(3)]
  have "bit (ienable m) n" using n assms(2) by (auto simp: alt_irq_pending_def bit_simps)
  with n assms(1) obtain h c where h: "alt_irq m ! n = (Some h, c)" "length (alt_irq m) = 32"
    "\<forall>s. lines (h c s) = lines s AND NOT (push_bit n 1)" by (auto simp: serving_def)
  let ?m = "m\<lparr>devs := h c (devs m), served := served m @ [n]\<rparr>"
  have "alt_irq_pending lines ?m = active AND NOT (push_bit n 1)"
    using assms(2) h(3) by (auto simp: alt_irq_pending_def intro!: bit_word_eqI simp: bit_simps)
  moreover have "call_isr n m = Inr ?m" using h n by (simp add: call_isr_def)
  moreover have "serving lines ?m" using assms(1) by (simp add: serving_def)
  ultimately show ?thesis by (intro exI [of _ ?m]) simp
qed

lemma irq_rounds_serve:
  "serving lines m \<Longrightarrow> alt_irq_pending lines m = active \<Longrightarrow> pending_list active = n # ns \<Longrightarrow>
   \<exists>m'. irq_rounds lines active m = Some (Inr m') \<and> served m' = served m @ n # ns
     \<and> alt_irq_pending lines m' = 0"
proof (induction ns arbitrary: n m active)
  case (Cons n' ns)
  note p = pending_list_Cons [OF Cons.prems(3)]
  obtain m' where m': "call_isr n m = Inr m'" "serving lines m'" "served m' = served m @ [n]"
    "alt_irq_pending lines m' = active AND NOT (push_bit n 1)"
    using call_isr_serving [OF Cons.prems] by blast
  have ne: "alt_irq_pending lines m' \<noteq> 0"
    using p(4) m'(4) pending_list_empty [of "active AND NOT (push_bit n 1)"] by auto
  have "pending_list (alt_irq_pending lines m') = n' # ns" using p(4) m'(4) by simp
  from Cons.IH [OF m'(2) refl this] obtain m2 where
    m2: "irq_rounds lines (alt_irq_pending lines m') m' = Some (Inr m2)"
    "served m2 = served m' @ n' # ns" "alt_irq_pending lines m2 = 0" by blast
  have "irq_rounds lines active m = Some (Inr m2)"
    using lowest_active_first [OF p(1,2,3)] m'(1) m2(1) ne p(1)
    by (subst irq_rounds.simps) (simp add: unat_of_nat)
  then show ?case using m2(2,3) m'(3) by simp
next
  case Nil
  note p = pending_list_Cons [OF Nil.prems(3)]
  obtain m' where m': "call_isr n m = Inr m'" "served m' = served m @ [n]"
    "alt_irq_pending lines m' = active AND NOT (push_bit n 1)"
    using call_isr_serving [OF Nil.prems] by blast
  have z: "alt_irq_pending lines m' = 0"
    using p(4) m'(3) pending_list_empty [of "active AND NOT (push_bit n 1)"] by simp
  have "irq_rounds lines active m = Some (Inr m')"
    using lowest_active_first [OF p(1,2,3)] m'(1) z p(1)
    by (subst irq_rounds.simps) (simp add: unat_of_nat)
  then show ?case using m'(2) z by simp
qed

section \<open>Properties\<close>

text \<open>
  With drivers that keep their side (every enabled line has a handler, which clears its
  own line and no other), an interrupt is dispatched completely: the handlers of exactly the
  pending lines are called, each once and the lowest line first, no table access goes wrong, and
  the dispatcher returns with no enabled line pending.
\<close>

theorem irq_handler_serves_all:
  assumes "serving lines m" and "alt_irq_pending lines m \<noteq> 0"
  shows "\<exists>m'. alt_irq_handler lines m = Some (Inr m')
     \<and> served m' = served m @ filter (bit (alt_irq_pending lines m)) [0..<32]
     \<and> alt_irq_pending lines m' = 0"
proof -
  obtain n ns where "pending_list (alt_irq_pending lines m) = n # ns"
    using assms(2) pending_list_empty by (cases "pending_list (alt_irq_pending lines m)") auto
  from irq_rounds_serve [OF assms(1) refl this] this show ?thesis
    by (auto simp: alt_irq_handler_def pending_list_def)
qed

definition demo_irqs :: "u32 irq_sys" where
  "demo_irqs = \<lparr>alt_irq = map (\<lambda>i. (Some (\<lambda>c s. s AND NOT (push_bit c 1)), i)) [0..<32],
     alt_irq_active = 0x10004, ienable = 0x10004, cpu_status = 0, devs = 0x30006, served = []\<rparr>"

lemma serving_demo: "serving (\<lambda>s. s) demo_irqs"
  by (simp add: serving_def demo_irqs_def)

theorem irq_handler_serves_all_witness:
  "\<exists>m'. alt_irq_handler (\<lambda>s. s) demo_irqs = Some (Inr m') \<and> served m' = [2, 16]"
proof -
  have p: "alt_irq_pending (\<lambda>s. s) demo_irqs = 0x10004"
    by (simp add: alt_irq_pending_def demo_irqs_def)
  have l: "filter (bit (0x10004 :: u32)) [0..<32] = [2, 16]" by code_simp
  have "served demo_irqs = []" by (simp add: demo_irqs_def)
  with irq_handler_serves_all [OF serving_demo] p l show ?thesis by auto
qed

text \<open>
  If no enabled line is pending when the dispatcher is entered, its inner loop shifts
  the bit it tests out of the word and never ends.
\<close>

theorem spurious_interrupt_hangs:
  assumes "alt_irq_pending lines m = 0"
  shows "alt_irq_handler lines m = None"
  using assms lowest_active_spurious [of 1 0]
  by (simp add: alt_irq_handler_def) (subst irq_rounds.simps, simp)

theorem spurious_interrupt_hangs_witness:
  "alt_irq_handler (\<lambda>s. 0) demo_irqs = None"
  using spurious_interrupt_hangs [of "\<lambda>s. 0" demo_irqs] by (simp add: alt_irq_pending_def)

text \<open>
  Registering a handler for a line of the controller stores it in the table, enables
  the line (or disables it when the handler is NULL), changes no other line and no other entry,
  and restores the interrupt state of the processor. A number from 32 up is refused with
  -EINVAL, but the enhanced interface tests it as a signed number: from \<open>2 ^ 31\<close> up it writes in
  front of the table, which the older interface refuses.
\<close>

theorem isr_register_takes_effect:
  assumes "length (alt_irq m) = 32"
  shows "if unat irq < 32
    then \<exists>m'. alt_ic_isr_register ic irq isr context m = Inr (0, m')
       \<and> alt_irq_register irq context isr m = Inr (0, m')
       \<and> alt_irq m' = (alt_irq m)[unat irq := (isr, context)]
       \<and> alt_ic_irq_enabled ic irq m' = Inr (if isr = None then 0 else 1)
       \<and> ienable m' AND NOT (line irq) = alt_irq_active m AND NOT (line irq)
       \<and> alt_irq_active m' = ienable m' \<and> cpu_status m' = cpu_status m \<and> devs m' = devs m
    else alt_irq_register irq context isr m = Inr (- EINVAL, m)
       \<and> alt_ic_isr_register ic irq isr context m =
           (if unat irq < 2 ^ 31 then Inr (- EINVAL, m) else Inl OutOfBounds)"
proof (cases "unat irq < 32")
  case True
  then have "sint irq = int (unat irq)" by (intro sint_small) simp
  with True have i: "sint irq < 32" "\<not> sint irq < 0" "nat (sint irq) = unat irq"
    "\<not> 32 \<le> irq" "irq < 32"
    by (linarith, linarith, linarith, simp_all add: word_le_nat_alt word_less_nat_alt)
  have l: "line irq \<noteq> 0" "bit (line irq) n \<longleftrightarrow> n = unat irq" for n
    using True by (auto simp: line_def bit_simps push_bit_eq_mult)
  have a: "(x OR line irq) AND NOT (line irq) = x AND NOT (line irq)"
    "(x OR line irq) AND line irq = line irq"
    "(x AND NOT (line irq)) AND line irq = 0" for x
    by (rule bit_word_eqI, auto simp: bit_simps)+
  show ?thesis
    using True i l a
    by (cases isr) (simp_all add: alt_ic_isr_register_def alt_iic_isr_register_def alt_irq_register_def
        alt_ic_irq_enable_def alt_ic_irq_disable_def alt_irq_enable_def alt_irq_disable_def
        alt_irq_disable_all_def alt_irq_enable_all_def set_isr_def alt_ic_irq_enabled_def Let_def)
next
  case False
  then have "\<not> irq < 32" by (simp add: word_less_nat_alt)
  moreover have "sint irq < 32 \<longleftrightarrow> \<not> unat irq < 2 ^ 31" "unat irq < 2 ^ 31 \<or> sint irq < 0"
    using False sint_small [of irq] sint_large [of irq] by linarith+
  ultimately show ?thesis
    using False by (auto simp: alt_ic_isr_register_def alt_iic_isr_register_def alt_irq_register_def)
qed

theorem isr_register_takes_effect_witness:
  "alt_ic_isr_register 0 0x80000000 None 7 demo_irqs = Inl OutOfBounds
   \<and> (\<exists>m'. alt_ic_isr_register 0 5 None 7 demo_irqs = Inr (0, m') \<and> ienable m' AND NOT 32 = 0x10004)"
proof -
  have d: "length (alt_irq demo_irqs) = 32" "alt_irq_active demo_irqs = 0x10004"
    by (simp_all add: demo_irqs_def)
  show ?thesis
    using isr_register_takes_effect [OF d(1), of "0x80000000" 0 None 7]
      isr_register_takes_effect [OF d(1), of 5 0 None 7] d(2)
    by (auto simp: line_def)
qed

end
