(* ===== verification/MulDiv.thy ===== *)
theory MulDiv
  imports Prelude "HOL-Library.Signed_Division"
begin

text \<open>
  The arithmetic of \<^verbatim>\<open>HAL/src/alt_exception_muldiv.S\<close>. The processor of the board has no multiplier
  and no divider; their instructions raise an exception and are computed by two loops of 32 rounds,
  shift and add, shift and subtract. The variables are the registers of the assembler code. The
  lemmas show that the loops compute what the instructions are defined to compute.
\<close>

section \<open>The loops\<close>

text \<open>
  \<^verbatim>\<open>.Ldivide_loop\<close>: \<open>r3\<close> holds what is left of the dividend above the quotient so far, \<open>r13\<close> the
  remainder, \<open>r6\<close> the divisor; the first argument counts down \<open>r14\<close>.
\<close>

fun divide_loop :: "nat \<Rightarrow> u32 \<Rightarrow> u32 \<Rightarrow> u32 \<Rightarrow> u32 \<times> u32" where
  "divide_loop 0 r6 r3 r13 = (r3, r13)"
| "divide_loop (Suc r14) r6 r3 r13 =
     (let r13 = push_bit 1 r13;
          r15 = (if r3 <s 0 then 1 else 0);
          r13 = r13 OR r15;
          r3 = push_bit 1 r3
      in if r13 < r6 then divide_loop r14 r6 r3 r13
         else divide_loop r14 r6 (r3 OR 1) (r13 - r6))"

text \<open>\<^verbatim>\<open>.Ldivide\<close>: for \<^verbatim>\<open>div\<close> the absolute values are divided and the sign is applied to the quotient.\<close>

abbreviation (input) OPX_DIVU :: u32 where "OPX_DIVU \<equiv> 0x24"
abbreviation (input) OPX_DIV :: u32 where "OPX_DIV \<equiv> 0x25"
abbreviation (input) OPX_MUL :: u32 where "OPX_MUL \<equiv> 0x27"
abbreviation (input) OPX_MULXUU :: u32 where "OPX_MULXUU \<equiv> 0x07"
abbreviation (input) OPX_MULXSU :: u32 where "OPX_MULXSU \<equiv> 0x17"
abbreviation (input) OPX_MULXSS :: u32 where "OPX_MULXSS \<equiv> 0x1f"

definition emulate_divide :: "u32 \<Rightarrow> u32 \<Rightarrow> u32 \<Rightarrow> u32" where
  "emulate_divide r4 r3 r6 =
     (let (r17, r3, r6) =
            (if r4 \<noteq> OPX_DIV then (0, r3, r6)
             else (r3 XOR r6, if 0 \<le>s r3 then r3 else 0 - r3, if 0 \<le>s r6 then r6 else 0 - r6));
          r9 = fst (divide_loop 32 r6 r3 0)
      in if 0 \<le>s r17 then r9 else 0 - r9)"

text \<open>
  \<^verbatim>\<open>.Lmultiply_loop\<close>: the low half of the product grows in \<open>r9\<close> from the top of the multiplier \<open>r6\<close>,
  the high half in \<open>r10\<close> from the bottom of its copy \<open>r12\<close>; \<open>r3\<close> is the multiplicand.
\<close>

fun multiply_loop :: "nat \<Rightarrow> u32 \<Rightarrow> u32 \<Rightarrow> u32 \<Rightarrow> u32 \<Rightarrow> u32 \<Rightarrow> u32 \<times> u32" where
  "multiply_loop 0 r3 r6 r9 r10 r12 = (r9, r10)"
| "multiply_loop (Suc r14) r3 r6 r9 r10 r12 =
     (let r9 = push_bit 1 r9;
          r15 = r12 AND 1;
          (r10, r15) = (if r15 = 0 then (r10, r15)
                        else (r10 + r3, word_rotr 1 (if r10 + r3 < r3 then 1 else 0)));
          r9 = (if 0 \<le>s r6 then r9 else r9 + r3);
          r10 = drop_bit 1 r10 OR r15
      in multiply_loop r14 r3 (push_bit 1 r6) r9 r10 (drop_bit 1 r12))"

definition emulate_multiply :: "u32 \<Rightarrow> u32 \<Rightarrow> u32 \<Rightarrow> u32" where
  "emulate_multiply r4 r3 r6 =
     (let r11 = r6; (r9, r10) = multiply_loop 32 r3 r6 0 0 r6
      in if r4 = OPX_MUL then r9
         else if r4 = OPX_MULXUU then r10
         else let r9 = (if 0 \<le>s r3 then r10 else r10 - r11)
              in if r4 = OPX_MULXSU then r9 else if 0 \<le>s r11 then r9 else r9 - r3)"

section \<open>Division\<close>

lemma sless_0_bit: "(x :: u32) <s 0 \<longleftrightarrow> 2 ^ 31 \<le> unat x"
  using sint_small [of x] sint_large [of x] by (cases "unat x < 2 ^ 31") (auto simp: word_sless_alt)

lemma sle_0_bit: "0 \<le>s (x :: u32) \<longleftrightarrow> unat x < 2 ^ 31"
  using sless_0_bit [of x] by (auto simp: word_sless_alt word_sle_eq)

lemma unat_double: "unat (x :: u32) < 2 ^ 31 \<Longrightarrow> unat (push_bit 1 x) = 2 * unat x"
  by (simp add: push_bit_eq_mult unat_word_ariths)

lemma unat_double_top: "2 ^ 31 \<le> unat (x :: u32) \<Longrightarrow> unat (push_bit 1 x) = 2 * (unat x - 2 ^ 31)"
proof -
  assume a: "2 ^ 31 \<le> unat x"
  have "unat (push_bit 1 x) = 2 * unat x mod 2 ^ 32"
    by (simp add: push_bit_eq_mult unat_word_ariths mult.commute)
  also have "2 * unat x = 2 * (unat x - 2 ^ 31) + 2 ^ 32" using a by simp
  also have "\<dots> mod 2 ^ 32 = 2 * (unat x - 2 ^ 31)" using unat_u32 [of x] by (subst mod_add_self2) simp
  finally show ?thesis .
qed

text \<open>What is left of the dividend with \<open>n\<close> rounds to go: its top \<open>n\<close> bits.\<close>

definition top_bits :: "nat \<Rightarrow> u32 \<Rightarrow> nat" where
  "top_bits n x = unat x div 2 ^ (32 - n)"

definition msb :: "u32 \<Rightarrow> nat" where
  "msb x = (if x <s 0 then 1 else 0)"

lemma unat_split_msb: "unat x = msb x * 2 ^ 31 + unat (push_bit 1 x) div 2"
  using unat_double [of x] unat_double_top [of x] sless_0_bit [of x] by (auto simp: msb_def)

lemma top_bits_step:
  assumes "k < 32"
  shows "top_bits (Suc k) x = msb x * 2 ^ k + top_bits k (push_bit 1 x)"
proof -
  have p: "(2 :: nat) ^ 31 = 2 ^ k * 2 ^ (31 - k)" "(2 :: nat) ^ (32 - k) = 2 * 2 ^ (31 - k)"
    using assms by (simp_all flip: power_add power_Suc add: Suc_diff_Suc Suc_diff_le)
  have "unat x = msb x * 2 ^ 31 + unat (push_bit 1 x) div 2" by (rule unat_split_msb)
  then have "top_bits (Suc k) x = (unat (push_bit 1 x) div 2 + msb x * 2 ^ k * 2 ^ (31 - k)) div 2 ^ (31 - k)"
    using p(1) by (simp add: top_bits_def algebra_simps)
  also have "\<dots> = msb x * 2 ^ k + unat (push_bit 1 x) div 2 div 2 ^ (31 - k)"
    by (subst div_mult_self1) simp_all
  finally show ?thesis using p(2) by (simp add: top_bits_def div_mult2_eq)
qed

lemma push_or_1: "push_bit 1 (x :: u32) OR 1 = push_bit 1 x + 1"
  by (rule disjunctive_add_eq_or [symmetric]) (simp add: and_one_eq mod_2_eq_odd)

lemma even_push_bit_1: "even (unat (push_bit 1 x :: u32))"
  by (simp add: push_bit_eq_mult unat_word_ariths dvd_mod_iff)

lemma unat_push_or_1: "unat (push_bit 1 x OR 1 :: u32) = unat (push_bit 1 x) + 1"
proof -
  have "odd (2 ^ 32 - 1 :: nat)" by simp
  with even_push_bit_1 have "unat (push_bit 1 x) \<noteq> 2 ^ 32 - 1" by metis
  then have "unat (push_bit 1 x) + 1 < 2 ^ 32" using unat_u32 [of "push_bit 1 x"] by linarith
  then show ?thesis unfolding push_or_1 by (simp add: unat_word_ariths)
qed

lemma top_bits_or_1: "k < 32 \<Longrightarrow> top_bits k (push_bit 1 x OR 1) = top_bits k (push_bit 1 x)"
proof -
  assume k: "k < 32"
  obtain j where j: "32 - k = Suc j" using k by (cases "32 - k") auto
  have "unat (push_bit 1 x OR 1) div 2 = unat (push_bit 1 x) div 2"
    using even_push_bit_1 [of x] unat_push_or_1 [of x] by simp
  then show ?thesis by (simp add: top_bits_def j div_mult2_eq)
qed

lemma shifted_remainder:
  fixes r x :: u32
  assumes "2 * unat r + msb x < 2 ^ 32"
  shows "unat (push_bit 1 r OR (if x <s 0 then 1 else 0)) = 2 * unat r + msb x"
proof -
  have "unat r < 2 ^ 31" using assms by simp
  then show ?thesis using unat_push_or_1 [of r] unat_double [of r] by (auto simp: msb_def)
qed

lemma divide_loop_correct:
  "n \<le> 32 \<Longrightarrow> unat r < unat d \<Longrightarrow> unat r * 2 ^ n + top_bits n x < 2 ^ 32 \<Longrightarrow>
   fst (divide_loop n d x r) = push_bit n x + of_nat ((unat r * 2 ^ n + top_bits n x) div unat d)"
proof (induction n arbitrary: x r)
  case 0
  then show ?case using unat_u32 [of x] by (simp add: top_bits_def)
next
  case (Suc k)
  define R X where "R = push_bit 1 r OR (if x <s 0 then 1 else 0)" and "X = push_bit 1 x"
  let ?t = "(2 * unat r + msb x) * 2 ^ k + top_bits k X"
  have step: "divide_loop (Suc k) d x r =
      (if R < d then divide_loop k d X R else divide_loop k d (X OR 1) (R - d))"
    by (simp only: divide_loop.simps Let_def R_def X_def)
  have shifts: "push_bit (Suc k) x = push_bit k X" "X OR 1 = X + 1" "top_bits k (X OR 1) = top_bits k X"
    using Suc.prems(1) push_or_1 [of x] top_bits_or_1 [of k x] by (simp_all add: X_def)
  have t: "unat r * 2 ^ Suc k + top_bits (Suc k) x = ?t"
    using Suc.prems(1) by (simp add: top_bits_step X_def algebra_simps)
  then have lt: "?t < 2 ^ 32" using Suc.prems(3) by simp
  have "2 * unat r + msb x \<le> ?t" by (simp add: trans_le_add1)
  then have r: "unat R = 2 * unat r + msb x" unfolding R_def using lt by (intro shifted_remainder) simp
  show ?case
  proof (cases "R < d")
    case True
    have "fst (divide_loop k d X R) = push_bit k X + of_nat (?t div unat d)"
      using Suc.IH [of R X] Suc.prems(1) True lt r by (simp add: word_less_nat_alt)
    then show ?thesis using True t by (simp only: step shifts if_True)
  next
    case False
    then have ge: "unat d \<le> unat R" "d \<le> R" by (simp_all add: word_less_nat_alt word_le_nat_alt)
    have s: "unat (R - d) = unat R - unat d" using ge(2) by (rule unat_sub)
    have lt_d: "unat (R - d) < unat d" using s r ge Suc.prems(2) by (simp add: msb_def split: if_splits)
    have "unat R = unat (R - d) + unat d" using s ge(1) by linarith
    then have tt: "?t = (unat (R - d) * 2 ^ k + top_bits k X) + unat d * 2 ^ k"
      unfolding r [symmetric] by (simp only: add_mult_distrib)
    have d0: "0 < unat d" using Suc.prems(2) by simp
    have q: "?t div unat d = (unat (R - d) * 2 ^ k + top_bits k X) div unat d + 2 ^ k"
      unfolding tt using d0 by simp
    have "fst (divide_loop k d (X OR 1) (R - d)) =
        push_bit k (X OR 1) + of_nat ((unat (R - d) * 2 ^ k + top_bits k X) div unat d)"
      using Suc.IH [of "R - d" "X OR 1"] Suc.prems(1) lt_d lt tt shifts(3) by simp
    also have "push_bit k (X OR 1) = push_bit k X + of_nat (2 ^ k)"
      unfolding shifts(2) by (simp add: push_bit_eq_mult algebra_simps)
    finally have "fst (divide_loop k d (X OR 1) (R - d)) = push_bit k X + of_nat (?t div unat d)"
      unfolding q by (simp only: of_nat_add ac_simps)
    then show ?thesis using False t by (simp only: step shifts if_False)
  qed
qed

lemma divide_loop_zero: "n \<le> 32 \<Longrightarrow> fst (divide_loop n 0 x r) = push_bit n x OR mask n"
proof (induction n arbitrary: x r)
  case (Suc k)
  have "fst (divide_loop (Suc k) 0 x r) =
      push_bit k (push_bit 1 x OR 1) OR mask k"
    using Suc by (simp add: Let_def del: push_bit_of_1 cong: if_cong)
  also have "\<dots> = push_bit (Suc k) x OR mask (Suc k)"
    by (rule bit_word_eqI) (auto simp: bit_simps less_Suc_eq)
  finally show ?case .
qed simp

lemma udiv_emulated:
  "fst (divide_loop 32 d x 0) = (if d = 0 then - 1 else x div d)"
proof (cases "d = 0")
  case True
  have "(mask 32 :: u32) = - 1" by (simp add: mask_eq_exp_minus_1)
  then show ?thesis using divide_loop_zero [of 32 x 0] True by simp
next
  case False
  then have "unat (0 :: u32) < unat d" using unat_gt_0 [of d] by simp
  moreover have "top_bits 32 x = unat x" by (simp add: top_bits_def)
  ultimately have "fst (divide_loop 32 d x 0) = push_bit 32 x + of_nat (unat x div unat d)"
    using divide_loop_correct [of 32 0 d x] unat_u32 [of x] by simp
  also have "push_bit 32 x = 0" by (rule bit_word_eqI) (simp add: bit_simps)
  also have "0 + of_nat (unat x div unat d) = x div d" by (simp add: word_div_def unat_div_distrib [symmetric])
  finally show ?thesis using False by simp
qed

text \<open>The absolute value of a word, read as an unsigned number, and the sign of the quotient.\<close>

lemma unat_abs: "int (unat (if 0 \<le>s a then a else 0 - a)) = \<bar>sint (a :: u32)\<bar>"
proof (cases "0 \<le>s a")
  case False
  then have "sint a < 0" by (simp add: word_sle_eq)
  then show ?thesis using False unat_minus_u32 [of a] by simp
qed (use sint_small [of a] sle_0_bit [of a] in simp)

lemma xor_sign: "0 \<le>s (a XOR b :: u32) \<longleftrightarrow> (0 \<le>s a \<longleftrightarrow> 0 \<le>s b)"
proof -
  have s: "0 \<le>s x \<longleftrightarrow> \<not> bit x 31" for x :: u32
    using bit_last_iff [of x] by (simp add: word_sle_eq not_less)
  show ?thesis by (simp add: s bit_simps)
qed

lemma divide_emulated:
  "emulate_divide OPX_DIVU a b = (if b = 0 then - 1 else a div b)"
  "b \<noteq> 0 \<Longrightarrow> emulate_divide OPX_DIV a b = word_of_int (sint a sdiv sint b)"
  "emulate_divide OPX_DIV a 0 = (if 0 \<le>s a then - 1 else 1)"
proof -
  show "emulate_divide OPX_DIVU a b = (if b = 0 then - 1 else a div b)"
    by (simp add: emulate_divide_def udiv_emulated)
  show "emulate_divide OPX_DIV a 0 = (if 0 \<le>s a then - 1 else 1)"
    by (simp add: emulate_divide_def udiv_emulated)
  assume b: "b \<noteq> 0"
  define u v where "u = (if 0 \<le>s a then a else 0 - a)" and "v = (if 0 \<le>s b then b else 0 - b)"
  have "int (unat u) = \<bar>sint a\<bar>" "int (unat v) = \<bar>sint b\<bar>"
    unfolding u_def v_def by (rule unat_abs)+
  then have uv: "uint u = \<bar>sint a\<bar>" "uint v = \<bar>sint b\<bar>" by simp_all
  have "v \<noteq> 0" using b by (simp add: v_def)
  then have q: "fst (divide_loop 32 v u 0) = word_of_int (\<bar>sint a\<bar> div \<bar>sint b\<bar>)"
    by (simp add: udiv_emulated word_div_def uv)
  have e: "emulate_divide OPX_DIV a b =
      (if 0 \<le>s a XOR b then fst (divide_loop 32 v u 0) else - fst (divide_loop 32 v u 0))"
    by (simp add: emulate_divide_def u_def v_def Let_def)
  have "0 \<le>s x \<longleftrightarrow> 0 \<le> sint x" for x :: u32 by (simp add: word_sle_eq)
  then show "emulate_divide OPX_DIV a b = word_of_int (sint a sdiv sint b)"
    using b unfolding e q xor_sign
    by (auto simp: signed_divide_int_def sgn_if)
qed

section \<open>Multiplication\<close>

lemma multiply_low:
  "n \<le> 32 \<Longrightarrow> fst (multiply_loop n a r6 r9 r10 r12) = push_bit n r9 + a * of_nat (top_bits n r6)"
proof (induction n arbitrary: r6 r9 r10 r12)
  case 0
  then show ?case using unat_u32 [of r6] by (simp add: top_bits_def)
next
  case (Suc k)
  define r9' where "r9' = push_bit 1 r9 + a * of_nat (msb r6)"
  have "0 \<le>s r6 \<longleftrightarrow> \<not> r6 <s 0" using sle_0_bit [of r6] sless_0_bit [of r6] by auto
  then have "(if 0 \<le>s r6 then push_bit 1 r9 else push_bit 1 r9 + a) = r9'"
    by (simp add: r9'_def msb_def)
  then obtain x y where "multiply_loop (Suc k) a r6 r9 r10 r12 = multiply_loop k a (push_bit 1 r6) r9' x y"
    by (simp only: multiply_loop.simps Let_def split_beta)
  then have "fst (multiply_loop (Suc k) a r6 r9 r10 r12) = push_bit k r9' + a * of_nat (top_bits k (push_bit 1 r6))"
    using Suc by simp
  then show ?case
    using top_bits_step [of k r6] Suc.prems by (simp add: r9'_def push_bit_eq_mult algebra_simps)
qed

lemma unat_half: "unat (drop_bit 1 y :: u32) = unat y div 2"
  using unat_div_distrib [of y 2] by (simp add: drop_bit_eq_div)

lemma shifted_sum:
  "unat (drop_bit 1 (x + a :: u32) OR word_rotr 1 (if x + a < a then 1 else 0)) = (unat x + unat a) div 2"
proof -
  have rot: "word_rotr 1 (1 :: u32) = push_bit 31 1" "word_rotr 1 (0 :: u32) = 0"
    by code_simp+
  have "\<not> bit (drop_bit 1 (x + a)) n \<or> \<not> bit (push_bit 31 (1 :: u32)) n" for n
    unfolding bit_drop_bit_eq bit_push_bit_iff comp_def using bit_imp_le_length [of "x + a" "1 + n"] by auto
  then have "drop_bit 1 (x + a) AND push_bit 31 1 = 0"
    unfolding bit_eq_iff bit_and_iff by simp
  then have o: "drop_bit 1 (x + a) OR push_bit 31 1 = drop_bit 1 (x + a) + push_bit 31 1"
    by (rule disjunctive_add_eq_or [symmetric])
  show ?thesis
  proof (cases "unat x + unat a < 2 ^ 32")
    case True
    then have "unat (x + a) = unat x + unat a" by (simp add: unat_word_ariths)
    then have "\<not> x + a < a" by (simp add: word_less_nat_alt)
    then show ?thesis using unat_half [of "x + a"] \<open>unat (x + a) = unat x + unat a\<close>
      unfolding if_not_P [OF \<open>\<not> x + a < a\<close>] rot by simp
  next
    case False
    then have "(unat x + unat a) mod 2 ^ 32 = unat x + unat a - 2 ^ 32"
      using unat_u32 [of x] unat_u32 [of a] by (simp add: mod_if)
    then have s: "unat (x + a) = unat x + unat a - 2 ^ 32" by (simp add: unat_word_ariths)
    then have c: "x + a < a" using False unat_u32 [of x] by (simp add: word_less_nat_alt)
    have "unat (drop_bit 1 (x + a)) < 2 ^ 31" using unat_half [of "x + a"] unat_u32 [of "x + a"] by simp
    then have "unat (drop_bit 1 (x + a) + push_bit 31 1) = unat (drop_bit 1 (x + a)) + 2 ^ 31"
      by (simp add: unat_word_ariths push_bit_eq_mult)
    then show ?thesis using s unat_half [of "x + a"] False
      unfolding if_P [OF c] rot o by simp
  qed
qed

lemma multiply_high:
  "unat (snd (multiply_loop n a r6 r9 r10 r12)) = (unat r10 + unat a * (unat r12 mod 2 ^ n)) div 2 ^ n"
proof (induction n arbitrary: r6 r9 r10 r12)
  case (Suc k)
  define lsb where "lsb = unat r12 mod 2"
  have x: "snd (multiply_loop (Suc k) a r6 r9 r10 r12) =
      snd (multiply_loop k a (push_bit 1 r6) (if 0 \<le>s r6 then push_bit 1 r9 else push_bit 1 r9 + a)
        (if r12 AND 1 = 0 then drop_bit 1 r10 OR (r12 AND 1)
         else drop_bit 1 (r10 + a) OR word_rotr 1 (if r10 + a < a then 1 else 0)) (drop_bit 1 r12))"
    by (cases "r12 AND 1 = 0") (simp_all add: Let_def)
  have "r12 AND 1 = 0 \<longleftrightarrow> lsb = 0" 
    by (simp add: lsb_def and_one_eq mod_2_eq_odd bit_unsigned_iff flip: bit_0)
  then have r: "unat (if r12 AND 1 = 0 then drop_bit 1 r10 OR (r12 AND 1)
         else drop_bit 1 (r10 + a) OR word_rotr 1 (if r10 + a < a then 1 else 0)) = (unat r10 + lsb * unat a) div 2"
    using shifted_sum [of r10 a] unat_half [of r10] by (cases "lsb = 0") (simp_all add: lsb_def)
  have m: "unat r12 mod 2 ^ Suc k = lsb + 2 * (unat r12 div 2 mod 2 ^ k)"
    by (simp add: lsb_def mod_mult2_eq)
  have "unat (snd (multiply_loop (Suc k) a r6 r9 r10 r12)) =
      ((unat r10 + lsb * unat a) div 2 + unat a * (unat r12 div 2 mod 2 ^ k)) div 2 ^ k"
    unfolding x Suc.IH r unat_half ..
  also have "(unat r10 + lsb * unat a) div 2 + unat a * (unat r12 div 2 mod 2 ^ k) =
      (unat r10 + unat a * (lsb + 2 * (unat r12 div 2 mod 2 ^ k))) div 2"
    by (simp add: algebra_simps)
  also have "\<dots> div 2 ^ k = (unat r10 + unat a * (unat r12 mod 2 ^ Suc k)) div 2 ^ Suc k"
    unfolding m by (simp add: div_mult2_eq)
  finally show ?case .
qed simp

lemma multiply_emulated:
  "emulate_multiply OPX_MUL a b = a * b"
  "emulate_multiply OPX_MULXUU a b = word_of_int (uint a * uint b div 2 ^ 32)"
  "emulate_multiply OPX_MULXSU a b = word_of_int (sint a * uint b div 2 ^ 32)"
  "emulate_multiply OPX_MULXSS a b = word_of_int (sint a * sint b div 2 ^ 32)"
proof -
  obtain l h where lh: "multiply_loop 32 a b 0 0 b = (l, h)" by fastforce
  have "top_bits 32 b = unat b" by (simp add: top_bits_def)
  then have l: "l = a * b" using multiply_low [of 32 a b 0 0 b] lh by simp
  have "unat h = unat a * unat b div 2 ^ 32"
    using multiply_high [of 32 a b 0 0 b] lh unat_u32 [of b] by simp
  then have "int (unat h) = int (unat a) * int (unat b) div 2 ^ 32" by (simp add: zdiv_int)
  then have "uint h = uint a * uint b div 2 ^ 32" by simp
  then have h: "h = word_of_int (uint a * uint b div 2 ^ 32)" by (metis word_of_int_uint)
  have s: "sint x = (if 0 \<le>s x then uint x else uint x - 2 ^ 32)" for x :: u32
    using sint_u32 [of x] sle_0_bit [of x] uint_less_u32 [of x] by simp
  have d: "(n - 2 ^ 32 * m) div 2 ^ 32 = n div 2 ^ 32 - m" for n m :: int
    using div_mult_self2 [of "2 ^ 32" n "- m"] by simp
  have su: "sint a * uint b div 2 ^ 32 = uint a * uint b div 2 ^ 32 - (if 0 \<le>s a then 0 else uint b)"
    using d [of "uint a * uint b" "uint b"] by (simp add: s algebra_simps)
  have ss: "sint a * sint b div 2 ^ 32 = sint a * uint b div 2 ^ 32 - (if 0 \<le>s b then 0 else sint a)"
    using d [of "sint a * uint b" "sint a"] by (simp add: s [of b] algebra_simps)
  show "emulate_multiply OPX_MUL a b = a * b" by (simp add: emulate_multiply_def lh l)
  show "emulate_multiply OPX_MULXUU a b = word_of_int (uint a * uint b div 2 ^ 32)"
    by (simp add: emulate_multiply_def lh h)
  show mulxsu: "emulate_multiply OPX_MULXSU a b = word_of_int (sint a * uint b div 2 ^ 32)"
    unfolding su by (simp add: emulate_multiply_def lh h)
  have "emulate_multiply OPX_MULXSS a b =
      (if 0 \<le>s b then emulate_multiply OPX_MULXSU a b else emulate_multiply OPX_MULXSU a b - a)"
    by (simp add: emulate_multiply_def lh)
  then show "emulate_multiply OPX_MULXSS a b = word_of_int (sint a * sint b div 2 ^ 32)"
    unfolding mulxsu ss by simp
qed

end
