(* ===== verification/Exceptions.thy ===== *)
theory Exceptions
  imports MulDiv Irq
begin

text \<open>
  The exception handler of the board: \<^verbatim>\<open>HAL/src/alt_exception_entry.S\<close> with the parts that the linker
  places inside it, \<^verbatim>\<open>alt_irq_entry.S\<close> (interrupts), \<^verbatim>\<open>alt_exception_muldiv.S\<close> (instructions the
  processor lacks) and \<^verbatim>\<open>alt_instruction_exception_entry.c\<close> (a handler of the user). It runs in the
  middle of any program, so its contract is about registers: what an interrupt must leave alone,
  and what an emulated instruction must change.
\<close>

section \<open>The processor\<close>

text \<open>
  Registers 0 to 31; 24 is \<^verbatim>\<open>et\<close>, 25 \<^verbatim>\<open>bt\<close>, 26 \<^verbatim>\<open>gp\<close>, 27 \<^verbatim>\<open>sp\<close>, 28 \<^verbatim>\<open>fp\<close>, 29 \<^verbatim>\<open>ea\<close>, 30 \<^verbatim>\<open>ba\<close> and 31
  \<^verbatim>\<open>ra\<close>. A handler of the user gets the cause, the address of the instruction and a bad address,
  and works on the state of the drivers.
\<close>

type_synonym 's exception_handler = "int \<Rightarrow> u32 \<Rightarrow> u32 \<Rightarrow> 's \<Rightarrow> u32 \<times> 's"

record 's cpu =
  regs :: "u32 list"
  cpu_pc :: u32
  int_sys :: "'s irq_sys"
  alt_instruction_exception_handler :: "'s exception_handler option"

datatype 's resumption = Resumed "'s cpu" | Break "'s cpu" | NoReturn | Faulty fault

text \<open>
  The stack frame: 34 words, of which the lower 15 belong to the emulation; offsets are in bytes
  from its lower end. The frame of the entry code begins at 60.
\<close>

definition stw :: "u32 list \<Rightarrow> nat \<Rightarrow> u32 \<Rightarrow> u32 list" where
  "stw f off v = f[off div 4 := v]"

definition ldw :: "u32 list \<Rightarrow> nat \<Rightarrow> u32" where
  "ldw f off = f ! (off div 4)"

section \<open>Entry and exit\<close>

definition save_registers :: "u32 list \<Rightarrow> u32 \<Rightarrow> u32 list \<Rightarrow> u32 list" where
  "save_registers r estatus f =
     fold (\<lambda>(off, v) f. stw f (60 + off) v)
       [(0, r ! 31), (8, r ! 1), (12, r ! 2), (16, r ! 3), (20, r ! 4), (24, r ! 5), (28, r ! 6),
        (32, r ! 7), (36, r ! 8), (40, r ! 9), (44, r ! 10), (48, r ! 11), (52, r ! 12), (56, r ! 13),
        (60, r ! 14), (64, r ! 15), (68, estatus), (72, r ! 29 - 4)] f"

definition restore_registers :: "u32 list \<Rightarrow> u32 list \<Rightarrow> u32 list" where
  "restore_registers f r =
     fold (\<lambda>(k, off) r. r[k := ldw f (60 + off)])
       [(29, 72), (31, 0), (1, 8), (2, 12), (3, 16), (4, 20), (5, 24), (6, 28), (7, 32), (8, 36),
        (9, 40), (10, 44), (11, 48), (12, 52), (13, 56), (14, 60), (15, 64)] r"

text \<open>\<^verbatim>\<open>eret\<close> takes the program counter from \<^verbatim>\<open>ea\<close> and the status from \<^verbatim>\<open>estatus\<close>.\<close>

definition exception_exit :: "u32 list \<Rightarrow> 's cpu \<Rightarrow> 's resumption" where
  "exception_exit f c =
     (let r = restore_registers f (regs c)
      in Resumed (c\<lparr>regs := r, cpu_pc := r ! 29,
           int_sys := (int_sys c)\<lparr>cpu_status := ldw f (60 + 68)\<rparr>\<rparr>))"

section \<open>Emulation\<close>

text \<open>The fields of the instruction in \<open>r2\<close>, as offsets of the operands in the frame.\<close>

definition split_fields :: "u32 \<Rightarrow> u32 \<times> u32 \<times> u32 \<times> u32 \<times> u32" where
  "split_fields r2 =
     (let r3 = word_rotl 7 r2;
          r4 = word_rotl 3 r3;
          r6 = word_rotl 2 r4;
          r4 = signed_drop_bit 16 r4;
          r6 = r6 XOR 0x42;
          r7 = word_rotl 5 r6;
          r5 = r2 AND 0x3f;
          r3 = r3 XOR 0x40
      in (r3 AND 0x7c, r4, r5, r6 AND 0x7c, r7 AND 0x7c))"

text \<open>
  The stack pointer that is saved is that of the handler, 136 bytes below the one of the program.
  Registers \<^verbatim>\<open>et\<close>, \<^verbatim>\<open>bt\<close>, \<^verbatim>\<open>ea\<close> and \<^verbatim>\<open>ba\<close> are not saved: their words are what the stack held.
\<close>

definition save_operands :: "u32 list \<Rightarrow> u32 list \<Rightarrow> u32 list" where
  "save_operands r f =
     fold (\<lambda>(off, v) f. stw f off v)
       [(64, 0), (0, r ! 16), (4, r ! 17), (8, r ! 18), (12, r ! 19), (16, r ! 20), (20, r ! 21),
        (24, r ! 22), (28, r ! 23), (40, r ! 26), (44, r ! 27 - 76 - 60), (48, r ! 28)] f"

definition restore_operands :: "u32 list \<Rightarrow> u32 list \<Rightarrow> u32 list" where
  "restore_operands f r =
     fold (\<lambda>(k, off) r. r[k := ldw f off])
       [(16, 0), (17, 4), (18, 8), (19, 12), (20, 16), (21, 20), (22, 24), (23, 28), (28, 48)] r"

definition store_result :: "u32 \<Rightarrow> u32 \<Rightarrow> u32 list \<Rightarrow> u32 list \<Rightarrow> u32 list option \<times> u32 list" where
  "store_result r7 r9 r f = (let f = stw f (unat r7) r9 in (Some (restore_operands f r), f))"

definition alt_exception_muldiv :: "u32 \<Rightarrow> u32 list \<Rightarrow> u32 list \<Rightarrow> u32 list option \<times> u32 list" where
  "alt_exception_muldiv r2 r f =
     (let (r3, r4, r5, r6, r7) = split_fields r2;
          f = save_operands r f;
          r3 = ldw f (unat r3)
      in if r5 = 0x24 then store_result r6 (emulate_multiply OPX_MUL r3 r4) r f
         else
           (let r6 = ldw f (unat r6); r4 = drop_bit 5 r4 AND 0x3f
            in if r5 \<noteq> 0x3a then (None, f)
               else if r4 = OPX_DIVU then store_result r7 (emulate_divide r4 r3 r6) r f
               else if r4 = OPX_MUL \<or> r4 = OPX_MULXUU \<or> r4 = OPX_MULXSU \<or> r4 = OPX_MULXSS
               then store_result r7 (emulate_multiply r4 r3 r6) r f
               else if r4 = OPX_DIV then store_result r7 (emulate_divide r4 r3 r6) r f
               else (None, f)))"

section \<open>Handlers of the user\<close>

abbreviation (input) CAUSE_NOT_PRESENT :: int where "CAUSE_NOT_PRESENT \<equiv> - 1"

definition alt_instruction_exception_register :: "'s exception_handler option \<Rightarrow> 's cpu \<Rightarrow> 's cpu" where
  "alt_instruction_exception_register exception_handler c =
     c\<lparr>alt_instruction_exception_handler := exception_handler\<rparr>"

text \<open>Without a handler the processor breaks into the debugger: no result.\<close>

definition alt_instruction_exception_entry :: "u32 \<Rightarrow> 's cpu \<Rightarrow> (u32 \<times> 's) option" where
  "alt_instruction_exception_entry exception_pc c =
     (let cause = CAUSE_NOT_PRESENT; badaddr = 0
      in case alt_instruction_exception_handler c of
           Some h \<Rightarrow> Some (h cause exception_pc badaddr (devs (int_sys c)))
         | None \<Rightarrow> None)"

definition alt_exception_cause_generated_bad_addr :: "int \<Rightarrow> int" where
  "alt_exception_cause_generated_bad_addr cause = (if cause \<in> {11, 6, 7, 14, 15, 17, 21} then 1 else 0)"

section \<open>The handler\<close>

text \<open>
  \<open>fetch\<close> is the memory the program runs from, \<open>c_call\<close> what calling compiled C code does to the
  registers, \<open>stack\<close> the words below the stack pointer of the program. On an exception the
  processor clears the interrupt enable, keeping the old status in \<^verbatim>\<open>estatus\<close>, and leaves the address
  of the next instruction in \<^verbatim>\<open>ea\<close>.
\<close>

definition take_exception :: "'s cpu \<Rightarrow> 's cpu" where
  "take_exception c =
     c\<lparr>regs := (regs c)[29 := cpu_pc c + 4],
       int_sys := (int_sys c)\<lparr>cpu_status := cpu_status (int_sys c) AND NOT PIE\<rparr>\<rparr>"

definition not_irq :: "(u32 \<Rightarrow> u32) \<Rightarrow> (u32 list \<Rightarrow> u32 list) \<Rightarrow> u32 list \<Rightarrow> 's cpu \<Rightarrow> 's resumption" where
  "not_irq fetch c_call f c =
     (let ea = regs c ! 29; f = stw f (60 + 72) ea; r2 = fetch (ea - 4)
      in case alt_exception_muldiv r2 (regs c) f of
           (Some r, f) \<Rightarrow> exception_exit f (c\<lparr>regs := r\<rparr>)
         | (None, f) \<Rightarrow>
             (case alt_instruction_exception_entry (ea - 4) c of
                None \<Rightarrow> Break c
              | Some (r2, s) \<Rightarrow>
                  (let c = c\<lparr>regs := c_call (regs c), int_sys := (int_sys c)\<lparr>devs := s\<rparr>\<rparr>
                   in if r2 \<noteq> 0 then exception_exit f c
                      else exception_exit (stw f (60 + 72) (regs c ! 29 - 4)) c)))"

definition alt_exception ::
  "(u32 \<Rightarrow> u32) \<Rightarrow> ('s \<Rightarrow> u32) \<Rightarrow> (u32 list \<Rightarrow> u32 list) \<Rightarrow> u32 list \<Rightarrow> 's cpu \<Rightarrow> 's resumption" where
  "alt_exception fetch lines c_call stack c =
     (let estatus = cpu_status (int_sys c);
          c = take_exception c;
          f = save_registers (regs c) estatus stack
      in if estatus AND 1 \<noteq> 0 \<and> alt_irq_pending lines (int_sys c) \<noteq> 0 then
           (case alt_irq_handler lines (int_sys c) of
              None \<Rightarrow> NoReturn
            | Some (Inl e) \<Rightarrow> Faulty e
            | Some (Inr m) \<Rightarrow> exception_exit f (c\<lparr>regs := c_call (regs c), int_sys := m\<rparr>))
         else not_irq fetch c_call f c)"

section \<open>Frames\<close>

text \<open>The calling convention: C code keeps every register but 1 to 15 and \<^verbatim>\<open>ra\<close>.\<close>

definition abi :: "(u32 list \<Rightarrow> u32 list) \<Rightarrow> bool" where
  "abi c_call \<longleftrightarrow> (\<forall>r. length (c_call r) = length r
     \<and> (\<forall>k < length r. k \<notin> {1..15} \<union> {31} \<longrightarrow> c_call r ! k = r ! k))"

definition saved :: "nat \<Rightarrow> bool" where
  "saved k \<longleftrightarrow> k \<in> {1..15} \<union> {31}"

lemma length_saved [simp]:
  "length (save_registers r e f) = length f" "length (stw f off v) = length f"
  "length (save_operands r f) = length f"
  by (simp_all add: save_registers_def save_operands_def stw_def)

lemma ldw_stw: "ldw (stw f a v) b = (if a div 4 = b div 4 \<and> a div 4 < length f then v else ldw f b)"
  by (cases "a div 4 < length f") (auto simp: ldw_def stw_def nth_list_update list_update_beyond)

text \<open>Where register \<open>k\<close> stands in the frame.\<close>

definition slot :: "nat \<Rightarrow> nat" where
  "slot k = 4 * (k XOR 16)"

lemma all_registers:
  "[0..<32] = [0, 1, 2, 3, 4, 5, 6, 7, 8, 9, 10, 11, 12, 13, 14, 15, 
     16, 17, 18, 19, 20, 21, 22, 23, 24, 25, 26, 27, 28, 29, 30, 31]"
  by code_simp

lemma each_register: "list_all P [0..<32] \<Longrightarrow> k < 32 \<Longrightarrow> P k"
  by (simp add: list_all_iff)

lemma save_registers_frame:
  assumes "length f = 34"
  shows "k < 32 \<Longrightarrow> saved k \<Longrightarrow> ldw (save_registers r e f) (slot k) = r ! k"
    "ldw (save_registers r e f) 128 = e" "ldw (save_registers r e f) 132 = r ! 29 - 4"
proof -
  have "list_all (\<lambda>k. saved k \<longrightarrow> ldw (save_registers r e f) (slot k) = r ! k) [0..<32]"
    unfolding all_registers using assms by (simp add: save_registers_def saved_def ldw_stw slot_def)
  from each_register [OF this]
  show "k < 32 \<Longrightarrow> saved k \<Longrightarrow> ldw (save_registers r e f) (slot k) = r ! k" by blast
qed (use assms in \<open>simp_all add: save_registers_def ldw_stw\<close>)

lemma restore_registers_frame:
  assumes "length r = 32" "k < 32"
  shows "restore_registers f r ! k =
    (if saved k then ldw f (slot k) else if k = 29 then ldw f 132 else r ! k)"
proof (rule each_register [OF _ assms(2)])
  show "list_all (\<lambda>k. restore_registers f r ! k =
      (if saved k then ldw f (slot k) else if k = 29 then ldw f 132 else r ! k)) [0..<32]"
    unfolding all_registers using assms(1) by (simp add: restore_registers_def saved_def slot_def)
qed

lemma length_restored [simp]:
  "length (restore_registers f r) = length r" "length (restore_operands f r) = length r"
  by (simp_all add: restore_registers_def restore_operands_def)

lemma slot_less: "k < 32 \<Longrightarrow> slot k < 128"
  by (rule each_register [of "\<lambda>k. slot k < 128"]) (simp_all add: all_registers slot_def)

lemma slot_div: "slot k div 4 = k XOR 16"
  by (simp add: slot_def)

lemma slot_eq: "slot j div 4 = slot k div 4 \<longleftrightarrow> j = k"
  unfolding slot_div by (metis xor.assoc xor_self_eq xor.right_neutral)

lemma ldw_stw_slot:
  assumes "length f = 34" "j < 32"
  shows "ldw (stw f (slot j) v) (slot k) = (if j = k then v else ldw f (slot k))"
    "ldw (stw f (slot j) v) 128 = ldw f 128" "ldw (stw f (slot j) v) 132 = ldw f 132"
    "ldw (stw f 132 v) (slot j) = ldw f (slot j)"
proof -
  have "slot j div 4 < 32" using slot_less [OF assms(2)] by simp
  then show "ldw (stw f (slot j) v) (slot k) = (if j = k then v else ldw f (slot k))"
    "ldw (stw f (slot j) v) 128 = ldw f 128" "ldw (stw f (slot j) v) 132 = ldw f 132"
    "ldw (stw f 132 v) (slot j) = ldw f (slot j)"
    using assms(1) by (simp_all add: ldw_stw slot_eq del: slot_div)
qed

text \<open>The value that the emulation finds for a source register, and the frame after saving.\<close>

definition operand_seen :: "u32 list \<Rightarrow> u32 list \<Rightarrow> nat \<Rightarrow> u32" where
  "operand_seen r stack k =
     (if k = 0 then 0 else if k = 27 then r ! 27 - 136
      else if k \<in> {24, 25, 29, 30} then ldw stack (slot k) else r ! k)"

definition emulation_frame :: "u32 list \<Rightarrow> u32 \<Rightarrow> u32 list \<Rightarrow> u32 list" where
  "emulation_frame r e stack = save_operands r (stw (save_registers r e stack) 132 (r ! 29))"

lemma length_emulation_frame [simp]: "length (emulation_frame r e stack) = length stack"
  by (simp add: emulation_frame_def)

lemma emulation_frame:
  assumes "length stack = 34"
  shows "k < 32 \<Longrightarrow> ldw (emulation_frame r e stack) (slot k) = operand_seen r stack k"
    "ldw (emulation_frame r e stack) 128 = e" "ldw (emulation_frame r e stack) 132 = r ! 29"
proof -
  have "list_all (\<lambda>k. ldw (emulation_frame r e stack) (slot k) = operand_seen r stack k) [0..<32]"
    unfolding all_registers using assms
    by (simp add: emulation_frame_def save_operands_def save_registers_def operand_seen_def ldw_stw slot_def)
  from each_register [OF this]
  show "k < 32 \<Longrightarrow> ldw (emulation_frame r e stack) (slot k) = operand_seen r stack k" by blast
qed (use assms in \<open>simp_all add: emulation_frame_def save_operands_def save_registers_def ldw_stw\<close>)

lemma restore_operands_frame:
  assumes "length r = 32" "k < 32"
  shows "restore_operands f r ! k = (if k \<in> {16..23} \<union> {28} then ldw f (slot k) else r ! k)"
proof (rule each_register [OF _ assms(2)])
  show "list_all (\<lambda>k. restore_operands f r ! k =
      (if k \<in> {16..23} \<union> {28} then ldw f (slot k) else r ! k)) [0..<32]"
    unfolding all_registers using assms(1) by (simp add: restore_operands_def slot_def)
qed

text \<open>Registers that the emulation can write.\<close>

definition writable :: "nat \<Rightarrow> bool" where
  "writable d \<longleftrightarrow> d < 32 \<and> d \<notin> {0, 24, 25, 26, 27, 29, 30}"

lemma emulated_registers:
  assumes "length stack = 34" "length r = 32" "d < 32"
    "f = stw (emulation_frame r e stack) (slot d) v"
  shows "restore_registers f (restore_operands f r) = (if writable d then r[d := v] else r)"
    "ldw f 128 = e"
proof -
  have sl: "k < 32 \<Longrightarrow> ldw f (slot k) = (if k = d then v else operand_seen r stack k)" for k
    using assms(1,3) by (simp add: assms(4) ldw_stw_slot emulation_frame)
  have e: "ldw f 128 = e" "ldw f 132 = r ! 29"
    using assms(1,3) by (simp_all add: assms(4) ldw_stw_slot emulation_frame)
  then show "ldw f 128 = e" by simp
  show "restore_registers f (restore_operands f r) = (if writable d then r[d := v] else r)"
  proof (rule nth_equalityI)
    fix k assume "k < length (restore_registers f (restore_operands f r))"
    then have k: "k < 32" using assms(2) by simp
    have c: "saved k \<Longrightarrow> k \<notin> {0, 24, 25, 26, 27, 28, 29, 30} \<and> k \<notin> {16..23}"
      by (auto simp: saved_def)
    show "restore_registers f (restore_operands f r) ! k = (if writable d then r[d := v] else r) ! k"
      using assms(2,3) k c
      by (auto simp: restore_registers_frame restore_operands_frame sl e(2) operand_seen_def writable_def
          nth_list_update saved_def)
  qed (use assms(2) in simp)
qed

end
