(* ===== verification/NiosRegs.thy ===== *)
theory NiosRegs
  imports Irq Exceptions
begin

text \<open>
  The control registers of the processor: the numbers of \<^verbatim>\<open>nios2.h\<close> by which the access macros name
  them and the masks and positions of their fields, as tables, and the exception causes of
  \<^verbatim>\<open>alt_exceptions.h\<close>. The lemmas show that every field can be read and written as the header says
  without touching another one, with one pair of names for the same bits, and that the interrupt
  switch of \<open>Irq\<close> and the tests of \<open>Exceptions\<close> use the tables.
\<close>

section \<open>The tables\<close>

text \<open>The registers that the macros read and those that they write, with their numbers.\<close>

definition nios2_reads :: "(string \<times> nat) list" where
  "nios2_reads =
    [(''STATUS'', 0), (''ESTATUS'', 1), (''BSTATUS'', 2), (''IENABLE'', 3), (''IPENDING'', 4),
     (''CPUID'', 5), (''EXCEPTION'', 7), (''PTEADDR'', 8), (''TLBACC'', 9), (''TLBMISC'', 10),
     (''ECCINJ'', 11), (''BADADDR'', 12), (''CONFIG'', 13), (''MPUBASE'', 14), (''MPUACC'', 15)]"

definition nios2_writes :: "(string \<times> nat) list" where
  "nios2_writes =
    [(''STATUS'', 0), (''IENABLE'', 3), (''PTEADDR'', 8), (''TLBACC'', 9), (''TLBMISC'', 10),
     (''ECCINJ'', 11), (''CONFIG'', 13), (''MPUBASE'', 14), (''MPUACC'', 15)]"

text \<open>The fields of a register: name, mask and position of the lowest bit.\<close>

type_synonym field = "string \<times> u32 \<times> nat"

definition STATUS_fields :: "field list" where
  "STATUS_fields =
    [(''PIE'', 0x00000001, 0), (''U'', 0x00000002, 1), (''EH'', 0x00000004, 2),
     (''IH'', 0x00000008, 3), (''IL'', 0x000003f0, 4), (''CRS'', 0x0000fc00, 10),
     (''PRS'', 0x003f0000, 16), (''NMI'', 0x00400000, 22), (''RSIE'', 0x00800000, 23),
     (''SRS'', 0x80000000, 31)]"

definition EXCEPTION_fields :: "field list" where
  "EXCEPTION_fields =
    [(''CAUSE'', 0x0000007c, 2), (''ECCFTL'', 0x80000000, 31)]"

definition PTEADDR_fields :: "field list" where
  "PTEADDR_fields =
    [(''VPN'', 0x3ffffc, 2), (''PTBASE'', 0xffc00000, 22)]"

definition TLBACC_fields :: "field list" where
  "TLBACC_fields =
    [(''PFN'', 0xfffff, 0), (''G'', 0x100000, 20), (''X'', 0x200000, 21),
     (''W'', 0x400000, 22), (''R'', 0x800000, 23), (''C'', 0x1000000, 24),
     (''IG'', 0xfe000000, 25)]"

definition TLBMISC_fields :: "field list" where
  "TLBMISC_fields =
    [(''D'', 0x1, 0), (''PERM'', 0x2, 1), (''BAD'', 0x4, 2),
     (''DBL'', 0x8, 3), (''PID'', 0x3fff0, 4), (''WE'', 0x40000, 18),
     (''RD'', 0x80000, 19), (''WAY'', 0xf00000, 20), (''EE'', 0x1000000, 24)]"

definition ECCINJ_fields :: "field list" where
  "ECCINJ_fields =
    [(''RF'', 0x3, 0), (''ICTAG'', 0xc, 2), (''ICDAT'', 0x30, 4),
     (''DCTAG'', 0xc0, 6), (''DCDAT'', 0x300, 8), (''TLB'', 0xc00, 10),
     (''DTCM0'', 0x3000, 12), (''DTCM1'', 0xc000, 14), (''DTCM2'', 0x30000, 16),
     (''DTCM3'', 0xc0000, 18)]"

definition CONFIG_fields :: "field list" where
  "CONFIG_fields =
    [(''PE'', 0x00000001, 0), (''ANI'', 0x00000002, 1), (''ECCEN'', 0x00000004, 2),
     (''ECCEXC'', 0x00000008, 3)]"

definition MPUBASE_fields :: "field list" where
  "MPUBASE_fields =
    [(''D'', 0x00000001, 0), (''INDEX'', 0x0000003e, 1), (''BASE_ADDR'', 0xffffffc0, 6)]"

definition MPUACC_fields :: "field list" where
  "MPUACC_fields =
    [(''LIMIT'', 0xffffffc0, 6), (''MASK'', 0xffffffc0, 6), (''C'', 0x00000020, 5),
     (''PERM'', 0x0000001c, 2), (''RD'', 0x00000002, 1), (''WR'', 0x00000001, 0)]"

definition nios2_fields :: "(string \<times> field list) list" where
  "nios2_fields =
    [(''STATUS'', STATUS_fields), (''EXCEPTION'', EXCEPTION_fields), (''PTEADDR'', PTEADDR_fields),
     (''TLBACC'', TLBACC_fields), (''TLBMISC'', TLBMISC_fields), (''ECCINJ'', ECCINJ_fields),
     (''CONFIG'', CONFIG_fields), (''MPUBASE'', MPUBASE_fields), (''MPUACC'', MPUACC_fields)]"

text \<open>The causes of an exception, the first one for a processor that does not give the cause.\<close>

definition alt_exception_causes :: "(string \<times> int) list" where
  "alt_exception_causes =
    [(''CAUSE_NOT_PRESENT'', - 1), (''RESET'', 0), (''CPU_ONLY_RESET_REQUEST'', 1),
     (''INTERRUPT'', 2), (''TRAP_INST'', 3), (''UNIMPLEMENTED_INST'', 4),
     (''ILLEGAL_INST'', 5), (''MISALIGNED_DATA_ADDR'', 6), (''MISALIGNED_TARGET_PC'', 7),
     (''DIVISION_ERROR'', 8), (''SUPERVISOR_ONLY_INST_ADDR'', 9), (''SUPERVISOR_ONLY_INST'', 10),
     (''SUPERVISOR_ONLY_DATA_ADDR'', 11), (''TLB_MISS'', 12), (''TLB_EXECUTE_PERM_VIOLATION'', 13),
     (''TLB_READ_PERM_VIOLATION'', 14), (''TLB_WRITE_PERM_VIOLATION'', 15), (''MPU_INST_REGION_VIOLATION'', 16),
     (''MPU_DATA_REGION_VIOLATION'', 17), (''ECC_TLB_ERR'', 18), (''ECC_FETCH_ERR'', 19),
     (''ECC_REGISTER_FILE_ERR'', 20), (''ECC_DATA_ERR'', 21), (''ECC_DATA_CACHE_WRITEBACK_ERR'', 22)]"

section \<open>Reading and writing a field\<close>

text \<open>To read, mask and shift down; to write, shift up and mask.\<close>

definition field_get :: "field \<Rightarrow> u32 \<Rightarrow> u32" where
  "field_get f r = (case f of (n, m, p) \<Rightarrow> drop_bit p (r AND m))"

definition field_put :: "field \<Rightarrow> u32 \<Rightarrow> u32 \<Rightarrow> u32" where
  "field_put f v r = (case f of (n, m, p) \<Rightarrow> (r AND NOT m) OR (push_bit p v AND m))"

definition fits :: "field \<Rightarrow> u32 \<Rightarrow> bool" where
  "fits f v = (case f of (n, m, p) \<Rightarrow> v AND drop_bit p m = v)"

definition contiguous :: "field \<Rightarrow> bool" where
  "contiguous f = (case f of (n, m, p) \<Rightarrow>
     m \<noteq> 0 \<and> push_bit p (drop_bit p m) = m \<and> drop_bit p m AND (drop_bit p m + 1) = 0)"

fun overlaps :: "field list \<Rightarrow> (string \<times> string) list" where
  "overlaps [] = []"
| "overlaps ((n, m, p) # l) = [(n, n'). (n', m', p') \<leftarrow> l, m AND m' \<noteq> 0] @ overlaps l"

lemma bit_u32: "bit (w :: u32) i \<Longrightarrow> i < 32"
  using bit_imp_le_length [of w i] by simp

lemma field_get_put: "fits f v \<Longrightarrow> field_get f (field_put f v r) = v"
proof -
  obtain n m p where f: "f = (n, m, p)" by (cases f)
  assume v: "fits f v"
  have m: "bit m (p + i)" if "bit v i" for i
  proof -
    have "bit (v AND drop_bit p m) i" using that v by (simp add: fits_def f)
    then show ?thesis by (simp add: bit_simps)
  qed
  then show ?thesis
    by (auto simp: f field_get_def field_put_def bit_eq_iff bit_simps dest: bit_u32)
qed

lemma field_put_other:
  assumes "fst (snd f) AND fst (snd f') = 0"
  shows "field_get f' (field_put f v r) = field_get f' r"
proof -
  obtain n m p n' m' p' where f: "f = (n, m, p)" "f' = (n', m', p')" by (metis surj_pair)
  have "\<not> bit m i" if "bit m' i" for i
    using assms that f by (metis fst_conv snd_conv bit_and_iff bit_0_eq bot_apply bot_bool_def)
  then show ?thesis by (auto simp: f field_get_def field_put_def bit_eq_iff bit_simps dest: bit_u32)
qed

lemma field_put_get: "contiguous f \<Longrightarrow> field_put f (field_get f r) r = r"
proof -
  obtain n m p where f: "f = (n, m, p)" by (cases f)
  assume "contiguous f"
  then have "push_bit p (drop_bit p m) = m" by (simp add: contiguous_def f)
  then have "p \<le> i" if "bit m i" for i
    using that by (metis bit_push_bit_iff)
  then show ?thesis
    by (auto simp: f field_get_def field_put_def bit_eq_iff bit_simps)
qed

section \<open>The registers are consistent\<close>

lemma fields_contiguous: "list_all (\<lambda>(n, l). list_all contiguous l) nios2_fields"
  by code_simp

text \<open>The region limit and the region mask of a memory region are alternatives of the configuration.\<close>

lemma fields_overlap: "concat (map (\<lambda>(n, l). overlaps l) nios2_fields) = [(''LIMIT'', ''MASK'')]"
  by code_simp

lemma overlaps_empty:
  "overlaps l = [] \<Longrightarrow> i < length l \<Longrightarrow> j < length l \<Longrightarrow> i \<noteq> j \<Longrightarrow> fst (snd (l ! i)) AND fst (snd (l ! j)) = 0"
proof (induction l arbitrary: i j)
  case (Cons f l)
  obtain n m p where f: "f = (n, m, p)" by (cases f)
  have l: "overlaps l = []" "\<forall>g\<in>set l. m AND fst (snd g) = 0"
    using Cons.prems(1) by (auto simp: f split: prod.splits if_splits)
  then show ?case using Cons.IH [of "i - 1" "j - 1"] Cons.prems
    by (cases i; cases j) (auto simp: f and.commute)
qed simp

text \<open>Every field of every register, but the pair, is written without a change of another field.\<close>

lemma nios2_field_independent:
  assumes "(r, l) \<in> set nios2_fields" "r \<noteq> ''MPUACC''" "i < length l" "j < length l" "i \<noteq> j" "fits (l ! i) v"
  shows "field_get (l ! i) (field_put (l ! i) v w) = v \<and> field_get (l ! j) (field_put (l ! i) v w) = field_get (l ! j) w"
proof -
  have "list_all (\<lambda>(n, l). n \<noteq> ''MPUACC'' \<longrightarrow> overlaps l = []) nios2_fields" by code_simp
  then have "overlaps l = []" using assms(1,2) by (auto simp: list_all_iff)
  from field_put_other [OF overlaps_empty [OF this assms(3,4,5)]] field_get_put [OF assms(6)] show ?thesis by simp
qed

text \<open>Fields belong to registers that the macros read; a macro that writes has one that reads.\<close>

lemma registers_named:
  "list_all (\<lambda>(n, l). n \<in> fst ` set nios2_reads) nios2_fields" "set nios2_writes \<subseteq> set nios2_reads"
  "distinct (map fst nios2_reads)" "distinct (map snd nios2_reads)"
  by code_simp+

section \<open>Their use\<close>

abbreviation (input) PIE_field :: field where "PIE_field \<equiv> (''PIE'', 1, 0)"

lemma PIE_in_table: "STATUS_fields ! 0 = PIE_field"
  by (simp add: STATUS_fields_def)

text \<open>Disabling all interrupts writes the field and nothing else; enabling them again restores the register.\<close>

lemma disable_all_writes_PIE:
  "cpu_status (snd (alt_irq_disable_all m)) = field_put PIE_field 0 (cpu_status m)"
  "alt_irq_enable_all (fst (alt_irq_disable_all m)) (snd (alt_irq_disable_all m)) = m"
  by (simp_all add: alt_irq_disable_all_def alt_irq_enable_all_def field_put_def)

text \<open>The cause field has room for every cause; the causes with an address are those named for one.\<close>

lemma causes_fit: "list_all (\<lambda>(n, c). c = - 1 \<or> 0 \<le> c \<and> c \<le> uint (drop_bit 2 (0x7c :: u32))) alt_exception_causes"
  "EXCEPTION_fields ! 0 = (''CAUSE'', 0x7c, 2)" "map snd alt_exception_causes = [- 1..22]"
  by code_simp+

lemma causes_with_address:
  "[n. (n, c) \<leftarrow> alt_exception_causes, alt_exception_cause_generated_bad_addr c = 1]
     = [''MISALIGNED_DATA_ADDR'', ''MISALIGNED_TARGET_PC'', ''SUPERVISOR_ONLY_DATA_ADDR'', ''TLB_READ_PERM_VIOLATION'',
        ''TLB_WRITE_PERM_VIOLATION'', ''MPU_DATA_REGION_VIOLATION'', ''ECC_DATA_ERR'']"
  by code_simp

end
