(* ===== verification/IrqNest.thy ===== *)
theory IrqNest
  imports Irq
begin

text \<open>
  Interrupts within an interrupt routine (\<^verbatim>\<open>alt_legacy_irq.h\<close>): a routine may let the lines with smaller
  numbers in while it runs. The lemmas say which lines are let in, that calls nested to any depth
  restore the mask when they are undone, and that enabling any single line in between lets all of them
  in.
\<close>

section \<open>The pair of functions\<close>

record 's nest_sys = "'s irq_sys" +
  alt_priority_mask :: u32

definition alt_irq_enabled :: "('s, 'm) irq_sys_scheme \<Rightarrow> u32" where
  "alt_irq_enabled m = cpu_status m AND PIE"

text \<open>A shift by 32 or more has no defined result.\<close>

definition alt_irq_interruptible :: "u32 \<Rightarrow> 's nest_sys \<Rightarrow> fault + (u32 \<times> 's nest_sys)" where
  "alt_irq_interruptible priority m =
     (if 32 \<le> priority then Inl OutOfBounds
      else
        (let old_priority = alt_priority_mask m;
             m = m\<lparr>alt_priority_mask := line priority - 1\<rparr>;
             m = m\<lparr>ienable := alt_irq_active m AND alt_priority_mask m\<rparr>;
             m = m\<lparr>cpu_status := 1\<rparr>
         in Inr (old_priority, m)))"

definition alt_irq_non_interruptible :: "u32 \<Rightarrow> 's nest_sys \<Rightarrow> 's nest_sys" where
  "alt_irq_non_interruptible msk m =
     (let m = m\<lparr>cpu_status := 0\<rparr>;
          m = m\<lparr>alt_priority_mask := msk\<rparr>
      in m\<lparr>ienable := msk AND alt_irq_active m\<rparr>)"

section \<open>Which lines interrupt\<close>

text \<open>The processor takes line \<open>i\<close> when it is raised.\<close>

definition let_in :: "('s, 'm) irq_sys_scheme \<Rightarrow> nat \<Rightarrow> bool" where
  "let_in m i \<longleftrightarrow> alt_irq_enabled m \<noteq> 0 \<and> bit (ienable m) i"

lemma bits_below: "p < 32 \<Longrightarrow> bit (line p - 1) i \<longleftrightarrow> i < unat p"
proof -
  assume p: "p < 32"
  then have n: "unat p < 32" by (simp add: word_less_nat_alt)
  have "line p - 1 = mask (unat p)" by (simp add: line_def mask_eq_exp_minus_1 push_bit_eq_mult)
  then show ?thesis using n by (auto simp: bit_mask_iff)
qed

lemma interruptible_lets_in:
  assumes "alt_irq_interruptible p m = Inr (old, m')"
  shows "let_in m' i \<longleftrightarrow> bit (alt_irq_active m) i \<and> i < unat p"
    and "old = alt_priority_mask m" "alt_irq_active m' = alt_irq_active m" "alt_irq m' = alt_irq m"
      "devs m' = devs m"
  using assms bits_below [of p i]
  by (auto simp: alt_irq_interruptible_def let_in_def alt_irq_enabled_def Let_def bit_and_iff not_le split: if_splits)

lemma non_interruptible_lets_none:
  "\<not> let_in (alt_irq_non_interruptible msk m) i"
  "ienable (alt_irq_non_interruptible msk m) = msk AND alt_irq_active m"
  "alt_priority_mask (alt_irq_non_interruptible msk m) = msk"
  "alt_irq_active (alt_irq_non_interruptible msk m) = alt_irq_active m"
  by (simp_all add: let_in_def alt_irq_enabled_def alt_irq_non_interruptible_def Let_def)

section \<open>Nesting\<close>

text \<open>
  Routines that interrupt one another: each opens, is interrupted by the next and closes with what it
  was given. The body of a routine may change the devices.
\<close>

fun nested :: "(u32 \<times> ('s \<Rightarrow> 's)) list \<Rightarrow> 's nest_sys \<Rightarrow> fault + 's nest_sys" where
  "nested [] m = Inr m"
| "nested ((p, body) # rest) m =
     (case alt_irq_interruptible p m of
        Inl f \<Rightarrow> Inl f
      | Inr (old, m1) \<Rightarrow>
          (case nested rest (m1\<lparr>devs := body (devs m1)\<rparr>) of
             Inl f \<Rightarrow> Inl f
           | Inr m2 \<Rightarrow> Inr (alt_irq_non_interruptible old m2)))"

lemma nested_restores:
  assumes "list_all (\<lambda>(p, body). p < 32) l"
  shows "\<exists>m'. nested l m = Inr m' \<and> alt_priority_mask m' = alt_priority_mask m \<and> alt_irq_active m' = alt_irq_active m
     \<and> (l \<noteq> [] \<longrightarrow> ienable m' = alt_priority_mask m AND alt_irq_active m \<and> alt_irq_enabled m' = 0)"
  using assms
proof (induction l arbitrary: m)
  case (Cons e l)
  obtain p body where e: "e = (p, body)" by (cases e)
  then have "\<not> 32 \<le> p" using Cons.prems by (simp add: not_le)
  then obtain m1 where m1: "alt_irq_interruptible p m = Inr (alt_priority_mask m, m1)"
    by (simp add: alt_irq_interruptible_def Let_def)
  note kept = interruptible_lets_in [OF m1]
  obtain m2 where m2: "nested l (m1\<lparr>devs := body (devs m1)\<rparr>) = Inr m2" "alt_irq_active m2 = alt_irq_active m1"
    using Cons.IH [of "m1\<lparr>devs := body (devs m1)\<rparr>"] Cons.prems by (auto simp: e)
  then show ?case
    by (simp add: e m1 m2 kept(3) alt_irq_enabled_def alt_irq_non_interruptible_def Let_def)
qed simp

text \<open>
  Enabling one line writes all active lines to the register of the processor, whatever the mask says:
  from then on lines that should wait are let in.
\<close>

definition enable_within :: "u32 \<Rightarrow> 's nest_sys \<Rightarrow> fault + (int \<times> 's nest_sys)" where
  "enable_within irq m =
     (case alt_irq_enable irq (irq_sys.truncate m) of
        Inl f \<Rightarrow> Inl f
      | Inr (rc, n) \<Rightarrow> Inr (rc, irq_sys.extend n \<lparr>alt_priority_mask = alt_priority_mask m\<rparr>))"

lemma enable_drops_priority:
  assumes "alt_irq_interruptible p m = Inr (old, m1)" "irq < 32"
  shows "\<exists>m2. enable_within irq m1 = Inr (0, m2) \<and> alt_priority_mask m2 = line p - 1
     \<and> (\<forall>i. let_in m2 i \<longleftrightarrow> bit (alt_irq_active m) i \<or> i = unat irq)"
proof -
  have l: "bit (line irq) i \<longleftrightarrow> i = unat irq" for i
    using assms(2) by (auto simp: line_def bit_simps word_less_nat_alt)
  have "cpu_status m1 = 1" "alt_irq_active m1 = alt_irq_active m" "alt_priority_mask m1 = line p - 1"
    using assms(1) by (auto simp: alt_irq_interruptible_def Let_def split: if_splits)
  then show ?thesis using assms(2)
    by (simp add: enable_within_def alt_irq_enable_def alt_irq_disable_all_def alt_irq_enable_all_def Let_def not_le
        irq_sys.defs let_in_def alt_irq_enabled_def bit_or_iff l)
qed

end
