(* ===== verification/HpiBus.thy ===== *)
theory HpiBus
  imports Prelude
begin

text \<open>
  The host-port interface to the CY7C67200 USB controller, as the software sees it:
  \<^verbatim>\<open>software/usb_kb/io_handler.c\<close> drives the pins of the chip one parallel-IO register at a
  time. The model records every access to a PIO register in a trace; a decoder reads that
  trace the way a strobed bus does and yields the transfers the chip sees. The lemmas show
  that \<open>IO_write\<close> and \<open>IO_read\<close> are one transfer each and never break the bus discipline.
\<close>

section \<open>PIO registers, environment and trace\<close>

text \<open>The PIO cores that \<^verbatim>\<open>io_handler.h\<close> names by their base addresses.\<close>

datatype pio =
    Otg_hpi_address | Otg_hpi_data | Otg_hpi_r | Otg_hpi_cs | Otg_hpi_w | Otg_hpi_reset
  | Keycode_base

datatype event = PWr pio u32 | PRd pio u32 | Slept nat

text \<open>
  Everything outside the software (the PIO cores, the chip, the keyboard, the passing of
  time) is a parameter: a state of any type and what accesses do to it.
\<close>

record 'd env =
  env_wr :: "pio \<Rightarrow> u32 \<Rightarrow> 'd \<Rightarrow> 'd"
  env_rd :: "pio \<Rightarrow> 'd \<Rightarrow> u32 \<times> 'd"
  env_sleep :: "nat \<Rightarrow> 'd \<Rightarrow> 'd"

record 'd world =
  dev :: 'd
  trace :: "event list"

definition pio_write :: "'d env \<Rightarrow> pio \<Rightarrow> u32 \<Rightarrow> 'd world \<Rightarrow> 'd world" where
  "pio_write D p v w = \<lparr>dev = env_wr D p v (dev w), trace = trace w @ [PWr p v]\<rparr>"

definition pio_read :: "'d env \<Rightarrow> pio \<Rightarrow> 'd world \<Rightarrow> u32 \<times> 'd world" where
  "pio_read D p w =
     (let (v, d) = env_rd D p (dev w) in (v, \<lparr>dev = d, trace = trace w @ [PRd p v]\<rparr>))"

definition usleep :: "'d env \<Rightarrow> nat \<Rightarrow> 'd world \<Rightarrow> 'd world" where
  "usleep D us w = \<lparr>dev = env_sleep D us (dev w), trace = trace w @ [Slept us]\<rparr>"

section \<open>io_handler.c\<close>

definition IO_init :: "'d env \<Rightarrow> 'd world \<Rightarrow> 'd world" where
  "IO_init D w =
     (let w = pio_write D Otg_hpi_reset 1 w;
          w = pio_write D Otg_hpi_cs 1 w;
          w = pio_write D Otg_hpi_r 1 w;
          w = pio_write D Otg_hpi_w 1 w;
          w = pio_write D Otg_hpi_address 0 w;
          w = pio_write D Otg_hpi_data 0 w;
          w = pio_write D Otg_hpi_cs 0 w;
          w = pio_write D Otg_hpi_reset 0 w;
          w = pio_write D Otg_hpi_reset 1 w
      in pio_write D Otg_hpi_cs 1 w)"

definition IO_write :: "'d env \<Rightarrow> u8 \<Rightarrow> u16 \<Rightarrow> 'd world \<Rightarrow> 'd world" where
  "IO_write D Address Data w =
     (let w = pio_write D Otg_hpi_cs 0 w;
          w = pio_write D Otg_hpi_address (ucast Address) w;
          w = pio_write D Otg_hpi_data (ucast Data) w;
          w = pio_write D Otg_hpi_w 0 w;
          w = pio_write D Otg_hpi_w 1 w
      in pio_write D Otg_hpi_cs 1 w)"

definition IO_read :: "'d env \<Rightarrow> u8 \<Rightarrow> 'd world \<Rightarrow> u16 \<times> 'd world" where
  "IO_read D Address w =
     (let w = pio_write D Otg_hpi_cs 0 w;
          w = pio_write D Otg_hpi_address (ucast Address) w;
          w = pio_write D Otg_hpi_r 0 w;
          (temp, w) = pio_read D Otg_hpi_data w;
          w = pio_write D Otg_hpi_r 1 w;
          w = pio_write D Otg_hpi_cs 1 w
      in (ucast temp, w))"

section \<open>What the chip sees: decoding the pins\<close>

text \<open>
  Levels of the active-low strobes and the latched address and data, at the widths the PIO
  cores are generated with (2, 16 and 1 bits, \<^verbatim>\<open>system.h\<close>).
\<close>

record pins =
  cs_n :: bool
  rd_n :: bool
  wr_n :: bool
  rst_n :: bool
  p_addr :: "2 word"
  p_data :: u16

datatype bus_event =
    HW "2 word" u16   \<comment> \<open>the chip latches a written word\<close>
  | HR "2 word" u16   \<comment> \<open>the chip drives a word that the software takes\<close>
  | ChipReset         \<comment> \<open>the reset pin goes low\<close>
  | KeyOut u8         \<comment> \<open>a key code is handed to the game logic\<close>
  | Wait nat

fun pin_step :: "pins \<Rightarrow> event \<Rightarrow> pins" where
  "pin_step p (PWr Otg_hpi_cs v) = p\<lparr>cs_n := odd v\<rparr>"
| "pin_step p (PWr Otg_hpi_r v) = p\<lparr>rd_n := odd v\<rparr>"
| "pin_step p (PWr Otg_hpi_w v) = p\<lparr>wr_n := odd v\<rparr>"
| "pin_step p (PWr Otg_hpi_reset v) = p\<lparr>rst_n := odd v\<rparr>"
| "pin_step p (PWr Otg_hpi_address v) = p\<lparr>p_addr := ucast v\<rparr>"
| "pin_step p (PWr Otg_hpi_data v) = p\<lparr>p_data := ucast v\<rparr>"
| "pin_step p _ = p"

text \<open>
  A write transfer completes on the rising edge of the write strobe while the chip is
  selected; a read transfer is a read of the data register while the chip is selected and
  the read strobe is low.
\<close>

fun bus_out :: "pins \<Rightarrow> event \<Rightarrow> bus_event list" where
  "bus_out p (PWr Otg_hpi_w v) =
     (if \<not> cs_n p \<and> \<not> wr_n p \<and> odd v then [HW (p_addr p) (p_data p)] else [])"
| "bus_out p (PRd Otg_hpi_data v) =
     (if \<not> cs_n p \<and> \<not> rd_n p then [HR (p_addr p) (ucast v)] else [])"
| "bus_out p (PWr Otg_hpi_reset v) = (if rst_n p \<and> even v then [ChipReset] else [])"
| "bus_out p (PWr Keycode_base v) = [KeyOut (ucast v)]"
| "bus_out p (Slept n) = [Wait n]"
| "bus_out p _ = []"

fun pins_after :: "pins \<Rightarrow> event list \<Rightarrow> pins" where
  "pins_after p [] = p"
| "pins_after p (e # es) = pins_after (pin_step p e) es"

fun decode :: "pins \<Rightarrow> event list \<Rightarrow> bus_event list" where
  "decode p [] = []"
| "decode p (e # es) = bus_out p e @ decode (pin_step p e) es"

text \<open>
  The bus discipline: the strobes are never both low, address and data do not change under
  a strobe, and the chip is deselected only between transfers.
\<close>

fun strobe_safe :: "pins \<Rightarrow> event \<Rightarrow> bool" where
  "strobe_safe p (PWr Otg_hpi_address v) = (rd_n p \<and> wr_n p)"
| "strobe_safe p (PWr Otg_hpi_data v) = (rd_n p \<and> wr_n p)"
| "strobe_safe p (PWr Otg_hpi_r v) = (wr_n p)"
| "strobe_safe p (PWr Otg_hpi_w v) = (rd_n p)"
| "strobe_safe p (PWr Otg_hpi_cs v) = (rd_n p \<and> wr_n p)"
| "strobe_safe p (PRd Otg_hpi_data v) = (\<not> cs_n p \<and> \<not> rd_n p)"
| "strobe_safe p _ = True"

fun all_safe :: "pins \<Rightarrow> event list \<Rightarrow> bool" where
  "all_safe p [] = True"
| "all_safe p (e # es) = (strobe_safe p e \<and> all_safe (pin_step p e) es)"

definition idle :: "pins \<Rightarrow> bool" where
  "idle p \<longleftrightarrow> cs_n p \<and> rd_n p \<and> wr_n p \<and> rst_n p"

text \<open>The PIO cores come up with all outputs 0 (\<^verbatim>\<open>*_RESET_VALUE 0\<close> in \<^verbatim>\<open>system.h\<close>).\<close>

definition pins0 :: pins where
  "pins0 = \<lparr>cs_n = False, rd_n = False, wr_n = False, rst_n = False, p_addr = 0, p_data = 0\<rparr>"

definition wpins :: "'d world \<Rightarrow> pins" where
  "wpins w = pins_after pins0 (trace w)"

definition bus :: "'d world \<Rightarrow> bus_event list" where
  "bus w = decode pins0 (trace w)"

text \<open>
  \<open>IO_init\<close> makes ten accesses, the first of them with the strobes still low from power-up;
  from then on every access has to follow the discipline. \<open>ready\<close> is what every later
  operation finds and leaves: the pins idle and the discipline kept so far.
\<close>

definition disciplined :: "event list \<Rightarrow> bool" where
  "disciplined t \<longleftrightarrow>
     10 \<le> length t \<and> all_safe (pins_after pins0 (take 10 t)) (drop 10 t)"

definition ready :: "'d world \<Rightarrow> bool" where
  "ready w \<longleftrightarrow> idle (wpins w) \<and> disciplined (trace w)"

lemma pins_after_append: "pins_after p (xs @ ys) = pins_after (pins_after p xs) ys"
  by (induction xs arbitrary: p) auto

lemma decode_append: "decode p (xs @ ys) = decode p xs @ decode (pins_after p xs) ys"
  by (induction xs arbitrary: p) auto

lemma all_safe_append:
  "all_safe p (xs @ ys) = (all_safe p xs \<and> all_safe (pins_after p xs) ys)"
  by (induction xs arbitrary: p) auto

section \<open>Each access is one transfer\<close>

lemma trace_IO_write:
  "trace (IO_write D a d w) = trace w @
     [PWr Otg_hpi_cs 0, PWr Otg_hpi_address (ucast a), PWr Otg_hpi_data (ucast d),
      PWr Otg_hpi_w 0, PWr Otg_hpi_w 1, PWr Otg_hpi_cs 1]"
  by (simp add: IO_write_def pio_write_def Let_def)

lemma trace_IO_read:
  "\<exists>v. fst (IO_read D a w) = ucast v \<and> trace (snd (IO_read D a w)) = trace w @
     [PWr Otg_hpi_cs 0, PWr Otg_hpi_address (ucast a), PWr Otg_hpi_r 0,
      PRd Otg_hpi_data v, PWr Otg_hpi_r 1, PWr Otg_hpi_cs 1]"
  by (simp add: IO_read_def pio_write_def pio_read_def Let_def split_beta)

lemma trace_IO_init:
  "trace (IO_init D w) = trace w @
     [PWr Otg_hpi_reset 1, PWr Otg_hpi_cs 1, PWr Otg_hpi_r 1, PWr Otg_hpi_w 1,
      PWr Otg_hpi_address 0, PWr Otg_hpi_data 0, PWr Otg_hpi_cs 0, PWr Otg_hpi_reset 0,
      PWr Otg_hpi_reset 1, PWr Otg_hpi_cs 1]"
  by (simp add: IO_init_def pio_write_def Let_def)

lemma trace_usleep [simp]: "trace (usleep D n w) = trace w @ [Slept n]"
  by (simp add: usleep_def)

lemma trace_pio_write: "trace (pio_write D p v w) = trace w @ [PWr p v]"
  by (simp add: pio_write_def)

lemma disciplined_append:
  "disciplined t \<Longrightarrow> disciplined (t @ es) = all_safe (pins_after pins0 t) es"
proof -
  assume t: "disciplined t"
  then have n: "10 - length t = 0" by (simp add: disciplined_def)
  have "pins_after (pins_after pins0 (take 10 t)) (drop 10 t) = pins_after pins0 t"
    by (metis append_take_drop_id pins_after_append)
  with t n show ?thesis by (simp add: disciplined_def all_safe_append)
qed

lemmas world_defs = bus_def ready_def wpins_def pins_after_append decode_append
  disciplined_append

lemma ucast_u16_u32_u16 [simp]: "ucast (ucast (d :: u16) :: u32) = d"
  by (rule bit_word_eqI) (auto simp: bit_ucast_iff)

lemma ucast_u8_u32_2: "(ucast (ucast (a :: u8) :: u32) :: 2 word) = ucast a"
  by (rule bit_word_eqI) (simp add: bit_ucast_iff)

lemma ready_IO_write [ready_simps]: "ready w \<Longrightarrow> ready (IO_write D a d w)"
  by (simp add: world_defs idle_def trace_IO_write)

lemma bus_IO_write [bus_simps]:
  "ready w \<Longrightarrow> bus (IO_write D a d w) = bus w @ [HW (ucast a) d]"
  by (simp add: world_defs idle_def trace_IO_write ucast_u8_u32_2)

lemma ready_IO_read [ready_simps]: "ready w \<Longrightarrow> ready (snd (IO_read D a w))"
  using trace_IO_read [of D a w] by (auto simp: world_defs idle_def)

lemma bus_IO_read [bus_simps]:
  "ready w \<Longrightarrow> bus (snd (IO_read D a w)) = bus w @ [HR (ucast a) (fst (IO_read D a w))]"
  using trace_IO_read [of D a w] by (auto simp: world_defs idle_def ucast_u8_u32_2)

lemma ready_usleep [ready_simps]: "ready w \<Longrightarrow> ready (usleep D n w)"
  by (simp add: world_defs)

lemma bus_usleep [bus_simps]: "bus (usleep D n w) = bus w @ [Wait n]"
  by (simp add: world_defs)

lemma ready_key [ready_simps]: "ready w \<Longrightarrow> ready (pio_write D Keycode_base v w)"
  by (simp add: world_defs trace_pio_write)

lemma bus_key [bus_simps]:
  "bus (pio_write D Keycode_base v w) = bus w @ [KeyOut (ucast v)]"
  by (simp add: world_defs trace_pio_write)

lemma bus_IO_init: "trace w = [] \<Longrightarrow> bus (IO_init D w) = [ChipReset]"
  by (simp add: world_defs trace_IO_init pins0_def)

lemma ready_IO_init: "trace w = [] \<Longrightarrow> ready (IO_init D w)"
  by (simp add: ready_def wpins_def trace_IO_init disciplined_def pins0_def idle_def)

section \<open>Properties\<close>

definition quiet_env :: "nat env" where
  "quiet_env = \<lparr>env_wr = (\<lambda>p v d. d + 1), env_rd = (\<lambda>p d. (7, d + 1)), env_sleep = (\<lambda>n d. d)\<rparr>"

text \<open>
  \<open>IO_init\<close> pulses the reset pin of the chip exactly once and makes no transfer,
  and leaves the chip deselected with both strobes and reset inactive.
\<close>

theorem IO_init_resets_once:
  assumes "trace w = []"
  shows "bus (IO_init D w) = [ChipReset] \<and> idle (wpins (IO_init D w))"
  using bus_IO_init [OF assms] ready_IO_init [OF assms] by (simp add: ready_def)

theorem IO_init_resets_once_witness:
  "bus (IO_init quiet_env \<lparr>dev = 0, trace = []\<rparr>) = [ChipReset]"
  using IO_init_resets_once [of "\<lparr>dev = 0 :: nat, trace = []\<rparr>" quiet_env] by simp

text \<open>
  After start-up, a call of \<open>IO_write\<close> or \<open>IO_read\<close> is one transfer on the
  bus, of the given register and word or of the word it returns, keeps the bus discipline
  (the strobes never overlap, address and data are stable under a strobe, the chip is
  selected and deselected between transfers) and leaves the bus idle.
\<close>

theorem IO_access_is_one_transfer:
  assumes "ready w"
  shows "bus (IO_write D a d w) = bus w @ [HW (ucast a) d]
     \<and> idle (wpins (IO_write D a d w)) \<and> disciplined (trace (IO_write D a d w))
     \<and> bus (snd (IO_read D a w)) = bus w @ [HR (ucast a) (fst (IO_read D a w))]
     \<and> idle (wpins (snd (IO_read D a w))) \<and> disciplined (trace (snd (IO_read D a w)))"
  using ready_IO_write [OF assms, of D a d] ready_IO_read [OF assms, of D a]
    bus_IO_write [OF assms, of D a d] bus_IO_read [OF assms, of D a]
  by (simp add: ready_def)

theorem IO_access_is_one_transfer_witness:
  "bus (IO_write quiet_env 2 0x144 (IO_init quiet_env \<lparr>dev = 0, trace = []\<rparr>))
     = [ChipReset, HW 2 0x144]"
  using IO_access_is_one_transfer
      [of "IO_init quiet_env \<lparr>dev = 0, trace = []\<rparr>" quiet_env 2 "0x144"]
  by (simp add: ready_IO_init bus_IO_init)

end
