(* ===== verification/UsbOps.thy ===== *)
theory UsbOps
  imports HpiBus
begin

text \<open>
  The operations of \<^verbatim>\<open>software/usb_kb/usb.c\<close>: register accesses of the CY7C67200, its soft
  reset, the nine transfer-descriptor lists of the enumeration, and the two functions that
  poll the chip. A polling loop that may run for ever is a \<^verbatim>\<open>partial_function\<close> into
  \<open>option\<close>; \<open>None\<close> is a loop that does not return.
\<close>

section \<open>Constants of usb.h, lcp\_cmd.h, lcp\_data.h and cy7c67200.h\<close>

abbreviation HPI_DATA :: u8 where "HPI_DATA \<equiv> 0"
abbreviation HPI_MAILBOX :: u8 where "HPI_MAILBOX \<equiv> 1"
abbreviation HPI_ADDR :: u8 where "HPI_ADDR \<equiv> 2"
abbreviation HPI_STATUS :: u8 where "HPI_STATUS \<equiv> 3"

abbreviation COMM_RESET :: u16 where "COMM_RESET \<equiv> 0xFA50"
abbreviation COMM_EXEC_INT :: u16 where "COMM_EXEC_INT \<equiv> 0xCE01"
abbreviation COMM_ACK :: u16 where "COMM_ACK \<equiv> 0x0FED"
abbreviation HUSB_TDListDone :: u16 where "HUSB_TDListDone \<equiv> 0x1000"
abbreviation HUSB_SIE1_pCurrentTDPtr :: u16 where "HUSB_SIE1_pCurrentTDPtr \<equiv> 0x01B0"
abbreviation HUSB_pEOT :: u16 where "HUSB_pEOT \<equiv> 0x01B4"
abbreviation COMM_INT_NUM :: u16 where "COMM_INT_NUM \<equiv> 0x01C2"

text \<open>\<open>COMM_R0\<close> to \<open>COMM_R13\<close> are consecutive words.\<close>

definition COMM_R :: "nat \<Rightarrow> u16" where
  "COMM_R i = 0x01C4 + 2 * of_nat i"

abbreviation HPI_STATUS_SIE1msg_FLAG :: u16 where "HPI_STATUS_SIE1msg_FLAG \<equiv> 0x0010"
abbreviation USB1_CTL_REG :: u16 where "USB1_CTL_REG \<equiv> 0xC08A"
abbreviation A_DP_STAT :: u16 where "A_DP_STAT \<equiv> 0x2000"
abbreviation A_DM_STAT :: u16 where "A_DM_STAT \<equiv> 0x1000"
abbreviation HOST1_IRQ_EN_REG :: u16 where "HOST1_IRQ_EN_REG \<equiv> 0xC08C"
abbreviation SOF_EOP_IRQ_EN :: u16 where "SOF_EOP_IRQ_EN \<equiv> 0x0200"
abbreviation A_CHG_IRQ_EN :: u16 where "A_CHG_IRQ_EN \<equiv> 0x0010"
abbreviation HOST1_STAT_REG :: u16 where "HOST1_STAT_REG \<equiv> 0xC090"
abbreviation HOST2_STAT_REG :: u16 where "HOST2_STAT_REG \<equiv> 0xC0B0"
abbreviation HPI_IRQ_ROUTING_REG :: u16 where "HPI_IRQ_ROUTING_REG \<equiv> 0x0142"
abbreviation HPI_SIE1_MSG_ADR :: u16 where "HPI_SIE1_MSG_ADR \<equiv> 0x0144"
abbreviation HPI_SIE2_MSG_ADR :: u16 where "HPI_SIE2_MSG_ADR \<equiv> 0x0148"
abbreviation SOFEOP1_TO_CPU_EN :: u16 where "SOFEOP1_TO_CPU_EN \<equiv> 0x0400"
abbreviation RESUME1_TO_HPI_EN :: u16 where "RESUME1_TO_HPI_EN \<equiv> 0x0040"
abbreviation HUSB_SIE1_INIT_INT :: u16 where "HUSB_SIE1_INIT_INT \<equiv> 0x0072"
abbreviation HUSB_RESET_INT :: u16 where "HUSB_RESET_INT \<equiv> 0x0074"

section \<open>The port as an interface\<close>

text \<open>
  What \<^verbatim>\<open>usb.c\<close> relies on from \<^verbatim>\<open>io_handler.c\<close>: a write and a read of a port register are one
  transfer each on the bus and leave the port ready for the next.
\<close>

locale hpi_port =
  fixes wr :: "u8 \<Rightarrow> u16 \<Rightarrow> 'w \<Rightarrow> 'w"
    and rd :: "u8 \<Rightarrow> 'w \<Rightarrow> u16 \<times> 'w"
    and view :: "'w \<Rightarrow> bus_event list"
    and ok :: "'w \<Rightarrow> bool"
  assumes wr_ok: "ok w \<Longrightarrow> ok (wr a d w)"
    and wr_view: "ok w \<Longrightarrow> view (wr a d w) = view w @ [HW (ucast a) d]"
    and rd_ok: "ok w \<Longrightarrow> ok (snd (rd a w))"
    and rd_view: "ok w \<Longrightarrow> view (snd (rd a w)) = view w @ [HR (ucast a) (fst (rd a w))]"
begin

lemma wr_many_ok: "ok w \<Longrightarrow> ok (fold (wr a) ds w)"
  by (induction ds arbitrary: w) (auto intro: wr_ok)

lemma wr_many_view: "ok w \<Longrightarrow> view (fold (wr a) ds w) = view w @ map (HW (ucast a)) ds"
  by (induction ds arbitrary: w) (auto simp: wr_ok wr_view)

lemma addressed_read_view:
  "ok w \<Longrightarrow> view (snd (rd b (wr a d w))) =
     view w @ [HW (ucast a) d, HR (ucast b) (fst (rd b (wr a d w)))]"
  by (simp add: wr_ok wr_view rd_view)

end

interpretation port: hpi_port "IO_write D" "IO_read D" bus ready for D
  by unfold_locales (auto simp: bus_simps ready_simps)

section \<open>Register access and soft reset\<close>

definition UsbWrite :: "'d env \<Rightarrow> u16 \<Rightarrow> u16 \<Rightarrow> 'd world \<Rightarrow> 'd world" where
  "UsbWrite D Address Data w = IO_write D HPI_DATA Data (IO_write D HPI_ADDR Address w)"

definition UsbRead :: "'d env \<Rightarrow> u16 \<Rightarrow> 'd world \<Rightarrow> u16 \<times> 'd world" where
  "UsbRead D Address w = IO_read D HPI_DATA (IO_write D HPI_ADDR Address w)"

definition UsbSoftReset :: "'d env \<Rightarrow> 'd world \<Rightarrow> 'd world" where
  "UsbSoftReset D w =
     (let w = IO_write D HPI_MAILBOX COMM_RESET w;
          w = usleep D 100000 w;
          w = usleep D 500000 w;
          (_, w) = IO_read D HPI_MAILBOX w;
          (_, w) = IO_read D HPI_STATUS w;
          (_, w) = UsbRead D HPI_SIE1_MSG_ADR w;
          w = UsbWrite D HPI_SIE1_MSG_ADR 0 w;
          (_, w) = UsbRead D HPI_SIE2_MSG_ADR w;
          w = UsbWrite D HPI_SIE2_MSG_ADR 0 w;
          w = UsbWrite D HOST1_STAT_REG 0xFFFF w
      in UsbWrite D HOST2_STAT_REG 0xFFFF w)"

section \<open>Transfer-descriptor lists\<close>

text \<open>
  Every request function of \<^verbatim>\<open>usb.c\<close> has the same body: point the port at \<^verbatim>\<open>0x0500\<close>, write
  a literal sequence of words to the data register, and hand \<^verbatim>\<open>0x0500\<close> to the chip as the
  current descriptor list. The sequences are the literals of the source, one group of six
  words per descriptor and one of four for the setup packet.
\<close>

definition send_td_list :: "'d env \<Rightarrow> u16 list \<Rightarrow> 'd world \<Rightarrow> 'd world" where
  "send_td_list D ws w =
     UsbWrite D HUSB_SIE1_pCurrentTDPtr 0x0500
       (fold (IO_write D HPI_DATA) ws (IO_write D HPI_ADDR 0x0500 w))"

definition td_SetAddress :: "u16 list" where
  "td_SetAddress =
     [0x050C, 0x0008, 0x00D0, 0x0001, 0x0013, 0x0514,
      0x0500, 0x0002, 0x0000, 0x0000,
      0x0000, 0x0000, 0x0090, 0x0041, 0x0013, 0x0000]"

definition UsbSetAddress :: "'d env \<Rightarrow> 'd world \<Rightarrow> 'd world" where
  "UsbSetAddress D w = send_td_list D td_SetAddress w"

definition td_DeviceDesc1 :: "u16 list" where
  "td_DeviceDesc1 =
     [0x050C, 0x0008, 0x02D0, 0x0001, 0x0013, 0x0514,
      0x0680, 0x0100, 0x0000, 0x0008,
      0x052C, 0x0008, 0x0290, 0x0041, 0x0013, 0x0520,
      0x0000, 0x0000, 0x0210, 0x0041, 0x0013, 0x0000]"

definition UsbGetDeviceDesc1 :: "'d env \<Rightarrow> 'd world \<Rightarrow> 'd world" where
  "UsbGetDeviceDesc1 D w = send_td_list D td_DeviceDesc1 w"

definition td_DeviceDesc2 :: "u16 list" where
  "td_DeviceDesc2 =
     [0x050C, 0x0008, 0x02D0, 0x0001, 0x0013, 0x0514,
      0x0680, 0x0100, 0x0000, 0x0012,
      0x0544, 0x0008, 0x0290, 0x0041, 0x0013, 0x0520,
      0x054c, 0x0008, 0x0290, 0x0001, 0x0013, 0x052c,
      0x0554, 0x0002, 0x0290, 0x0041, 0x0013, 0x0538,
      0x0000, 0x0000, 0x0210, 0x0041, 0x0013, 0x0000]"

definition UsbGetDeviceDesc2 :: "'d env \<Rightarrow> 'd world \<Rightarrow> 'd world" where
  "UsbGetDeviceDesc2 D w = send_td_list D td_DeviceDesc2 w"

definition td_ConfigDesc1 :: "u16 list" where
  "td_ConfigDesc1 =
     [0x050C, 0x0008, 0x02D0, 0x0001, 0x0013, 0x0514,
      0x0680, 0x0200, 0x0000, 0x0009,
      0x0544, 0x0008, 0x0290, 0x0041, 0x0013, 0x0520,
      0x054c, 0x0001, 0x0290, 0x0001, 0x0013, 0x052c,
      0x0000, 0x0000, 0x0210, 0x0041, 0x0013, 0x0000]"

definition UsbGetConfigDesc1 :: "'d env \<Rightarrow> 'd world \<Rightarrow> 'd world" where
  "UsbGetConfigDesc1 D w = send_td_list D td_ConfigDesc1 w"

definition td_ConfigDesc2 :: "u16 list" where
  "td_ConfigDesc2 =
     [0x050C, 0x0008, 0x02D0, 0x0001, 0x0013, 0x0514,
      0x0680, 0x0200, 0x0000, 0x00FF,
      0x055c, 0x0008, 0x0290, 0x0041, 0x0013, 0x0520,
      0x0564, 0x0008, 0x0290, 0x0001, 0x0013, 0x052c,
      0x056c, 0x0008, 0x0290, 0x0041, 0x0013, 0x0538,
      0x0574, 0x0008, 0x0290, 0x0001, 0x0013, 0x0544,
      0x057c, 0x0002, 0x0290, 0x0041, 0x0013, 0x0550,
      0x0000, 0x0000, 0x0210, 0x0041, 0x0013, 0x0000]"

definition UsbGetConfigDesc2 :: "'d env \<Rightarrow> 'd world \<Rightarrow> 'd world" where
  "UsbGetConfigDesc2 D w = send_td_list D td_ConfigDesc2 w"

definition td_SetConfig :: "u16 list" where
  "td_SetConfig =
     [0x050C, 0x0008, 0x02D0, 0x0001, 0x0013, 0x0514,
      0x0900, 0x0001, 0x0000, 0x0000,
      0x0000, 0x0000, 0x0290, 0x0041, 0x0013, 0x0000]"

definition UsbSetConfig :: "'d env \<Rightarrow> 'd world \<Rightarrow> 'd world" where
  "UsbSetConfig D w = send_td_list D td_SetConfig w"

definition td_ClassRequest :: "u16 list" where
  "td_ClassRequest =
     [0x050C, 0x0008, 0x02D0, 0x0001, 0x0013, 0x0514,
      0x0A21, 0x0000, 0x0000, 0x0000,
      0x0000, 0x0000, 0x0290, 0x0041, 0x0013, 0x0000]"

definition UsbClassRequest :: "'d env \<Rightarrow> 'd world \<Rightarrow> 'd world" where
  "UsbClassRequest D w = send_td_list D td_ClassRequest w"

definition td_HidDesc :: "u16 list" where
  "td_HidDesc =
     [0x050C, 0x0008, 0x02D0, 0x0001, 0x0013, 0x0514,
      0x0681, 0x2100, 0x0000, 0x007B,
      0x0544, 0x0008, 0x0290, 0x0041, 0x0013, 0x0520,
      0x0000, 0x0000, 0x0210, 0x0041, 0x0013, 0x0000]"

definition UsbGetHidDesc :: "'d env \<Rightarrow> 'd world \<Rightarrow> 'd world" where
  "UsbGetHidDesc D w = send_td_list D td_HidDesc w"

definition td_ReportDesc :: "u16 list" where
  "td_ReportDesc =
     [0x050C, 0x0008, 0x02D0, 0x0001, 0x0013, 0x0514,
      0x0681, 0x2200, 0x0000, 0x007B,
      0x0580, 0x0008, 0x0290, 0x0041, 0x0013, 0x0520,
      0x0588, 0x0008, 0x0290, 0x0001, 0x0013, 0x052c,
      0x0590, 0x0008, 0x0290, 0x0041, 0x0013, 0x0538,
      0x0598, 0x0008, 0x0290, 0x0001, 0x0013, 0x0544,
      0x05a0, 0x0008, 0x0290, 0x0041, 0x0013, 0x0550,
      0x05a8, 0x0008, 0x0290, 0x0001, 0x0013, 0x055c,
      0x05b0, 0x0008, 0x0290, 0x0041, 0x0013, 0x0568,
      0x05b8, 0x0003, 0x0290, 0x0001, 0x0013, 0x0574,
      0x0000, 0x0000, 0x0210, 0x0041, 0x0013, 0x0000]"

definition UsbGetReportDesc :: "'d env \<Rightarrow> 'd world \<Rightarrow> 'd world" where
  "UsbGetReportDesc D w = send_td_list D td_ReportDesc w"

section \<open>Polling\<close>

text \<open>The two statements that \<^verbatim>\<open>UsbWaitTDListDone\<close> repeats: read the message, clear it.\<close>

definition read_sie1_msg :: "'d env \<Rightarrow> 'd world \<Rightarrow> u16 \<times> 'd world" where
  "read_sie1_msg D w =
     (let (usb_ctl_val, w) = UsbRead D HPI_SIE1_MSG_ADR w
      in (usb_ctl_val, UsbWrite D HPI_SIE1_MSG_ADR 0 w))"

partial_function (option) wait_td_loop ::
  "'d env \<Rightarrow> u16 \<Rightarrow> 'd world \<Rightarrow> (u16 \<times> 'd world) option" where
  "wait_td_loop D usb_ctl_val w =
     (if usb_ctl_val \<noteq> HUSB_TDListDone
      then (case read_sie1_msg D w of (v, w') \<Rightarrow> wait_td_loop D v w')
      else Some (usb_ctl_val, w))"

definition UsbWaitTDListDone :: "'d env \<Rightarrow> 'd world \<Rightarrow> (u16 \<times> 'd world) option" where
  "UsbWaitTDListDone D w = (case read_sie1_msg D w of (v, w') \<Rightarrow> wait_td_loop D v w')"

text \<open>\<^verbatim>\<open>while (!(IO_read(HPI_STATUS) & HPI_STATUS_SIE1msg_FLAG)) { }\<close>\<close>

partial_function (option) status_loop :: "'d env \<Rightarrow> 'd world \<Rightarrow> 'd world option" where
  "status_loop D w =
     (case IO_read D HPI_STATUS w of (s, w') \<Rightarrow>
        if s AND HPI_STATUS_SIE1msg_FLAG = 0 then status_loop D w' else Some w')"

definition read_control_byte :: "'d env \<Rightarrow> 'd world \<Rightarrow> u16 \<times> 'd world" where
  "read_control_byte D w = IO_read D HPI_DATA (IO_write D HPI_ADDR 0x0508 w)"

definition UsbGetRetryCnt :: "'d env \<Rightarrow> 'd world \<Rightarrow> (u16 \<times> 'd world) option" where
  "UsbGetRetryCnt D w =
     (let (_, w) = IO_read D HPI_STATUS w;
          (m, w) = UsbRead D HPI_SIE1_MSG_ADR w
      in if m = HUSB_TDListDone
         then (case status_loop D (UsbWrite D HPI_SIE1_MSG_ADR 0 w) of
                 None \<Rightarrow> None
               | Some w \<Rightarrow> Some (read_control_byte D w))
         else Some (read_control_byte D w))"

text \<open>\<open>UsbPrintMem\<close>: the pairs it prints, address first.\<close>

function print_mem_loop :: "'d env \<Rightarrow> nat \<Rightarrow> 'd world \<Rightarrow> (nat \<times> u16) list \<times> 'd world" where
  "print_mem_loop D i w =
     (if i \<le> 200
      then (let (code, w) = IO_read D HPI_DATA w;
                (rest, w) = print_mem_loop D (i + 2) w
            in ((0x0500 + i, code) # rest, w))
      else ([], w))"
  by pat_completeness auto
termination
  by (relation "measure (\<lambda>(D, i, w). 201 - i)") auto

declare print_mem_loop.simps [simp del]

definition UsbPrintMem :: "'d env \<Rightarrow> 'd world \<Rightarrow> (nat \<times> u16) list \<times> 'd world" where
  "UsbPrintMem D w = print_mem_loop D 0 (IO_write D HPI_ADDR 0x0500 w)"

section \<open>Effect on the bus\<close>

lemma ucast_port [simp]:
  "(ucast HPI_MAILBOX :: 2 word) = 1" "(ucast HPI_ADDR :: 2 word) = 2"
  "(ucast HPI_STATUS :: 2 word) = 3"
  by simp_all

lemma ready_UsbWrite [ready_simps]: "ready w \<Longrightarrow> ready (UsbWrite D a d w)"
  by (simp add: UsbWrite_def ready_simps)

lemma bus_UsbWrite [bus_simps]:
  "ready w \<Longrightarrow> bus (UsbWrite D a d w) = bus w @ [HW 2 a, HW 0 d]"
  by (simp add: UsbWrite_def bus_simps ready_simps)

lemma ready_UsbRead [ready_simps]: "ready w \<Longrightarrow> ready (snd (UsbRead D a w))"
  by (simp add: UsbRead_def ready_simps)

lemma bus_UsbRead [bus_simps]:
  "ready w \<Longrightarrow> bus (snd (UsbRead D a w)) = bus w @ [HW 2 a, HR 0 (fst (UsbRead D a w))]"
  using port.addressed_read_view [of w D HPI_DATA HPI_ADDR a] by (simp add: UsbRead_def)

definition td_events :: "u16 list \<Rightarrow> bus_event list" where
  "td_events ws =
     HW 2 0x0500 # map (HW 0) ws @ [HW 2 HUSB_SIE1_pCurrentTDPtr, HW 0 0x0500]"

lemma ready_send_td_list [ready_simps]: "ready w \<Longrightarrow> ready (send_td_list D ws w)"
  by (simp add: send_td_list_def ready_simps port.wr_many_ok)

lemma bus_send_td_list [bus_simps]:
  "ready w \<Longrightarrow> bus (send_td_list D ws w) = bus w @ td_events ws"
  by (simp add: send_td_list_def td_events_def bus_simps ready_simps
      port.wr_many_ok port.wr_many_view)

lemma ready_read_sie1_msg [ready_simps]: "ready w \<Longrightarrow> ready (snd (read_sie1_msg D w))"
  by (simp add: read_sie1_msg_def split_beta Let_def ready_simps)

lemma bus_read_sie1_msg [bus_simps]:
  "ready w \<Longrightarrow> bus (snd (read_sie1_msg D w)) = bus w @
     [HW 2 HPI_SIE1_MSG_ADR, HR 0 (fst (read_sie1_msg D w)), HW 2 HPI_SIE1_MSG_ADR, HW 0 0]"
  by (simp add: read_sie1_msg_def split_beta Let_def bus_simps ready_simps)

lemma ready_read_control_byte [ready_simps]:
  "ready w \<Longrightarrow> ready (snd (read_control_byte D w))"
  by (simp add: read_control_byte_def ready_simps)

lemma bus_read_control_byte [bus_simps]:
  "ready w \<Longrightarrow> bus (snd (read_control_byte D w)) =
     bus w @ [HW 2 0x0508, HR 0 (fst (read_control_byte D w))]"
  by (simp add: read_control_byte_def bus_simps ready_simps)

lemma ready_UsbSoftReset [ready_simps]: "ready w \<Longrightarrow> ready (UsbSoftReset D w)"
  by (simp add: UsbSoftReset_def split_beta Let_def ready_simps)

text \<open>What the chip sees of a soft reset, whatever it answers.\<close>

lemma bus_UsbSoftReset:
  "ready w \<Longrightarrow> \<exists>m s m1 m2. bus (UsbSoftReset D w) = bus w @
     [HW 1 COMM_RESET, Wait 100000, Wait 500000, HR 1 m, HR 3 s,
      HW 2 HPI_SIE1_MSG_ADR, HR 0 m1, HW 2 HPI_SIE1_MSG_ADR, HW 0 0,
      HW 2 HPI_SIE2_MSG_ADR, HR 0 m2, HW 2 HPI_SIE2_MSG_ADR, HW 0 0,
      HW 2 HOST1_STAT_REG, HW 0 0xFFFF, HW 2 HOST2_STAT_REG, HW 0 0xFFFF]"
  by (simp add: UsbSoftReset_def split_beta Let_def ready_simps bus_simps)

section \<open>When the polling functions return\<close>

text \<open>The value and world after the message has been read \<open>n + 1\<close> times.\<close>

definition msg_after :: "'d env \<Rightarrow> nat \<Rightarrow> 'd world \<Rightarrow> u16 \<times> 'd world" where
  "msg_after D n w = iterate (\<lambda>(_, w). read_sie1_msg D w) n (read_sie1_msg D w)"

lemma msg_after_0 [simp]: "msg_after D 0 w = read_sie1_msg D w"
  by (simp add: msg_after_def)

lemma msg_after_Suc: "msg_after D (Suc n) w = msg_after D n (snd (read_sie1_msg D w))"
  by (simp add: msg_after_def split_beta)

lemma wait_td_loop_step:
  "wait_td_loop D v w =
     (if v = HUSB_TDListDone then Some (v, w) else UsbWaitTDListDone D w)"
  by (subst wait_td_loop.simps) (simp add: UsbWaitTDListDone_def split: prod.splits)

lemma UsbWait_unfold:
  "UsbWaitTDListDone D w =
     (if fst (read_sie1_msg D w) = HUSB_TDListDone then Some (read_sie1_msg D w)
      else UsbWaitTDListDone D (snd (read_sie1_msg D w)))"
proof -
  obtain v w' where vw: "read_sie1_msg D w = (v, w')" by fastforce
  show ?thesis by (subst UsbWaitTDListDone_def) (auto simp: vw wait_td_loop_step)
qed

lemma wait_loop_reaches:
  assumes "wait_td_loop D v w = Some r"
  shows "(v = HUSB_TDListDone \<and> r = (v, w))
     \<or> (v \<noteq> HUSB_TDListDone \<and> (\<exists>n. msg_after D n w = r \<and> fst r = HUSB_TDListDone
          \<and> (\<forall>m<n. fst (msg_after D m w) \<noteq> HUSB_TDListDone)))"
  using assms
proof (induction D v w r rule: wait_td_loop.raw_induct [rotated, consumes 1, case_names step])
  case (step loop D v w r)
  show ?case
  proof (cases "v = HUSB_TDListDone")
    case False
    obtain v1 w1 where m: "read_sie1_msg D w = (v1, w1)" by fastforce
    with step(2) False have "loop D v1 w1 = Some r" by simp
    note ih = step(1) [OF this]
    show ?thesis
    proof (cases "v1 = HUSB_TDListDone")
      case True
      with ih m False show ?thesis by (auto intro!: exI [of _ 0])
    next
      case v1: False
      with ih obtain n where "msg_after D n w1 = r" "fst r = HUSB_TDListDone"
        and l: "\<forall>m<n. fst (msg_after D m w1) \<noteq> HUSB_TDListDone" by blast
      moreover have "fst (msg_after D k w) \<noteq> HUSB_TDListDone" if "k < Suc n" for k
        using that l v1 m by (cases k) (auto simp: msg_after_Suc)
      ultimately show ?thesis using m False by (auto intro!: exI [of _ "Suc n"] simp: msg_after_Suc)
    qed
  qed (use step in auto)
qed

lemma wait_returns_at:
  "fst (msg_after D n w) = HUSB_TDListDone \<Longrightarrow>
   \<forall>m<n. fst (msg_after D m w) \<noteq> HUSB_TDListDone \<Longrightarrow>
   UsbWaitTDListDone D w = Some (msg_after D n w)"
proof (induction n arbitrary: w)
  case 0
  then show ?case by (subst UsbWait_unfold) simp
next
  case (Suc n)
  have "fst (read_sie1_msg D w) \<noteq> HUSB_TDListDone" using Suc.prems(2) by force
  moreover have "\<forall>m<n. fst (msg_after D m (snd (read_sie1_msg D w))) \<noteq> HUSB_TDListDone"
    using Suc.prems(2) by (auto simp: msg_after_Suc [symmetric])
  ultimately show ?case
    using Suc by (subst UsbWait_unfold) (simp add: msg_after_Suc)
qed

lemma UsbWait_char:
  "UsbWaitTDListDone D w = Some r \<longleftrightarrow>
     (\<exists>n. msg_after D n w = r \<and> fst r = HUSB_TDListDone
        \<and> (\<forall>m<n. fst (msg_after D m w) \<noteq> HUSB_TDListDone))"
proof
  assume "UsbWaitTDListDone D w = Some r"
  then have "wait_td_loop D 0 w = Some r" by (simp add: wait_td_loop_step)
  from wait_loop_reaches [OF this] show "\<exists>n. msg_after D n w = r \<and> fst r = HUSB_TDListDone
        \<and> (\<forall>m<n. fst (msg_after D m w) \<noteq> HUSB_TDListDone)" by simp
qed (use wait_returns_at in fastforce)

lemma wait_seen:
  assumes seen: "fst (msg_after D n w) = HUSB_TDListDone"
  shows "\<exists>r. UsbWaitTDListDone D w = Some r"
proof -
  obtain k where "fst (msg_after D k w) = HUSB_TDListDone"
    "\<forall>m<k. fst (msg_after D m w) \<noteq> HUSB_TDListDone"
    using seen exists_least_iff [of "\<lambda>k. fst (msg_after D k w) = HUSB_TDListDone"] by blast
  then show ?thesis using wait_returns_at by blast
qed

lemma wait_never:
  "UsbWaitTDListDone D w = None \<Longrightarrow> \<not> (\<exists>n. fst (msg_after D n w) = HUSB_TDListDone)"
  using wait_seen by force

text \<open>
  Claim C34. \<open>UsbWaitTDListDone\<close> returns exactly when some reading of the message register is
  \<open>HUSB_TDListDone\<close>: with the first such reading, after clearing the register once per
  reading. It runs for ever exactly when no reading ever is.
\<close>

theorem UsbWaitTDListDone_returns:
  "(UsbWaitTDListDone D w = Some r) =
     (\<exists>n. r = msg_after D n w \<and> fst r = HUSB_TDListDone
        \<and> \<not> (\<exists>m<n. fst (msg_after D m w) = HUSB_TDListDone))
   \<and> (UsbWaitTDListDone D w = None) =
     (\<not> (\<exists>n. fst (msg_after D n w) = HUSB_TDListDone))"
proof
  show "(UsbWaitTDListDone D w = Some r) =
     (\<exists>n. r = msg_after D n w \<and> fst r = HUSB_TDListDone
        \<and> \<not> (\<exists>m<n. fst (msg_after D m w) = HUSB_TDListDone))"
    unfolding UsbWait_char by blast
  have seen: "\<exists>n. fst (msg_after D n w) = HUSB_TDListDone" if "UsbWaitTDListDone D w = Some r" for r
    using that unfolding UsbWait_char by blast
  show "(UsbWaitTDListDone D w = None) =
     (\<not> (\<exists>n. fst (msg_after D n w) = HUSB_TDListDone))"
  proof (cases "UsbWaitTDListDone D w")
    case None
    then show ?thesis using wait_never by blast
  next
    case (Some r)
    then show ?thesis using seen by simp
  qed
qed

end
