(* ===== verification/TdList.thy ===== *)
theory TdList
  imports UsbOps
begin

text \<open>
  What the word sequences of \<^verbatim>\<open>usb.c\<close> mean: an abstract reading of a descriptor list as the
  chip's BIOS reads it (linked six-word descriptors, the first one with an eight-byte setup
  packet), and the proof that the nine lists of the program are well formed and ask for the
  USB requests the enumeration needs.
\<close>

section \<open>Reading a descriptor list\<close>

text \<open>
  The fields of a descriptor at \<^verbatim>\<open>a\<close>: word 0 the buffer address, word 1 the byte count,
  word 2 the packet identifier and endpoint (low byte) and the device address (high byte),
  word 3 the control byte (bit 6 is the data toggle), word 4 the retry byte, word 5 the
  address of the next descriptor, 0 at the end.
\<close>

record td =
  td_at :: nat
  td_base :: nat
  td_len :: nat
  td_pid :: nat
  td_ep :: nat
  td_dev :: nat
  td_toggle :: bool
  td_armed :: bool
  td_next :: nat

definition word_at :: "u16 list \<Rightarrow> nat \<Rightarrow> u16" where
  "word_at ws a = (let i = (a - 0x500) div 2 in if i < length ws then ws ! i else 0)"

definition td_of :: "u16 list \<Rightarrow> nat \<Rightarrow> td" where
  "td_of ws a =
     \<lparr>td_at = a,
      td_base = unat (word_at ws a),
      td_len = unat (word_at ws (a + 2) AND 0x3FF),
      td_pid = unat (drop_bit 4 (word_at ws (a + 4)) AND 0xF),
      td_ep = unat (word_at ws (a + 4) AND 0xF),
      td_dev = unat (drop_bit 8 (word_at ws (a + 4))),
      td_toggle = bit (word_at ws (a + 6)) 6,
      td_armed = bit (word_at ws (a + 6)) 0,
      td_next = unat (word_at ws (a + 10))\<rparr>"

text \<open>
  Follow the links from an address. The fuel bounds the walk; running out of it, a link
  outside the written words or an odd link gives \<open>None\<close>.
\<close>

fun td_chain :: "nat \<Rightarrow> u16 list \<Rightarrow> nat \<Rightarrow> td list option" where
  "td_chain 0 ws a = None"
| "td_chain (Suc n) ws a =
     (if a < 0x500 \<or> odd a \<or> 0x500 + 2 * length ws < a + 12 then None
      else let t = td_of ws a
           in if td_next t = 0 then Some [t]
              else map_option (\<lambda>ts. t # ts) (td_chain n ws (td_next t)))"

section \<open>Well-formed control transfers\<close>

abbreviation PID_SETUP :: nat where "PID_SETUP \<equiv> 0xD"
abbreviation PID_IN :: nat where "PID_IN \<equiv> 0x9"
abbreviation PID_OUT :: nat where "PID_OUT \<equiv> 0x1"

text \<open>Address ranges \<open>[a, a + n)\<close> that do not overlap.\<close>

definition apart :: "nat \<times> nat \<Rightarrow> nat \<times> nat \<Rightarrow> bool" where
  "apart r s \<longleftrightarrow> fst r + snd r \<le> fst s \<or> fst s + snd s \<le> fst r"

fun pairwise_apart :: "(nat \<times> nat) list \<Rightarrow> bool" where
  "pairwise_apart [] = True"
| "pairwise_apart (r # rs) = (list_all (apart r) rs \<and> pairwise_apart rs)"

text \<open>The toggles of the packets after the setup stage: DATA1 first, then alternating.\<close>

fun alternates :: "bool \<Rightarrow> td list \<Rightarrow> bool" where
  "alternates b [] = True"
| "alternates b (t # ts) = (td_toggle t = b \<and> alternates (\<not> b) ts)"

definition control_transfer :: "nat \<Rightarrow> u16 list \<Rightarrow> td list \<Rightarrow> bool" where
  "control_transfer addr ws ts \<longleftrightarrow>
     (let setup = hd ts; data = butlast (tl ts); status = last ts;
          bufs = map (\<lambda>t. (td_base t, td_len t)) data
      in 2 \<le> length ts
       \<and> td_at setup = 0x500 \<and> td_pid setup = PID_SETUP \<and> \<not> td_toggle setup
       \<and> td_base setup = 0x50C \<and> td_len setup = 8
       \<and> list_all (\<lambda>t. td_dev t = addr \<and> td_ep t = 0 \<and> td_armed t) ts
       \<and> list_all (\<lambda>t. td_pid t = PID_IN \<and> 0 < td_len t \<and> td_len t \<le> 8) data
       \<and> alternates True data
       \<and> td_len status = 0 \<and> td_toggle status
       \<and> td_pid status = (if data = [] then PID_IN else PID_OUT)
       \<and> pairwise_apart ((0x500, 2 * length ws) # bufs)
       \<and> pairwise_apart ((0x50C, 8) # map (\<lambda>t. (td_at t, 12)) ts)
       \<and> 2 * length ws = 8 + 12 * length ts)"

section \<open>The setup packet as a USB request\<close>

record usb_request =
  bmRequestType :: nat
  bRequest :: nat
  wValue :: nat
  wIndex :: nat
  wLength :: nat

text \<open>The setup bytes go over the wire low byte first.\<close>

definition setup_of :: "u16 list \<Rightarrow> usb_request" where
  "setup_of ws =
     \<lparr>bmRequestType = unat (word_at ws 0x50C AND 0xFF),
      bRequest = unat (drop_bit 8 (word_at ws 0x50C)),
      wValue = unat (word_at ws 0x50E),
      wIndex = unat (word_at ws 0x510),
      wLength = unat (word_at ws 0x512)\<rparr>"

section \<open>The nine requests of the enumeration\<close>

datatype stage =
    SetAddress | DeviceDesc1 | DeviceDesc2 | ConfigDesc1 | ConfigDesc2
  | SetConfig | ClassRequest | HidDesc | ReportDesc

fun td_words :: "stage \<Rightarrow> u16 list" where
  "td_words SetAddress = td_SetAddress"
| "td_words DeviceDesc1 = td_DeviceDesc1"
| "td_words DeviceDesc2 = td_DeviceDesc2"
| "td_words ConfigDesc1 = td_ConfigDesc1"
| "td_words ConfigDesc2 = td_ConfigDesc2"
| "td_words SetConfig = td_SetConfig"
| "td_words ClassRequest = td_ClassRequest"
| "td_words HidDesc = td_HidDesc"
| "td_words ReportDesc = td_ReportDesc"

text \<open>
  What each request is in the USB and HID specifications: request type, request code, value,
  index and length. The device has address 0 until \<^verbatim>\<open>SET_ADDRESS\<close> gives it address 2.
\<close>

abbreviation req :: "nat \<Rightarrow> nat \<Rightarrow> nat \<Rightarrow> nat \<Rightarrow> usb_request" where
  "req t r v l \<equiv> \<lparr>bmRequestType = t, bRequest = r, wValue = v, wIndex = 0, wLength = l\<rparr>"

fun intended_request :: "stage \<Rightarrow> usb_request" where
  "intended_request SetAddress = req 0x00 5 2 0"
| "intended_request DeviceDesc1 = req 0x80 6 0x0100 8"
| "intended_request DeviceDesc2 = req 0x80 6 0x0100 18"
| "intended_request ConfigDesc1 = req 0x80 6 0x0200 9"
| "intended_request ConfigDesc2 = req 0x80 6 0x0200 255"
| "intended_request SetConfig = req 0x00 9 1 0"
| "intended_request ClassRequest = req 0x21 10 0 0"
| "intended_request HidDesc = req 0x81 6 0x2100 123"
| "intended_request ReportDesc = req 0x81 6 0x2200 123"

definition intended_address :: "stage \<Rightarrow> nat" where
  "intended_address k =
     (if k = SetAddress then 0 else wValue (intended_request SetAddress))"

text \<open>Bytes the IN packets of a list can take.\<close>

definition data_capacity :: "td list \<Rightarrow> nat" where
  "data_capacity ts = sum_list (map td_len (butlast (tl ts)))"

lemmas td_eval = td_of_def word_at_def td_SetAddress_def td_DeviceDesc1_def
  td_DeviceDesc2_def td_ConfigDesc1_def td_ConfigDesc2_def td_SetConfig_def
  td_ClassRequest_def td_HidDesc_def td_ReportDesc_def

definition chain_of :: "stage \<Rightarrow> td list" where
  "chain_of k = the (td_chain 16 (td_words k) 0x500)"

lemma td_chain_numeral [simp]:
  "td_chain (numeral n) ws a =
     (if a < 0x500 \<or> odd a \<or> 0x500 + 2 * length ws < a + 12 then None
      else let t = td_of ws a
           in if td_next t = 0 then Some [t]
              else map_option (\<lambda>ts. t # ts) (td_chain (pred_numeral n) ws (td_next t)))"
  by (simp add: numeral_eq_Suc)

text \<open>The walk over one list is a computation; each chain is evaluated once.\<close>

lemma chain_ok: "td_chain 16 (td_words k) 0x500 = Some (chain_of k)"
  by (cases k) (simp_all add: chain_of_def td_eval)

lemma chain_control_transfer: "control_transfer (intended_address k) (td_words k) (chain_of k)"
  by (cases k)
    (simp_all add: chain_of_def td_eval control_transfer_def intended_address_def apart_def)


text \<open>
  The setup packet of each list is the USB request its stage is named after, with
  the standard request codes, and every request after \<^verbatim>\<open>SET_ADDRESS\<close> goes to the address that
  request assigns.
\<close>

theorem td_setup_requests:
  "setup_of (td_words k) = intended_request k
   \<and> (k = SetAddress \<or> list_all (\<lambda>t. td_dev t = wValue (setup_of td_SetAddress)) (chain_of k))"
  by (cases k) (simp_all add: chain_of_def td_eval setup_of_def)

text \<open>
  The receive buffers of the two device-descriptor requests and of the first
  configuration request take exactly the bytes the setup packet asks for; the remaining
  descriptor requests ask for more than the list can receive (34 of 255, 8 of 123 and 59 of
  123 bytes).
\<close>

theorem td_capacity:
  "data_capacity (chain_of DeviceDesc1) = wLength (setup_of td_DeviceDesc1)
   \<and> data_capacity (chain_of DeviceDesc2) = wLength (setup_of td_DeviceDesc2)
   \<and> data_capacity (chain_of ConfigDesc1) = wLength (setup_of td_ConfigDesc1)
   \<and> data_capacity (chain_of ConfigDesc2) = 34 \<and> wLength (setup_of td_ConfigDesc2) = 255
   \<and> data_capacity (chain_of HidDesc) = 8 \<and> wLength (setup_of td_HidDesc) = 123
   \<and> data_capacity (chain_of ReportDesc) = 59 \<and> wLength (setup_of td_ReportDesc) = 123"
  by (simp add: chain_of_def td_eval setup_of_def data_capacity_def)

end
