(* ===== verification/UsbMain.thy ===== *)
theory UsbMain
  imports TdList
begin

text \<open>
  \<^verbatim>\<open>software/usb_kb/main.c\<close>: bring the USB controller up, enumerate the keyboard, then poll
  it for ever and hand each key code to the game. \<open>main\<close> does not return and jumps back to
  the label \<^verbatim>\<open>USB_HOT_PLUG\<close> from many places, so it is modelled as a machine: the program
  points between the loops are the values of \<open>pc\<close>, and \<open>main_step\<close> executes the statements
  from one point to the next. Every iteration of a polling loop is a step of its own.
\<close>

section \<open>Program points and variables\<close>

datatype up_pc = Begin | HotPlug | Sie1Wait | Sie1Ack | HusbAck
datatype port_pc = Detect | DetectRetry | InsertWait
datatype xfer_pc = Send | Poll | TdFirst | TdLoop | Check
datatype retry_pc = RetryStart | RetryPoll | RetryRead
datatype key_pc =
  KeyStart | KeyPoll | KeyWait | KeyMsg | KeyLoop | KeyRead | KeyGone | KeyLost

datatype pc =
    Up up_pc            \<comment> \<open>bring-up of the controller\<close>
  | Port port_pc        \<comment> \<open>is a device attached?\<close>
  | Xfer stage xfer_pc  \<comment> \<open>one of the nine control transfers\<close>
  | Retry retry_pc      \<comment> \<open>inside \<open>UsbGetRetryCnt\<close>\<close>
  | DevInfo
  | Key key_pc          \<comment> \<open>polling the keyboard\<close>

text \<open>
  The local variables of \<open>main\<close>, and \<open>msg\<close>, the local variable of the call of
  \<^verbatim>\<open>UsbWaitTDListDone\<close> that is running.
\<close>

record 'd vars =
  wd :: "'d world"
  intStat :: u16
  usb_ctl_val :: u16
  ctl_reg :: u16
  no_device :: u16
  fs_device :: u16
  keycode :: u32
  toggle :: u8
  data_size :: u8
  hot_plug_count :: u8
  code :: u16
  msg :: u16

section \<open>Straight-line blocks\<close>

definition usb_writes :: "'d env \<Rightarrow> (u16 \<times> u16) list \<Rightarrow> 'd world \<Rightarrow> 'd world" where
  "usb_writes D ps w = fold (\<lambda>(a, d). UsbWrite D a d) ps w"

text \<open>Steps 1a and 1b up to the mailbox command (\<open>u\<close> is \<^verbatim>\<open>usb_ctl_val\<close>, \<open>i\<close> is \<^verbatim>\<open>intStat\<close>).\<close>

definition sie1_init :: "'d env \<Rightarrow> u16 \<Rightarrow> u16 \<Rightarrow> 'd world \<Rightarrow> 'd world" where
  "sie1_init D u i w =
     (let w = UsbSoftReset D w;
          w = usb_writes D
                ([(HPI_SIE1_MSG_ADR, 0), (HOST1_STAT_REG, 0xFFFF), (HUSB_pEOT, 600),
                  (HPI_IRQ_ROUTING_REG, u), (HOST1_IRQ_EN_REG, i)]
                 @ map (\<lambda>r. (COMM_R r, 0)) [0..<14]
                 @ [(COMM_INT_NUM, HUSB_SIE1_INIT_INT)]) w
      in IO_write D HPI_MAILBOX COMM_EXEC_INT w)"

text \<open>Step 2 up to the mailbox command.\<close>

definition husb_reset :: "'d env \<Rightarrow> 'd world \<Rightarrow> 'd world" where
  "husb_reset D w =
     (let w = usb_writes D
                ([(COMM_INT_NUM, HUSB_RESET_INT), (COMM_R 0, 0x003C)]
                 @ map (\<lambda>r. (COMM_R r, 0)) [1..<14]) w
      in IO_write D HPI_MAILBOX COMM_EXEC_INT w)"

text \<open>The call of a stage; the second configuration request is followed by a long delay.\<close>

fun send_stage :: "'d env \<Rightarrow> stage \<Rightarrow> 'd world \<Rightarrow> 'd world" where
  "send_stage D SetAddress w = UsbSetAddress D w"
| "send_stage D DeviceDesc1 w = UsbGetDeviceDesc1 D w"
| "send_stage D DeviceDesc2 w = UsbGetDeviceDesc2 D w"
| "send_stage D ConfigDesc1 w = UsbGetConfigDesc1 D w"
| "send_stage D ConfigDesc2 w = UsbGetConfigDesc2 D w"
| "send_stage D SetConfig w = UsbSetConfig D w"
| "send_stage D ClassRequest w = UsbClassRequest D w"
| "send_stage D HidDesc w = UsbGetHidDesc D w"
| "send_stage D ReportDesc w = UsbGetReportDesc D w"

text \<open>After a list is done: read the status byte (only printed), then the control byte.\<close>

definition read_td_result :: "'d env \<Rightarrow> 'd world \<Rightarrow> u16 \<times> 'd world" where
  "read_td_result D w =
     (let w = IO_write D HPI_ADDR 0x0506 w;
          (_, w) = IO_read D HPI_DATA w;
          w = IO_write D HPI_ADDR 0x0508 w
      in IO_read D HPI_DATA w)"

text \<open>The statements between the two halves of the enumeration.\<close>

definition device_info :: "'d env \<Rightarrow> 'd vars \<Rightarrow> 'd vars" where
  "device_info D s =
     (let w = IO_write D HPI_ADDR 0x056C (wd s);
          (c, w) = IO_read D HPI_DATA w;
          w = IO_write D HPI_ADDR 0x0576 w;
          w = fold (IO_write D HPI_DATA) [0x073F, 0x8105, 0x0003, 0x0008, 0xAC0A] w;
          w = UsbWrite D HUSB_SIE1_pCurrentTDPtr 0x0576 w;
          w = IO_write D HPI_ADDR 0x057C w;
          (z, w) = IO_read D HPI_DATA w
      in s\<lparr>code := c AND 3, data_size := ucast (z AND 0xFF), wd := w\<rparr>)"

text \<open>The descriptor that asks the keyboard for a report.\<close>

definition key_td :: "u8 \<Rightarrow> u8 \<Rightarrow> u16 list" where
  "key_td sz tog =
     [0x051C, 0x000F AND ucast sz, 0x0291, if odd tog then 0x0001 else 0x0041,
      0x0013, 0x0000]"

definition send_key_td :: "'d env \<Rightarrow> 'd vars \<Rightarrow> 'd world" where
  "send_key_td D s = send_td_list D (key_td (data_size s) (toggle s)) (wd s)"

fun next_stage :: "stage \<Rightarrow> pc" where
  "next_stage SetAddress = Xfer DeviceDesc1 Send"
| "next_stage DeviceDesc1 = Xfer DeviceDesc2 Send"
| "next_stage DeviceDesc2 = Xfer ConfigDesc1 Send"
| "next_stage ConfigDesc1 = Xfer ConfigDesc2 Send"
| "next_stage ConfigDesc2 = DevInfo"
| "next_stage SetConfig = Xfer ClassRequest Send"
| "next_stage ClassRequest = Xfer HidDesc Send"
| "next_stage HidDesc = Xfer ReportDesc Send"
| "next_stage ReportDesc = Key KeyStart"

abbreviation absent :: "'d vars \<Rightarrow> bool" where
  "absent s \<equiv> usb_ctl_val s AND no_device s = 0"

definition read_ctl :: "'d env \<Rightarrow> 'd vars \<Rightarrow> 'd vars" where
  "read_ctl D s = (let (v, w) = UsbRead D (ctl_reg s) (wd s) in s\<lparr>usb_ctl_val := v, wd := w\<rparr>)"

definition nap :: "'d env \<Rightarrow> nat \<Rightarrow> 'd vars \<Rightarrow> 'd vars" where
  "nap D us s = s\<lparr>wd := usleep D us (wd s)\<rparr>"

text \<open>Read the report, publish the key code, look at the port again.\<close>

definition publish_key :: "'d env \<Rightarrow> 'd vars \<Rightarrow> 'd vars" where
  "publish_key D s =
     (let (k, w) = UsbRead D 0x051E (wd s);
          s = s\<lparr>keycode := ucast k, wd := w\<rparr>;
          s = s\<lparr>wd := pio_write D Keycode_base (keycode s AND 0xFF) (wd s)\<rparr>
      in read_ctl D (nap D 200 s))"

section \<open>The machine\<close>

text \<open>Bring-up: the start of \<open>main\<close> and the label \<^verbatim>\<open>USB_HOT_PLUG\<close> up to the second acknowledge.\<close>

fun up_step :: "'d env \<Rightarrow> up_pc \<Rightarrow> 'd vars \<Rightarrow> pc \<times> 'd vars" where
  "up_step D Begin s = (Up HotPlug, s\<lparr>wd := IO_init D (wd s)\<rparr>)"
| "up_step D HotPlug s =
     (let u = SOFEOP1_TO_CPU_EN OR RESUME1_TO_HPI_EN; i = A_CHG_IRQ_EN OR SOF_EOP_IRQ_EN
      in (Up Sie1Wait, s\<lparr>usb_ctl_val := u, intStat := i, wd := sie1_init D u i (wd s)\<rparr>))"
| "up_step D Sie1Wait s =
     (let (v, w) = IO_read D HPI_STATUS (wd s)
      in (if v AND 0xFFFF = 0 then Up Sie1Wait else Up Sie1Ack, s\<lparr>wd := w\<rparr>))"
| "up_step D Sie1Ack s =
     (let (v, w) = IO_read D HPI_MAILBOX (wd s)
      in if v \<noteq> COMM_ACK then (Up HotPlug, s\<lparr>wd := snd (IO_read D HPI_MAILBOX w)\<rparr>)
         else (Up HusbAck, s\<lparr>wd := husb_reset D w\<rparr>))"
| "up_step D HusbAck s =
     (let (v, w) = IO_read D HPI_MAILBOX (wd s)
      in if v \<noteq> COMM_ACK then (Up HotPlug, s\<lparr>wd := snd (IO_read D HPI_MAILBOX w)\<rparr>)
         else (Port Detect, s\<lparr>wd := w\<rparr>))"

text \<open>Is a device attached to the port? Wait for one if not, and start over when it comes.\<close>

fun port_step :: "'d env \<Rightarrow> port_pc \<Rightarrow> 'd vars \<Rightarrow> pc \<times> 'd vars" where
  "port_step D Detect s =
     (let s = read_ctl D (s\<lparr>ctl_reg := USB1_CTL_REG, no_device := A_DP_STAT OR A_DM_STAT,
                            fs_device := A_DP_STAT\<rparr>)
      in if absent s then (Port DetectRetry, s\<lparr>hot_plug_count := 0\<rparr>) else (Xfer SetAddress Send, s))"
| "port_step D DetectRetry s =
     (if hot_plug_count s < 5
      then (let s = read_ctl D (nap D (5 * 1000) s)
            in if absent s then (Port DetectRetry, s\<lparr>hot_plug_count := hot_plug_count s + 1\<rparr>)
               else (Xfer SetAddress Send, s))
      else if absent s then (Port InsertWait, s) else (Xfer SetAddress Send, s))"
| "port_step D InsertWait s =
     (if absent s
      then (let s = read_ctl D s
            in if absent s then (Port InsertWait, nap D 2000 s) else (Up HotPlug, s))
      else (Xfer SetAddress Send, s))"

text \<open>One control transfer: send the list, send it again until the chip reports, wait for the end of the list (\<^verbatim>\<open>UsbWaitTDListDone\<close>), check the control byte.\<close>

fun xfer_step :: "'d env \<Rightarrow> stage \<Rightarrow> xfer_pc \<Rightarrow> 'd vars \<Rightarrow> pc \<times> 'd vars" where
  "xfer_step D k Send s =
     (let s = s\<lparr>wd := send_stage D k (wd s)\<rparr>
      in (Xfer k Poll, if k = ConfigDesc2 then nap D (100 * 1000) s else s))"
| "xfer_step D k Poll s =
     (let (v, w) = IO_read D HPI_STATUS (wd s)
      in if v AND HPI_STATUS_SIE1msg_FLAG = 0
         then (Xfer k Poll, nap D (10 * 1000) (s\<lparr>wd := send_stage D k w\<rparr>))
         else (Xfer k TdFirst, s\<lparr>wd := w\<rparr>))"
| "xfer_step D k TdFirst s =
     (let (v, w) = read_sie1_msg D (wd s) in (Xfer k TdLoop, s\<lparr>msg := v, wd := w\<rparr>))"
| "xfer_step D k TdLoop s =
     (if msg s \<noteq> HUSB_TDListDone
      then (let (v, w) = read_sie1_msg D (wd s) in (Xfer k TdLoop, s\<lparr>msg := v, wd := w\<rparr>))
      else (Xfer k Check, s))"
| "xfer_step D k Check s =
     (let (v, w) = read_td_result D (wd s); s = s\<lparr>usb_ctl_val := v, wd := w\<rparr>
      in (if usb_ctl_val s \<noteq> 0x03 then Retry RetryStart else next_stage k, s))"

text \<open>\<^verbatim>\<open>UsbGetRetryCnt\<close> and the jump back that follows every call of it.\<close>

fun retry_step :: "'d env \<Rightarrow> retry_pc \<Rightarrow> 'd vars \<Rightarrow> pc \<times> 'd vars" where
  "retry_step D RetryStart s =
     (let (_, w) = IO_read D HPI_STATUS (wd s);
          (m, w) = UsbRead D HPI_SIE1_MSG_ADR w
      in if m = HUSB_TDListDone
         then (Retry RetryPoll, s\<lparr>wd := UsbWrite D HPI_SIE1_MSG_ADR 0 w\<rparr>)
         else (Retry RetryRead, s\<lparr>wd := w\<rparr>))"
| "retry_step D RetryPoll s =
     (let (v, w) = IO_read D HPI_STATUS (wd s)
      in (if v AND HPI_STATUS_SIE1msg_FLAG = 0 then Retry RetryPoll else Retry RetryRead, s\<lparr>wd := w\<rparr>))"
| "retry_step D RetryRead s =
     (let (v, w) = read_control_byte D (wd s) in (Up HotPlug, s\<lparr>usb_ctl_val := v, wd := w\<rparr>))"

text \<open>The endless loop that reads reports.\<close>

fun key_step :: "'d env \<Rightarrow> key_pc \<Rightarrow> 'd vars \<Rightarrow> pc \<times> 'd vars" where
  "key_step D KeyStart s = (Key KeyPoll, nap D 10000 s)"
| "key_step D KeyPoll s =
     (let s = s\<lparr>toggle := toggle s + 1\<rparr> in (Key KeyWait, s\<lparr>wd := send_key_td D s\<rparr>))"
| "key_step D KeyWait s =
     (let (v, w) = IO_read D HPI_STATUS (wd s); s = s\<lparr>wd := w\<rparr>
      in if v AND HPI_STATUS_SIE1msg_FLAG = 0
         then (Key KeyWait, nap D (10 * 1000) (s\<lparr>wd := send_key_td D s\<rparr>))
         else (Key KeyMsg, s))"
| "key_step D KeyMsg s =
     (let (v, w) = read_sie1_msg D (wd s) in (Key KeyLoop, s\<lparr>msg := v, wd := w\<rparr>))"
| "key_step D KeyLoop s =
     (if msg s \<noteq> HUSB_TDListDone
      then (let (v, w) = read_sie1_msg D (wd s) in (Key KeyLoop, s\<lparr>msg := v, wd := w\<rparr>))
      else (Key KeyRead, s\<lparr>usb_ctl_val := msg s\<rparr>))"
| "key_step D KeyRead s =
     (let s = publish_key D s
      in if absent s then (Key KeyGone, s\<lparr>hot_plug_count := 0\<rparr>) else (Key KeyLost, s))"
| "key_step D KeyGone s =
     (if hot_plug_count s < 7
      then (let s = read_ctl D (nap D (5 * 1000) s)
            in if absent s then (Key KeyGone, s\<lparr>hot_plug_count := hot_plug_count s + 1\<rparr>)
               else (Key KeyLost, s))
      else (Key KeyLost, s))"
| "key_step D KeyLost s =
     (if absent s
      then (let s = nap D (5 * 1000) (read_ctl D s);
                s = nap D (5 * 1000) (read_ctl D s);
                s = nap D (5 * 1000) (read_ctl D s)
            in if absent s then (Key KeyLost, nap D 200 s) else (Up HotPlug, s))
      else (Key KeyPoll, s))"

fun main_step :: "'d env \<Rightarrow> pc \<Rightarrow> 'd vars \<Rightarrow> pc \<times> 'd vars" where
  "main_step D (Up p) s = up_step D p s"
| "main_step D (Port p) s = port_step D p s"
| "main_step D (Xfer k p) s = xfer_step D k p s"
| "main_step D (Retry p) s = retry_step D p s"
| "main_step D DevInfo s = (Xfer SetConfig Send, device_info D s)"
| "main_step D (Key p) s = key_step D p s"

definition main_machine :: "'d env \<Rightarrow> pc \<times> 'd vars \<Rightarrow> pc \<times> 'd vars" where
  "main_machine D c = main_step D (fst c) (snd c)"

text \<open>The variables with an initialiser; the others start with any value.\<close>

definition main_start :: "pc \<times> 'd vars \<Rightarrow> bool" where
  "main_start c \<longleftrightarrow> fst c = Up Begin \<and> trace (wd (snd c)) = []
     \<and> keycode (snd c) = 0 \<and> toggle (snd c) = 0 \<and> fs_device (snd c) = 0
     \<and> ctl_reg (snd c) = 0 \<and> no_device (snd c) = 0"

abbreviation main_run :: "'d env \<Rightarrow> nat \<Rightarrow> pc \<times> 'd vars \<Rightarrow> pc \<times> 'd vars" where
  "main_run D n c \<equiv> iterate (main_machine D) n c"

end
