(* ===== verification/UsbMonitor.thy ===== *)
theory UsbMonitor
  imports UsbMain
begin

text \<open>
  What the enumeration promises, as a monitor over the bus trace: it remembers the control
  bytes read since the last soft reset of the chip and the last word read from the report
  buffer, and accepts a key code only after nine control bytes \<^verbatim>\<open>0x03\<close>. The invariant of the
  main machine says where in the enumeration each program point is, and the monitor never
  rejects.
\<close>

section \<open>The monitor\<close>

record monitor =
  m_addr :: "u16 option"  \<comment> \<open>the last event latched this address\<close>
  m_key :: "u16 option"   \<comment> \<open>the last event read this word of the report\<close>
  m_acks :: "u16 list"    \<comment> \<open>control bytes since the last soft reset\<close>
  m_keys :: nat           \<comment> \<open>key codes published so far\<close>
  m_ok :: bool

definition monitor0 :: monitor where
  "monitor0 = \<lparr>m_addr = None, m_key = None, m_acks = [], m_keys = 0, m_ok = True\<rparr>"

fun mon_step :: "monitor \<Rightarrow> bus_event \<Rightarrow> monitor" where
  "mon_step m (HW a d) =
     m\<lparr>m_addr := (if a = 2 then Some d else None), m_key := None,
       m_acks := (if a = 1 \<and> d = COMM_RESET then [] else m_acks m)\<rparr>"
| "mon_step m (HR a v) =
     m\<lparr>m_addr := None,
       m_key := (if a = 0 \<and> m_addr m = Some 0x051E then Some v else None),
       m_acks := (if a = 0 \<and> m_addr m = Some 0x0508 then m_acks m @ [v] else m_acks m)\<rparr>"
| "mon_step m (KeyOut k) =
     m\<lparr>m_addr := None, m_key := None, m_keys := m_keys m + 1,
       m_ok := (m_ok m \<and> m_acks m = replicate 9 0x03
                \<and> (case m_key m of None \<Rightarrow> False | Some v \<Rightarrow> k = ucast v))\<rparr>"
| "mon_step m ChipReset = m\<lparr>m_addr := None, m_key := None\<rparr>"
| "mon_step m (Wait n) = m\<lparr>m_addr := None, m_key := None\<rparr>"

definition monitor_of :: "bus_event list \<Rightarrow> monitor" where
  "monitor_of t = foldl mon_step monitor0 t"

text \<open>The control bytes of the session a trace ends in.\<close>

definition control_bytes :: "bus_event list \<Rightarrow> u16 list" where
  "control_bytes t = m_acks (monitor_of t)"

lemma monitor_append: "monitor_of (xs @ ys) = foldl mon_step (monitor_of xs) ys"
  by (simp add: monitor_of_def)

subsection \<open>What the monitor remembers is in the trace\<close>

lemma monitor_addr: "m_addr (monitor_of t) = Some a \<Longrightarrow> \<exists>u. t = u @ [HW 2 a]"
proof (induction t rule: rev_induct)
  case (snoc e t)
  then show ?case by (cases e) (auto simp: monitor_append split: if_splits)
qed (simp add: monitor_of_def monitor0_def)

lemma monitor_key:
  "m_key (monitor_of t) = Some v \<Longrightarrow> \<exists>u. t = u @ [HW 2 0x051E, HR 0 v]"
proof (induction t rule: rev_induct)
  case (snoc e t)
  then show ?case
    by (cases e) (auto simp: monitor_append dest!: monitor_addr split: if_splits)
qed (simp add: monitor_of_def monitor0_def)

lemma monitor_ok_prefix: "m_ok (foldl mon_step m es) \<Longrightarrow> m_ok m"
proof (induction es arbitrary: m)
  case (Cons e es)
  then have "m_ok (mon_step m e)" by simp
  then show ?case by (cases e) auto
qed simp

lemma monitor_accepts:
  assumes "m_ok (monitor_of (xs @ KeyOut k # ys))"
  shows "control_bytes xs = replicate 9 0x03
     \<and> (\<exists>u v. xs = u @ [HW 2 0x051E, HR 0 v] \<and> k = ucast v)"
proof -
  have "m_ok (foldl mon_step (mon_step (monitor_of xs) (KeyOut k)) ys)"
    using assms by (simp add: monitor_append)
  then have "m_ok (mon_step (monitor_of xs) (KeyOut k))" by (rule monitor_ok_prefix)
  then show ?thesis
    by (auto simp: control_bytes_def split: option.splits dest: monitor_key)
qed

lemma monitor_keys: "m_keys (monitor_of t) = length [e \<leftarrow> t. \<exists>k. e = KeyOut k]"
proof (induction t rule: rev_induct)
  case (snoc e t)
  then show ?case by (cases e) (auto simp: monitor_append)
qed (simp add: monitor_of_def monitor0_def)

subsection \<open>Events that do not move the monitor\<close>

text \<open>Register writes, delays and reads of the other ports.\<close>

fun quiet :: "bus_event \<Rightarrow> bool" where
  "quiet (HW a d) = (a \<noteq> 1 \<or> d \<noteq> COMM_RESET)"
| "quiet (HR a v) = (a \<noteq> 0)"
| "quiet ChipReset = True"
| "quiet (KeyOut k) = False"
| "quiet (Wait n) = True"

text \<open>The part of the monitor that quiet events keep.\<close>

definition core :: "monitor \<Rightarrow> u16 list \<times> nat \<times> bool" where
  "core m = (m_acks m, m_keys m, m_ok m)"

lemma core_quiet: "list_all quiet es \<Longrightarrow> core (foldl mon_step m es) = core m"
proof (induction es arbitrary: m)
  case (Cons e es)
  then have "core (mon_step m e) = core m" by (cases e) (auto simp: core_def)
  with Cons show ?case by simp
qed simp

lemma core_read:
  assumes "a \<noteq> 0x0508"
  shows "core (foldl mon_step m [HW 2 a, HR 0 v]) = core m"
  using assms by (simp add: core_def)

lemma foldl_read_then: "foldl mon_step m (HW 2 a # HR 0 v # es) =
   foldl mon_step (foldl mon_step m [HW 2 a, HR 0 v]) es"
  by simp

definition wmon :: "'d world \<Rightarrow> monitor" where
  "wmon w = monitor_of (bus w)"

abbreviation wcore :: "'d world \<Rightarrow> u16 list \<times> nat \<times> bool" where
  "wcore w \<equiv> core (wmon w)"

text \<open>
  How each operation moves the monitor. \<open>core\<close> is what the invariant speaks about; every
  rule needs an idle bus, which every operation leaves behind.
\<close>

named_theorems core_simps

lemma wmon_bus: "bus w' = bus w @ es \<Longrightarrow> wmon w' = foldl mon_step (wmon w) es"
  by (simp add: wmon_def monitor_append)

lemma core_port_read [core_simps]:
  "ready w \<Longrightarrow> ucast a \<noteq> (0 :: 2 word) \<Longrightarrow> wcore (snd (IO_read D a w)) = wcore w"
  by (simp add: wmon_bus [OF bus_IO_read] core_def)

lemma core_usleep [core_simps]: "wcore (usleep D n w) = wcore w"
  using wmon_bus [OF bus_usleep, of D n w] by (simp add: core_def)

lemma core_UsbWrite [core_simps]: "ready w \<Longrightarrow> wcore (UsbWrite D a d w) = wcore w"
  by (simp add: wmon_bus [OF bus_UsbWrite] core_def)

lemma core_UsbRead [core_simps]:
  "ready w \<Longrightarrow> a \<noteq> 0x0508 \<Longrightarrow> wcore (snd (UsbRead D a w)) = wcore w"
  by (simp add: wmon_bus [OF bus_UsbRead] core_def)

lemma core_read_sie1_msg [core_simps]:
  "ready w \<Longrightarrow> wcore (snd (read_sie1_msg D w)) = wcore w"
  by (simp add: wmon_bus [OF bus_read_sie1_msg] core_def)

lemma core_mailbox [core_simps]:
  "ready w \<Longrightarrow> d \<noteq> COMM_RESET \<Longrightarrow> wcore (IO_write D HPI_MAILBOX d w) = wcore w"
  by (simp add: wmon_bus [OF bus_IO_write] core_def)

lemma core_send_td_list [core_simps]:
  "ready w \<Longrightarrow> wcore (send_td_list D ws w) = wcore w"
proof -
  assume r: "ready w"
  have "list_all quiet (td_events ws)"
    by (auto simp: td_events_def list_all_iff)
  with r show ?thesis by (simp add: wmon_bus [OF bus_send_td_list] core_quiet)
qed

lemma ready_usb_writes [ready_simps]: "ready w \<Longrightarrow> ready (usb_writes D ps w)"
  unfolding usb_writes_def
  by (induction ps arbitrary: w) (auto simp: ready_simps)

lemma core_usb_writes [core_simps]: "ready w \<Longrightarrow> wcore (usb_writes D ps w) = wcore w"
  unfolding usb_writes_def
  by (induction ps arbitrary: w) (auto simp: ready_simps core_simps)

lemma core_UsbSoftReset [core_simps]:
  assumes "ready w"
  shows "wcore (UsbSoftReset D w) = ([], snd (wcore w))"
proof -
  obtain m s m1 m2 where "bus (UsbSoftReset D w) = bus w @
     [HW 1 COMM_RESET, Wait 100000, Wait 500000, HR 1 m, HR 3 s,
      HW 2 HPI_SIE1_MSG_ADR, HR 0 m1, HW 2 HPI_SIE1_MSG_ADR, HW 0 0,
      HW 2 HPI_SIE2_MSG_ADR, HR 0 m2, HW 2 HPI_SIE2_MSG_ADR, HW 0 0,
      HW 2 HOST1_STAT_REG, HW 0 0xFFFF, HW 2 HOST2_STAT_REG, HW 0 0xFFFF]"
    using bus_UsbSoftReset [OF assms] by metis
  then show ?thesis by (simp add: wmon_bus core_def)
qed

lemma ready_sie1_init [ready_simps]: "ready w \<Longrightarrow> ready (sie1_init D u i w)"
  by (simp add: sie1_init_def Let_def ready_simps)

lemma core_sie1_init [core_simps]:
  "ready w \<Longrightarrow> wcore (sie1_init D u i w) = ([], snd (wcore w))"
  by (simp add: sie1_init_def Let_def ready_simps core_simps)

lemma ready_husb_reset [ready_simps]: "ready w \<Longrightarrow> ready (husb_reset D w)"
  by (simp add: husb_reset_def Let_def ready_simps)

lemma core_husb_reset [core_simps]: "ready w \<Longrightarrow> wcore (husb_reset D w) = wcore w"
  by (simp add: husb_reset_def Let_def ready_simps core_simps)

lemma send_stage_td: "send_stage D k w = send_td_list D (td_words k) w"
  by (cases k) (simp_all add: UsbSetAddress_def UsbGetDeviceDesc1_def UsbGetDeviceDesc2_def
      UsbGetConfigDesc1_def UsbGetConfigDesc2_def UsbSetConfig_def UsbClassRequest_def
      UsbGetHidDesc_def UsbGetReportDesc_def)

lemma ready_send_stage [ready_simps]: "ready w \<Longrightarrow> ready (send_stage D k w)"
  by (simp add: send_stage_td ready_simps)

lemma core_send_stage [core_simps]: "ready w \<Longrightarrow> wcore (send_stage D k w) = wcore w"
  by (simp add: send_stage_td core_simps)

lemma ready_read_td_result [ready_simps]: "ready w \<Longrightarrow> ready (snd (read_td_result D w))"
  by (simp add: read_td_result_def Let_def split_beta ready_simps)

lemma bus_read_td_result [bus_simps]:
  assumes "ready w"
  shows "\<exists>s. bus (snd (read_td_result D w)) = bus w @
     [HW 2 0x0506, HR 0 s, HW 2 0x0508, HR 0 (fst (read_td_result D w))]"
  using assms by (simp add: read_td_result_def Let_def split_beta ready_simps bus_simps)

lemma core_read_td_result [core_simps]:
  assumes "ready w"
  shows "wcore (snd (read_td_result D w)) =
     (fst (wcore w) @ [fst (read_td_result D w)], snd (wcore w))"
proof -
  obtain s where "bus (snd (read_td_result D w)) = bus w @
     [HW 2 0x0506, HR 0 s, HW 2 0x0508, HR 0 (fst (read_td_result D w))]"
    using bus_read_td_result [OF assms] by metis
  then show ?thesis by (simp add: wmon_bus core_def)
qed

lemma core_read_control_byte [core_simps]:
  assumes "ready w"
  shows "wcore (snd (read_control_byte D w)) =
     (fst (wcore w) @ [fst (read_control_byte D w)], snd (wcore w))"
  using assms by (simp add: wmon_bus [OF bus_read_control_byte] core_def)

lemma ready_device_info [ready_simps]: "ready (wd s) \<Longrightarrow> ready (wd (device_info D s))"
  by (simp add: device_info_def Let_def split_beta ready_simps port.wr_many_ok)

lemma bus_device_info:
  assumes "ready (wd s)"
  shows "\<exists>c z. bus (wd (device_info D s)) = bus (wd s) @
     [HW 2 0x056C, HR 0 c, HW 2 0x0576, HW 0 0x073F, HW 0 0x8105, HW 0 0x0003, HW 0 0x0008,
      HW 0 0xAC0A, HW 2 HUSB_SIE1_pCurrentTDPtr, HW 0 0x0576, HW 2 0x057C, HR 0 z]
     \<and> code (device_info D s) = c AND 3 \<and> data_size (device_info D s) = ucast (z AND 0xFF)"
  using assms by (simp add: device_info_def Let_def split_beta ready_simps bus_simps)

lemma core_device_info [core_simps]:
  assumes "ready (wd s)"
  shows "wcore (wd (device_info D s)) = wcore (wd s)"
proof -
  obtain c z where "bus (wd (device_info D s)) = bus (wd s) @
     [HW 2 0x056C, HR 0 c, HW 2 0x0576, HW 0 0x073F, HW 0 0x8105, HW 0 0x0003, HW 0 0x0008,
      HW 0 0xAC0A, HW 2 HUSB_SIE1_pCurrentTDPtr, HW 0 0x0576, HW 2 0x057C, HR 0 z]"
    using bus_device_info [OF assms] by metis
  then show ?thesis by (simp add: wmon_bus core_def)
qed

end
