(* ===== verification/UsbMainProps.thy ===== *)
theory UsbMainProps
  imports UsbMonitor
begin

text \<open>
  The invariant of the main machine and what follows from it for every run: where in the
  enumeration each program point stands, which control bytes were read on the way, that key
  codes come only after a complete enumeration and from the report buffer, how the data
  toggle moves, and that the bus discipline is kept for ever.
\<close>

section \<open>The invariant\<close>

text \<open>How many transfers are complete when a stage begins.\<close>

fun stage_index :: "stage \<Rightarrow> nat" where
  "stage_index SetAddress = 0"
| "stage_index DeviceDesc1 = 1"
| "stage_index DeviceDesc2 = 2"
| "stage_index ConfigDesc1 = 3"
| "stage_index ConfigDesc2 = 4"
| "stage_index SetConfig = 5"
| "stage_index ClassRequest = 6"
| "stage_index HidDesc = 7"
| "stage_index ReportDesc = 8"

text \<open>Completed transfers at a program point; \<open>None\<close> where nothing is claimed.\<close>

fun completed :: "pc \<Rightarrow> nat option" where
  "completed (Up p) = (if p = HotPlug then None else Some 0)"
| "completed (Port p) = Some 0"
| "completed (Xfer k p) = Some (stage_index k)"
| "completed (Retry p) = None"
| "completed DevInfo = Some 5"
| "completed (Key p) = Some 9"

definition acks_fit :: "pc \<Rightarrow> u16 list \<Rightarrow> bool" where
  "acks_fit p as \<longleftrightarrow> (case completed p of None \<Rightarrow> True | Some n \<Rightarrow> as = replicate n 0x03)"

text \<open>The two static variables are set once the port has been looked at.\<close>

fun port_known :: "pc \<Rightarrow> bool" where
  "port_known (Up p) = False"
| "port_known (Port p) = (p \<noteq> Detect)"
| "port_known (Xfer k p) = True"
| "port_known (Retry p) = True"
| "port_known DevInfo = True"
| "port_known (Key p) = True"

text \<open>A report is outstanding between sending its descriptor and publishing its key code.\<close>

fun outstanding :: "pc \<Rightarrow> nat" where
  "outstanding (Key p) = (if p \<in> {KeyWait, KeyMsg, KeyLoop, KeyRead} then 1 else 0)"
| "outstanding _ = 0"

definition main_inv :: "pc \<times> 'd vars \<Rightarrow> bool" where
  "main_inv c \<longleftrightarrow>
     (if fst c = Up Begin then main_start c
      else ready (wd (snd c))
         \<and> m_ok (wmon (wd (snd c)))
         \<and> acks_fit (fst c) (m_acks (wmon (wd (snd c))))
         \<and> (port_known (fst c) \<longrightarrow>
              ctl_reg (snd c) = USB1_CTL_REG \<and> no_device (snd c) = A_DP_STAT OR A_DM_STAT)
         \<and> toggle (snd c) = of_nat (m_keys (wmon (wd (snd c))) + outstanding (fst c)))"

lemma core_fields:
  assumes "core m = (as, n, b)"
  shows "m_acks m = as" "m_keys m = n" "m_ok m = b"
  using assms by (auto simp: core_def)

text \<open>The same invariant over the three remembered fields, the form the steps rewrite.\<close>

definition fits :: "pc \<Rightarrow> u8 \<Rightarrow> u16 list \<times> nat \<times> bool \<Rightarrow> bool" where
  "fits p tog c \<longleftrightarrow> (case c of (as, n, b) \<Rightarrow>
     b \<and> acks_fit p as \<and> tog = of_nat (n + outstanding p))"

lemma main_inv_alt:
  "p \<noteq> Up Begin \<Longrightarrow> main_inv (p, s) \<longleftrightarrow>
     ready (wd s) \<and> fits p (toggle s) (wcore (wd s))
     \<and> (port_known p \<longrightarrow> ctl_reg s = USB1_CTL_REG \<and> no_device s = A_DP_STAT OR A_DM_STAT)"
  by (auto simp: main_inv_def fits_def core_def)

lemma core_eta: "wcore w = (m_acks (wmon w), m_keys (wmon w), m_ok (wmon w))"
  by (simp add: core_def)

lemma core_IO_init: "trace w = [] \<Longrightarrow> wcore (IO_init D w) = ([], 0, True)"
  by (simp add: core_def wmon_def bus_IO_init monitor_of_def monitor0_def)

lemma low_byte: "(ucast ((ucast (k :: u16) :: u32) AND 0xFF) :: u8) = ucast k"
proof -
  have mask: "0xFF = (mask 8 :: u32)" by (simp add: mask_eq_exp_minus_1)
  show ?thesis unfolding mask by (intro bit_word_eqI) (auto simp: bit_simps)
qed

lemma core_publish_key [core_simps]:
  assumes "ready (wd s)" "ctl_reg s \<noteq> 0x0508"
  shows "wcore (wd (publish_key D s)) =
     (fst (wcore (wd s)), fst (snd (wcore (wd s))) + 1,
      snd (snd (wcore (wd s))) \<and> fst (wcore (wd s)) = replicate 9 0x03)"
proof -
  let ?k = "fst (UsbRead D 0x051E (wd s))"
  let ?w1 = "pio_write D Keycode_base (ucast ?k AND 0xFF) (snd (UsbRead D 0x051E (wd s)))"
  have key: "(ucast ((ucast ?k :: u32) AND 0xFF) :: u8) = ucast ?k"
    by (rule low_byte)
  have b: "bus ?w1 = bus (wd s) @ [HW 2 0x051E, HR 0 ?k, KeyOut (ucast ?k)]"
    using assms by (simp add: bus_simps ready_simps key)
  have "wcore ?w1 = (fst (wcore (wd s)), fst (snd (wcore (wd s))) + 1,
      snd (snd (wcore (wd s))) \<and> fst (wcore (wd s)) = replicate 9 0x03)"
    by (simp add: wmon_bus [OF b] core_def)
  with assms show ?thesis
    by (simp add: publish_key_def read_ctl_def nap_def Let_def split_beta ready_simps core_simps)
qed

lemma ready_publish_key [ready_simps]: "ready (wd s) \<Longrightarrow> ready (wd (publish_key D s))"
  by (simp add: publish_key_def read_ctl_def nap_def Let_def split_beta ready_simps)

lemma publish_key_fields [simp]:
  "ctl_reg (publish_key D s) = ctl_reg s" "no_device (publish_key D s) = no_device s"
  "toggle (publish_key D s) = toggle s"
  by (simp_all add: publish_key_def read_ctl_def nap_def Let_def split_beta)

lemma device_info_fields [simp]:
  "ctl_reg (device_info D s) = ctl_reg s" "no_device (device_info D s) = no_device s"
  "toggle (device_info D s) = toggle s"
  by (simp_all add: device_info_def Let_def split_beta)

lemma ready_send_key_td [ready_simps]: "ready (wd s) \<Longrightarrow> ready (send_key_td D s)"
  by (simp add: send_key_td_def ready_simps)

lemma core_send_key_td [core_simps]: "ready (wd s) \<Longrightarrow> wcore (send_key_td D s) = wcore (wd s)"
  by (simp add: send_key_td_def core_simps)

declare send_stage.simps [simp del]

lemmas block_simps = Let_def split_beta read_ctl_def nap_def ready_simps core_simps

lemma up_keeps: "main_inv (Up p, s) \<Longrightarrow> main_inv (up_step D p s)"
proof (cases p)
  case Begin
  assume "main_inv (Up p, s)"
  with Begin show ?thesis
    by (auto simp: main_inv_alt main_inv_def [of "(Up Begin, s)"] main_start_def fits_def
        acks_fit_def core_IO_init ready_IO_init)
qed (auto simp: main_inv_alt fits_def acks_fit_def block_simps split: if_splits)

lemma port_keeps: "main_inv (Port p, s) \<Longrightarrow> main_inv (port_step D p s)"
  by (cases p) (auto simp: main_inv_alt fits_def acks_fit_def block_simps)

lemma completed_next: "completed (next_stage k) = Some (Suc (stage_index k))"
  by (cases k) simp_all

lemma next_stage_simps [simp]:
  "next_stage k \<noteq> Up p" "port_known (next_stage k)" "outstanding (next_stage k) = 0"
  by (cases k; simp)+

lemma xfer_keeps: "main_inv (Xfer k p, s) \<Longrightarrow> main_inv (xfer_step D k p s)"
proof (cases p)
  case Check
  assume inv: "main_inv (Xfer k p, s)"
  let ?r = "read_td_result D (wd s)"
  show ?thesis
  proof (cases "fst ?r = 0x03")
    case True
    with inv Check show ?thesis
      by (simp add: main_inv_alt fits_def acks_fit_def completed_next block_simps
          replicate_append_same case_prod_beta)
  next
    case False
    with inv Check show ?thesis
      by (simp add: main_inv_alt fits_def acks_fit_def block_simps case_prod_beta)
  qed
qed (auto simp: main_inv_alt fits_def acks_fit_def block_simps split: if_splits)

lemma retry_keeps: "main_inv (Retry p, s) \<Longrightarrow> main_inv (retry_step D p s)"
  by (cases p) (auto simp: main_inv_alt fits_def acks_fit_def block_simps case_prod_beta)

lemma key_keeps: "main_inv (Key p, s) \<Longrightarrow> main_inv (key_step D p s)"
  by (cases p)
    (auto simp: main_inv_alt fits_def acks_fit_def block_simps case_prod_beta split: if_splits)

lemma main_keeps: "main_inv c \<Longrightarrow> main_inv (main_machine D c)"
proof (cases c)
  case (Pair p s)
  assume "main_inv c"
  with Pair show ?thesis
    by (cases p) (auto simp: main_machine_def up_keeps port_keeps xfer_keeps retry_keeps
        key_keeps main_inv_alt fits_def acks_fit_def block_simps simp del: up_step.simps
        port_step.simps xfer_step.simps retry_step.simps key_step.simps)
qed

lemma main_starts: "main_start c \<Longrightarrow> main_inv c"
  by (simp add: main_inv_def main_start_def)

interpretation main: invariant_machine main_start "main_machine D" main_inv for D
  by unfold_locales (auto intro: main_starts main_keeps)

lemma main_run_inv: "main_start c \<Longrightarrow> main_inv (main_run D n c)"
  by (rule main.run_from_start)

lemma begin_never_again: "fst (main_step D p s) \<noteq> Up Begin"
proof (cases p)
  case (Up q)
  then show ?thesis by (cases q) (auto simp: Let_def split_beta)
next
  case (Port q)
  then show ?thesis by (cases q) (auto simp: Let_def split_beta)
next
  case (Xfer k q)
  then show ?thesis by (cases q) (auto simp: Let_def split_beta)
next
  case (Retry q)
  then show ?thesis by (cases q) (auto simp: Let_def split_beta)
next
  case (Key q)
  then show ?thesis by (cases q) (auto simp: Let_def split_beta)
qed simp

lemma run_past_begin: "0 < n \<Longrightarrow> fst (main_run D n c) \<noteq> Up Begin"
  by (cases n) (simp_all add: iterate_Suc_right main_machine_def begin_never_again
      del: iterate.simps)

section \<open>Safety of every run\<close>

lemma bus_start: "main_start c \<Longrightarrow> bus (wd (snd c)) = []"
  by (simp add: main_start_def bus_def)

lemma run_ok: "main_start c \<Longrightarrow> m_ok (wmon (wd (snd (main_run D n c))))"
  using main_run_inv [of c D n]
  by (auto simp: main_inv_def bus_start wmon_def monitor_of_def monitor0_def split: if_splits)


text \<open>
  Claim C14. From the first statement of \<open>main\<close> on, for ever and whatever the chip answers,
  between any two steps of the program the bus is idle and every access since \<open>IO_init\<close> has
  kept the bus discipline.
\<close>

theorem main_keeps_bus_discipline:
  assumes "main_start c" and "0 < n"
  shows "idle (wpins (wd (snd (main_run D n c))))
     \<and> disciplined (trace (wd (snd (main_run D n c))))"
  using main_run_inv [OF assms(1), of D n] run_past_begin [OF assms(2), of D c]
  by (simp add: main_inv_def ready_def)

definition start_vars :: "'d \<Rightarrow> 'd vars" where
  "start_vars d =
     \<lparr>wd = \<lparr>dev = d, trace = []\<rparr>, intStat = 0, usb_ctl_val = 0, ctl_reg = 0, no_device = 0,
      fs_device = 0, keycode = 0, toggle = 0, data_size = 0, hot_plug_count = 0, code = 0,
      msg = 0\<rparr>"

lemma start_ok: "main_start (Up Begin, start_vars d)"
  by (simp add: main_start_def start_vars_def)

theorem main_keeps_bus_discipline_witness:
  "idle (wpins (wd (snd (main_run quiet_env 500 (Up Begin, start_vars 0)))))"
  using main_keeps_bus_discipline [OF start_ok, of 500 quiet_env 0] by simp

definition keys_published :: "'d world \<Rightarrow> nat" where
  "keys_published w = length [e \<leftarrow> bus w. \<exists>k. e = KeyOut k]"

lemma odd_u8: "odd (of_nat n :: u8) = odd n"
  by simp

text \<open>
  Claim C35. The data toggle of the report request that is outstanding is the parity of the
  number of key codes published since power-up: DATA0 for the first one, then alternating,
  also across the wrap-around of the 8-bit counter and for a request that is sent again. A
  restart of the enumeration does not reset it, although it resets the toggle of the device.
\<close>

theorem report_toggle_alternates:
  assumes "main_start c" and "main_run D n c = (Key KeyWait, s)"
  shows "td_toggle (td_of (key_td (data_size s) (toggle s)) 0x500)
       = odd (keys_published (wd s))"
proof -
  have "toggle s = of_nat (keys_published (wd s) + 1)"
    using main_run_inv [OF assms(1), of D n] assms(2)
    by (simp add: main_inv_def keys_published_def wmon_def monitor_keys)
  then show ?thesis by (simp add: td_of_def word_at_def key_td_def odd_u8)
qed

end
