(* ===== verification/ChipTables.thy ===== *)
theory ChipTables
  imports Prelude
begin

text \<open>
  The registers of the USB controller, as \<^verbatim>\<open>software/usb_kb/cy7c67200.h\<close> and the two headers of its
  firmware, \<^verbatim>\<open>lcp_data.h\<close> and \<^verbatim>\<open>lcp_cmd.h\<close>, describe them: one definition per section of the header,
  with the names and values of its macros. The first part of the header was written for this board,
  the second is that of the manufacturer; both are kept, and \<open>ChipRegs\<close> compares them. A macro with
  an argument, \<^verbatim>\<open>((x) ? m : 0)\<close>, is listed with its value \<open>m\<close>. Four macros of the first part have a
  body that is no number and no expression of their arguments (lines 53, 59, 63 and 100) and are left
  out, as are the forms that the header has inside comments.
\<close>

section \<open>The form of a section\<close>

text \<open>
  How a register may be used: the letters in brackets of its comment; \<open>Unstated\<close> where there is none or
  the comment has question marks. A section names registers, gives further names to the same
  addresses, names bits, names bits a second time (\<^verbatim>\<open>bm...\<close> and aliases), and names values of fields and
  other constants.
\<close>

datatype access = ReadOnly | WriteOnly | ReadWrite | Unstated

type_synonym names = "(string \<times> u16) list"

record reg_block =
  rb_regs :: "(string \<times> u16 \<times> access) list"
  rb_also :: names
  rb_bits :: names
  rb_masks :: names
  rb_settings :: names

text \<open>
  The part that comes from the memory map of the chip describes fields by position and size instead: a
  place in the memory, a single bit (\<^verbatim>\<open>_BIT\<close>, with its mask \<^verbatim>\<open>_BM\<close> where there is one), a mask alone, a
  field (\<^verbatim>\<open>_POS\<close> and \<^verbatim>\<open>_SIZ\<close>) and a value of the field before it, with the value in place.
\<close>

datatype desc =
    Place string u16
  | Flag string nat "u16 option"
  | Mask string u16
  | Span string nat nat
  | Choice string u16 "u16 option"

section \<open>The part written for the board\<close>

definition USB_CTL_REG :: "u16 \<Rightarrow> u16" where
  "USB_CTL_REG x = (if x \<noteq> 0 then 0xC0AA else 0xC08A)"

text \<open>The macros that enable something if their argument is not zero.\<close>

definition enable_if :: "u16 \<Rightarrow> u16 \<Rightarrow> u16" where
  "enable_if m x = (if x \<noteq> 0 then m else 0)"

definition board_usb_control :: reg_block where
  "board_usb_control =
     \<lparr>rb_regs = [], rb_also = [],
     rb_bits = [(''SOF_EOP_EN'', 0x0001), (''SUSPEND_EN'', 0x0004), (''FORCEDSTATUS'', 0x0000),
         (''PORT_RES_EN'', 0x0080), (''PORT_MODE_HOST'', 0x0200), (''LOW_SPEED_PORT'', 0x0400)],
     rb_masks = [], rb_settings = []\<rparr>"

definition board_usb_device_endpointn_ctl :: reg_block where
  "board_usb_device_endpointn_ctl =
     \<lparr>rb_regs = [(''USB_DEVICE_ENDPOINTn_CTL_REG'', 0x0200, Unstated)], rb_also = [],
     rb_bits = [(''DEVICE_ENDPOINTn_ARM_EN'', 0x0001), (''DEVICE_ENDPOINTn_Enable'', 0x0002),
         (''DEVICE_ENDPOINTn_Direction_Selection'', 0x0004), (''DEVICE_ENDPOINTn_NAK_INT_EN'', 0x0008),
         (''DEVICE_ENDPOINTn_ISO_EN'', 0x0010), (''DEVICE_ENDPOINTn_Stall_EN'', 0x0020),
         (''DEVICE_ENDPOINT0_Inout_Ignore'', 0x0080)], rb_masks = [], rb_settings = []\<rparr>"

definition board_usb_device_endpointn_status :: reg_block where
  "board_usb_device_endpointn_status =
     \<lparr>rb_regs = [(''USB_DEVICE_ENDPOINTn_Status_REG'', 0x0206, Unstated)], rb_also = [],
     rb_bits = [(''DEVICE_ENDPOINTn_ACK_FLAG'', 0x0001), (''DEVICE_ENDPOINTn_Error_FLAG'', 0x0002),
         (''DEVICE_ENDPOINTn_Timeout_FLAG'', 0x0004), (''DEVICE_ENDPOINTn_Sequence_FLAG'', 0x0008),
         (''DEVICE_ENDPOINTn_Setup_FLAG'', 0x0010), (''DEVICE_ENDPOINTn_Length_Exception_FLAG'', 0x0020),
         (''DEVICE_ENDPOINTn_NAK_FLAG'', 0x0040), (''DEVICE_ENDPOINTn_Stall_FLAG'', 0x0080),
         (''DEVICE_ENDPOINTn_IN_Exception_FLAG'', 0x0100),
         (''DEVICE_ENDPOINTn_OUT_Exception_FLAG'', 0x0200), (''DEVICE_ENDPOINTn_Underflow_FLAG'', 0x0400),
         (''DEVICE_ENDPOINTn_Overflow_FLAG'', 0x0800)], rb_masks = [], rb_settings = []\<rparr>"

definition board_usb_device_int_en :: reg_block where
  "board_usb_device_int_en =
     \<lparr>rb_regs = [(''USB_DEVICE_INT_EN_REG'', 0xC08C, Unstated)], rb_also = [],
     rb_bits = [(''DEVICE_EPO_INT_EN'', 0x0001), (''DEVICE_EP1_INT_EN'', 0x0002), (''DEVICE_EP2_INT_EN'', 0x0004),
         (''DEVICE_EP3_INT_EN'', 0x0008), (''DEVICE_EP4_INT_EN'', 0x0010), (''DEVICE_EP5_INT_EN'', 0x0020),
         (''DEVICE_EP6_INT_EN'', 0x0040), (''DEVICE_EP7_INT_EN'', 0x0080),
         (''DEVICE_USB_ResetDetect_INT_EN'', 0x0100), (''DEVICE_SOF_EOP_INT_EN'', 0x0200),
         (''DEVICE_SOF_EOP_Timeout_INT_EN'', 0x0800), (''DEVICE_ID_INT_EN'', 0x4000),
         (''DEVICE_VBUS_INT_EN'', 0x8000)], rb_masks = [], rb_settings = []\<rparr>"

definition board_usb_device_address :: reg_block where
  "board_usb_device_address =
     \<lparr>rb_regs = [(''USB_DEVICE_Address_REG'', 0xC08E, Unstated)], rb_also = [], rb_bits = [],
     rb_masks = [], rb_settings = []\<rparr>"

definition board_usb_devicen_status :: reg_block where
  "board_usb_devicen_status =
     \<lparr>rb_regs = [(''USB_DEVICEn_Status_REG'', 0xC090, Unstated)], rb_also = [],
     rb_bits = [(''DEVICE_EP0_INT_Flag'', 0x0001), (''DEVICE_EP1_INT_Flag'', 0x0002),
         (''DEVICE_EP2_INT_Flag'', 0x0004), (''DEVICE_EP3_INT_Flag'', 0x0008),
         (''DEVICE_EP4_INT_Flag'', 0x0010), (''DEVICE_EP5_INT_Flag'', 0x0020),
         (''DEVICE_EP6_INT_Flag'', 0x0040), (''DEVICE_EP7_INT_Flag'', 0x0080),
         (''DEVICE_Reset_INT_Flag'', 0x0100), (''DEVICE_SOF_EOP_INT_Flag'', 0x0200),
         (''DEVICE_OTG_ID_INT_Flag'', 0x4000), (''DEVICE_VBUS_INT_Flag'', 0x8000)],
     rb_masks = [], rb_settings = []\<rparr>"

definition board_usb_devicen_framenum :: reg_block where
  "board_usb_devicen_framenum =
     \<lparr>rb_regs = [(''USB_DEVICEn_FrameNum_REG'', 0xC092, ReadOnly)], rb_also = [],
     rb_bits = [(''DEVICE_FrameNum'', 0x07FF), (''DEVICE_SOF_EOP_Timeout_INT_Count'', 0x7000),
         (''DEVICE_SOF_EOP_INT_Flag1'', 0x8000)], rb_masks = [], rb_settings = []\<rparr>"

definition board_device_sof_eop_count :: reg_block where
  "board_device_sof_eop_count =
     \<lparr>rb_regs = [(''DEVICE_SOF_EOP_COUNT_REG'', 0x3FFF, WriteOnly)], rb_also = [],
     rb_bits = [(''DEVICE_SOF_EOP_COUNT_NUM'', 0x2EF0)], rb_masks = [], rb_settings = []\<rparr>"

definition board_usb_hostn_ctl :: reg_block where
  "board_usb_hostn_ctl =
     \<lparr>rb_regs = [(''USB_HOSTn_CTL_REG'', 0xC0A0, ReadOnly)], rb_also = [],
     rb_bits = [(''HOST_ARM_EN'', 0x0001), (''HOST_ISO_EN'', 0x0010), (''HOST_SYN_EN'', 0x0020),
         (''HOST_SEQ_SEL'', 0x0040), (''HOST_PRE_EN'', 0x0080)], rb_masks = [], rb_settings = []\<rparr>"

definition board_usb_hostn_address :: reg_block where
  "board_usb_hostn_address =
     \<lparr>rb_regs = [(''USB_HOSTn_Address_REG'', 0xC0A2, ReadOnly)], rb_also = [], rb_bits = [],
     rb_masks = [], rb_settings = []\<rparr>"

definition board_usb_hostn_count :: reg_block where
  "board_usb_hostn_count =
     \<lparr>rb_regs = [(''USB_HOSTn_Count_REG'', 0xC0A4, ReadOnly)], rb_also = [],
     rb_bits = [(''HOST_COUNT_MASK'', 0x03FF)], rb_masks = [], rb_settings = []\<rparr>"

definition board_usb_hostn_pid :: reg_block where
  "board_usb_hostn_pid =
     \<lparr>rb_regs = [(''USB_HOSTn_PID_REG'', 0xC0A6, WriteOnly)], rb_also = [],
     rb_bits = [(''HOST_ENDPOINT_SEL'', 0x000F), (''HOST_PID_SEL'', 0x00F0)], rb_masks = [],
     rb_settings = []\<rparr>"

definition board_usb_hostn_count_result :: reg_block where
  "board_usb_hostn_count_result =
     \<lparr>rb_regs = [(''USB_HOSTn_Count_Result_REG'', 0xC0A8, ReadOnly)], rb_also = [],
     rb_bits = [(''HOST_Count_Result_MASK'', 0xFFFF)], rb_masks = [], rb_settings = []\<rparr>"

definition board_usb_hostn_device_address :: reg_block where
  "board_usb_hostn_device_address =
     \<lparr>rb_regs = [(''USB_HOSTn_Device_Address_REG'', 0xC0A8, ReadOnly)], rb_also = [],
     rb_bits = [(''HOST_Device_Address_MASK'', 0x007F)], rb_masks = [], rb_settings = []\<rparr>"

definition board_usb_hostn_int_en :: reg_block where
  "board_usb_hostn_int_en =
     \<lparr>rb_regs = [(''USB_HOSTn_INT_EN_REG'', 0xC0AC, ReadWrite)], rb_also = [],
     rb_bits = [(''HOST_DONE_INT_EN'', 0x0001), (''HOST_CON_CHANGE_EN'', 0x0010), (''HOST_WAKE_INT_EN'', 0x0040),
         (''HOST_SOF_EOP_INT_EN'', 0x0200), (''HOST_OTG_ID_INT_EN'', 0x4000), (''HOST_VBUS_INT_EN'', 0x8000)],
     rb_masks = [], rb_settings = []\<rparr>"

definition board_usb_hostn_status :: reg_block where
  "board_usb_hostn_status =
     \<lparr>rb_regs = [(''USB_HOSTn_STATUS_REG'', 0xC0B0, ReadWrite)], rb_also = [],
     rb_bits = [(''HOST_DONE_INT_FLAG'', 0x0001), (''HOST_SE0_FLAG'', 0x0002),
         (''HOST_CONNECT_CHANGE_INT_FLAG'', 0x0010), (''HOST_WAKE_INT_FLAG'', 0x0040),
         (''HOST_SOF_EOP_INT_FLAG'', 0x0200), (''HOST_OTG_ID_INT_FLAG'', 0x4000),
         (''HOST_VBUS_INT_FLAG'', 0x8000)], rb_masks = [], rb_settings = []\<rparr>"

definition board_usb_hostn_sof_eop_count :: reg_block where
  "board_usb_hostn_sof_eop_count =
     \<lparr>rb_regs = [(''USB_HOSTn_SOF_EOP_COUNT_REG'', 0xC0B2, ReadWrite)], rb_also = [],
     rb_bits = [(''HOST_SOF_EOP_COUNT_MASK'', 0x3FFF)], rb_masks = [], rb_settings = []\<rparr>"

definition board_usb_hostn_sof_eop_count_1 :: reg_block where
  "board_usb_hostn_sof_eop_count_1 =
     \<lparr>rb_regs = [(''USB_HOSTn_SOF_EOP_COUNT_REG1'', 0xC0B4, ReadOnly)], rb_also = [],
     rb_bits = [(''HOST_SOF_EOP_COUNT_MASK'', 0x3FFF)], rb_masks = [], rb_settings = []\<rparr>"

definition board_usb_hostn_frame_count_1 :: reg_block where
  "board_usb_hostn_frame_count_1 =
     \<lparr>rb_regs = [(''USB_HOSTn_FRAME_COUNT_REG1'', 0xC0B6, ReadOnly)], rb_also = [],
     rb_bits = [(''HOST_FRAME_COUNT_MASK'', 0x07FF)], rb_masks = [], rb_settings = []\<rparr>"

definition board_hpi_breakpoint :: reg_block where
  "board_hpi_breakpoint =
     \<lparr>rb_regs = [(''HPI_BreakPoint_REG'', 0x0140, ReadWrite)], rb_also = [], rb_bits = [],
     rb_masks = [], rb_settings = []\<rparr>"

definition board_hpi_int_routing :: reg_block where
  "board_hpi_int_routing =
     \<lparr>rb_regs = [(''HPI_INT_ROUTING_REG'', 0x0142, ReadWrite)], rb_also = [],
     rb_bits = [(''HPI_SWAP_EN'', 0x0000), (''HPI_ROUTE_EN'', 0xFECE)], rb_masks = [],
     rb_settings = []\<rparr>"

definition board_hpi_siemsg1 :: reg_block where
  "board_hpi_siemsg1 =
     \<lparr>rb_regs = [(''HPI_SIEmsg1_REG'', 0x0144, ReadWrite), (''HPI_SIEmsg2_REG'', 0x0148, ReadWrite)],
     rb_also = [],
     rb_bits = [(''HPI_SIEmsg_MASK'', 0xFFFF)], rb_masks = [], rb_settings = []\<rparr>"

definition board_hpi_mailbox :: reg_block where
  "board_hpi_mailbox =
     \<lparr>rb_regs = [(''HPI_Mailbox_REG'', 0xC0C6, Unstated)], rb_also = [],
     rb_bits = [(''HPI_Mailbox_MASK'', 0xFFFF)], rb_masks = [], rb_settings = []\<rparr>"

definition board_hpi_status :: reg_block where
  "board_hpi_status =
     \<lparr>rb_regs = [], rb_also = [],
     rb_bits = [(''HPI_STATUS_Mailbox_Out_FLAG'', 0x0001), (''HPI_STATUS_RESET1_FLAG'', 0x0002),
         (''HPI_STATUS_DONE1_FLAG'', 0x0004), (''HPI_STATUS_DONE2_FLAG'', 0x0008),
         (''HPI_STATUS_SIE1msg_FLAG'', 0x0010), (''HPI_STATUS_SIE2msg_FLAG'', 0x0020),
         (''HPI_STATUS_Resume1_FLAG'', 0x0040), (''HPI_STATUS_Resume2_FLAG'', 0x0080),
         (''HPI_STATUS_Mailbox_In_FLAG'', 0x0100), (''HPI_STATUS_SOF_EOP1_FLAG'', 0x0400),
         (''HPI_STATUS_SOF_EOP2_FLAG'', 0x1000), (''HPI_STATUS_SOF_OTG_ID_FLAG'', 0x4000),
         (''HPI_STATUS_VBUS_FLAG'', 0x8000)], rb_masks = [], rb_settings = []\<rparr>"

definition board_part :: "reg_block list" where
  "board_part =
     [board_usb_control, board_usb_device_endpointn_ctl, board_usb_device_endpointn_status,
      board_usb_device_int_en, board_usb_device_address, board_usb_devicen_status,
      board_usb_devicen_framenum, board_device_sof_eop_count, board_usb_hostn_ctl, board_usb_hostn_address,
      board_usb_hostn_count, board_usb_hostn_pid, board_usb_hostn_count_result,
      board_usb_hostn_device_address, board_usb_hostn_int_en, board_usb_hostn_status,
      board_usb_hostn_sof_eop_count, board_usb_hostn_sof_eop_count_1, board_usb_hostn_frame_count_1,
      board_hpi_breakpoint, board_hpi_int_routing, board_hpi_siemsg1, board_hpi_mailbox, board_hpi_status]"

section \<open>The manufacturer's part\<close>

definition cy_cpu_flags :: reg_block where
  "cy_cpu_flags =
     \<lparr>rb_regs = [(''CPU_FLAGS_REG'', 0xC000, ReadOnly)],
     rb_also = [(''flags'', 0xC000)],
     rb_bits = [(''GLOBAL_IRQ_EN'', 0x0010), (''NEG_FLG'', 0x0008), (''OVF_FLG'', 0x0004),
         (''CARRY_FLG'', 0x0002), (''ZER0_FLG'', 0x0001)], rb_masks = [], rb_settings = []\<rparr>"

definition cy_bank :: reg_block where
  "cy_bank =
     \<lparr>rb_regs = [(''BANK_REG'', 0xC002, ReadWrite)],
     rb_also = [(''regbuf'', 0xC002)],
     rb_bits = [(''BANK'', 0xFFE0)], rb_masks = [], rb_settings = []\<rparr>"

definition cy_hardware_revision :: reg_block where
  "cy_hardware_revision =
     \<lparr>rb_regs = [(''HW_REV_REG'', 0xC004, ReadOnly)], rb_also = [], rb_bits = [], rb_masks = [],
     rb_settings = []\<rparr>"

definition cy_interrupt_enable :: reg_block where
  "cy_interrupt_enable =
     \<lparr>rb_regs = [(''IRQ_EN_REG'', 0xC00E, ReadWrite)],
     rb_also = [(''intenb'', 0xC00E), (''INT_EN_REG'', 0xC00E)],
     rb_bits = [(''OTG_IRQ_EN'', 0x1000), (''SPI_IRQ_EN'', 0x0800), (''HOST2_IRQ_EN'', 0x0200),
         (''DEV2_IRQ_EN'', 0x0200), (''HOST1_IRQ_EN'', 0x0100), (''DEV1_IRQ_EN'', 0x0100),
         (''HSS_IRQ_EN'', 0x0080), (''IN_MBX_IRQ_EN'', 0x0040), (''OUT_MBX_IRQ_EN'', 0x0020),
         (''DMA_IRQ_EN'', 0x0010), (''UART_IRQ_EN'', 0x0008), (''GPIO_IRQ_EN'', 0x0004),
         (''TMR1_IRQ_EN'', 0x0002), (''TMR0_IRQ_EN'', 0x0001)],
     rb_masks = [(''bmINT_EN_TM0'', 0x0001), (''bmINT_EN_TM1'', 0x0002), (''bmINT_EN_GPIO'', 0x0004),
         (''bmINT_EN_UART'', 0x0008), (''bmINT_EN_DMA'', 0x0010), (''bmINT_EN_MBX_OUT'', 0x0020),
         (''bmINT_EN_MBX_IN'', 0x0040), (''bmINT_EN_HSP'', 0x0080), (''bmINT_EN_SIE1'', 0x0100),
         (''bmINT_EN_SIE2'', 0x0200), (''bmINT_EN_SPI'', 0x0800), (''bmINT_EN_OTG'', 0x1000)],
     rb_settings = []\<rparr>"

definition cy_cpu_speed :: reg_block where
  "cy_cpu_speed =
     \<lparr>rb_regs = [(''CPU_SPEED_REG'', 0xC008, ReadWrite)],
     rb_also = [(''P_SPEED'', 0xC008)],
     rb_bits = [(''CPU_SPEED'', 0x000F)], rb_masks = [], rb_settings = []\<rparr>"

definition cy_power_control :: reg_block where
  "cy_power_control =
     \<lparr>rb_regs = [(''POWER_CTL_REG'', 0xC00A, ReadWrite)], rb_also = [],
     rb_bits = [(''HOST2_WAKE_EN'', 0x4000), (''DEV2_WAKE_EN'', 0x4000), (''HOST1_WAKE_EN'', 0x1000),
         (''DEV1_WAKE_EN'', 0x1000), (''OTG_WAKE_EN'', 0x0800), (''HSS_WAKE_EN'', 0x0200),
         (''SPI_WAKE_EN'', 0x0100), (''HPI_WAKE_EN'', 0x0080), (''GPIO_WAKE_EN'', 0x0010),
         (''SLEEP_EN'', 0x0002), (''HALT_EN'', 0x0001)], rb_masks = [], rb_settings = []\<rparr>"

definition cy_breakpoint :: reg_block where
  "cy_breakpoint =
     \<lparr>rb_regs = [(''BKPT_REG'', 0xC014, ReadWrite)], rb_also = [], rb_bits = [], rb_masks = [],
     rb_settings = []\<rparr>"

definition cy_usb_diagnostic :: reg_block where
  "cy_usb_diagnostic =
     \<lparr>rb_regs = [(''USB_DIAG_REG'', 0xC03C, ReadWrite)], rb_also = [],
     rb_bits = [(''c2B_DIAG_EN'', 0x8000), (''c2A_DIAG_EN'', 0x4000), (''c1B_DIAG_EN'', 0x2000),
         (''c1A_DIAG_EN'', 0x1000), (''PULLDOWN_EN'', 0x0040), (''LS_PULLUP_EN'', 0x0020),
         (''FS_PULLUP_EN'', 0x0010), (''FORCE_SEL'', 0x0007)], rb_masks = [],
     rb_settings = [(''ASSERT_SE0'', 0x0004), (''TOGGLE_JK'', 0x0002), (''ASSERT_J'', 0x0001), (''ASSERT_K'', 0x0000)]\<rparr>"

definition cy_memory_diagnostic :: reg_block where
  "cy_memory_diagnostic =
     \<lparr>rb_regs = [(''MEM_DIAG_REG'', 0xC03E, WriteOnly)], rb_also = [],
     rb_bits = [(''FAST_REFRESH_EN'', 0x8000), (''MEM_ARB_SEL'', 0x0700), (''MONITOR_EN'', 0x0001)],
     rb_masks = [],
     rb_settings = [(''MEM_ARB_7'', 0x0700), (''MEM_ARB_6'', 0x0600), (''MEM_ARB_5'', 0x0500),
         (''MEM_ARB_4'', 0x0400), (''MEM_ARB_3'', 0x0300), (''MEM_ARB_2'', 0x0200),
         (''MEM_ARB_1'', 0x0100), (''MEM_ARB_0'', 0x0000)]\<rparr>"

definition cy_extended_page_n_map :: reg_block where
  "cy_extended_page_n_map =
     \<lparr>rb_regs = [(''PG1_MAP_REG'', 0xC018, ReadWrite), (''PG2_MAP_REG'', 0xC01A, ReadWrite)],
     rb_also = [], rb_bits = [], rb_masks = [], rb_settings = []\<rparr>"

definition cy_dram_control :: reg_block where
  "cy_dram_control =
     \<lparr>rb_regs = [(''DRAM_CTL_REG'', 0xC038, ReadWrite)], rb_also = [],
     rb_bits = [(''DRAM_DIS'', 0x0008), (''TURBO_EN'', 0x0004), (''PAGE_MODE_EN'', 0x0002),
         (''REFRESH_EN'', 0x0001)], rb_masks = [], rb_settings = []\<rparr>"

definition cy_external_memory_control :: reg_block where
  "cy_external_memory_control =
     \<lparr>rb_regs = [(''XMEM_CTL_REG'', 0xC03A, ReadWrite)],
     rb_also = [(''X_MEM_CNTRL'', 0xC03A)],
     rb_bits = [(''XRAM_MERGE_EN'', 0x2000), (''XROM_MERGE_EN'', 0x1000), (''XMEM_WIDTH_SEL'', 0x0800),
         (''XMEM_WAIT_SEL'', 0x0700), (''XROM_WIDTH_SEL'', 0x0080), (''XROM_WAIT_SEL'', 0x0070),
         (''XRAM_WIDTH_SEL'', 0x0008), (''XRAM_WAIT_SEL'', 0x0007)], rb_masks = [],
     rb_settings = [(''XRAM_BEGIN'', 0x4000), (''XROM_BEGIN'', 0xC100), (''IROM_BEGIN'', 0xE000),
         (''XMEM_8'', 0x0800), (''XMEM_16'', 0x0000), (''XROM_8'', 0x0080), (''XROM_16'', 0x0000),
         (''XRAM_8'', 0x0008), (''XRAM_16'', 0x0000)]\<rparr>"

definition cy_watchdog_timer :: reg_block where
  "cy_watchdog_timer =
     \<lparr>rb_regs = [(''WDT_REG'', 0xC00C, ReadWrite)], rb_also = [],
     rb_bits = [(''WDT_TIMEOUT_FLG'', 0x0020), (''WDT_PERIOD_SEL'', 0x0018), (''WDT_LOCK_EN'', 0x0004),
         (''WDT_EN'', 0x0002), (''WDT_RST_STB'', 0x0001)], rb_masks = [],
     rb_settings = [(''WDT_64MS'', 0x0003), (''WDT_21MS'', 0x0002), (''WDT_5MS'', 0x0001), (''WDT_1MS'', 0x0000)]\<rparr>"

definition cy_timer_n :: reg_block where
  "cy_timer_n =
     \<lparr>rb_regs = [(''TMR0_REG'', 0xC010, ReadWrite), (''TMR1_REG'', 0xC012, ReadWrite)],
     rb_also = [(''TIMER_0'', 0xC010), (''TIMER_1'', 0xC012)], rb_bits = [], rb_masks = [],
     rb_settings = []\<rparr>"

definition cy_usb_n_control :: reg_block where
  "cy_usb_n_control =
     \<lparr>rb_regs = [(''USB1_CTL_REG'', 0xC08A, ReadWrite), (''USB2_CTL_REG'', 0xC0AA, ReadWrite)],
     rb_also = [(''SIE1_USB_CONTROL'', 0xC08A), (''SIE2_USB_CONTROL'', 0xC0AA)],
     rb_bits = [(''B_DP_STAT'', 0x8000), (''B_DM_STAT'', 0x4000), (''A_DP_STAT'', 0x2000),
         (''A_DM_STAT'', 0x1000), (''B_SPEED_SEL'', 0x0800), (''A_SPEED_SEL'', 0x0400),
         (''MODE_SEL'', 0x0200), (''B_RES_EN'', 0x0100), (''A_RES_EN'', 0x0080), (''B_FORCE_SEL'', 0x0060),
         (''A_FORCE_SEL'', 0x0018), (''SUSP_EN'', 0x0004), (''B_SOF_EOP_EN'', 0x0002),
         (''A_SOF_EOP_EN'', 0x0001)],
     rb_masks = [(''bmHOST_CTL1_SOF0'', 0x0001), (''bmHOST_CTL1_SOF1'', 0x0002), (''bmHOST_CTL1_SUSPEND'', 0x0004),
         (''bmHOST_CTL1_JKState0'', 0x0008), (''bmHOST_CTL1_USBReset0'', 0x0010),
         (''bmHOST_CTL1_JKState1'', 0x0020), (''bmHOST_CTL1_USBReset1'', 0x0040),
         (''bmHOST_CTL1_UD0'', 0x0080), (''bmHOST_CTL1_UD1'', 0x0100), (''bmHOST_CTL1_HOST'', 0x0200),
         (''bmHOST_CTL1_LOA'', 0x0400), (''bmHOST_CTL1_LOB'', 0x0800), (''bmHOST_CTL1_D0m'', 0x1000),
         (''bmHOST_CTL1_D0p'', 0x2000), (''bmHOST_CTL1_D1m'', 0x4000), (''bmHOST_CTL1_D1p'', 0x8000)],
     rb_settings = [(''HOST_MODE'', 0x0200), (''DEVICE_MODE'', 0x0000), (''LOW_SPEED'', 0xFFFF),
         (''FULL_SPEED'', 0x0000), (''B_SPEED_LOW'', 0x0800), (''B_SPEED_FULL'', 0x0000),
         (''A_SPEED_LOW'', 0x0400), (''A_SPEED_FULL'', 0x0000), (''FORCE_K'', 0x0078),
         (''FORCE_SE0'', 0x0050), (''FORCE_J'', 0x0028), (''FORCE_NORMAL'', 0x0000),
         (''A_FORCE_K'', 0x0018), (''A_FORCE_SE0'', 0x0010), (''A_FORCE_J'', 0x0008),
         (''A_FORCE_NORMAL'', 0x0000), (''B_FORCE_K'', 0x0060), (''B_FORCE_SE0'', 0x0040),
         (''B_FORCE_J'', 0x0020), (''B_FORCE_NORMAL'', 0x0000)]\<rparr>"

definition cy_host_n_interrupt_enable :: reg_block where
  "cy_host_n_interrupt_enable =
     \<lparr>rb_regs = [(''HOST1_IRQ_EN_REG'', 0xC08C, ReadWrite), (''HOST2_IRQ_EN_REG'', 0xC0AC, ReadWrite)],
     rb_also = [(''SIE1_INT_EN_REG'', 0xC08C), (''SIE2_INT_EN_REG'', 0xC0AC)],
     rb_bits = [(''VBUS_IRQ_EN'', 0x8000), (''ID_IRQ_EN'', 0x4000), (''SOF_EOP_IRQ_EN'', 0x0200),
         (''B_WAKE_IRQ_EN'', 0x0080), (''A_WAKE_IRQ_EN'', 0x0040), (''B_CHG_IRQ_EN'', 0x0020),
         (''A_CHG_IRQ_EN'', 0x0010), (''DONE_IRQ_EN'', 0x0001)],
     rb_masks = [(''bmHOST_INTEN_XFERDONE'', 0x0001), (''bmHOST_INTEN_INSRMV0'', 0x0010),
         (''bmHOST_INTEN_INSRMV1'', 0x0020), (''bmHOST_INTEN_WAKEUP0'', 0x0040),
         (''bmHOST_INTEN_WAKEUP1'', 0x0080), (''bmHOST_INTEN_SOFINTR'', 0x0200),
         (''bmHOST_INTEN_IEXP'', 0x0400), (''bmHOST_INTEN_OTG_ID'', 0x4000),
         (''bmHOST_INTEN_OTG_44V'', 0x8000)], rb_settings = []\<rparr>"

definition cy_host_n_status :: reg_block where
  "cy_host_n_status =
     \<lparr>rb_regs = [(''HOST1_STAT_REG'', 0xC090, ReadWrite), (''HOST2_STAT_REG'', 0xC0B0, ReadWrite)],
     rb_also = [(''SIE1_INT_STATUS_REG'', 0xC090), (''SIE2_INT_STATUS_REG'', 0xC0B0)],
     rb_bits = [(''VBUS_IRQ_FLG'', 0x8000), (''ID_IRQ_FLG'', 0x4000), (''SOF_EOP_IRQ_FLG'', 0x0200),
         (''B_WAKE_IRQ_FLG'', 0x0080), (''A_WAKE_IRQ_FLG'', 0x0040), (''B_CHG_IRQ_FLG'', 0x0020),
         (''A_CHG_IRQ_FLG'', 0x0010), (''B_SE0_STAT'', 0x0008), (''A_SE0_STAT'', 0x0004),
         (''DONE_IRQ_FLG'', 0x0001)],
     rb_masks = [(''bmHOST_INT_XFERDONE'', 0x0001), (''bmHOST_INT_USBRST0'', 0x0004),
         (''bmHOST_INT_USBRST1'', 0x0008), (''bmHOST_INT_INSRMV0'', 0x0010),
         (''bmHOST_INT_INSRMV1'', 0x0020), (''bmHOST_INT_WAKEUP0'', 0x0040),
         (''bmHOST_INT_WAKEUP1'', 0x0080), (''bmHOST_INT_SOFINTR'', 0x0200),
         (''bmHOST_INT_OTG_ID'', 0x4000), (''bmHOST_INT_OTG_44V'', 0x8000)], rb_settings = []\<rparr>"

definition cy_host_n_control :: reg_block where
  "cy_host_n_control =
     \<lparr>rb_regs = [(''HOST1_CTL_REG'', 0xC080, ReadWrite), (''HOST2_CTL_REG'', 0xC0A0, ReadWrite)],
     rb_also = [(''SIE1_USB_CTRL_REG0'', 0xC080), (''SIE1_REG_BASE'', 0xC080), (''SIE2_USB_CTRL_REG0'', 0xC0A0),
         (''SIE2_REG_BASE'', 0xC0A0)],
     rb_bits = [(''PREAMBLE_EN'', 0x0080), (''SEQ_SEL'', 0x0040), (''SYNC_EN'', 0x0020), (''ISO_EN'', 0x0010),
         (''TIMEOUT_SEL'', 0x0008), (''DIR_SEL'', 0x0004), (''EN'', 0x0002), (''ARM_EN'', 0x0001),
         (''BSY_FLG'', 0x0001)],
     rb_masks = [(''bmHOST_HCTL_ARM'', 0x0001), (''bmHOST_HCTL_ISOCH'', 0x0010),
         (''bmHOST_HCTL_AFTERSOF'', 0x0020), (''bmHOST_HCTL_DT'', 0x0040),
         (''bmHOST_HCTL_PREAMBLE'', 0x0080)], rb_settings = []\<rparr>"

definition cy_host_n_address :: reg_block where
  "cy_host_n_address =
     \<lparr>rb_regs = [(''HOST1_ADDR_REG'', 0xC082, ReadWrite), (''HOST2_ADDR_REG'', 0xC0A2, ReadWrite)],
     rb_also = [(''SIE1_USB_BASE_ADDR'', 0xC082), (''SIE2_USB_BASE_ADDR'', 0xC0A2)],
     rb_bits = [], rb_masks = [], rb_settings = []\<rparr>"

definition cy_host_n_count :: reg_block where
  "cy_host_n_count =
     \<lparr>rb_regs = [(''HOST1_CNT_REG'', 0xC084, ReadWrite), (''HOST2_CNT_REG'', 0xC0A4, ReadWrite)],
     rb_also = [(''SIE1_USB_LENGTH'', 0xC084), (''SIE2_USB_LENGTH'', 0xC0A4)],
     rb_bits = [(''PORT_SEL'', 0x4000), (''HOST_CNT'', 0x03FF)],
     rb_masks = [(''bmHOST_PORT_SEL'', 0x4000)], rb_settings = []\<rparr>"

definition cy_host_n_pid :: reg_block where
  "cy_host_n_pid =
     \<lparr>rb_regs = [(''HOST1_PID_REG'', 0xC086, WriteOnly), (''HOST2_PID_REG'', 0xC0A6, WriteOnly)],
     rb_also = [(''SIE1_USB_HOST_PID'', 0xC086), (''SIE1_USB_ERR_STATUS'', 0xC086),
         (''SIE2_USB_HOST_PID'', 0xC0A6), (''SIE2_USB_ERR_STATUS'', 0xC0A6)],
     rb_bits = [(''PID_SEL'', 0x00F0), (''EP_SEL'', 0x000F)],
     rb_masks = [(''bmHOST_STATMASK_ACK'', 0x0001), (''bmHOST_STATMASK_ERROR'', 0x0002),
         (''bmHOST_STATMASK_TMOUT'', 0x0004), (''bmHOST_STATMASK_SEQ'', 0x0008),
         (''bmHOST_STATMASK_SETUP'', 0x0010), (''bmHOST_STATMASK_OVF'', 0x0020),
         (''bmHOST_STATMASK_NAK'', 0x0040), (''bmHOST_STATMASK_STALL'', 0x0080)],
     rb_settings = [(''SETUP_PID'', 0x000D), (''IN_PID'', 0x0009), (''OUT_PID'', 0x0001), (''SOF_PID'', 0x0005),
         (''PRE_PID'', 0x000C), (''NAK_PID'', 0x000A), (''STALL_PID'', 0x000E), (''DATA0_PID'', 0x0003),
         (''DATA1_PID'', 0x000B), (''cPortA'', 0x0000), (''cPortB'', 0x0001), (''cPortC'', 0x0002),
         (''cPortD'', 0x0003), (''cPID_SETUP'', 0x000D), (''cPID_IN'', 0x0009), (''cPID_OUT'', 0x0001),
         (''cPID_SOF'', 0x0005), (''cPID_PRE'', 0x000C), (''cPID_NAK'', 0x000A), (''cPID_STALL'', 0x000E),
         (''cPID_DATA0'', 0x0003), (''cPID_DATA1'', 0x000B), (''cPID_ACK'', 0x0002)]\<rparr>"

definition cy_host_n_endpoint_status :: reg_block where
  "cy_host_n_endpoint_status =
     \<lparr>rb_regs = [(''HOST1_EP_STAT_REG'', 0xC086, ReadOnly), (''HOST2_EP_STAT_REG'', 0xC0A6, ReadOnly)],
     rb_also = [],
     rb_bits = [(''STALL_FLG'', 0x0080), (''NAK_FLG'', 0x0040), (''OVERFLOW_FLG'', 0x0020),
         (''SEQ_STAT'', 0x0008), (''TIMEOUT_FLG'', 0x0004), (''ERROR_FLG'', 0x0002), (''ACK_FLG'', 0x0001)],
     rb_masks = [], rb_settings = []\<rparr>"

definition cy_host_n_device_address :: reg_block where
  "cy_host_n_device_address =
     \<lparr>rb_regs = [(''HOST1_DEV_ADDR_REG'', 0xC088, WriteOnly), (''HOST2_DEV_ADDR_REG'', 0xC0A8, WriteOnly)],
     rb_also = [(''SIE1_USB_HOST_DEV'', 0xC088), (''SIE1_USB_LEFT_BYTE'', 0xC088),
         (''SIE2_USB_HOST_DEV'', 0xC0A8), (''SIE2_USB_LEFT_BYTE'', 0xC0A8)],
     rb_bits = [(''DEV_ADDR'', 0x007F)], rb_masks = [], rb_settings = []\<rparr>"

definition cy_host_n_count_result :: reg_block where
  "cy_host_n_count_result =
     \<lparr>rb_regs = [(''HOST1_CTR_REG'', 0xC088, ReadOnly), (''HOST2_CTR_REG'', 0xC0A8, ReadOnly)],
     rb_also = [],
     rb_bits = [(''HOST_RESULT'', 0x00FF)], rb_masks = [], rb_settings = []\<rparr>"

definition cy_host_n_sofeop_count :: reg_block where
  "cy_host_n_sofeop_count =
     \<lparr>rb_regs = [(''HOST1_SOF_EOP_CNT_REG'', 0xC092, ReadWrite), (''HOST2_SOF_EOP_CNT_REG'', 0xC0B2, ReadWrite)],
     rb_also = [(''SIE1_USB_SOF_COUNT'', 0xC092), (''SIE2_USB_SOF_COUNT'', 0xC0B2)],
     rb_bits = [(''SOF_EOP_CNT'', 0x3FFF)], rb_masks = [], rb_settings = []\<rparr>"

definition cy_host_n_sofeop_counter :: reg_block where
  "cy_host_n_sofeop_counter =
     \<lparr>rb_regs = [(''HOST1_SOF_EOP_CTR_REG'', 0xC094, ReadOnly), (''HOST2_SOF_EOP_CTR_REG'', 0xC0B4, ReadOnly)],
     rb_also = [(''SIE1_USB_SOF_TIMER'', 0xC094), (''SIE2_USB_SOF_TIMER'', 0xC0B4)],
     rb_bits = [(''SOF_EOP_CTR'', 0x3FFF)], rb_masks = [], rb_settings = []\<rparr>"

definition cy_host_n_frame :: reg_block where
  "cy_host_n_frame =
     \<lparr>rb_regs = [(''HOST1_FRAME_REG'', 0xC096, ReadOnly), (''HOST2_FRAME_REG'', 0xC0B6, ReadOnly)],
     rb_also = [(''SIE1_USB_FRAME_NO'', 0xC096), (''SIE2_USB_FRAME_NO'', 0xC0B6)],
     rb_bits = [(''HOST_FRAME_NUM'', 0x07FF)], rb_masks = [], rb_settings = []\<rparr>"

definition cy_device_n_port_select :: reg_block where
  "cy_device_n_port_select =
     \<lparr>rb_regs = [(''DEV1_SEL_REG'', 0xC084, ReadWrite), (''DEV2_SEL_REG'', 0xC0A4, ReadWrite)],
     rb_also = [], rb_bits = [], rb_masks = [], rb_settings = []\<rparr>"

definition cy_device_n_interrupt_enable :: reg_block where
  "cy_device_n_interrupt_enable =
     \<lparr>rb_regs = [(''DEV1_IRQ_EN_REG'', 0xC08C, ReadWrite), (''DEV2_IRQ_EN_REG'', 0xC0AC, ReadWrite)],
     rb_also = [],
     rb_bits = [(''WAKE_IRQ_EN'', 0x0400), (''RST_IRQ_EN'', 0x0100), (''EP7_IRQ_EN'', 0x0080),
         (''EP6_IRQ_EN'', 0x0040), (''EP5_IRQ_EN'', 0x0020), (''EP4_IRQ_EN'', 0x0010),
         (''EP3_IRQ_EN'', 0x0008), (''EP2_IRQ_EN'', 0x0004), (''EP1_IRQ_EN'', 0x0002),
         (''EP0_IRQ_EN'', 0x0001)], rb_masks = [], rb_settings = []\<rparr>"

definition cy_device_n_status :: reg_block where
  "cy_device_n_status =
     \<lparr>rb_regs = [(''DEV1_STAT_REG'', 0xC090, ReadWrite), (''DEV2_STAT_REG'', 0xC0B0, ReadWrite)],
     rb_also = [],
     rb_bits = [(''WAKE_IRQ_FLG'', 0x0400), (''RST_IRQ_FLG'', 0x0100), (''EP7_IRQ_FLG'', 0x0080),
         (''EP6_IRQ_FLG'', 0x0040), (''EP5_IRQ_FLG'', 0x0020), (''EP4_IRQ_FLG'', 0x0010),
         (''EP3_IRQ_FLG'', 0x0008), (''EP2_IRQ_FLG'', 0x0004), (''EP1_IRQ_FLG'', 0x0002),
         (''EP0_IRQ_FLG'', 0x0001)], rb_masks = [], rb_settings = []\<rparr>"

definition cy_device_n_address :: reg_block where
  "cy_device_n_address =
     \<lparr>rb_regs = [(''DEV1_ADDR_REG'', 0xC08E, ReadWrite), (''DEV2_ADDR_REG'', 0xC0AE, ReadWrite)],
     rb_also = [],
     rb_bits = [(''DEV_ADDR_SEL'', 0x007F)], rb_masks = [], rb_settings = []\<rparr>"

definition cy_device_n_frame_number :: reg_block where
  "cy_device_n_frame_number =
     \<lparr>rb_regs = [(''DEV1_FRAME_REG'', 0xC092, ReadOnly), (''DEV2_FRAME_REG'', 0xC0B2, ReadOnly)],
     rb_also = [],
     rb_bits = [(''DEV_FRAME_STAT'', 0x07FF)], rb_masks = [], rb_settings = []\<rparr>"

definition cy_device_n_endpoint_n_control :: reg_block where
  "cy_device_n_endpoint_n_control =
     \<lparr>rb_regs = [(''DEV1_EP0_CTL_REG'', 0x0200, ReadWrite), (''DEV1_EP1_CTL_REG'', 0x0210, ReadWrite),
         (''DEV1_EP2_CTL_REG'', 0x0220, ReadWrite), (''DEV1_EP3_CTL_REG'', 0x0230, ReadWrite),
         (''DEV1_EP4_CTL_REG'', 0x0240, ReadWrite), (''DEV1_EP5_CTL_REG'', 0x0250, ReadWrite),
         (''DEV1_EP6_CTL_REG'', 0x0260, ReadWrite), (''DEV1_EP7_CTL_REG'', 0x0270, ReadWrite),
         (''DEV2_EP0_CTL_REG'', 0x0280, ReadWrite), (''DEV2_EP1_CTL_REG'', 0x0290, ReadWrite),
         (''DEV2_EP2_CTL_REG'', 0x02A0, ReadWrite), (''DEV2_EP3_CTL_REG'', 0x02B0, ReadWrite),
         (''DEV2_EP4_CTL_REG'', 0x02C0, ReadWrite), (''DEV2_EP5_CTL_REG'', 0x02D0, ReadWrite),
         (''DEV2_EP6_CTL_REG'', 0x02E0, ReadWrite), (''DEV2_EP7_CTL_REG'', 0x02F0, ReadWrite)],
     rb_also = [],
     rb_bits = [(''INOUT_IGN_EN'', 0x0080), (''STALL_EN'', 0x0020), (''NAK_INT_EN'', 0x0080)],
     rb_masks = [],
     rb_settings = [(''SIE1_DEV_REQ'', 0x0300), (''SIE2_DEV_REQ'', 0x0308)]\<rparr>"

definition cy_device_n_endpoint_n_address :: reg_block where
  "cy_device_n_endpoint_n_address =
     \<lparr>rb_regs = [(''DEV1_EP0_ADDR_REG'', 0x0202, ReadWrite), (''DEV1_EP1_ADDR_REG'', 0x0212, ReadWrite),
         (''DEV1_EP2_ADDR_REG'', 0x0222, ReadWrite), (''DEV1_EP3_ADDR_REG'', 0x0232, ReadWrite),
         (''DEV1_EP4_ADDR_REG'', 0x0242, ReadWrite), (''DEV1_EP5_ADDR_REG'', 0x0252, ReadWrite),
         (''DEV1_EP6_ADDR_REG'', 0x0262, ReadWrite), (''DEV1_EP7_ADDR_REG'', 0x0272, ReadWrite),
         (''DEV2_EP0_ADDR_REG'', 0x0282, ReadWrite), (''DEV2_EP1_ADDR_REG'', 0x0292, ReadWrite),
         (''DEV2_EP2_ADDR_REG'', 0x02A2, ReadWrite), (''DEV2_EP3_ADDR_REG'', 0x02B2, ReadWrite),
         (''DEV2_EP4_ADDR_REG'', 0x02C2, ReadWrite), (''DEV2_EP5_ADDR_REG'', 0x02D2, ReadWrite),
         (''DEV2_EP6_ADDR_REG'', 0x02E2, ReadWrite), (''DEV2_EP7_ADDR_REG'', 0x02F2, ReadWrite)],
     rb_also = [], rb_bits = [], rb_masks = [], rb_settings = []\<rparr>"

definition cy_device_n_endpoint_n_count :: reg_block where
  "cy_device_n_endpoint_n_count =
     \<lparr>rb_regs = [(''DEV1_EP0_CNT_REG'', 0x0204, ReadWrite), (''DEV1_EP1_CNT_REG'', 0x0214, ReadWrite),
         (''DEV1_EP2_CNT_REG'', 0x0224, ReadWrite), (''DEV1_EP3_CNT_REG'', 0x0234, ReadWrite),
         (''DEV1_EP4_CNT_REG'', 0x0244, ReadWrite), (''DEV1_EP5_CNT_REG'', 0x0254, ReadWrite),
         (''DEV1_EP6_CNT_REG'', 0x0264, ReadWrite), (''DEV1_EP7_CNT_REG'', 0x0274, ReadWrite),
         (''DEV2_EP0_CNT_REG'', 0x0284, ReadWrite), (''DEV2_EP1_CNT_REG'', 0x0294, ReadWrite),
         (''DEV2_EP2_CNT_REG'', 0x02A4, ReadWrite), (''DEV2_EP3_CNT_REG'', 0x02B4, ReadWrite),
         (''DEV2_EP4_CNT_REG'', 0x02C4, ReadWrite), (''DEV2_EP5_CNT_REG'', 0x02D4, ReadWrite),
         (''DEV2_EP6_CNT_REG'', 0x02E4, ReadWrite), (''DEV2_EP7_CNT_REG'', 0x02F4, ReadWrite)],
     rb_also = [],
     rb_bits = [(''EP_CNT'', 0x03FF)], rb_masks = [], rb_settings = []\<rparr>"

definition cy_device_n_endpoint_n_status :: reg_block where
  "cy_device_n_endpoint_n_status =
     \<lparr>rb_regs = [(''DEV1_EP0_STAT_REG'', 0x0206, ReadWrite), (''DEV1_EP1_STAT_REG'', 0x0216, ReadWrite),
         (''DEV1_EP2_STAT_REG'', 0x0226, ReadWrite), (''DEV1_EP3_STAT_REG'', 0x0236, ReadWrite),
         (''DEV1_EP4_STAT_REG'', 0x0246, ReadWrite), (''DEV1_EP5_STAT_REG'', 0x0256, ReadWrite),
         (''DEV1_EP6_STAT_REG'', 0x0266, ReadWrite), (''DEV1_EP7_STAT_REG'', 0x0276, ReadWrite),
         (''DEV2_EP0_STAT_REG'', 0x0286, ReadWrite), (''DEV2_EP1_STAT_REG'', 0x0296, ReadWrite),
         (''DEV2_EP2_STAT_REG'', 0x02A6, ReadWrite), (''DEV2_EP3_STAT_REG'', 0x02B6, ReadWrite),
         (''DEV2_EP4_STAT_REG'', 0x02C6, ReadWrite), (''DEV2_EP5_STAT_REG'', 0x02D6, ReadWrite),
         (''DEV2_EP6_STAT_REG'', 0x02E6, ReadWrite), (''DEV2_EP7_STAT_REG'', 0x02F6, ReadWrite)],
     rb_also = [],
     rb_bits = [(''OUT_EXCEPTION_FLG'', 0x0200), (''IN_EXCEPTION_FLG'', 0x0100), (''SETUP_FLG'', 0x0010)],
     rb_masks = [], rb_settings = []\<rparr>"

definition cy_device_n_endpoint_n_count_result :: reg_block where
  "cy_device_n_endpoint_n_count_result =
     \<lparr>rb_regs = [(''DEV1_EP0_CTR_REG'', 0x0208, ReadOnly), (''DEV1_EP1_CTR_REG'', 0x0218, ReadOnly),
         (''DEV1_EP2_CTR_REG'', 0x0228, ReadOnly), (''DEV1_EP3_CTR_REG'', 0x0238, ReadOnly),
         (''DEV1_EP4_CTR_REG'', 0x0248, ReadOnly), (''DEV1_EP5_CTR_REG'', 0x0258, ReadOnly),
         (''DEV1_EP6_CTR_REG'', 0x0268, ReadOnly), (''DEV1_EP7_CTR_REG'', 0x0278, ReadOnly),
         (''DEV2_EP0_CTR_REG'', 0x0288, ReadOnly), (''DEV2_EP1_CTR_REG'', 0x0298, ReadOnly),
         (''DEV2_EP2_CTR_REG'', 0x02A8, ReadOnly), (''DEV2_EP3_CTR_REG'', 0x02B8, ReadOnly),
         (''DEV2_EP4_CTR_REG'', 0x02C8, ReadOnly), (''DEV2_EP5_CTR_REG'', 0x02D8, ReadOnly),
         (''DEV2_EP6_CTR_REG'', 0x02E8, ReadOnly), (''DEV2_EP7_CTR_REG'', 0x02F8, ReadOnly)],
     rb_also = [],
     rb_bits = [(''EP_RESULT'', 0x00FF)], rb_masks = [], rb_settings = []\<rparr>"

definition cy_otg_control :: reg_block where
  "cy_otg_control =
     \<lparr>rb_regs = [(''OTG_CTL_REG'', 0xC098, ReadWrite)], rb_also = [],
     rb_bits = [(''OTG_RX_DIS'', 0x1000), (''CHG_PUMP_EN'', 0x0800), (''VBUS_DISCH_EN'', 0x0400),
         (''DPLUS_PULLUP_EN'', 0x0200), (''DMINUS_PULLUP_EN'', 0x0100), (''DPLUS_PULLDOWN_EN'', 0x0080),
         (''DMINUS_PULLDOWN_EN'', 0x0040), (''OTG_DATA_STAT'', 0x0004), (''OTG_ID_STAT'', 0x0002),
         (''VBUS_VALID_FLG'', 0x0001)], rb_masks = [], rb_settings = []\<rparr>"

definition cy_gpio_control :: reg_block where
  "cy_gpio_control =
     \<lparr>rb_regs = [(''GPIO_CTL_REG'', 0xC006, ReadWrite)],
     rb_also = [(''GPIO_CONFIG'', 0xC006), (''GPIO_CNTRL'', 0xC01C)],
     rb_bits = [(''GPIO_WP_EN'', 0x8000), (''GPIO_SAS_EN'', 0x0800), (''GPIO_MODE_SEL'', 0x0700),
         (''GPIO_HSS_EN'', 0x0080), (''GPIO_HSS_XD_EN'', 0x0040), (''GPIO_SPI_EN'', 0x0020),
         (''GPIO_SPI_XD_EN'', 0x0010), (''GPIO_IRQ1_POL_SEL'', 0x0008), (''GPIO_IRQ1_EN'', 0x0004),
         (''GPIO_IRQ0_POL_SEL'', 0x0002), (''GPIO_IRQ0_EN'', 0x0001)], rb_masks = [],
     rb_settings = [(''DIAG_MODE'', 0x0007), (''SCAN_MODE'', 0x0006), (''HPI_MODE'', 0x0005), (''IDE_MODE'', 0x0004),
         (''EPP_MODE'', 0x0002), (''FLASH_MODE'', 0x0001), (''GPIO_MODE'', 0x0000)]\<rparr>"

definition cy_gpio_n :: reg_block where
  "cy_gpio_n =
     \<lparr>rb_regs = [(''GPIO0_OUT_DATA_REG'', 0xC01E, ReadWrite), (''GPIO1_OUT_DATA_REG'', 0xC024, ReadWrite),
         (''GPIO0_IN_DATA_REG'', 0xC020, ReadOnly), (''GPIO1_IN_DATA_REG'', 0xC026, ReadOnly),
         (''GPIO0_DIR_REG'', 0xC022, ReadWrite), (''GPIO1_DIR_REG'', 0xC028, ReadWrite)],
     rb_also = [(''GPIO_HI_IO'', 0xC024), (''GPIO_HI_ENB'', 0xC028)], rb_bits = [],
     rb_masks = [], rb_settings = []\<rparr>"

definition cy_epp_control :: reg_block where
  "cy_epp_control =
     \<lparr>rb_regs = [(''EPP_CTL_REG'', 0xC046, ReadWrite)], rb_also = [],
     rb_bits = [(''EPP_MODE_SEL'', 0x8000), (''EPP_SELECT_STAT'', 0x4000), (''EPP_nFAULT_STAT'', 0x2000),
         (''EPP_pERROR_STAT'', 0x1000), (''EPP_nRESET_EN'', 0x0020), (''EPP_nDSTRB_EN'', 0x0010),
         (''EPP_nASTRB_EN'', 0x0008), (''EPP_nWRITE_EN'', 0x0004), (''EPP_IRQ_STAT'', 0x0002),
         (''EPP_WAIT_STAT'', 0x0001)],
     rb_masks = [(''EPP_nINIT_EN'', 0x0020), (''EPP_nAUTOFD_EN'', 0x0010), (''EPP_ASELECT_EN'', 0x0008),
         (''EPP_nSTROBE_EN'', 0x0004), (''EPP_nACK_STAT'', 0x0002), (''EPP_BUSY_STAT'', 0x0001)],
     rb_settings = []\<rparr>"

definition cy_epp_data :: reg_block where
  "cy_epp_data =
     \<lparr>rb_regs = [(''EPP_DATA_REG'', 0xC040, ReadWrite)], rb_also = [],
     rb_bits = [(''EPP_DATA'', 0x00FF)], rb_masks = [], rb_settings = []\<rparr>"

definition cy_epp_buffer_read :: reg_block where
  "cy_epp_buffer_read =
     \<lparr>rb_regs = [(''EPP_BFR_READ_REG'', 0xC042, ReadOnly)], rb_also = [],
     rb_bits = [(''EPP_BFR'', 0x00FF)], rb_masks = [], rb_settings = []\<rparr>"

definition cy_epp_address :: reg_block where
  "cy_epp_address =
     \<lparr>rb_regs = [(''EPP_ADDR_REG'', 0xC044, ReadWrite)], rb_also = [],
     rb_bits = [(''EPP_ADDR'', 0x00FF)], rb_masks = [], rb_settings = []\<rparr>"

definition cy_ide_mode :: reg_block where
  "cy_ide_mode =
     \<lparr>rb_regs = [(''IDE_MODE_REG'', 0xC048, ReadWrite)], rb_also = [],
     rb_bits = [(''IDE_MODE_SEL'', 0x0007)], rb_masks = [],
     rb_settings = [(''MODE_DIS'', 0x0007), (''MODE_PIO4'', 0x0004), (''MODE_PIO3'', 0x0003), (''MODE_PIO2'', 0x0002),
         (''MODE_PIO1'', 0x0001), (''MODE_PIO0'', 0x0000)]\<rparr>"

definition cy_ide_start_address :: reg_block where
  "cy_ide_start_address =
     \<lparr>rb_regs = [(''IDE_START_ADDR_REG'', 0xC04A, ReadWrite)], rb_also = [], rb_bits = [],
     rb_masks = [], rb_settings = []\<rparr>"

definition cy_ide_stop_address :: reg_block where
  "cy_ide_stop_address =
     \<lparr>rb_regs = [(''IDE_STOP_ADDR_REG'', 0xC04C, ReadWrite)], rb_also = [], rb_bits = [],
     rb_masks = [], rb_settings = []\<rparr>"

definition cy_ide_control :: reg_block where
  "cy_ide_control =
     \<lparr>rb_regs = [(''IDE_CTL_REG'', 0xC04E, ReadWrite)], rb_also = [],
     rb_bits = [(''IDE_DIR_SEL'', 0x0008), (''IDE_IRQ_EN'', 0x0004), (''IDE_DONE_FLG'', 0x0002),
         (''IDE_EN'', 0x0001)], rb_masks = [],
     rb_settings = [(''WR_EXT'', 0x0008), (''RD_EXT'', 0x0000)]\<rparr>"

definition cy_ide_pio_port :: reg_block where
  "cy_ide_pio_port =
     \<lparr>rb_regs = [(''IDE_PIO_DATA_REG'', 0xC050, ReadWrite), (''IDE_PIO_ERR_REG'', 0xC052, ReadWrite),
         (''IDE_PIO_SCT_CNT_REG'', 0xC054, ReadWrite), (''IDE_PIO_SCT_NUM_REG'', 0xC056, ReadWrite),
         (''IDE_PIO_CYL_LO_REG'', 0xC058, ReadWrite), (''IDE_PIO_CYL_HI_REG'', 0xC05A, ReadWrite),
         (''IDE_PIO_DEV_HD_REG'', 0xC05C, ReadWrite), (''IDE_PIO_CMD_REG'', 0xC05E, ReadWrite),
         (''IDE_PIO_DEV_CTL_REG'', 0xC06C, ReadWrite)], rb_also = [], rb_bits = [],
     rb_masks = [], rb_settings = []\<rparr>"

definition cy_mdma_mode :: reg_block where
  "cy_mdma_mode =
     \<lparr>rb_regs = [(''MDMA_MODE_REG'', 0xC048, ReadWrite)], rb_also = [],
     rb_bits = [(''MDMA_PROTOCOL_SEL'', 0x0008), (''MDMA_MODE_SEL'', 0x0007)], rb_masks = [],
     rb_settings = [(''MDMA_DIS'', 0x0007), (''MDMA_16'', 0x0006), (''MDMA_8'', 0x0005)]\<rparr>"

definition cy_mdma_start_address :: reg_block where
  "cy_mdma_start_address =
     \<lparr>rb_regs = [(''MDMA_START_ADDR_REG'', 0xC04A, ReadWrite)], rb_also = [], rb_bits = [],
     rb_masks = [], rb_settings = []\<rparr>"

definition cy_mdma_stop_address :: reg_block where
  "cy_mdma_stop_address =
     \<lparr>rb_regs = [(''MDMA_STOP_ADDR_REG'', 0xC04C, ReadWrite)], rb_also = [], rb_bits = [],
     rb_masks = [], rb_settings = []\<rparr>"

definition cy_mdma_control :: reg_block where
  "cy_mdma_control =
     \<lparr>rb_regs = [(''MDMA_CTL_REG'', 0xC04E, ReadWrite)], rb_also = [],
     rb_bits = [(''MDMA_DIR_SEL'', 0x0008), (''MDMA_IRQ_EN'', 0x0004), (''MDMA_DONE_FLG'', 0x0002),
         (''MDMA_EN'', 0x0001)], rb_masks = [], rb_settings = []\<rparr>"

definition cy_hss_control :: reg_block where
  "cy_hss_control =
     \<lparr>rb_regs = [(''HSS_Ctl_REG'', 0xC070, ReadWrite)], rb_also = [],
     rb_bits = [(''HSS_EN'', 0x8000), (''RTS_POL_SEL'', 0x4000), (''CTS_POL_SEL'', 0x2000), (''XOFF'', 0x1000),
         (''XOFF_EN'', 0x0800), (''CTS_EN'', 0x0400), (''RX_IRQ_EN'', 0x0200),
         (''HSS_DONE_IRQ_EN'', 0x0100), (''TX_DONE_IRQ_FLG'', 0x0080), (''RX_DONE_IRQ_FLG'', 0x0040),
         (''ONE_STOP_BIT'', 0x0020), (''HSS_TX_RDY'', 0x0010), (''PACKET_MODE_SEL'', 0x0008),
         (''RX_OVF_FLG'', 0x0004), (''RX_PKT_RDY_FLG'', 0x0002), (''RX_RDY_FLG'', 0x0001)],
     rb_masks = [],
     rb_settings = [(''RTS_POL_LO'', 0x4000), (''RTS_POL_HI'', 0x0000), (''CTS_POL_LO'', 0x2000),
         (''CTS_POL_HI'', 0x0000)]\<rparr>"

definition cy_hss_baud_rate :: reg_block where
  "cy_hss_baud_rate =
     \<lparr>rb_regs = [(''HSS_BAUD_REG'', 0xC072, Unstated)], rb_also = [],
     rb_bits = [(''HSS_BAUD_SEL'', 0x1FFF)], rb_masks = [], rb_settings = []\<rparr>"

definition cy_hss_tx_gap :: reg_block where
  "cy_hss_tx_gap =
     \<lparr>rb_regs = [(''HSS_TX_GAP_REG'', 0xC074, Unstated)], rb_also = [],
     rb_bits = [(''TX_GAP_SEL'', 0x00FF)], rb_masks = [], rb_settings = []\<rparr>"

definition cy_hss_data :: reg_block where
  "cy_hss_data =
     \<lparr>rb_regs = [(''HSS_DATA_REG'', 0xC076, ReadWrite)], rb_also = [],
     rb_bits = [(''HSS_DATA'', 0x00FF)], rb_masks = [], rb_settings = []\<rparr>"

definition cy_hss_receive_address :: reg_block where
  "cy_hss_receive_address =
     \<lparr>rb_regs = [(''HSS_RX_ADDR_REG'', 0xC078, Unstated)], rb_also = [], rb_bits = [], rb_masks = [],
     rb_settings = []\<rparr>"

definition cy_hss_receive_counter :: reg_block where
  "cy_hss_receive_counter =
     \<lparr>rb_regs = [(''HSS_RX_CTR_REG'', 0xC07A, ReadWrite)], rb_also = [],
     rb_bits = [(''HSS_RX_CTR'', 0x03FF)], rb_masks = [], rb_settings = []\<rparr>"

definition cy_hss_transmit_address :: reg_block where
  "cy_hss_transmit_address =
     \<lparr>rb_regs = [(''HSS_TX_ADDR_REG'', 0xC07C, Unstated)], rb_also = [], rb_bits = [], rb_masks = [],
     rb_settings = []\<rparr>"

definition cy_hss_transmit_counter :: reg_block where
  "cy_hss_transmit_counter =
     \<lparr>rb_regs = [(''HSS_TX_CTR_REG'', 0xC07E, ReadWrite)], rb_also = [],
     rb_bits = [(''HSS_TX_CTR'', 0x03FF)], rb_masks = [], rb_settings = []\<rparr>"

definition cy_spi_configuration :: reg_block where
  "cy_spi_configuration =
     \<lparr>rb_regs = [(''SPI_CFG_REG'', 0xC0C8, ReadWrite)], rb_also = [],
     rb_bits = [(''c3WIRE_EN'', 0x8000), (''PHASE_SEL'', 0x0400), (''SCK_POL_SEL'', 0x2000),
         (''SCALE_SEL'', 0x1E00), (''MSTR_ACTIVE_EN'', 0x0080), (''MSTR_EN'', 0x0040), (''SS_EN'', 0x0020),
         (''SS_DLY_SEL'', 0x001F)], rb_masks = [],
     rb_settings = [(''SPI_SCALE_1E'', 0x1E00), (''SPI_SCALE_1C'', 0x1C00), (''SPI_SCALE_1A'', 0x1A00),
         (''SPI_SCALE_18'', 0x1800), (''SPI_SCALE_16'', 0x1600), (''SPI_SCALE_14'', 0x1400),
         (''SPI_SCALE_12'', 0x1200), (''SPI_SCALE_10'', 0x1000), (''SPI_SCALE_0E'', 0x0E00),
         (''SPI_SCALE_0C'', 0x0C00), (''SPI_SCALE_0A'', 0x0A00), (''SPI_SCALE_08'', 0x0800),
         (''SPI_SCALE_06'', 0x0600), (''SPI_SCALE_04'', 0x0400), (''SPI_SCALE_02'', 0x0200),
         (''SPI_SCALE_00'', 0x0000)]\<rparr>"

definition cy_spi_control :: reg_block where
  "cy_spi_control =
     \<lparr>rb_regs = [(''SPI_CTL_REG'', 0xC0CA, ReadWrite)], rb_also = [],
     rb_bits = [(''SCK_STROBE'', 0x8000), (''FIFO_INIT'', 0x4000), (''BYTE_MODE'', 0x2000),
         (''FULL_DUPLEX'', 0x1000), (''SS_MANUAL'', 0x0800), (''READ_EN'', 0x0400),
         (''SPI_TX_RDY'', 0x0200), (''RX_DATA_RDY'', 0x0100), (''TX_EMPTY'', 0x0080),
         (''RX_FULL'', 0x0020), (''TX_BIT_LEN'', 0x0031), (''RX_BIT_LEN'', 0x0007)],
     rb_masks = [], rb_settings = []\<rparr>"

definition cy_spi_interrupt_enable :: reg_block where
  "cy_spi_interrupt_enable =
     \<lparr>rb_regs = [(''SPI_IRQ_EN_REG'', 0xC0CC, ReadWrite)], rb_also = [],
     rb_bits = [(''SPI_RX_IRQ_EN'', 0x0004), (''SPI_TX_IRQ_EN'', 0x0002), (''SPI_XFR_IRQ_EN'', 0x0001)],
     rb_masks = [], rb_settings = []\<rparr>"

definition cy_spi_status :: reg_block where
  "cy_spi_status =
     \<lparr>rb_regs = [(''SPI_STAT_REG'', 0xC0CE, ReadOnly)], rb_also = [],
     rb_bits = [(''SPI_FIFO_ERROR_FLG'', 0x0100), (''SPI_RX_IRQ_FLG'', 0x0004), (''SPI_TX_IRQ_FLG'', 0x0002),
         (''SPI_XFR_IRQ_FLG'', 0x0001)], rb_masks = [], rb_settings = []\<rparr>"

definition cy_spi_interrupt_clear :: reg_block where
  "cy_spi_interrupt_clear =
     \<lparr>rb_regs = [(''SPI_IRQ_CLR_REG'', 0xC0D0, WriteOnly)], rb_also = [],
     rb_bits = [(''SPI_TX_IRQ_CLR'', 0x0002), (''SPI_XFR_IRQ_CLR'', 0x0001)], rb_masks = [],
     rb_settings = []\<rparr>"

definition cy_spi_crc_control :: reg_block where
  "cy_spi_crc_control =
     \<lparr>rb_regs = [(''SPI_CRC_CTL_REG'', 0xC0D2, ReadWrite)], rb_also = [],
     rb_bits = [(''CRC_MODE'', 0xC000), (''CRC_EN'', 0x2000), (''CRC_CLR'', 0x1000), (''RX_CRC'', 0x0800),
         (''ONE_IN_CRC'', 0x0400), (''ZERO_IN_CRC'', 0x0200)], rb_masks = [],
     rb_settings = [(''POLYNOMIAL_3'', 0x0003), (''POLYNOMIAL_2'', 0x0002), (''POLYNOMIAL_1'', 0x0001),
         (''POLYNOMIAL_0'', 0x0000)]\<rparr>"

definition cy_spi_crc_value :: reg_block where
  "cy_spi_crc_value =
     \<lparr>rb_regs = [(''SPI_CRC_VALUE_REG'', 0xC0D4, ReadWrite)], rb_also = [], rb_bits = [],
     rb_masks = [], rb_settings = []\<rparr>"

definition cy_spi_data :: reg_block where
  "cy_spi_data =
     \<lparr>rb_regs = [(''SPI_DATA_REG'', 0xC0D6, ReadWrite)], rb_also = [],
     rb_bits = [(''SPI_DATA'', 0x00FF)], rb_masks = [], rb_settings = []\<rparr>"

definition cy_spi_transmit_address :: reg_block where
  "cy_spi_transmit_address =
     \<lparr>rb_regs = [(''SPI_TX_ADDR_REG'', 0xC0D8, ReadWrite)], rb_also = [], rb_bits = [], rb_masks = [],
     rb_settings = []\<rparr>"

definition cy_spi_transmit_count :: reg_block where
  "cy_spi_transmit_count =
     \<lparr>rb_regs = [(''SPI_TX_CNT_REG'', 0xC0DA, ReadWrite)], rb_also = [],
     rb_bits = [(''SPI_TX_CNT'', 0x07FF)], rb_masks = [], rb_settings = []\<rparr>"

definition cy_spi_receive_address :: reg_block where
  "cy_spi_receive_address =
     \<lparr>rb_regs = [(''SPI_RX_ADDR_REG'', 0xC0DC, ReadWrite)], rb_also = [], rb_bits = [], rb_masks = [],
     rb_settings = []\<rparr>"

definition cy_spi_receive_count :: reg_block where
  "cy_spi_receive_count =
     \<lparr>rb_regs = [(''SPI_RX_CNT_REG'', 0xC0DE, ReadWrite)], rb_also = [],
     rb_bits = [(''SPI_RX_CNT'', 0x07FF)], rb_masks = [], rb_settings = []\<rparr>"

definition cy_uart_control :: reg_block where
  "cy_uart_control =
     \<lparr>rb_regs = [(''UART_CTL_REG'', 0xC0E0, ReadWrite)],
     rb_also = [(''UART_CNTL'', 0xC0E0)],
     rb_bits = [(''UART_SCALE_SEL'', 0x0010), (''UART_BAUD_SEL'', 0x000E), (''UART_EN'', 0x0001)],
     rb_masks = [],
     rb_settings = [(''UART_RX_BUFF_FULL'', 0x0002), (''UART_7K2'', 0x000F), (''UART_9K6'', 0x000E),
         (''UART_14K4'', 0x000C), (''UART_19K2'', 0x000D), (''UART_28K8'', 0x000B),
         (''UART_38K4'', 0x000A), (''UART_57K6'', 0x0009), (''UART_115K2'', 0x0008)]\<rparr>"

definition cy_uart_status :: reg_block where
  "cy_uart_status =
     \<lparr>rb_regs = [(''UART_STAT_REG'', 0xC0E2, ReadOnly)],
     rb_also = [(''UART_STATUS'', 0xC0E2)],
     rb_bits = [(''UART_RX_FULL'', 0x0002), (''UART_TX_EMPTY'', 0x0001)], rb_masks = [],
     rb_settings = []\<rparr>"

definition cy_uart_data :: reg_block where
  "cy_uart_data =
     \<lparr>rb_regs = [(''UART_DATA_REG'', 0xC0E4, ReadWrite)],
     rb_also = [(''UART_RX_REG'', 0xC0E4), (''UART_TX_REG'', 0xC0E4)],
     rb_bits = [(''UART_DATA'', 0x00FF)], rb_masks = [], rb_settings = []\<rparr>"

definition cy_pwm_control :: reg_block where
  "cy_pwm_control =
     \<lparr>rb_regs = [(''PWM_CTL_REG'', 0xC0E6, ReadWrite)], rb_also = [],
     rb_bits = [(''PWM_EN'', 0x8000), (''PWM_PRESCALE_SEL'', 0x0E00), (''PWM_MODE_SEL'', 0x0100),
         (''PWM3_POL_SEL'', 0x0080), (''PWM2_POL_SEL'', 0x0040), (''PWM1_POL_SEL'', 0x0020),
         (''PWM0_POL_SEL'', 0x0010), (''PWM3_EN'', 0x0008), (''PWM2_EN'', 0x0004), (''PWM1_EN'', 0x0002),
         (''PWM0_EN'', 0x0001)], rb_masks = [],
     rb_settings = [(''PWM_5K9'', 0x0007), (''PWM_23K5'', 0x0006), (''PWM_93K8'', 0x0005), (''PWM_375K'', 0x0004),
         (''PWM_1M5'', 0x0003), (''PWM_6M'', 0x0002), (''PWM_24M'', 0x0001), (''PWM_48M'', 0x0000)]\<rparr>"

definition cy_pwm_maximum_count :: reg_block where
  "cy_pwm_maximum_count =
     \<lparr>rb_regs = [(''PWM_MAX_CNT_REG'', 0xC0E8, ReadWrite)], rb_also = [],
     rb_bits = [(''PWM_MAX_CNT'', 0x03FF)], rb_masks = [], rb_settings = []\<rparr>"

definition cy_pwm_n_start :: reg_block where
  "cy_pwm_n_start =
     \<lparr>rb_regs = [(''PWM0_START_REG'', 0xC0EA, ReadWrite), (''PWM1_START_REG'', 0xC0EE, ReadWrite),
         (''PWM2_START_REG'', 0xC0F2, ReadWrite), (''PWM3_START_REG'', 0xC0F6, ReadWrite)],
     rb_also = [],
     rb_bits = [(''PWM_START_CNT'', 0x03FF)], rb_masks = [], rb_settings = []\<rparr>"

definition cy_pwm_n_stop :: reg_block where
  "cy_pwm_n_stop =
     \<lparr>rb_regs = [(''PWM0_STOP_REG'', 0xC0EC, ReadWrite), (''PWM1_STOP_REG'', 0xC0F0, ReadWrite),
         (''PWM2_STOP_REG'', 0xC0F4, ReadWrite), (''PWM3_STOP_REG'', 0xC0F8, ReadWrite)],
     rb_also = [],
     rb_bits = [(''PWM_STOP_CNT'', 0x03FF)], rb_masks = [], rb_settings = []\<rparr>"

definition cy_pwm_cycle_count :: reg_block where
  "cy_pwm_cycle_count =
     \<lparr>rb_regs = [(''PWM_CYCLE_CNT_REG'', 0xC0FA, ReadWrite)], rb_also = [], rb_bits = [],
     rb_masks = [], rb_settings = []\<rparr>"

definition cy_hpi_mailbox :: reg_block where
  "cy_hpi_mailbox =
     \<lparr>rb_regs = [(''HPI_MBX_REG'', 0xC0C4, ReadWrite)], rb_also = [], rb_bits = [], rb_masks = [],
     rb_settings = []\<rparr>"

definition cy_hpi_breakpoint :: reg_block where
  "cy_hpi_breakpoint =
     \<lparr>rb_regs = [(''HPI_BKPT_REG'', 0x0140, ReadOnly)], rb_also = [], rb_bits = [], rb_masks = [],
     rb_settings = []\<rparr>"

definition cy_hpi_irq_routing :: reg_block where
  "cy_hpi_irq_routing =
     \<lparr>rb_regs = [(''HPI_IRQ_ROUTING_REG'', 0x0142, ReadOnly)],
     rb_also = [(''HPI_SIE_IE'', 0x0142)],
     rb_bits = [(''VBUS_TO_HPI_EN'', 0x8000), (''ID_TO_HPI_EN'', 0x4000), (''SOFEOP2_TO_CPU_EN'', 0x1000),
         (''SOFEOP2_TO_HPI_EN'', 0x2000), (''SOFEOP1_TO_CPU_EN'', 0x0400), (''SOFEOP1_TO_HPI_EN'', 0x0800),
         (''RST2_TO_HPI_EN'', 0x0200), (''HPI_SWAP_1_EN'', 0x0100), (''RESUME2_TO_HPI_EN'', 0x0080),
         (''RESUME1_TO_HPI_EN'', 0x0040), (''DONE2_TO_HPI_EN'', 0x0008), (''DONE1_TO_HPI_EN'', 0x0004),
         (''RST1_TO_HPI_EN'', 0x0002), (''HPI_SWAP_0_EN'', 0x0001)],
     rb_masks = [(''HOST2_SOEOP_TO_HPI_EN'', 0x1000), (''HOST1_SOFEOP_TO_HPI_EN'', 0x0400),
         (''DEVICE2_SOFEOP_TO_HPI_EN'', 0x1000), (''DEVICE1_SOFEOP_TO_HPI_EN'', 0x0400),
         (''HOST2_SOFEOP_TO_CPU_EN'', 0x2000), (''HOST1_SOFEOP_TO_CPU_EN'', 0x0800),
         (''DEVICE2_SOFEOP_TO_CPU_EN'', 0x2000), (''DEVICE1_SOFEOP_TO_CPU_EN'', 0x0800),
         (''HOST2_RESUME_TO_HPI_EN'', 0x0080), (''HOST1_RESUME_TO_HPI_EN'', 0x0040),
         (''DEVICE2_RESUME_TO_HPI_EN'', 0x0080), (''DEVICE1_RESUME_TO_HPI_EN'', 0x0040),
         (''HOST2_DONE_TO_HPI_EN'', 0x0008), (''HOST1_DONE_TO_HPI_EN'', 0x0004),
         (''DEVICE2_DONE_TO_HPI_EN'', 0x0008), (''DEVICE1_DONE_TO_HPI_EN'', 0x0004),
         (''HOST2_RESET_TO_HPI_EN'', 0x0200), (''HOST1_RESET_TO_HPI_EN'', 0x0002),
         (''DEVICE2_RESET_TO_HPI_EN'', 0x0200), (''DEVICE1_RESET_TO_HPI_EN'', 0x0002)],
     rb_settings = []\<rparr>"

definition hpi_messages :: names where
  "hpi_messages =
     [(''HPI_SIE1_MSG_ADR'', 0x0144), (''HPI_RESERVED'', 0x0146), (''HPI_SIE2_MSG_ADR'', 0x0148),
      (''HPI_RGN'', 0xC0C0)]"

definition hpi_ports :: names where
  "hpi_ports =
     [(''HPI_DATA_PORT'', 0x0000), (''HPI_ADDR_PORT'', 0x0002), (''HPI_MBX_PORT'', 0x0001),
      (''HPI_STAT_PORT'', 0x0003)]"

definition cy_hpi_status :: reg_block where
  "cy_hpi_status =
     \<lparr>rb_regs = [], rb_also = [],
     rb_bits = [(''VBUS_FLG'', 0x8000), (''ID_FLG'', 0x4000), (''SOFEOP2_FLG'', 0x1000),
         (''SOFEOP1_FLG'', 0x0400), (''RST2_FLG'', 0x0200), (''MBX_IN_FLG'', 0x0100),
         (''RESUME2_FLG'', 0x0080), (''RESUME1_FLG'', 0x0040), (''DONE2_FLG'', 0x0008),
         (''DONE1_FLG'', 0x0004), (''RST1_FLG'', 0x0002), (''MBX_OUT_FLG'', 0x0001)],
     rb_masks = [(''HOST2_SOF_EOP_FLG'', 0x1000), (''HOST1_SOF_EOP_FLG'', 0x0400), (''DEV2_SOF_EOP_FLG'', 0x1000),
         (''DEV1_SOF_EOP_FLG'', 0x0400), (''HOST2_RST_FLG'', 0x0200), (''HOST1_RST_FLG'', 0x0002),
         (''DEV2_RST_FLG'', 0x0200), (''DEV1_RST_FLG'', 0x0002), (''HOST2_RESUME_FLG'', 0x0080),
         (''HOST1_RESUME_FLG'', 0x0040), (''DEV2_RESUME_FLG'', 0x0080), (''DEV1_RESUME_FLG'', 0x0040),
         (''HOST2_DONE_FLG'', 0x0008), (''HOST1_DONE_FLG'', 0x0004), (''DEV2_DONE_FLG'', 0x0008),
         (''DEV1_DONE_FLG'', 0x0004)], rb_settings = []\<rparr>"

definition chip_registers :: "reg_block list" where
  "chip_registers =
     [cy_cpu_flags, cy_bank, cy_hardware_revision, cy_interrupt_enable, cy_cpu_speed, cy_power_control,
      cy_breakpoint, cy_usb_diagnostic, cy_memory_diagnostic, cy_extended_page_n_map, cy_dram_control,
      cy_external_memory_control, cy_watchdog_timer, cy_timer_n, cy_usb_n_control,
      cy_host_n_interrupt_enable, cy_host_n_status, cy_host_n_control, cy_host_n_address, cy_host_n_count,
      cy_host_n_pid, cy_host_n_endpoint_status, cy_host_n_device_address, cy_host_n_count_result,
      cy_host_n_sofeop_count, cy_host_n_sofeop_counter, cy_host_n_frame, cy_device_n_port_select,
      cy_device_n_interrupt_enable, cy_device_n_status, cy_device_n_address, cy_device_n_frame_number,
      cy_device_n_endpoint_n_control, cy_device_n_endpoint_n_address, cy_device_n_endpoint_n_count,
      cy_device_n_endpoint_n_status, cy_device_n_endpoint_n_count_result, cy_otg_control, cy_gpio_control,
      cy_gpio_n, cy_epp_control, cy_epp_data, cy_epp_buffer_read, cy_epp_address, cy_ide_mode,
      cy_ide_start_address, cy_ide_stop_address, cy_ide_control, cy_ide_pio_port, cy_mdma_mode,
      cy_mdma_start_address, cy_mdma_stop_address, cy_mdma_control, cy_hss_control, cy_hss_baud_rate,
      cy_hss_tx_gap, cy_hss_data, cy_hss_receive_address, cy_hss_receive_counter, cy_hss_transmit_address,
      cy_hss_transmit_counter, cy_spi_configuration, cy_spi_control, cy_spi_interrupt_enable,
      cy_spi_status, cy_spi_interrupt_clear, cy_spi_crc_control, cy_spi_crc_value, cy_spi_data,
      cy_spi_transmit_address, cy_spi_transmit_count, cy_spi_receive_address, cy_spi_receive_count,
      cy_uart_control, cy_uart_status, cy_uart_data, cy_pwm_control, cy_pwm_maximum_count, cy_pwm_n_start,
      cy_pwm_n_stop, cy_pwm_cycle_count, cy_hpi_mailbox, cy_hpi_breakpoint, cy_hpi_irq_routing,
      cy_hpi_status]"

section \<open>The memory map, with positions and sizes\<close>

definition map_interrupts :: "desc list" where
  "map_interrupts =
     [Place ''GIO_IntCtl_MSK'' 0x0000, Flag ''GIO_IntCtl_IRQ0En'' 0 (Some 0x0001),
      Flag ''GIO_IntCtl_IRQ0Pol'' 1 (Some 0x0002), Flag ''GIO_IntCtl_IRQ1En'' 2 (Some 0x0004),
      Flag ''GIO_IntCtl_IRQ1Pol'' 3 (Some 0x0008), Flag ''GIO_IntCtl_SX'' 4 (Some 0x0010),
      Flag ''GIO_IntCtl_SG'' 5 (Some 0x0020), Flag ''GIO_IntCtl_HX'' 6 (Some 0x0040),
      Flag ''GIO_IntCtl_HG'' 7 (Some 0x0080), Span ''GIO_IntCtl_Mode'' 8 3,
      Choice ''GIO_IntCtl_Mode_GPIO'' 0 (Some 0x0000), Choice ''GIO_IntCtl_Mode_Flash'' 1 (Some 0x0100),
      Choice ''GIO_IntCtl_Mode_EPP'' 2 (Some 0x0200), Choice ''GIO_IntCtl_Mode_SLV'' 3 (Some 0x0300),
      Choice ''GIO_IntCtl_Mode_IDE'' 4 (Some 0x0400), Choice ''GIO_IntCtl_Mode_HPI'' 5 (Some 0x0500),
      Choice ''GIO_IntCtl_Mode_SCAN'' 6 (Some 0x0600), Choice ''GIO_IntCtl_Mode_MDiag'' 7 (Some 0x0700),
      Span ''GIO_IntCtl_Bond'' 11 2, Choice ''GIO_IntCtl_Bond_Embed'' 0 (Some 0x0000),
      Choice ''GIO_IntCtl_Bond_Flash'' 1 (Some 0x0800), Choice ''GIO_IntCtl_Bond_Mobile'' 2 (Some 0x1000),
      Flag ''GIO_IntCtl_MD'' 15 None, Flag ''INT_Enable_T0'' 0 (Some 0x0001),
      Flag ''INT_Enable_T1'' 1 (Some 0x0002), Flag ''INT_Enable_GP'' 2 (Some 0x0004),
      Flag ''INT_Enable_UART'' 3 (Some 0x0008), Flag ''INT_Enable_FDMA'' 4 (Some 0x0010),
      Flag ''INT_Enable_MBX'' 6 (Some 0x0040), Flag ''INT_Enable_HSS'' 7 (Some 0x0080),
      Flag ''INT_Enable_SIE1'' 8 (Some 0x0100), Flag ''INT_Enable_SIE2'' 9 (Some 0x0200),
      Flag ''INT_Enable_SPI'' 11 (Some 0x0800)]"

definition map_hss :: "desc list" where
  "map_hss =
     [Place ''HSS_RGN'' 0xC070, Place ''HSS_STS_REG'' 0xC070, Place ''HSS_Ctl_ADR'' 0xC070,
      Place ''HSS_Ctl_MSK'' 0x0000, Flag ''HSS_Ctl_RxRst'' 2 (Some 0x0004),
      Flag ''HSS_Ctl_PacketMode'' 3 (Some 0x0008), Flag ''HSS_Ctl_OneStop'' 5 (Some 0x0020),
      Flag ''HSS_Ctl_RBkDoneClr'' 6 (Some 0x0040), Flag ''HSS_Ctl_TBkDoneClr'' 7 (Some 0x0080),
      Flag ''HSS_Ctl_DoneIntrEnab'' 8 (Some 0x0100), Flag ''HSS_Ctl_RxIntrEnab'' 9 (Some 0x0200),
      Flag ''HSS_Ctl_CTSenab'' 10 (Some 0x0400), Flag ''HSS_Ctl_XOFFenab'' 11 (Some 0x0800),
      Flag ''HSS_Ctl_CTSpolarity'' 13 (Some 0x2000), Flag ''HSS_Ctl_RTSpolarity'' 14 (Some 0x4000),
      Flag ''HSS_Ctl_Enable'' 15 (Some 0x8000), Flag ''HSS_Ctl_RxRdy'' 0 (Some 0x0001),
      Flag ''HSS_Ctl_RxPktRdy'' 1 (Some 0x0002), Flag ''HSS_Ctl_RxErr'' 2 (Some 0x0004),
      Flag ''HSS_Ctl_TxRdy'' 4 (Some 0x0010), Flag ''HSS_Ctl_RBkDone'' 6 (Some 0x0040),
      Flag ''HSS_Ctl_TBkDone'' 7 (Some 0x0080), Flag ''HSS_Ctl_XOFFstate'' 12 None,
      Mask ''HSS_Ctl_OFFstate'' 0x1000, Place ''HSS_BAUDRATE_REG'' 0xC072,
      Place ''HSS_BAUDRate_ADR'' 0xC072, Place ''HSS_BAUDRate_MSK'' 0x0000,
      Span ''HSS_BAUDRate_Rate'' 0 13, Place ''HSS_GAP_REG'' 0xC074, Place ''HSS_GAP_ADR'' 0xC074,
      Place ''HSS_GAP_MSK'' 0x0000, Span ''HSS_GAP_GAP'' 0 16, Place ''HSS_RX_DATA_REG'' 0xC076,
      Place ''HSS_TX_DATA_REG'' 0xC076, Place ''HSS_Data_ADR'' 0xC076, Place ''HSS_Data_MSK'' 0x0000,
      Span ''HSS_Data_Data'' 0 8, Place ''HSS_RX_BLK_ADDR_REG'' 0xC078, Place ''HSS_RxBlkAddr_ADR'' 0xC078,
      Place ''HSS_RxBlkAddr_MSK'' 0x0000, Span ''HSS_RxBlkAddr_Addr'' 0 16,
      Place ''HSS_RX_BLK_LEN_REG'' 0xC07A, Place ''HSS_RxBlkLen_ADR'' 0xC07A,
      Place ''HSS_RxBlkLen_MSK'' 0x0000, Span ''HSS_RxBlkLen'' 0 10, Place ''HSS_TX_BLK_ADDR_REG'' 0xC07C,
      Place ''HSS_TxBlkAddr_ADR'' 0xC07C, Place ''HSS_TxBlkAddr_MSK'' 0x0000,
      Span ''HSS_TxBlkAddr_Addr'' 0 16, Place ''HSS_TX_BLK_LEN_REG'' 0xC07E,
      Place ''HSS_TxBlkLen_ADR'' 0xC07E, Place ''HSS_TxBlkLen_MSK'' 0x0000, Span ''HSS_TxBlkLen'' 0 10]"

definition map_spi_config :: "desc list" where
  "map_spi_config =
     [Place ''SPI_RGN'' 0xC0C0, Place ''SPI_Cfg_AFE'' 0x0008, Place ''SPI_Cfg_ADR'' 0xC0C8,
      Flag ''SPI_Cfg_3WireNot4'' 15 (Some 0x8000), Flag ''SPI_Cfg_CPHA'' 14 (Some 0x4000),
      Flag ''SPI_Cfg_CPOL'' 13 (Some 0x2000), Span ''SPI_Cfg_Sel'' 9 4,
      Choice ''SPI_Cfg_Sel_250'' 11 (Some 0x1600), Choice ''SPI_Cfg_Sel_375'' 10 (Some 0x1400),
      Choice ''SPI_Cfg_Sel_500'' 9 (Some 0x1200), Choice ''SPI_Cfg_Sel_750'' 8 (Some 0x1000),
      Choice ''SPI_Cfg_Sel_1000'' 7 (Some 0x0E00), Choice ''SPI_Cfg_Sel_1500'' 6 (Some 0x0C00),
      Choice ''SPI_Cfg_Sel_2M'' 5 (Some 0x0A00), Choice ''SPI_Cfg_Sel_3M'' 4 (Some 0x0800),
      Choice ''SPI_Cfg_Sel_4M'' 3 (Some 0x0600), Choice ''SPI_Cfg_Sel_6M'' 2 (Some 0x0400),
      Choice ''SPI_Cfg_Sel_8M'' 1 (Some 0x0200), Choice ''SPI_Cfg_Sel_12M'' 0 (Some 0x0000),
      Flag ''SPI_Cfg_RedLine'' 8 (Some 0x0100), Flag ''SPI_Cfg_MstrActive'' 7 (Some 0x0080),
      Flag ''SPI_Cfg_MstrNotSlv'' 6 (Some 0x0040), Flag ''SPI_Cfg_SSEn'' 5 (Some 0x0020),
      Span ''SPI_Cfg_SSDly'' 0 5, Choice ''SPI_Cfg_SSDly_Manual'' 0 None,
      Choice ''SPI_Cfg_SSDly_2'' 2 (Some 0x0002)]"

definition map_spi_control :: "desc list" where
  "map_spi_control =
     [Place ''SPI_Ctl_AFE'' 0x000A, Place ''SPI_Ctl_ADR'' 0xC0CA,
      Flag ''SPI_Ctl_SCKStrobe'' 15 (Some 0x8000), Flag ''SPI_Ctl_FIFOInit'' 14 (Some 0x4000),
      Flag ''SPI_Ctl_ByteMode'' 13 (Some 0x2000), Flag ''SPI_Ctl_FullDuplex'' 12 (Some 0x1000),
      Flag ''SPI_Ctl_SSManVal'' 11 (Some 0x0800), Flag ''SPI_Ctl_DoRead'' 10 (Some 0x0400),
      Flag ''SPI_Ctl_TxRdy'' 9 (Some 0x0200), Flag ''SPI_Ctl_RxDatRdy'' 8 (Some 0x0100),
      Flag ''SPI_Ctl_TxEmpty'' 7 (Some 0x0080), Flag ''SPI_Ctl_RxFull'' 6 (Some 0x0040),
      Span ''SPI_Ctl_TxBitLen'' 3 3, Choice ''SPI_Ctl_TxBitLen_FullByte'' 0 (Some 0x0000),
      Span ''SPI_Ctl_RxBitLen'' 0 3, Choice ''SPI_Ctl_RxBitLen_FullByte'' 0 (Some 0x0000)]"

definition map_spi_interrupts :: "desc list" where
  "map_spi_interrupts =
     [Flag ''SPI_Int_XfrBk'' 0 None, Flag ''SPI_Int_Tx'' 1 None, Flag ''SPI_Int_Rx'' 2 None,
      Flag ''SPI_Int_FIFOErr'' 7 None, Place ''SPI_IntEnab_AFE'' 0x000C, Place ''SPI_IntEnab_ADR'' 0xC0CC,
      Mask ''SPI_IntEnab_Rx'' 0x0004, Mask ''SPI_IntEnab_Tx'' 0x0002, Mask ''SPI_IntEnab_XfrBk'' 0x0001,
      Place ''SPI_IntVal_AFE'' 0x000E, Place ''SPI_IntVal_ADR'' 0xC0CE, Mask ''SPI_IntVal_FIFOErr'' 0x0080,
      Mask ''SPI_IntVal_Rx'' 0x0004, Mask ''SPI_IntVal_Tx'' 0x0002, Mask ''SPI_IntVal_XfrBk'' 0x0001,
      Place ''SPI_IntClr_AFE'' 0x0010, Place ''SPI_IntClr_ADR'' 0xC0D0, Mask ''SPI_IntClr_Tx'' 0x0002,
      Mask ''SPI_IntClr_XfrBk'' 0x0001]"

definition map_spi_crc :: "desc list" where
  "map_spi_crc =
     [Place ''SPI_CRCCtl_AFE'' 0x0012, Place ''SPI_CRCCtl_ADR'' 0xC0D2, Span ''SPI_CRCCtl_Mode'' 14 2,
      Choice ''SPI_CRCCtl_Mode_MMC'' 0 (Some 0x0000), Choice ''SPI_CRCCtl_Mode_CRC7'' 1 (Some 0x4000),
      Choice ''SPI_CRCCtl_Mode_MS'' 2 (Some 0x8000), Choice ''SPI_CRCCtl_Mode_Res'' 3 (Some 0xC000),
      Flag ''SPI_CRCCtl_Active'' 13 (Some 0x2000), Flag ''SPI_CRCCtl_Clear'' 12 (Some 0x1000),
      Flag ''SPI_CRCCtl_RxNotTx'' 11 (Some 0x0800), Flag ''SPI_CRCCtl_OR'' 10 (Some 0x0400),
      Flag ''SPI_CRCCtl_NAND'' 9 (Some 0x0200), Place ''SPI_CRCVal_AFE'' 0x0014,
      Place ''SPI_CRCVal_ADR'' 0xC0D4, Span ''SPI_CRCVal_Port'' 0 16]"

definition map_spi_data :: "desc list" where
  "map_spi_data =
     [Place ''SPI_TxRxData_AFE'' 0x0016, Place ''SPI_TxRxData_ADR'' 0xC0D6, Span ''SPI_TxRxData_Port'' 0 8,
      Place ''SPI_TxBlk_AFE'' 0x0018, Place ''SPI_TxBlk_ADR'' 0xC0D8, Span ''SPI_TxBlk_Base'' 0 16,
      Place ''SPI_TxLen_AFE'' 0x001A, Place ''SPI_TxLen_ADR'' 0xC0DA, Span ''SPI_TxLen_Bytes'' 0 16,
      Place ''SPI_RxBlk_AFE'' 0x001C, Place ''SPI_RxBlk_ADR'' 0xC0DC, Span ''SPI_RxBlk_Base'' 0 16,
      Place ''SPI_RxLen_AFE'' 0x001E, Place ''SPI_RxLen_ADR'' 0xC0DE, Span ''SPI_RxLen_Bytes'' 0 16]"

definition map_ide :: "desc list" where
  "map_ide =
     [Place ''IDE_RGN'' 0xC050, Place ''IDE_Data_ADR'' 0xC050, Place ''IDE_Data_MSK'' 0x0000,
      Span ''IDE_Data_Data'' 0 16, Place ''IDE_FeaturesStat_ADR'' 0xC052,
      Place ''IDE_FeaturesStat_MSK'' 0x0000, Span ''IDE_FeaturesStat_Data'' 0 8,
      Place ''IDE_SectCount_ADR'' 0xC054, Place ''IDE_SectCount_MSK'' 0x0000,
      Span ''IDE_SectCount_Count'' 0 8, Place ''IDE_SectorNum_ADR'' 0xC056,
      Place ''IDE_SectorNum_MSK'' 0x0000, Span ''IDE_SectorNum_Count'' 0 8,
      Place ''IDE_CylLow_ADR'' 0xC058, Place ''IDE_CylLow_MSK'' 0x0000, Span ''IDE_CylLow_Cyl'' 0 8,
      Place ''IDE_CylHigh_ADR'' 0xC05A, Place ''IDE_CylHigh_MSK'' 0x0000, Span ''IDE_CylHigh_Cyl'' 0 8,
      Place ''IDE_DrvHead_ADR'' 0xC05C, Place ''IDE_DrvHead_MSK'' 0x0000, Span ''IDE_DrvHead_Reg'' 0 8,
      Place ''IDE_CmdStatus_ADR'' 0xC05E, Place ''IDE_CmdStatus_MSK'' 0x0000,
      Span ''IDE_CmdStatus_Reg'' 0 8, Place ''IDE_AltStat_ADR'' 0xC06C, Place ''IDE_AltStat_MSK'' 0x0000,
      Span ''IDE_AltStat_Reg'' 0 8]"

definition map_hpi :: "desc list" where
  "map_hpi =
     [Place ''HPI_RGN'' 0xC0C0, Place ''HPI_DMACtl_ADR'' 0xC0C0, Place ''HPI_DMACtl_MSK'' 0x0000,
      Flag ''HPI_DMACtl_D0'' 0 None, Flag ''HPI_DMACtl_D1'' 1 None, Flag ''HPI_DMACtl_DREQ'' 2 None,
      Place ''HPI_MAILBOX_REG'' 0xC0C6, Place ''HPI_MailBox_ADR'' 0xC0C6, Place ''HPI_MailBox_MSK'' 0x0000]"

section \<open>Offsets of the device side\<close>

definition sie_offsets :: names where
  "sie_offsets =
     [(''O_SIE_CTRL0'', 0x0000), (''O_SIE_BASE'', 0x0002), (''O_SIE_LENGTH'', 0x0004),
      (''O_SIE_PORT_SEL'', 0x0004), (''O_SIE_PID'', 0x0006), (''O_SIE_CTRL5'', 0x000A),
      (''O_SIE_INT_EN'', 0x000C), (''O_SIE_USB_ADDR'', 0x000E), (''O_SIE_INT_STATUS'', 0x0010),
      (''O_SIE_SOF_LO'', 0x0012), (''O_SIE_PORT_SPD_SEL'', 0x0012), (''O_SIE_SOF_HI'', 0x0014)]"

definition sie_bases :: names where
  "sie_bases =
     [(''O_EP_BANK'', 0x0010), (''NUM_EP_PER_SIE'', 0x0008), (''O_SIE1_EP_BASE'', 0x0000),
      (''O_SIE2_EP_BASE'', 0x0080), (''SIE_EP_BASE'', 0x0200), (''SIE1_EP_BASE'', 0x0200),
      (''SIE2_EP_BASE'', 0x0280)]"

definition endpoint_banks :: names where
  "endpoint_banks =
     [(''O_EP0_BANK'', 0x0000), (''O_EP1_BANK'', 0x0010), (''O_EP2_BANK'', 0x0020),
      (''O_EP3_BANK'', 0x0030), (''O_EP4_BANK'', 0x0040), (''O_EP5_BANK'', 0x0050),
      (''O_EP6_BANK'', 0x0060), (''O_EP7_BANK'', 0x0070)]"

definition endpoint_bases :: names where
  "endpoint_bases =
     [(''SIE1_EP0_BASE'', 0x0200), (''SIE1_EP1_BASE'', 0x0210), (''SIE1_EP2_BASE'', 0x0220),
      (''SIE1_EP3_BASE'', 0x0230), (''SIE1_EP4_BASE'', 0x0240), (''SIE1_EP5_BASE'', 0x0250),
      (''SIE1_EP6_BASE'', 0x0260), (''SIE1_EP7_BASE'', 0x0270), (''SIE2_EP0_BASE'', 0x0280),
      (''SIE2_EP1_BASE'', 0x0290), (''SIE2_EP2_BASE'', 0x02A0), (''SIE2_EP3_BASE'', 0x02B0),
      (''SIE2_EP4_BASE'', 0x02C0), (''SIE2_EP5_BASE'', 0x02D0), (''SIE2_EP6_BASE'', 0x02E0),
      (''SIE2_EP7_BASE'', 0x02F0)]"

definition endpoint_offsets :: names where
  "endpoint_offsets =
     [(''O_EP_CONTROL'', 0x0000), (''O_EP_BASE_ADDR'', 0x0002), (''O_EP_BASE_LENGTH'', 0x0004),
      (''O_EP_PACKET_STAT'', 0x0006), (''O_EP_XFER_COUNT'', 0x0008), (''O_EP_MAX_BYTES'', 0x000A),
      (''O_EP_GF_BYTES_LEFT'', 0x000C), (''O_EP_P_GF'', 0x000E)]"

definition endpoint_masks :: names where
  "endpoint_masks =
     [(''bmEP_CTRL_STICKY'', 0x0080), (''bmEP_CTRL_DATA1'', 0x0040), (''bmEP_CTRL_STALL'', 0x0020),
      (''bmEP_CTRL_ISO'', 0x0010), (''bmEP_CTRL_NDS_B'', 0x0008), (''bmEP_CTRL_DIR_IN'', 0x0004),
      (''bmEP_CTRL_ENB'', 0x0002), (''bmEP_CTRL_ARM'', 0x0001), (''bmEP_CTRL_EP'', 0x0070),
      (''EP_CTRL_OUT'', 0x0000), (''bmEP_PSR_ACK'', 0x0001), (''bmEP_PSR_ERR'', 0x0002),
      (''bmEP_PSR_TO'', 0x0004), (''bmEP_PSR_DAT1'', 0x0008), (''bmEP_PSR_SETUP'', 0x0010),
      (''bmEP_PSR_OVERFLOW'', 0x0020), (''bmEP_PSR_NAK'', 0x0040), (''bmEP_PSR_STALL'', 0x0080),
      (''bmEP_PSR_IN_ERR'', 0x0100), (''bmEP_PSR_OUT_ERR'', 0x0200)]"

section \<open>Requests and descriptors of USB\<close>

definition device_requests :: names where
  "device_requests =
     [(''DR_GET_STATUS'', 0x0000), (''DR_CLEAR_FEATURE'', 0x0001), (''DR_SET_FEATURE'', 0x0003),
      (''DR_SET_ADDRESS'', 0x0005), (''DR_GET_DESCRIPTOR'', 0x0006), (''DR_SET_DESCRIPTOR'', 0x0007),
      (''DR_GET_CONFIG'', 0x0008), (''DR_SET_CONFIG'', 0x0009), (''DR_GET_INTERFACE'', 0x0010),
      (''DR_SET_INTERFACE'', 0x0011)]"

definition request_offsets :: names where
  "request_offsets =
     [(''O_DR_REQTYPE'', 0x0000), (''O_DR_REQ'', 0x0001), (''O_DR_VALUE'', 0x0002),
      (''O_DR_VALUE_LOBYTE'', 0x0002), (''O_DR_VALUE_HIBYTE'', 0x0003), (''O_DR_INDEX'', 0x0004),
      (''O_DR_LEN'', 0x0006)]"

definition descriptor_types :: names where
  "descriptor_types =
     [(''DEVICE'', 0x0001), (''CONFIGURATION'', 0x0002), (''STRING'', 0x0003), (''INTERFACE'', 0x0004),
      (''ENDPOINT'', 0x0005)]"

definition request_types :: names where
  "request_types =
     [(''bmRT_DEVICE2HOST'', 0x0080), (''bmRT_VENDOR_REQ'', 0x0040), (''bmRT_CLASS_REQ'', 0x0020),
      (''bmRT_INTERFACE'', 0x0001), (''bmRT_ENDPOINT'', 0x0002), (''bmRT_RECIPIENT_BITS'', 0x000F),
      (''RT_DEVICE'', 0x0000)]"

definition endpoint_types :: names where
  "endpoint_types =
     [(''EP_TYPE_CONTROL'', 0x0000), (''EP_TYPE_ISO'', 0x0001), (''EP_TYPE_BULK'', 0x0002),
      (''EP_TYPE_INT'', 0x0003)]"

definition descriptor_offsets :: names where
  "descriptor_offsets =
     [(''O_DD_LENGTH'', 0x0000), (''O_DD_TYPE'', 0x0001), (''O_DD_USB_VERSION'', 0x0002),
      (''O_DD_CLASS'', 0x0004), (''O_DD_SUBCLASS'', 0x0005), (''O_DD_PROTOCOL'', 0x0006),
      (''O_DD_EP0_MAX_BYTES'', 0x0007), (''O_DD_VID'', 0x0008), (''O_DD_PID'', 0x000A),
      (''O_DD_DEVICE_VERSION'', 0x000C), (''O_DD_MFR_STRING_IDX'', 0x000E),
      (''O_DD_PRODUCT_STRING_IDX'', 0x000F), (''O_DD_SN'', 0x0010), (''O_DD_NUM_CONFIGS'', 0x0011),
      (''O_CD_LENGTH'', 0x0000), (''O_CD_TYPE'', 0x0001), (''O_CD_TOTAL_LENGTH'', 0x0002),
      (''O_CD_NUM_IFS'', 0x0004), (''O_CD_CONFIG_NUM'', 0x0005), (''O_CD_STRING_IDX'', 0x0006),
      (''O_CD_ATTRIBUTES'', 0x0007), (''O_CD_MAX_POWER'', 0x0008), (''bmCDATTR_RSVD'', 0x001F),
      (''bmCDATTR_RWAKEUP'', 0x0020), (''bmCDATTR_SELF_PWR'', 0x0040), (''bmCDATTR_BUS_PWR'', 0x0080),
      (''O_ID_LENGTH'', 0x0000), (''O_ID_TYPE'', 0x0001), (''O_ID_IF_NUM'', 0x0002),
      (''O_ID_ALT_SETTING'', 0x0003), (''O_ID_NUM_EPS'', 0x0004), (''O_ID_IF_CLASS'', 0x0005),
      (''O_ID_IF_SUBCLASS'', 0x0006), (''O_ID_IF_PROTO'', 0x0007), (''O_ID_STRING_IDX'', 0x0008),
      (''O_ED_LENGTH'', 0x0000), (''O_ED_TYPE'', 0x0001), (''O_ED_ADDRESS'', 0x0002),
      (''O_ED_ATTRIBUTES'', 0x0003), (''O_ED_MAX_BYTES'', 0x0004), (''O_ED_ITERVAL'', 0x0006),
      (''O_SD_LENGTH'', 0x0000), (''O_SD_TYPE'', 0x0001)]"

section \<open>Interrupts\<close>

text \<open>Number and vector; the reserved numbers have no vector.\<close>

definition hardware_interrupts :: "(string \<times> u16 \<times> u16 option) list" where
  "hardware_interrupts =
     [(''TIMER0'', 0, Some 0x0000), (''TIMER1'', 1, Some 0x0002), (''GP_IRQ0'', 2, Some 0x0004),
      (''GP_IRQ1'', 3, Some 0x0006), (''UART_TX'', 4, Some 0x0008), (''UART_RX'', 5, Some 0x000A),
      (''HSS_BLK_DONE'', 6, Some 0x000C), (''HSS_RX_FULL'', 7, Some 0x000E),
      (''IDE_DMA_DONE'', 8, Some 0x0010), (''Reserved9'', 9, None),
      (''HPI_MBOX_RX_FULL'', 10, Some 0x0014), (''HPI_MBOX_TX_EMPTY'', 11, Some 0x0016),
      (''SPI_TX'', 12, Some 0x0018), (''SPI_RX'', 13, Some 0x001A), (''SPI_DMA_DONE'', 14, Some 0x001C),
      (''OTG_ID_VBUS_VALID'', 15, Some 0x001E), (''SIE1_HOST_DONE'', 16, Some 0x0020),
      (''SIE1_HOST_SOF'', 17, Some 0x0022), (''SIE1_HOST_INS_REM'', 18, Some 0x0024),
      (''Reserved19'', 19, None), (''SIE1_SLAVE_RESET'', 20, Some 0x0028),
      (''SIE1_SLAVE_SOF'', 21, Some 0x002A), (''Reserved22'', 22, None), (''Reserved23'', 23, None),
      (''SIE2_HOST_DONE'', 24, Some 0x0030), (''SIE2_HOST_SOF'', 25, Some 0x0032),
      (''SIE2_HOST_INS_REM'', 26, Some 0x0034), (''Reserved27'', 27, None),
      (''SIE2_SLAVE_RESET'', 28, Some 0x0038), (''SIE2_SLAVE_SOF'', 29, Some 0x003A),
      (''Reserved30'', 30, None), (''Reserved31'', 31, None), (''SIE1_EP0'', 32, Some 0x0040),
      (''SIE1_EP1'', 33, Some 0x0042), (''SIE1_EP2'', 34, Some 0x0044), (''SIE1_EP3'', 35, Some 0x0046),
      (''SIE1_EP4'', 36, Some 0x0048), (''SIE1_EP5'', 37, Some 0x004A), (''SIE1_EP6'', 38, Some 0x004C),
      (''SIE1_EP7'', 39, Some 0x004E), (''SIE2_EP0'', 40, Some 0x0050), (''SIE2_EP1'', 41, Some 0x0052),
      (''SIE2_EP2'', 42, Some 0x0054), (''SIE2_EP3'', 43, Some 0x0056), (''SIE2_EP4'', 44, Some 0x0058),
      (''SIE2_EP5'', 45, Some 0x005A), (''SIE2_EP6'', 46, Some 0x005C), (''SIE2_EP7'', 47, Some 0x005E)]"

definition software_interrupts :: names where
  "software_interrupts =
     [(''I2C_INT'', 0x0040), (''LI2C_INT'', 0x0041), (''UART_INT'', 0x0042), (''SCAN_INT'', 0x0043),
      (''ALLOC_INT'', 0x0044), (''IDLE_INT'', 0x0046), (''IDLER_INT'', 0x0047),
      (''INSERT_IDLE_INT'', 0x0048), (''PUSHALL_INT'', 0x0049), (''POPALL_INT'', 0x004A),
      (''FREE_INT'', 0x004B), (''REDO_ARENA'', 0x004C), (''HW_SWAP_REG'', 0x004D),
      (''HW_REST_REG'', 0x004E), (''SCAN_DECODE_INT'', 0x004F), (''SUSB1_SEND_INT'', 0x0050),
      (''SUSB1_RECEIVE_INT'', 0x0051), (''SUSB1_STALL_INT'', 0x0052), (''SUSB1_STANDARD_INT'', 0x0053),
      (''SUSB1_STANDARD_LOADER_VEC'', 0x00A8), (''SUSB1_VENDOR_INT'', 0x0055),
      (''SUSB1_VENDOR_LOADER_VEC'', 0x00AC), (''SUSB1_CLASS_INT'', 0x0057),
      (''SUSB1_CLASS_LOADER_VEC'', 0x00B0), (''SUSB1_FINISH_INT'', 0x0059),
      (''SUSB1_DEV_DESC_VEC'', 0x00B4), (''SUSB1_CONFIG_DESC_VEC'', 0x00B6),
      (''SUSB1_STRING_DESC_VEC'', 0x00B8), (''SUSB1_PARSE_CONFIG_INT'', 0x005D),
      (''SUSB1_LOADER_INT'', 0x005E), (''SUSB1_DELTA_CONFIG_INT'', 0x005F), (''SUSB2_SEND_INT'', 0x0060),
      (''SUSB2_RECEIVE_INT'', 0x0061), (''SUSB2_STALL_INT'', 0x0062), (''SUSB2_STANDARD_INT'', 0x0063),
      (''SUSB2_STANDARD_LOADER_VEC'', 0x00C8), (''SUSB2_VENDOR_INT'', 0x0065),
      (''SUSB2_VENDOR_LOADER_VEC'', 0x00CC), (''SUSB2_CLASS_INT'', 0x0067),
      (''SUSB2_CLASS_LOADER_VEC'', 0x00D0), (''SUSB2_FINISH_INT'', 0x0069),
      (''SUSB2_DEV_DESC_VEC'', 0x00D4), (''SUSB2_CONFIG_DESC_VEC'', 0x00D6),
      (''SUSB2_STRING_DESC_VEC'', 0x00D8), (''SUSB2_PARSE_CONFIG_INT'', 0x006D),
      (''SUSB2_LOADER_INT'', 0x006E), (''SUSB2_DELTA_CONFIG_INT'', 0x006F), (''USB_INIT_INT'', 0x0070),
      (''SUSB_INIT_INT'', 0x0071), (''REMOTE_WAKEUP_INT'', 0x0077), (''START_SRP_INT'', 0x0078)]"

definition software_interrupt_offsets :: names where
  "software_interrupt_offsets =
     [(''SUSB2_SWINT_BASE'', 0x00C0), (''SUSB1_SWINT_BASE'', 0x00A0), (''SUSB_SWINT_BASE'', 0x00A0),
      (''O_SWINT_SUSB1'', 0x0000), (''O_SWINT_SUSB2'', 0x0020), (''O_SWINT_SEND'', 0x0000),
      (''O_SWINT_RECEIVE'', 0x0002), (''O_SWINT_STALL'', 0x0004), (''O_SWINT_STANDARD'', 0x0006),
      (''O_SWINT_STD_LDR'', 0x0008), (''O_SWINT_VENDOR_INT'', 0x000A), (''O_SWINT_VENDOR_LDR'', 0x000C),
      (''O_SWINT_CLASS'', 0x000E), (''O_SWINT_CLASS_LDR'', 0x0010), (''O_SWINT_FINISH'', 0x0012),
      (''O_SWINT_DEV_DESC'', 0x0014), (''O_SWINT_CONFIG_DESC'', 0x0016), (''O_SWINT_STRING_DESC'', 0x0018),
      (''O_SWINT_PARSE_CONFIG'', 0x001A), (''O_SWINT_LDR'', 0x001C), (''O_SWINT_DELTA_CONFIG'', 0x001E)]"

definition host_interrupts :: names where
  "host_interrupts =
     [(''HUSB_SIE1_INIT_INT'', 0x0072), (''HUSB_SIE2_INIT_INT'', 0x0073), (''HUSB_RESET_INT'', 0x0074),
      (''SUSB1_OTG_DESC_VEC'', 0x00EE), (''PWR_DOWN_INT'', 0x0078), (''SEND_HOST_CMD_INT'', 0x0079),
      (''PROCESS_PORT_CMD_INT'', 0x007A), (''PROCESS_CRB_INT'', 0x007B)]"

section \<open>The firmware of the chip\<close>

definition lcp_data :: names where
  "lcp_data =
     [(''_start_of_comm'', 0x019A), (''lcp_table'', 0x019A), (''snd_msg'', 0x019C), (''lcp_sema'', 0x019E),
      (''lcp_chain'', 0x01A0), (''lcp_rsp'', 0x01A2), (''HUSB_SIE1_pCurrentTDPtr'', 0x01B0),
      (''HUSB_SIE2_pCurrentTDPtr'', 0x01B2), (''HUSB_pEOT'', 0x01B4),
      (''HUSB_SIE1_pTDListDone_Sem'', 0x01B6), (''HUSB_SIE2_pTDListDone_Sem'', 0x01B8),
      (''COMM_PORT_CMD'', 0x01BA), (''COMM_PORT_DATA'', 0x01BC), (''COMM_MEM_ADDR'', 0x01BC),
      (''COMM_MEM_LEN'', 0x01BE), (''COMM_LAST_DATA'', 0x01C0), (''COMM_CTRL_REG_ADDR'', 0x01BC),
      (''COMM_CTRL_REG_DATA'', 0x01BE), (''COMM_CTRL_REG_LOGIC'', 0x01C0), (''REG_WRITE_FLG'', 0x0000),
      (''REG_AND_FLG'', 0x0001), (''REG_OR_FLG'', 0x0002), (''COMM_BAUD_RATE'', 0x01BC),
      (''COMM_TIMEOUT'', 0x01BE), (''COMM_CODE_ADDR'', 0x01BC), (''COMM_INT_NUM'', 0x01C2),
      (''COMM_R0'', 0x01C4), (''COMM_R1'', 0x01C6), (''COMM_R2'', 0x01C8), (''COMM_R3'', 0x01CA),
      (''COMM_R4'', 0x01CC), (''COMM_R5'', 0x01CE), (''COMM_R6'', 0x01D0), (''COMM_R7'', 0x01D2),
      (''COMM_R8'', 0x01D4), (''COMM_R9'', 0x01D6), (''COMM_R10'', 0x01D8), (''COMM_R11'', 0x01DA),
      (''COMM_R12'', 0x01DC), (''COMM_R13'', 0x01DE)]"

definition lcp_commands :: names where
  "lcp_commands =
     [(''PORT_CMD_PROC'', 0x0000), (''CP_GET_PORT_LIST'', 0x0000), (''CP_SINGLE_PORT_MODE'', 0x0001),
      (''CP_MULTI_PORT_MODE'', 0x0002), (''PORT_HUSB'', 0x0001), (''PORT_SUSB'', 0x0002),
      (''PORT_SPI'', 0x0003), (''PORT_HSS'', 0x0004), (''PORT_IDE'', 0x0005), (''PORT_HPI'', 0x0006),
      (''PORT_DRAM'', 0x0007), (''COMM_RESET'', 0xFA50), (''COMM_JUMP2CODE'', 0xCE00),
      (''COMM_EXEC_INT'', 0xCE01), (''COMM_READ_CTRL_REG'', 0xCE02), (''COMM_WRITE_CTRL_REG'', 0xCE03),
      (''COMM_CALL_CODE'', 0xCE04), (''COMM_READ_XMEM'', 0xCE05), (''COMM_WRITE_XMEM'', 0xCE06),
      (''COMM_CONFIG'', 0xCE07), (''COMM_READ_MEM'', 0xCE08), (''COMM_WRITE_MEM'', 0xCE09),
      (''COMM_ACK'', 0x0FED), (''COMM_NAK'', 0xDEAD)]"

definition lcp_messages :: names where
  "lcp_messages =
     [(''SUSB_EP0_MSG'', 0x0001), (''SUSB_EP1_MSG'', 0x0002), (''SUSB_EP2_MSG'', 0x0004),
      (''SUSB_EP3_MSG'', 0x0008), (''SUSB_EP4_MSG'', 0x0010), (''SUSB_EP5_MSG'', 0x0020),
      (''SUSB_EP6_MSG'', 0x0040), (''SUSB_EP7_MSG'', 0x0080), (''SUSB_RST_MSG'', 0x0100),
      (''SUSB_SOF_MSG'', 0x0200), (''SUSB_CFG_MSG'', 0x0400), (''SUSB_SUS_MSG'', 0x0800),
      (''SUSB_VBUS_MSG'', 0x8000), (''SUSB_ID_MSG'', 0x4000), (''HUSB_TDListDone'', 0x1000),
      (''HUSB_SOF'', 0x2000), (''HUSB_ARMV'', 0x0001), (''HUSB_AINS_FS'', 0x0002),
      (''HUSB_AINS_LS'', 0x0004), (''HUSB_AWakeUp'', 0x0008), (''HUSB_BRMV'', 0x0010),
      (''HUSB_BINS_FS'', 0x0020), (''HUSB_BINS_LS'', 0x0040), (''HUSB_BWakeUp'', 0x0080)]"

definition usb_h_ports :: names where
  "usb_h_ports =
     [(''HPI_DATA'', 0x0000), (''HPI_MAILBOX'', 0x0001), (''HPI_ADDR'', 0x0002), (''HPI_STATUS'', 0x0003)]"

end
