(* ===== verification/ChipRegs.thy ===== *)
theory ChipRegs
  imports ChipTables
begin

text \<open>
  What the tables of \<open>ChipTables\<close> say of each other. The header describes many registers twice or three
  times, by names of bits, by masks, by positions and sizes, and in the part written for the board. The
  functions below find where two descriptions differ, and the theorems state the complete list of the
  differences: with these exceptions the header is consistent. Endpoint registers and interrupt vectors
  are shown to follow the regular layout that the offsets of the header give.
\<close>

section \<open>Questions to a section\<close>

definition mask_of :: "names \<Rightarrow> u16" where
  "mask_of l = fold (\<lambda>(n, v) m. m OR v) l 0"

abbreviation addresses :: "reg_block \<Rightarrow> u16 list" where
  "addresses b \<equiv> map (\<lambda>(n, a, m). a) (rb_regs b)"

text \<open>Two bits of one register that overlap; a second name whose bits have no first name.\<close>

fun clashes :: "names \<Rightarrow> (string \<times> string) list" where
  "clashes [] = []"
| "clashes ((n, v) # l) = [(n, m). (m, w) \<leftarrow> l, v AND w \<noteq> 0] @ clashes l"

definition strays :: "u16 \<Rightarrow> names \<Rightarrow> string list" where
  "strays m l = [n. (n, v) \<leftarrow> l, v AND NOT m \<noteq> 0]"

text \<open>The modes that the sections give to the register at an address.\<close>

definition modes_in :: "reg_block list \<Rightarrow> u16 \<Rightarrow> access list" where
  "modes_in bs a = [m. b \<leftarrow> bs, (n, a', m) \<leftarrow> rb_regs b, a' = a]"

definition modes :: "u16 \<Rightarrow> access list" where
  "modes a = modes_in (board_part @ chip_registers) a"

definition readable :: "u16 \<Rightarrow> bool" where
  "readable a \<longleftrightarrow> ReadOnly \<in> set (modes a) \<or> ReadWrite \<in> set (modes a)"

definition writable :: "u16 \<Rightarrow> bool" where
  "writable a \<longleftrightarrow> WriteOnly \<in> set (modes a) \<or> ReadWrite \<in> set (modes a)"

section \<open>Positions and sizes\<close>

text \<open>
  Each mask is the bit of its position, each value of a field fits the size and its mask is the value
  shifted to the position.
\<close>

fun desc_ok :: "nat \<times> nat \<Rightarrow> desc list \<Rightarrow> bool" where
  "desc_ok ps [] = True"
| "desc_ok ps (Flag n b (Some m) # ds) = (m = push_bit b 1 \<and> desc_ok ps ds)"
| "desc_ok ps (Span n p s # ds) = (p + s \<le> 16 \<and> desc_ok (p, s) ds)"
| "desc_ok (p, s) (Choice n v (Some m) # ds) = (v < push_bit s 1 \<and> m = push_bit p v \<and> desc_ok (p, s) ds)"
| "desc_ok ps (_ # ds) = desc_ok ps ds"

text \<open>The bits a memory map names, as names and masks.\<close>

fun desc_bits :: "desc list \<Rightarrow> names" where
  "desc_bits [] = []"
| "desc_bits (Flag n b m # ds) = (n, push_bit b 1) # desc_bits ds"
| "desc_bits (Mask n m # ds) = (n, m) # desc_bits ds"
| "desc_bits (Span n p s # ds) = (n, push_bit p (mask s)) # desc_bits ds"
| "desc_bits (_ # ds) = desc_bits ds"

text \<open>Bits of a memory map that are no bit of the section of the same register.\<close>

definition unmatched :: "reg_block \<Rightarrow> desc list \<Rightarrow> string list" where
  "unmatched b ds = [n. (n, v) \<leftarrow> desc_bits ds, v \<notin> set (map snd (rb_bits b))]"

section \<open>Where the header agrees with itself\<close>

text \<open>
  The named bits of a register do not overlap, with nine exceptions. Five are two names for one bit on
  purpose (host and device, armed and busy); the other four are slips: \<^verbatim>\<open>NAK_INT_EN\<close> has the value of
  \<^verbatim>\<open>INOUT_IGN_EN\<close>, \<^verbatim>\<open>PHASE_SEL\<close> lies in the middle of \<^verbatim>\<open>SCALE_SEL\<close>, and \<^verbatim>\<open>TX_BIT_LEN\<close> overlaps both of
  its neighbours.
\<close>

theorem bits_of_a_register_are_disjoint:
  "concat (map (\<lambda>b. clashes (rb_bits b)) chip_registers) =
     [(''HOST2_IRQ_EN'', ''DEV2_IRQ_EN''), (''HOST1_IRQ_EN'', ''DEV1_IRQ_EN''),
      (''HOST2_WAKE_EN'', ''DEV2_WAKE_EN''), (''HOST1_WAKE_EN'', ''DEV1_WAKE_EN''),
      (''ARM_EN'', ''BSY_FLG''), (''INOUT_IGN_EN'', ''NAK_INT_EN''), (''PHASE_SEL'', ''SCALE_SEL''),
      (''RX_FULL'', ''TX_BIT_LEN''), (''TX_BIT_LEN'', ''RX_BIT_LEN'')]"
  by code_simp

text \<open>
  The masks of the firmware and the aliases name the bits of the register again, with one exception: the
  mask \<^verbatim>\<open>bmHOST_INTEN_IEXP\<close> has no bit. The further names of addresses are those of registers, except that
  \<^verbatim>\<open>GPIO_CNTRL\<close>, given as an alias of the register at \<^verbatim>\<open>0xC006\<close>, is \<^verbatim>\<open>0xC01C\<close>.
\<close>

theorem second_names_agree:
  "concat (map (\<lambda>b. strays (mask_of (rb_bits b)) (rb_masks b)) chip_registers) = [''bmHOST_INTEN_IEXP'']"
  "[n. b \<leftarrow> chip_registers, (n, a) \<leftarrow> rb_also b, a \<notin> set (addresses b)] = [''GPIO_CNTRL'']"
  by code_simp+

text \<open>
  In the memory map every mask is the bit at its position, every field lies in 16 bits, and every value of
  a field fits and is given in place correctly.
\<close>

theorem memory_map_consistent:
  "list_all (desc_ok (0, 0)) [map_interrupts, map_hss, map_spi_config, map_spi_control,
     map_spi_interrupts, map_spi_crc, map_spi_data, map_ide, map_hpi]"
  by code_simp

text \<open>
  The memory map agrees with the registers for the serial interface (the other fields are of other
  registers), and shows the slips of the first description: the clock phase of the SPI is bit 14, its
  receive-full flag bit 6, its transmit length bits 3 to 5, its FIFO error bit 7.
\<close>

theorem memory_map_agrees:
  "unmatched cy_hss_control map_hss = [''HSS_BAUDRate_Rate'', ''HSS_GAP_GAP'', ''HSS_Data_Data'',
     ''HSS_RxBlkAddr_Addr'', ''HSS_RxBlkLen'', ''HSS_TxBlkAddr_Addr'', ''HSS_TxBlkLen'']"
  "unmatched cy_spi_configuration map_spi_config = [''SPI_Cfg_CPHA'', ''SPI_Cfg_RedLine'']"
  "unmatched cy_spi_control map_spi_control = [''SPI_Ctl_RxFull'', ''SPI_Ctl_TxBitLen'']"
  "unmatched cy_spi_crc_control map_spi_crc = [''SPI_CRCVal_Port'']"
  "unmatched cy_spi_status map_spi_interrupts = [''SPI_Int_FIFOErr'', ''SPI_IntVal_FIFOErr'']"
  "unmatched cy_interrupt_enable map_interrupts = [''GIO_IntCtl_Mode'', ''GIO_IntCtl_Bond'', ''GIO_IntCtl_MD'']"
  by code_simp+

text \<open>
  The part written for the board: each of its registers is one of the manufacturer's, except that it
  gives the message registers and the mailbox, and \<^verbatim>\<open>0x3FFF\<close>, the mask of a count, as the address of the
  count. No section of the manufacturer lets the program write the routing register or the breakpoint;
  only the board part does.
\<close>

theorem board_part_agrees:
  "[n. b \<leftarrow> board_part, (n, a, m) \<leftarrow> rb_regs b, modes_in chip_registers a = []] =
     [''DEVICE_SOF_EOP_COUNT_REG'', ''HPI_SIEmsg1_REG'', ''HPI_SIEmsg2_REG'', ''HPI_Mailbox_REG'']"
  "[n. b \<leftarrow> board_part, (n, a, m) \<leftarrow> rb_regs b, m = ReadWrite, ReadWrite \<notin> set (modes_in chip_registers a)] =
     [''HPI_BreakPoint_REG'', ''HPI_INT_ROUTING_REG'', ''HPI_SIEmsg1_REG'', ''HPI_SIEmsg2_REG'']"
  "USB_CTL_REG 0 = 0xC08A" "USB_CTL_REG 1 = 0xC0AA"
  by code_simp+

text \<open>
  \<^verbatim>\<open>HPI_ROUTE_EN\<close>, the macro that routes everything, has every bit of the register but the two that swap bytes.
\<close>

theorem route_everything:
  "[n. (n, v) \<leftarrow> rb_bits cy_hpi_irq_routing, v AND 0xFECE = 0] = [''HPI_SWAP_1_EN'', ''HPI_SWAP_0_EN'']"
  by code_simp

section \<open>The regular parts\<close>

definition offset_of :: "string \<Rightarrow> u16" where
  "offset_of n = the (map_of (sie_bases @ endpoint_offsets) n)"

text \<open>The endpoint registers: base of the port, bank of the endpoint, offset of the register.\<close>

definition endpoint_register :: "string \<Rightarrow> u16 list" where
  "endpoint_register n =
     [offset_of ''SIE_EP_BASE'' + offset_of sie + bank + offset_of n.
        sie \<leftarrow> [''O_SIE1_EP_BASE'', ''O_SIE2_EP_BASE''], (_, bank) \<leftarrow> endpoint_banks]"

theorem endpoint_registers_regular:
  "addresses cy_device_n_endpoint_n_control = endpoint_register ''O_EP_CONTROL''"
  "addresses cy_device_n_endpoint_n_address = endpoint_register ''O_EP_BASE_ADDR''"
  "addresses cy_device_n_endpoint_n_count = endpoint_register ''O_EP_BASE_LENGTH''"
  "addresses cy_device_n_endpoint_n_status = endpoint_register ''O_EP_PACKET_STAT''"
  "addresses cy_device_n_endpoint_n_count_result = endpoint_register ''O_EP_XFER_COUNT''"
  "map snd endpoint_bases = endpoint_register ''O_EP_CONTROL''"
  by code_simp+

text \<open>
  The hardware interrupts have the numbers 0 to 47 in order, and a vector is twice the number. The
  software interrupts of the two device ports are the base of the port plus the offsets of the header,
  where an interrupt counts twice its number (\<^verbatim>\<open>_VEC\<close> is an address, \<^verbatim>\<open>_INT\<close> half an address).
\<close>

definition vector_of :: "string \<times> u16 \<Rightarrow> u16" where
  "vector_of p = (case p of (n, v) \<Rightarrow> if drop (length n - 4) n = ''_VEC'' then v else 2 * v)"

theorem interrupt_vectors_regular:
  "map (\<lambda>(n, i, v). i) hardware_interrupts = map of_nat [0..<48]"
  "list_all (\<lambda>(n, i, v). v = None \<or> v = Some (2 * i)) hardware_interrupts"
  "map vector_of (take 16 (drop 15 software_interrupts)) = map (\<lambda>(n, v). 0x00A0 + v) (drop 5 software_interrupt_offsets)"
  "map vector_of (take 16 (drop 31 software_interrupts)) = map (\<lambda>(n, v). 0x00C0 + v) (drop 5 software_interrupt_offsets)"
  by code_simp+

end
