(* ===== verification/ChipAccess.thy ===== *)
theory ChipAccess
  imports UsbMainProps ChipRegs
begin

text \<open>
  Which registers and words of the chip the program uses. The chip has one window: a word written to the
  address port points at a place, and each transfer through the data port uses that place and moves on by
  a word. From the bus log one can therefore read off every access to the inside of the chip. The theorem
  shows that in every run each of them goes to a place that the headers name for that use (\<open>ChipTables\<close>),
  or to the memory where the program builds its transfer lists, and that what goes to the registers with
  named bits consists of such bits.
\<close>

section \<open>Accesses through the window\<close>

datatype chip_access =
    ReadAt u16
  | WriteAt u16 u16
  | Astray          \<comment> \<open>a transfer of data with no address set since the last reset\<close>

fun window :: "u16 option \<Rightarrow> bus_event \<Rightarrow> u16 option" where
  "window p (HW r d) =
     (if r = 2 then Some d else if r = 0 then map_option (\<lambda>a. a + 2) p
      else if r = 1 \<and> d = COMM_RESET then None else p)"
| "window p (HR r v) = (if r = 0 then map_option (\<lambda>a. a + 2) p else p)"
| "window p ChipReset = None"
| "window p _ = p"

fun access_by :: "u16 option \<Rightarrow> bus_event \<Rightarrow> chip_access list" where
  "access_by p (HW r d) = (if r = 0 then [case p of None \<Rightarrow> Astray | Some a \<Rightarrow> WriteAt a d] else [])"
| "access_by p (HR r v) = (if r = 0 then [case p of None \<Rightarrow> Astray | Some a \<Rightarrow> ReadAt a] else [])"
| "access_by p _ = []"

fun accesses :: "u16 option \<Rightarrow> bus_event list \<Rightarrow> chip_access list" where
  "accesses p [] = []"
| "accesses p (e # es) = access_by p e @ accesses (window p e) es"

section \<open>What the headers allow\<close>

text \<open>
  The words of the firmware that \<^verbatim>\<open>lcp_data.h\<close> names (the header also has three small numbers that are
  no addresses), and the memory of the program: the user space of the chip is \<^verbatim>\<open>0x04A4\<close> to \<^verbatim>\<open>0x3FFF\<close>, and
  the transfer lists are built from \<^verbatim>\<open>0x0500\<close> on.
\<close>

definition firmware_word :: "u16 \<Rightarrow> bool" where
  "firmware_word a \<longleftrightarrow> 0x019A \<le> a \<and> a \<in> snd ` set lcp_data"

definition user_space :: "u16 \<Rightarrow> bool" where
  "user_space a \<longleftrightarrow> 0x04A4 \<le> a \<and> a \<le> 0x3FFF"

definition list_area :: "u16 \<Rightarrow> bool" where
  "list_area a \<longleftrightarrow> user_space a \<and> 0x0500 \<le> a \<and> a < 0x0580"

text \<open>Values: the two interrupt registers take bits they have, the list pointer one of two addresses.\<close>

definition value_fits :: "u16 \<Rightarrow> u16 \<Rightarrow> bool" where
  "value_fits a d \<longleftrightarrow>
     (a = HOST1_IRQ_EN_REG \<longrightarrow> d AND NOT (mask_of (rb_bits cy_host_n_interrupt_enable)) = 0) \<and>
     (a = HPI_IRQ_ROUTING_REG \<longrightarrow> d AND NOT (mask_of (rb_bits cy_hpi_irq_routing)) = 0) \<and>
     (a = HUSB_SIE1_pCurrentTDPtr \<longrightarrow> d = 0x0500 \<or> d = 0x0576)"

fun documented :: "chip_access \<Rightarrow> bool" where
  "documented (ReadAt a) \<longleftrightarrow> even a \<and> (readable a \<or> list_area a)"
| "documented (WriteAt a d) \<longleftrightarrow> even a \<and> (writable a \<or> firmware_word a \<or> list_area a) \<and> value_fits a d"
| "documented Astray \<longleftrightarrow> False"

lemma readable_places [simp]:
  "readable USB1_CTL_REG" "readable HPI_SIE1_MSG_ADR" "readable HPI_SIE2_MSG_ADR"
  by code_simp+

lemma writable_places [simp]:
  "writable HPI_SIE1_MSG_ADR" "writable HPI_SIE2_MSG_ADR" "writable HOST1_STAT_REG"
  "writable HOST2_STAT_REG" "writable HPI_IRQ_ROUTING_REG" "writable HOST1_IRQ_EN_REG"
  by code_simp+

lemma firmware_places [simp]:
  "firmware_word HUSB_pEOT" "firmware_word HUSB_SIE1_pCurrentTDPtr" "firmware_word COMM_INT_NUM"
  by code_simp+

lemma comm_registers: "list_all (\<lambda>i. firmware_word (COMM_R i)) [0..<14]"
  by code_simp

lemma interrupt_bits:
  "value_fits HOST1_IRQ_EN_REG 0x0210" "value_fits HPI_IRQ_ROUTING_REG 0x0440"
  by code_simp+

lemma list_area_places [simp]:
  "list_area 0x0506" "list_area 0x0508" "list_area 0x051E" "list_area 0x056C" "list_area 0x057C"
  by code_simp+

section \<open>What each operation adds\<close>

definition pointed :: "'d world \<Rightarrow> u16 option" where
  "pointed w = foldl window None (bus w)"

definition good :: "'d world \<Rightarrow> bool" where
  "good w \<longleftrightarrow> list_all documented (accesses None (bus w))"

lemma accesses_append: "accesses p (xs @ ys) = accesses p xs @ accesses (foldl window p xs) ys"
  by (induction xs arbitrary: p) simp_all

lemma good_bus: "bus w' = bus w @ es \<Longrightarrow> good w' = (good w \<and> list_all documented (accesses (pointed w) es))"
  by (simp add: good_def pointed_def accesses_append)

named_theorems good_simps

lemma good_port_read [good_simps]:
  "ready w \<Longrightarrow> ucast a \<noteq> (0 :: 2 word) \<Longrightarrow> good (snd (IO_read D a w)) = good w"
  by (simp add: good_bus [OF bus_IO_read])

lemma good_usleep [good_simps]: "good (usleep D n w) = good w"
  by (simp add: good_bus [OF bus_usleep])

lemma good_mailbox [good_simps]: "ready w \<Longrightarrow> good (IO_write D HPI_MAILBOX d w) = good w"
  by (simp add: good_bus [OF bus_IO_write])

lemma good_UsbWrite [good_simps]:
  "ready w \<Longrightarrow> good (UsbWrite D a d w) = (good w \<and> documented (WriteAt a d))"
  by (simp add: good_bus [OF bus_UsbWrite])

lemma good_UsbRead [good_simps]:
  "ready w \<Longrightarrow> good (snd (UsbRead D a w)) = (good w \<and> documented (ReadAt a))"
  by (simp add: good_bus [OF bus_UsbRead])

lemma good_key [good_simps]: "good (pio_write D Keycode_base v w) = good w"
  by (simp add: good_bus [OF bus_key])

lemma plain_value [simp]:
  "a \<noteq> HOST1_IRQ_EN_REG \<Longrightarrow> a \<noteq> HPI_IRQ_ROUTING_REG \<Longrightarrow> a \<noteq> HUSB_SIE1_pCurrentTDPtr \<Longrightarrow> value_fits a d"
  by (simp add: value_fits_def)

lemma list_pointer [simp]:
  "value_fits HUSB_SIE1_pCurrentTDPtr 0x0500" "value_fits HUSB_SIE1_pCurrentTDPtr 0x0576"
  by (simp_all add: value_fits_def)

lemma good_read_sie1_msg [good_simps]: "ready w \<Longrightarrow> good (snd (read_sie1_msg D w)) = good w"
  by (simp add: good_bus [OF bus_read_sie1_msg])

lemma good_read_control_byte [good_simps]: "ready w \<Longrightarrow> good (snd (read_control_byte D w)) = good w"
  by (simp add: good_bus [OF bus_read_control_byte])

lemma good_usb_writes [good_simps]:
  "ready w \<Longrightarrow> good (usb_writes D ps w) = (good w \<and> list_all (\<lambda>(a, d). documented (WriteAt a d)) ps)"
  unfolding usb_writes_def
  by (induction ps arbitrary: w) (auto simp: ready_simps good_simps)

text \<open>The words of a transfer list go to consecutive places of the list area.\<close>

lemma list_words:
  assumes "unat a + 2 * length ws \<le> 0x0580" "0x0500 \<le> unat a" "even a"
  shows "list_all documented (accesses (Some a) (map (HW 0) ws))"
  using assms
proof (induction ws arbitrary: a)
  case (Cons d ws)
  have a: "unat (a + 2) = unat a + 2" using Cons.prems(1) by (simp add: unat_word_ariths)
  have "list_area a" using Cons.prems by (simp add: list_area_def user_space_def word_le_nat_alt word_less_nat_alt)
  moreover have "value_fits a d" using Cons.prems(1,2) by (intro plain_value) auto
  moreover have "list_all documented (accesses (Some (a + 2)) (map (HW 0) ws))"
    using Cons.prems by (intro Cons.IH) (simp_all add: a)
  ultimately show ?case using Cons.prems(3) by simp
qed simp

lemma good_send_td_list [good_simps]:
  assumes "ready w" "length ws \<le> 64"
  shows "good (send_td_list D ws w) = good w"
  using list_words [of "0x0500" ws] assms
  by (simp add: good_bus [OF bus_send_td_list] td_events_def accesses_append)

lemma td_words_short: "length (td_words k) \<le> 64"
  by (cases k) (simp_all add: td_SetAddress_def td_DeviceDesc1_def td_DeviceDesc2_def td_ConfigDesc1_def
      td_ConfigDesc2_def td_SetConfig_def td_ClassRequest_def td_HidDesc_def td_ReportDesc_def)

lemma good_send_stage [good_simps]: "ready w \<Longrightarrow> good (send_stage D k w) = good w"
  by (simp add: send_stage_td good_simps td_words_short)

lemma good_send_key_td [good_simps]: "ready (wd s) \<Longrightarrow> good (send_key_td D s) = good (wd s)"
  by (simp add: send_key_td_def key_td_def good_simps)

lemma good_UsbSoftReset [good_simps]: "ready w \<Longrightarrow> good (UsbSoftReset D w) = good w"
  by (simp add: UsbSoftReset_def Let_def split_beta ready_simps good_simps)

lemma comm_register [simp]:
  "even (COMM_R i)"
  "i < 14 \<Longrightarrow> firmware_word (COMM_R i)"
  "i < 14 \<Longrightarrow> value_fits (COMM_R i) d"
proof -
  show "even (COMM_R i)" by (simp add: COMM_R_def)
  show "firmware_word (COMM_R i)" if "i < 14" using comm_registers that by (simp add: list_all_iff)
  have "list_all (\<lambda>i. COMM_R i \<notin> {HOST1_IRQ_EN_REG, HPI_IRQ_ROUTING_REG, HUSB_SIE1_pCurrentTDPtr}) [0..<14]"
    by code_simp
  then show "value_fits (COMM_R i) d" if "i < 14" using that by (intro plain_value) (auto simp: list_all_iff)
qed

lemma good_sie1_init [good_simps]:
  "ready w \<Longrightarrow> value_fits HPI_IRQ_ROUTING_REG u \<Longrightarrow> value_fits HOST1_IRQ_EN_REG i \<Longrightarrow> good (sie1_init D u i w) = good w"
  by (auto simp: sie1_init_def Let_def ready_simps good_simps list_all_iff)

lemma good_husb_reset [good_simps]: "ready w \<Longrightarrow> good (husb_reset D w) = good w"
  by (auto simp: husb_reset_def Let_def ready_simps good_simps list_all_iff)

lemma good_read_td_result [good_simps]: "ready w \<Longrightarrow> good (snd (read_td_result D w)) = good w"
proof -
  assume "ready w"
  then obtain s where "bus (snd (read_td_result D w)) = bus w @
     [HW 2 0x0506, HR 0 s, HW 2 0x0508, HR 0 (fst (read_td_result D w))]"
    using bus_read_td_result by metis
  then show ?thesis by (simp add: good_bus)
qed

text \<open>The block that looks at the interface also writes five words behind it and reads one of them back.\<close>

lemma rewritten_places [simp]:
  "list_area 0x0576" "list_area 0x0578" "list_area 0x057A" "list_area 0x057E"
  by code_simp+

lemma good_device_info [good_simps]: "ready (wd s) \<Longrightarrow> good (wd (device_info D s)) = good (wd s)"
proof -
  assume "ready (wd s)"
  then obtain c z where "bus (wd (device_info D s)) = bus (wd s) @
     [HW 2 0x056C, HR 0 c, HW 2 0x0576, HW 0 0x073F, HW 0 0x8105, HW 0 0x0003, HW 0 0x0008,
      HW 0 0xAC0A, HW 2 HUSB_SIE1_pCurrentTDPtr, HW 0 0x0576, HW 2 0x057C, HR 0 z]"
    using bus_device_info by metis
  then show ?thesis by (simp add: good_bus)
qed

lemma good_publish_key [good_simps]:
  "ready (wd s) \<Longrightarrow> ctl_reg s = USB1_CTL_REG \<Longrightarrow> good (wd (publish_key D s)) = good (wd s)"
  by (simp add: publish_key_def read_ctl_def nap_def Let_def split_beta ready_simps good_simps)

section \<open>Every step\<close>

lemma step_good:
  assumes "main_inv (p, s)" "p \<noteq> Up Begin" "good (wd s)"
  shows "good (wd (snd (main_step D p s)))"
proof -
  have r: "ready (wd s)" "port_known p \<Longrightarrow> ctl_reg s = USB1_CTL_REG" using assms(1,2) by (auto simp: main_inv_def)
  show ?thesis
  proof (cases p)
    case (Up q)
    then show ?thesis using r assms by (cases q) (simp_all add: Let_def split_beta ready_simps good_simps interrupt_bits)
  next
    case (Port q)
    then show ?thesis using r assms by (cases q) (simp_all add: block_simps good_simps)
  next
    case (Xfer k q)
    then show ?thesis using r assms by (cases q) (simp_all add: block_simps good_simps)
  next
    case (Retry q)
    then show ?thesis using r assms by (cases q) (simp_all add: block_simps good_simps)
  next
    case (Key q)
    then show ?thesis using r assms by (cases q) (simp_all add: block_simps good_simps)
  qed (use r assms in \<open>simp_all add: block_simps good_simps\<close>)
qed

lemma good_IO_init: "trace w = [] \<Longrightarrow> good (IO_init D w)"
  by (simp add: good_def bus_IO_init)

definition access_inv :: "pc \<times> 'd vars \<Rightarrow> bool" where
  "access_inv c \<longleftrightarrow> main_inv c \<and> (fst c \<noteq> Up Begin \<longrightarrow> good (wd (snd c)))"

lemma access_inv_step: "access_inv c \<Longrightarrow> access_inv (main_machine D c)"
proof -
  assume i: "access_inv c"
  obtain p s where c: "c = (p, s)" by fastforce
  have "main_inv (main_machine D c)" using i by (simp add: access_inv_def main_keeps)
  moreover have "good (wd (snd (main_step D p s)))"
  proof (cases "p = Up Begin")
    case True
    then show ?thesis using i c by (simp add: access_inv_def main_inv_def main_start_def good_IO_init)
  next
    case False
    then show ?thesis using i c by (simp add: access_inv_def step_good)
  qed
  ultimately show ?thesis using c by (simp add: access_inv_def main_machine_def)
qed

interpretation access: invariant_machine main_start "main_machine D" access_inv for D
  by (unfold_locales, simp add: access_inv_def main_starts, simp add: main_start_def, rule access_inv_step)



section \<open>The constants of the program\<close>

text \<open>The names that the program uses have the values of the headers.\<close>

definition named :: "reg_block \<Rightarrow> names" where
  "named b = map (\<lambda>(n, a, m). (n, a)) (rb_regs b) @ rb_also b @ rb_bits b"

theorem constants_are_those_of_the_headers:
  "map_of (named cy_usb_n_control) ''USB1_CTL_REG'' = Some USB1_CTL_REG"
  "map_of (named cy_usb_n_control) ''A_DP_STAT'' = Some A_DP_STAT"
  "map_of (named cy_usb_n_control) ''A_DM_STAT'' = Some A_DM_STAT"
  "map_of (named cy_host_n_interrupt_enable) ''HOST1_IRQ_EN_REG'' = Some HOST1_IRQ_EN_REG"
  "map_of (named cy_host_n_interrupt_enable) ''SOF_EOP_IRQ_EN'' = Some SOF_EOP_IRQ_EN"
  "map_of (named cy_host_n_interrupt_enable) ''A_CHG_IRQ_EN'' = Some A_CHG_IRQ_EN"
  "map_of (named cy_host_n_status) ''HOST1_STAT_REG'' = Some HOST1_STAT_REG"
  "map_of (named cy_host_n_status) ''HOST2_STAT_REG'' = Some HOST2_STAT_REG"
  "map_of (named cy_hpi_irq_routing) ''HPI_IRQ_ROUTING_REG'' = Some HPI_IRQ_ROUTING_REG"
  "map_of (named cy_hpi_irq_routing) ''SOFEOP1_TO_CPU_EN'' = Some SOFEOP1_TO_CPU_EN"
  "map_of (named cy_hpi_irq_routing) ''RESUME1_TO_HPI_EN'' = Some RESUME1_TO_HPI_EN"
  "map_of hpi_messages ''HPI_SIE1_MSG_ADR'' = Some HPI_SIE1_MSG_ADR"
  "map_of hpi_messages ''HPI_SIE2_MSG_ADR'' = Some HPI_SIE2_MSG_ADR"
  "map_of (named board_hpi_status) ''HPI_STATUS_SIE1msg_FLAG'' = Some HPI_STATUS_SIE1msg_FLAG"
  "map_of host_interrupts ''HUSB_SIE1_INIT_INT'' = Some HUSB_SIE1_INIT_INT"
  "map_of host_interrupts ''HUSB_RESET_INT'' = Some HUSB_RESET_INT"
  "map_of lcp_data ''HUSB_SIE1_pCurrentTDPtr'' = Some HUSB_SIE1_pCurrentTDPtr"
  "map_of lcp_data ''HUSB_pEOT'' = Some HUSB_pEOT"
  "map_of lcp_data ''COMM_INT_NUM'' = Some COMM_INT_NUM"
  "map_of lcp_commands ''COMM_RESET'' = Some COMM_RESET"
  "map_of lcp_commands ''COMM_EXEC_INT'' = Some COMM_EXEC_INT"
  "map_of lcp_commands ''COMM_ACK'' = Some COMM_ACK"
  "map_of lcp_messages ''HUSB_TDListDone'' = Some HUSB_TDListDone"
  by code_simp+

text \<open>\<open>COMM_R0\<close> to \<open>COMM_R13\<close> are the last words of \<^verbatim>\<open>lcp_data.h\<close>; \<^verbatim>\<open>usb.h\<close> numbers the ports as the chip does.\<close>

theorem comm_registers_of_header: "map snd (drop (length lcp_data - 14) lcp_data) = map COMM_R [0..<14]"
  by code_simp

theorem ports_of_usb_h:
  "map snd usb_h_ports = [ucast HPI_DATA, ucast HPI_MAILBOX, ucast HPI_ADDR, ucast HPI_STATUS]"
  "map_of hpi_ports ''HPI_DATA_PORT'' = map_of usb_h_ports ''HPI_DATA''"
  "map_of hpi_ports ''HPI_MBX_PORT'' = map_of usb_h_ports ''HPI_MAILBOX''"
  "map_of hpi_ports ''HPI_ADDR_PORT'' = map_of usb_h_ports ''HPI_ADDR''"
  "map_of hpi_ports ''HPI_STAT_PORT'' = map_of usb_h_ports ''HPI_STATUS''"
  by code_simp+

text \<open>
  The requests of the enumeration are requests of the header, except that of the class request, which is
  a number of the HID class; the bits of every request type have names; the descriptors asked for from
  the device have types of the header.
\<close>

abbreviation stages :: "stage list" where
  "stages \<equiv> [SetAddress, DeviceDesc1, DeviceDesc2, ConfigDesc1, ConfigDesc2, SetConfig, ClassRequest, HidDesc, ReportDesc]"

theorem requests_are_named:
  "[k. k \<leftarrow> stages, drop_bit 8 (td_words k ! 6) \<notin> set (map snd device_requests)] = [ClassRequest]"
  "list_all (\<lambda>k. td_words k ! 6 AND 0xFF AND NOT (mask_of (filter (\<lambda>(n, v). n \<noteq> ''bmRT_RECIPIENT_BITS'') request_types)) = 0) stages"
  "[k. k \<leftarrow> stages, drop_bit 8 (td_words k ! 6) = 6, drop_bit 8 (td_words k ! 7) \<notin> set (map snd descriptor_types)] = [HidDesc, ReportDesc]"
  by code_simp+

section \<open>The look at the interface\<close>

text \<open>
  The configuration is read to the buffer of the second descriptor of its list, at \<^verbatim>\<open>0x055C\<close>. Behind nine
  bytes of configuration, byte 7 of the interface, the protocol, is at \<^verbatim>\<open>0x056C\<close>, where \<open>device_info\<close> reads
  it. The packet size of the endpoint is at offset 4 behind three descriptors of nine bytes, \<^verbatim>\<open>0x057B\<close>; the
  program reads at \<^verbatim>\<open>0x057C\<close>.
\<close>

theorem places_in_the_configuration:
  "td_ConfigDesc2 ! 10 + 9 + the (map_of descriptor_offsets ''O_ID_IF_PROTO'') = 0x056C"
  "td_ConfigDesc2 ! 10 + 9 + 9 + 9 + the (map_of descriptor_offsets ''O_ED_MAX_BYTES'') = 0x057B"
  by code_simp+

text \<open>
  What it reads there is not the word of the device: the same block has just written \<^verbatim>\<open>0x0008\<close> to that
  place. If the chip returns the word last written, the length of every report request is 8, whatever
  the keyboard says. In between the block also points the chip at \<^verbatim>\<open>0x0576\<close> as a transfer list, where the
  five words it has written are no transfer descriptor.
\<close>

theorem report_length_is_own_word:
  assumes "ready (wd s)"
  shows "\<exists>es z. bus (wd (device_info D s)) = bus (wd s) @ es @ [HR 0 z]
     \<and> accesses None (es @ [HR 0 z]) =
         [ReadAt 0x056C, WriteAt 0x0576 0x073F, WriteAt 0x0578 0x8105, WriteAt 0x057A 0x0003,
          WriteAt 0x057C 0x0008, WriteAt 0x057E 0xAC0A, WriteAt HUSB_SIE1_pCurrentTDPtr 0x0576, ReadAt 0x057C]
     \<and> (z = 0x0008 \<longrightarrow> data_size (device_info D s) = 8 \<and> key_td (data_size (device_info D s)) t ! 1 = 8)"
proof -
  obtain c z where b: "bus (wd (device_info D s)) = bus (wd s) @
     [HW 2 0x056C, HR 0 c, HW 2 0x0576, HW 0 0x073F, HW 0 0x8105, HW 0 0x0003, HW 0 0x0008,
      HW 0 0xAC0A, HW 2 HUSB_SIE1_pCurrentTDPtr, HW 0 0x0576, HW 2 0x057C, HR 0 z]"
    and d: "data_size (device_info D s) = ucast (z AND 0xFF)"
    using bus_device_info [OF assms] by metis
  show ?thesis
    by (intro exI [of _ "[HW 2 0x056C, HR 0 c, HW 2 0x0576, HW 0 0x073F, HW 0 0x8105, HW 0 0x0003, HW 0 0x0008,
      HW 0 0xAC0A, HW 2 HUSB_SIE1_pCurrentTDPtr, HW 0 0x0576, HW 2 0x057C]"] exI [of _ z])
      (auto simp: b d key_td_def)
qed

end
