(* ===== verification/UsbLive.thy ===== *)
theory UsbLive
  imports UsbMainProps
begin

text \<open>
  Progress of the main machine. The polling functions of \<^verbatim>\<open>usb.c\<close> are what the machine runs
  through step by step; with a chip that answers, the program reaches the report loop and
  publishes a key code in every round; without a device it waits, and it restarts from the
  beginning when a device comes back.
\<close>

section \<open>The machine runs the polling functions of usb.c\<close>

lemma main_run_Suc: "main_run D (Suc n) (p, s) = main_run D n (main_step D p s)"
  by (simp add: main_machine_def)

lemma main_run_pre: "main_run D n c = (p, s) \<Longrightarrow> main_run D (Suc n) c = main_step D p s"
  by (simp only: iterate_Suc_right) (simp add: main_machine_def)

text \<open>The states of the loop of \<open>UsbWaitTDListDone\<close> after \<open>n\<close> further readings.\<close>

definition after_msg :: "'d env \<Rightarrow> nat \<Rightarrow> 'd vars \<Rightarrow> 'd vars" where
  "after_msg D n s = s\<lparr>msg := fst (msg_after D n (wd s)), wd := snd (msg_after D n (wd s))\<rparr>"

lemma msg_after_Suc_right:
  "msg_after D (Suc n) w = read_sie1_msg D (snd (msg_after D n w))"
  by (simp only: msg_after_def iterate_Suc_right split_beta)

lemma wait_machine:
  assumes first: "\<And>s. main_step D p s = (q, after_msg D 0 s)"
    and again: "\<And>s. msg s \<noteq> HUSB_TDListDone \<Longrightarrow> main_step D q s = (q, after_msg D 0 s)"
    and noisy: "\<And>m. m < n \<Longrightarrow> fst (msg_after D m (wd s)) \<noteq> HUSB_TDListDone"
  shows "main_run D (Suc n) (p, s) = (q, after_msg D n s)"
  using noisy
proof (induction n)
  case 0
  show ?case by (simp add: main_machine_def first)
next
  case (Suc n)
  then have "main_run D (Suc n) (p, s) = (q, after_msg D n s)" by simp
  from main_run_pre [OF this] have "main_run D (Suc (Suc n)) (p, s) = main_step D q (after_msg D n s)" .
  also have "\<dots> = (q, after_msg D (Suc n) s)"
    using Suc.prems [of n] by (subst again) (simp_all add: after_msg_def msg_after_Suc_right)
  finally show ?case .
qed

text \<open>
  The two program points of a transfer that wait for the end of the list implement
  \<open>UsbWaitTDListDone\<close>: when the function returns, the machine gets to the check of the
  transfer in the same world; when it does not return, the machine stays in the loop for ever.
\<close>

lemma transfer_waits_like_UsbWaitTDListDone:
  "case UsbWaitTDListDone D (wd s) of
     Some (v, w) \<Rightarrow> \<exists>n. main_run D n (Xfer k TdFirst, s) = (Xfer k Check, s\<lparr>msg := v, wd := w\<rparr>)
   | None \<Rightarrow> \<forall>n. fst (main_run D (Suc n) (Xfer k TdFirst, s)) = Xfer k TdLoop"
proof -
  note steps = wait_machine [of D "Xfer k TdFirst" "Xfer k TdLoop"]
  show ?thesis
  proof (cases "UsbWaitTDListDone D (wd s)")
    case None
    then have "fst (msg_after D m (wd s)) \<noteq> HUSB_TDListDone" for m
      using wait_never [OF None] by blast
    then have "main_run D (Suc n) (Xfer k TdFirst, s) = (Xfer k TdLoop, after_msg D n s)" for n
      by (intro steps) (simp_all add: after_msg_def split_beta)
    with None show ?thesis by simp
  next
    case (Some r)
    then obtain n where n: "msg_after D n (wd s) = r" "fst r = HUSB_TDListDone"
        "\<forall>m<n. fst (msg_after D m (wd s)) \<noteq> HUSB_TDListDone"
      unfolding UsbWait_char by blast
    then have "main_run D (Suc n) (Xfer k TdFirst, s) = (Xfer k TdLoop, after_msg D n s)"
      by (intro steps) (simp_all add: after_msg_def split_beta)
    from main_run_pre [OF this] n(1,2)
    have "main_run D (Suc (Suc n)) (Xfer k TdFirst, s)
        = (Xfer k Check, s\<lparr>msg := fst r, wd := snd r\<rparr>)"
      by (simp add: after_msg_def)
    with Some show ?thesis by (cases r) (auto simp del: iterate.simps)
  qed
qed

lemma status_unfold:
  "status_loop D w =
     (if fst (IO_read D HPI_STATUS w) AND HPI_STATUS_SIE1msg_FLAG = 0
      then status_loop D (snd (IO_read D HPI_STATUS w)) else Some (snd (IO_read D HPI_STATUS w)))"
  by (subst status_loop.simps) (simp add: split_beta)

lemma status_reaches:
  assumes "status_loop D w = Some w'"
  shows "\<exists>n. main_run D n (Retry RetryPoll, s\<lparr>wd := w\<rparr>) = (Retry RetryRead, s\<lparr>wd := w'\<rparr>)"
  using assms
proof (induction D w w' rule: status_loop.raw_induct [rotated, consumes 1, case_names step])
  case (step loop D w w')
  let ?w = "snd (IO_read D HPI_STATUS w)"
  show ?case
  proof (cases "fst (IO_read D HPI_STATUS w) AND HPI_STATUS_SIE1msg_FLAG = 0")
    case True
    with step(2) have "loop D ?w = Some w'" by (simp add: split_beta)
    from step(1) [OF this]
    obtain n where "main_run D n (Retry RetryPoll, s\<lparr>wd := ?w\<rparr>) = (Retry RetryRead, s\<lparr>wd := w'\<rparr>)"
      by blast
    then have "main_run D (Suc n) (Retry RetryPoll, s\<lparr>wd := w\<rparr>) = (Retry RetryRead, s\<lparr>wd := w'\<rparr>)"
      using True by (simp add: main_machine_def split_beta)
    then show ?thesis by blast
  next
    case False
    with step(2) have "main_run D (Suc 0) (Retry RetryPoll, s\<lparr>wd := w\<rparr>) = (Retry RetryRead, s\<lparr>wd := w'\<rparr>)"
      by (simp add: main_machine_def split_beta)
    then show ?thesis by blast
  qed
qed

lemma status_never:
  "status_loop D (wd s) = None \<Longrightarrow> fst (main_run D n (Retry RetryPoll, s)) = Retry RetryPoll"
proof (induction n arbitrary: s)
  case (Suc n)
  have "fst (IO_read D HPI_STATUS (wd s)) AND HPI_STATUS_SIE1msg_FLAG = 0
      \<and> status_loop D (snd (IO_read D HPI_STATUS (wd s))) = None"
    using Suc.prems by (subst (asm) status_unfold) (simp split: if_splits)
  then show ?case using Suc.IH [of "s\<lparr>wd := snd (IO_read D HPI_STATUS (wd s))\<rparr>"]
    by (simp add: main_machine_def split_beta)
qed simp

text \<open>
  The program points of a failed transfer implement \<open>UsbGetRetryCnt\<close>: when the
  function returns, the machine is back at the label \<open>USB_HOT_PLUG\<close> with its result; when it
  does not return, the machine polls the status register for ever.
\<close>

theorem failed_transfer_runs_UsbGetRetryCnt:
  "case UsbGetRetryCnt D (wd s) of
     Some (v, w) \<Rightarrow>
       \<exists>n. main_run D n (Retry RetryStart, s) = (Up HotPlug, s\<lparr>usb_ctl_val := v, wd := w\<rparr>)
   | None \<Rightarrow> \<forall>n. fst (main_run D (Suc n) (Retry RetryStart, s)) = Retry RetryPoll"
proof -
  define w1 where "w1 = snd (IO_read D HPI_STATUS (wd s))"
  define m where "m = fst (UsbRead D HPI_SIE1_MSG_ADR w1)"
  define w2 where "w2 = snd (UsbRead D HPI_SIE1_MSG_ADR w1)"
  define w3 where "w3 = UsbWrite D HPI_SIE1_MSG_ADR 0 w2"
  let ?read = "\<lambda>w. s\<lparr>usb_ctl_val := fst (read_control_byte D w), wd := snd (read_control_byte D w)\<rparr>"
  have retry: "UsbGetRetryCnt D (wd s) =
     (if m = HUSB_TDListDone then map_option (read_control_byte D) (status_loop D w3)
      else Some (read_control_byte D w2))"
    by (simp add: UsbGetRetryCnt_def split_beta Let_def w1_def m_def w2_def w3_def
        split: option.splits)
  have start: "main_step D (Retry RetryStart) s =
     (if m = HUSB_TDListDone then (Retry RetryPoll, s\<lparr>wd := w3\<rparr>)
      else (Retry RetryRead, s\<lparr>wd := w2\<rparr>))"
    by (simp add: split_beta Let_def w1_def m_def w2_def w3_def)
  have last: "main_step D (Retry RetryRead) (s\<lparr>wd := w\<rparr>) = (Up HotPlug, ?read w)" for w
    by (simp add: split_beta)
  show ?thesis
  proof (cases "m = HUSB_TDListDone")
    case listdone: True
    show ?thesis
    proof (cases "status_loop D w3")
      case None
      then have "fst (main_run D n (Retry RetryPoll, s\<lparr>wd := w3\<rparr>)) = Retry RetryPoll" for n
        by (intro status_never) simp
      with None listdone start show ?thesis by (simp add: retry main_machine_def)
    next
      case (Some w)
      from status_reaches [OF this, of s] obtain n where
        "main_run D n (Retry RetryPoll, s\<lparr>wd := w3\<rparr>) = (Retry RetryRead, s\<lparr>wd := w\<rparr>)" by blast
      with listdone start have "main_run D (Suc n) (Retry RetryStart, s) = (Retry RetryRead, s\<lparr>wd := w\<rparr>)"
        by (simp add: main_machine_def)
      from main_run_pre [OF this] last
      have "main_run D (Suc (Suc n)) (Retry RetryStart, s) = (Up HotPlug, ?read w)" by simp
      then have "\<exists>n. main_run D n (Retry RetryStart, s) = (Up HotPlug, ?read w)" by blast
      with Some listdone show ?thesis by (simp add: retry split_beta)
    qed
  next
    case False
    with start have "main_run D (Suc 0) (Retry RetryStart, s) = (Retry RetryRead, s\<lparr>wd := w2\<rparr>)"
      by (simp add: main_machine_def)
    from main_run_pre [OF this] last
    have "main_run D (Suc (Suc 0)) (Retry RetryStart, s) = (Up HotPlug, ?read w2)" by simp
    then have "\<exists>n. main_run D n (Retry RetryStart, s) = (Up HotPlug, ?read w2)" by blast
    with False show ?thesis by (simp add: retry split_beta)
  qed
qed

section \<open>A chip that answers\<close>

text \<open>
  The environment is a working chip with a device attached, as the software sees it through
  the port: a message is flagged and says that the list is done, commands are acknowledged,
  the control byte of a finished descriptor is \<^verbatim>\<open>0x03\<close>, and one data line of the port is up.
  Nothing is said of the report or of any other word.
\<close>

definition cooperative :: "'d env \<Rightarrow> bool" where
  "cooperative D \<longleftrightarrow> (\<forall>w.
     fst (IO_read D HPI_STATUS w) AND HPI_STATUS_SIE1msg_FLAG \<noteq> 0
     \<and> fst (IO_read D HPI_MAILBOX w) = COMM_ACK
     \<and> fst (UsbRead D HPI_SIE1_MSG_ADR w) = HUSB_TDListDone
     \<and> fst (UsbRead D 0x0508 w) = 0x03
     \<and> fst (UsbRead D USB1_CTL_REG w) AND (A_DP_STAT OR A_DM_STAT) \<noteq> 0)"

lemma and_zero_word: "x AND y \<noteq> 0 \<Longrightarrow> x \<noteq> (0 :: u16)"
  by auto

lemma coop_simps:
  assumes "cooperative D"
  shows "(fst (IO_read D HPI_STATUS w) AND HPI_STATUS_SIE1msg_FLAG = 0) = False"
    and "(fst (IO_read D HPI_STATUS w) = 0) = False"
    and "fst (IO_read D HPI_MAILBOX w) = COMM_ACK"
    and "(fst (UsbRead D USB1_CTL_REG w) AND 0x3000 = 0) = False"
    and "fst (read_sie1_msg D w) = HUSB_TDListDone"
    and "fst (read_td_result D w) = 0x03"
  using assms and_zero_word [of "fst (IO_read D HPI_STATUS w)" HPI_STATUS_SIE1msg_FLAG]
  by (auto simp: cooperative_def read_sie1_msg_def read_td_result_def UsbRead_def
      Let_def split_beta)

text \<open>What holds at a program point when the chip has been answering.\<close>

fun answered :: "pc \<Rightarrow> 'd vars \<Rightarrow> bool" where
  "answered (Xfer k p) s = (p = TdLoop \<longrightarrow> msg s = HUSB_TDListDone)"
| "answered (Key p) s =
     ((p = KeyLoop \<longrightarrow> msg s = HUSB_TDListDone) \<and> (p = KeyLost \<longrightarrow> \<not> absent s))"
| "answered _ s = True"

definition live :: "pc \<Rightarrow> 'd vars \<Rightarrow> bool" where
  "live p s \<longleftrightarrow> main_inv (p, s) \<and> answered p s"

text \<open>From one program point to another in \<open>n\<close> steps, publishing \<open>j\<close> key codes.\<close>

definition passes :: "'d env \<Rightarrow> nat \<Rightarrow> nat \<Rightarrow> pc \<Rightarrow> pc \<Rightarrow> bool" where
  "passes D n j p q \<longleftrightarrow> (\<forall>s. live p s \<longrightarrow>
     (\<exists>s'. main_run D n (p, s) = (q, s') \<and> live q s'
         \<and> keys_published (wd s') = keys_published (wd s) + j))"

lemma passes_trans [trans]:
  "passes D m i p q \<Longrightarrow> passes D n j q r \<Longrightarrow> passes D (m + n) (i + j) p r"
  unfolding passes_def iterate_add by (metis add.assoc)

lemma passes_step:
  assumes "\<And>s. live p s \<Longrightarrow> fst (main_step D p s) = q \<and> answered q (snd (main_step D p s))
     \<and> keys_published (wd (snd (main_step D p s))) = keys_published (wd s) + j"
  shows "passes D 1 j p q"
  unfolding passes_def
proof (intro allI impI)
  fix s :: "'a vars"
  assume s: "live p s"
  obtain s' where s': "main_step D p s = (q, s')" using assms [OF s] by (metis prod.collapse)
  have "main_inv (main_machine D (p, s))" using s unfolding live_def by (intro main_keeps) simp
  with s s' assms [OF s] show "\<exists>s'. main_run D 1 (p, s) = (q, s') \<and> live q s'
         \<and> keys_published (wd s') = keys_published (wd s) + j"
    by (simp add: live_def main_machine_def)
qed

lemma keys_core: "keys_published w = fst (snd (wcore w))"
  by (simp add: keys_published_def core_def wmon_def monitor_keys)

lemma live_facts:
  assumes "live p s" "p \<noteq> Up Begin"
  shows "ready (wd s)" "port_known p \<Longrightarrow> ctl_reg s = USB1_CTL_REG \<and> no_device s = 0x3000"
  using assms by (auto simp: live_def main_inv_def)

lemmas live_simps = coop_simps block_simps keys_core live_facts

lemma bus_empty: "trace w = [] \<Longrightarrow> bus w = []"
  by (simp add: bus_def)

lemma all_ones_u16: "(x :: u16) AND 0xFFFF = x"
proof -
  have "(0xFFFF :: u16) = - 1" by simp
  then show ?thesis by (simp only: and.right_neutral)
qed

lemma passes_begin: "passes D 1 0 (Up Begin) (Up HotPlug)"
  by (intro passes_step)
    (auto simp: live_def main_inv_def main_start_def keys_published_def bus_IO_init bus_empty)

lemma passes_up:
  assumes "cooperative D"
  shows "passes D 1 0 (Up HotPlug) (Up Sie1Wait)" "passes D 1 0 (Up Sie1Wait) (Up Sie1Ack)"
    "passes D 1 0 (Up Sie1Ack) (Up HusbAck)" "passes D 1 0 (Up HusbAck) (Port Detect)"
    "passes D 1 0 (Port Detect) (Xfer SetAddress Send)"
  using assms by (intro passes_step; auto simp: live_simps all_ones_u16)+

lemma passes_xfer:
  assumes "cooperative D"
  shows "passes D 1 0 (Xfer k Send) (Xfer k Poll)" "passes D 1 0 (Xfer k Poll) (Xfer k TdFirst)"
    "passes D 1 0 (Xfer k TdFirst) (Xfer k TdLoop)" "passes D 1 0 (Xfer k TdLoop) (Xfer k Check)"
  using assms by (intro passes_step; auto simp: live_simps live_def [of "Xfer k TdLoop"])+

lemma passes_key:
  assumes "cooperative D"
  shows "passes D 1 0 (Key KeyStart) (Key KeyPoll)" "passes D 1 0 (Key KeyPoll) (Key KeyWait)"
    "passes D 1 0 (Key KeyWait) (Key KeyMsg)" "passes D 1 0 (Key KeyMsg) (Key KeyLoop)"
    "passes D 1 0 (Key KeyLoop) (Key KeyRead)" "passes D 1 0 (Key KeyLost) (Key KeyPoll)"
  using assms by (intro passes_step; auto simp: live_simps live_def [of "Key KeyLoop"]
      live_def [of "Key KeyLost"])+

lemma passes_check:
  assumes "cooperative D"
  shows "passes D 1 0 (Xfer k Check) (next_stage k)"
  using assms
  by (intro passes_step; cases k; auto simp: live_simps)

lemma passes_info: "passes D 1 0 DevInfo (Xfer SetConfig Send)"
  by (intro passes_step) (auto simp: live_simps)

lemma passes_read:
  assumes "cooperative D"
  shows "passes D 1 1 (Key KeyRead) (Key KeyLost)"
proof (intro passes_step)
  fix s :: "'a vars"
  assume s: "live (Key KeyRead) s"
  then have "fst (wcore (wd s)) = replicate 9 0x03"
    by (auto simp: live_def main_inv_def acks_fit_def core_def)
  moreover have "\<not> absent (publish_key D s)"
    using assms live_facts [OF s] by (simp add: publish_key_def block_simps coop_simps)
  ultimately show "fst (main_step D (Key KeyRead) s) = Key KeyLost
     \<and> answered (Key KeyLost) (snd (main_step D (Key KeyRead) s))
     \<and> keys_published (wd (snd (main_step D (Key KeyRead) s))) = keys_published (wd s) + 1"
    using live_facts [OF s] by (simp add: block_simps keys_core)
qed

lemma passes_transfer:
  assumes "cooperative D"
  shows "passes D 5 0 (Xfer k Send) (next_stage k)"
proof -
  note x = passes_xfer [OF assms, of k]
  note x(1) also note x(2) also note x(3) also note x(4) also note passes_check [OF assms, of k]
  finally show ?thesis by (simp add: numeral_eq_Suc)
qed

lemma passes_round:
  assumes "cooperative D"
  shows "passes D 6 1 (Key KeyPoll) (Key KeyPoll)"
proof -
  note k = passes_key [OF assms]
  note k(2) also note k(3) also note k(4) also note k(5)
  also note passes_read [OF assms] also note k(6)
  finally show ?thesis by (simp add: numeral_eq_Suc)
qed

lemma passes_rounds:
  assumes "cooperative D"
  shows "passes D (6 * r) r (Key KeyPoll) (Key KeyPoll)"
proof (induction r)
  case 0
  show ?case by (simp add: passes_def)
next
  case (Suc r)
  from passes_trans [OF this passes_round [OF assms]] show ?case by (simp add: add.commute)
qed

lemma passes_restart:
  assumes "cooperative D"
  shows "passes D 52 0 (Up HotPlug) (Key KeyPoll)"
proof -
  note u = passes_up [OF assms]
  note x = passes_transfer [OF assms]
  note u(1) also note u(2) also note u(3) also note u(4) also note u(5)
  also note x [of SetAddress, unfolded next_stage.simps]
  also note x [of DeviceDesc1, unfolded next_stage.simps]
  also note x [of DeviceDesc2, unfolded next_stage.simps]
  also note x [of ConfigDesc1, unfolded next_stage.simps]
  also note x [of ConfigDesc2, unfolded next_stage.simps]
  also note passes_info
  also note x [of SetConfig, unfolded next_stage.simps]
  also note x [of ClassRequest, unfolded next_stage.simps]
  also note x [of HidDesc, unfolded next_stage.simps]
  also note x [of ReportDesc, unfolded next_stage.simps]
  also note passes_key(1) [OF assms]
  finally show ?thesis by simp
qed

lemma passes_enumeration:
  "cooperative D \<Longrightarrow> passes D 53 0 (Up Begin) (Key KeyPoll)"
  using passes_trans [OF passes_begin passes_restart] by simp

lemma enumeration_and_rounds:
  assumes "cooperative D" "main_start c"
  shows "fst (main_run D (53 + 6 * r) c) = Key KeyPoll
     \<and> keys_published (wd (snd (main_run D (53 + 6 * r) c))) = r"
proof -
  obtain s where c: "c = (Up Begin, s)" using assms(2) by (cases c) (auto simp: main_start_def)
  have "live (Up Begin) s" using assms(2) c by (simp add: live_def main_starts)
  moreover have "keys_published (wd s) = 0"
    using assms(2) by (simp add: c keys_published_def main_start_def bus_def)
  ultimately show ?thesis
    using passes_trans [OF passes_enumeration passes_rounds, OF assms(1,1), of r]
    unfolding passes_def c by (metis add_0 fst_conv snd_conv)
qed


text \<open>
  A small chip with a keyboard that reports the key code 26 (W): it latches address and
  data, keeps the address pointer, and answers the words the program asks for.
\<close>

record sim =
  sim_addr :: "2 word"
  sim_data :: u16
  sim_ptr :: u16

definition sim_answer :: "sim \<Rightarrow> u16" where
  "sim_answer c =
     (if sim_addr c = 3 then HPI_STATUS_SIE1msg_FLAG
      else if sim_addr c = 1 then COMM_ACK
      else if sim_ptr c = HPI_SIE1_MSG_ADR then HUSB_TDListDone
      else if sim_ptr c = 0x0508 then 0x03
      else if sim_ptr c = USB1_CTL_REG then A_DP_STAT
      else if sim_ptr c = 0x051E then 26
      else 0)"

fun sim_wr :: "pio \<Rightarrow> u32 \<Rightarrow> sim \<Rightarrow> sim" where
  "sim_wr Otg_hpi_address v c = c\<lparr>sim_addr := ucast v\<rparr>"
| "sim_wr Otg_hpi_data v c = c\<lparr>sim_data := ucast v\<rparr>"
| "sim_wr Otg_hpi_w v c = (if v = 0 \<and> sim_addr c = 2 then c\<lparr>sim_ptr := sim_data c\<rparr> else c)"
| "sim_wr _ v c = c"

definition sim_env :: "sim env" where
  "sim_env = \<lparr>env_wr = sim_wr, env_rd = (\<lambda>p c. (ucast (sim_answer c), c)),
     env_sleep = (\<lambda>n c. c)\<rparr>"

definition sim0 :: sim where
  "sim0 = \<lparr>sim_addr = 0, sim_data = 0, sim_ptr = 0\<rparr>"

lemma sim_cooperative: "cooperative sim_env"
  by (simp add: cooperative_def UsbRead_def IO_read_def IO_write_def pio_write_def pio_read_def
      sim_env_def sim_answer_def Let_def)



theorem report_toggle_alternates_witness:
  "\<exists>s. main_run sim_env 60 (Up Begin, start_vars sim0) = (Key KeyWait, s)
     \<and> td_toggle (td_of (key_td (data_size s) (toggle s)) 0x500) = odd (keys_published (wd s))"
proof -
  obtain s where "main_run sim_env (53 + 6 * 1) (Up Begin, start_vars sim0) = (Key KeyPoll, s)"
    using enumeration_and_rounds [OF sim_cooperative start_ok, of 1 sim0] by (metis prod.collapse)
  from main_run_pre [OF this] obtain s' where
    s': "main_run sim_env 60 (Up Begin, start_vars sim0) = (Key KeyWait, s')"
    by (simp add: Let_def del: iterate.simps)
  with report_toggle_alternates [OF start_ok s'] show ?thesis by blast
qed

section \<open>No device on the port\<close>

text \<open>The port never shows a device.\<close>

definition unplugged :: "'d env \<Rightarrow> bool" where
  "unplugged D \<longleftrightarrow> (\<forall>w. fst (UsbRead D USB1_CTL_REG w) AND (A_DP_STAT OR A_DM_STAT) = 0)"

fun looking :: "pc \<Rightarrow> 'd vars \<Rightarrow> bool" where
  "looking (Up p) s = True"
| "looking (Port p) s = (p = Detect \<or> absent s)"
| "looking (Key p) s = ((p = KeyGone \<or> p = KeyLost) \<and> absent s)"
| "looking _ s = False"

lemma looking_step:
  assumes "unplugged D" "main_inv (p, s)" "looking p s"
  shows "looking (fst (main_step D p s)) (snd (main_step D p s))
     \<and> (\<forall>q. p = Key q \<longrightarrow> (\<exists>q. fst (main_step D p s) = Key q))
     \<and> keys_published (wd (snd (main_step D p s))) = keys_published (wd s)"
proof (cases "p = Up Begin")
  case True
  with assms show ?thesis
    by (auto simp: main_inv_def main_start_def keys_published_def bus_IO_init bus_empty)
next
  case begun: False
  with assms(2) have r: "ready (wd s)"
    "port_known p \<Longrightarrow> ctl_reg s = USB1_CTL_REG \<and> no_device s = A_DP_STAT OR A_DM_STAT"
    by (auto simp: main_inv_def)
  show ?thesis
  proof (cases p)
    case (Up u)
    with assms begun r show ?thesis by (cases u) (auto simp: block_simps keys_core)
  next
    case (Port u)
    with assms r show ?thesis by (cases u) (auto simp: block_simps keys_core unplugged_def)
  next
    case (Key u)
    with assms r show ?thesis by (cases u) (auto simp: block_simps keys_core unplugged_def)
  qed (use assms in auto)
qed

lemma looking_run:
  assumes "unplugged D" "main_inv c" "looking (fst c) (snd c)"
  shows "looking (fst (main_run D n c)) (snd (main_run D n c))
     \<and> ((\<exists>q. fst c = Key q) \<longrightarrow> (\<exists>q. fst (main_run D n c) = Key q))
     \<and> keys_published (wd (snd (main_run D n c))) = keys_published (wd (snd c))"
proof (induction n)
  case (Suc n)
  obtain p s where ps: "main_run D n c = (p, s)" by fastforce
  then have inv: "main_inv (p, s)" using main.inv_run [OF assms(2)] by metis
  have "main_run D (Suc n) c = main_step D p s"
    using ps by (rule main_run_pre)
  with looking_step [OF assms(1) inv] Suc ps show ?case by auto
qed (use assms in simp)

text \<open>
  As long as no device is on the port, the program stays in the bring-up and
  detection code: it never starts a control transfer and never publishes a key code.
\<close>

theorem no_device_no_transfer:
  assumes "main_start c" and "unplugged D"
  shows "\<not> (\<exists>k q. fst (main_run D n c) = Xfer k q)
     \<and> keys_published (wd (snd (main_run D n c))) = 0"
proof -
  have "looking (fst c) (snd c)" using assms(1) by (simp add: main_start_def)
  from looking_run [OF assms(2) main_starts [OF assms(1)] this, of n] show ?thesis
    using assms(1) by (auto simp: main_start_def keys_published_def bus_empty)
qed

definition gone_env :: "sim env" where
  "gone_env = sim_env\<lparr>env_rd := (\<lambda>p c.
     (ucast (if sim_ptr c = USB1_CTL_REG \<and> sim_addr c = 0 then 0 else sim_answer c), c))\<rparr>"

lemma gone_unplugged: "unplugged gone_env"
  by (simp add: unplugged_def UsbRead_def IO_read_def IO_write_def pio_write_def pio_read_def
      gone_env_def sim_env_def Let_def)

theorem no_device_no_transfer_witness:
  "keys_published (wd (snd (main_run gone_env 1000 (Up Begin, start_vars sim0)))) = 0"
  using no_device_no_transfer [OF start_ok gone_unplugged, of 1000 sim0] by simp

text \<open>The environment may change at any step: the states some sequence of environments leads to.\<close>

inductive reachable :: "pc \<times> 'd vars \<Rightarrow> bool" where
  start: "main_start c \<Longrightarrow> reachable c"
| step: "reachable c \<Longrightarrow> reachable (main_machine D c)"

lemma reachable_inv: "reachable c \<Longrightarrow> main_inv c"
  by (induction rule: reachable.induct) (auto intro: main_starts main_keeps)

lemma reachable_run: "reachable c \<Longrightarrow> reachable (main_run D n c)"
proof (induction n)
  case (Suc n)
  then show ?case by (simp only: iterate_Suc_right) (auto intro: reachable.step)
qed simp

lemma removal_loop:
  assumes "unplugged D" "main_inv (Key KeyGone, s)" "absent s" "hot_plug_count s = 0" "n \<le> 7"
  shows "\<exists>s'. main_run D n (Key KeyGone, s) = (Key KeyGone, s') \<and> absent s'
     \<and> hot_plug_count s' = of_nat n"
  using assms(5)
proof (induction n)
  case (Suc n)
  then obtain s' where s': "main_run D n (Key KeyGone, s) = (Key KeyGone, s')" "absent s'"
    "hot_plug_count s' = of_nat n" by auto
  have "main_inv (Key KeyGone, s')" using main.inv_run [OF assms(2), of D n] s' by simp
  then have "ctl_reg s' = USB1_CTL_REG" "no_device s' = A_DP_STAT OR A_DM_STAT"
    by (auto simp: main_inv_def)
  moreover have "(of_nat n :: u8) < 7" using Suc.prems by (simp add: word_less_nat_alt unat_of_nat)
  ultimately show ?case using main_run_pre [OF s'(1)] s' assms(1)
    by (simp add: block_simps unplugged_def del: iterate.simps)
qed (use assms in simp)

lemma removal_starts:
  assumes "main_inv (Key KeyRead, s)" "unplugged D"
  obtains s' where "main_machine D (Key KeyRead, s) = (Key KeyGone, s')" "absent s'"
    "hot_plug_count s' = 0" "main_inv (Key KeyGone, s')"
    "keys_published (wd s') = keys_published (wd s) + 1"
proof -
  let ?s = "(publish_key D s)\<lparr>hot_plug_count := 0\<rparr>"
  have r: "ready (wd s)" "ctl_reg s = USB1_CTL_REG" "no_device s = A_DP_STAT OR A_DM_STAT"
    using assms(1) by (auto simp: main_inv_def)
  then have gone: "absent (publish_key D s)"
    using assms(2) by (simp add: publish_key_def block_simps unplugged_def)
  then have step: "main_machine D (Key KeyRead, s) = (Key KeyGone, ?s)"
    by (simp add: main_machine_def Let_def)
  have "main_inv (Key KeyGone, ?s)" using main_keeps [OF assms(1), of D] step by simp
  moreover have "keys_published (wd ?s) = keys_published (wd s) + 1"
    using r by (simp add: keys_core block_simps)
  ultimately show ?thesis using step gone by (intro that [of ?s]) simp_all
qed

lemma removal_noticed:
  assumes "main_inv (Key KeyRead, s)" "unplugged D"
  obtains s' where "main_run D 9 (Key KeyRead, s) = (Key KeyLost, s')" "absent s'"
proof -
  obtain s1 where s1: "main_machine D (Key KeyRead, s) = (Key KeyGone, s1)" "absent s1"
    "hot_plug_count s1 = 0" "main_inv (Key KeyGone, s1)"
    using removal_starts [OF assms] by blast
  from removal_loop [OF assms(2) s1(4,2,3), of 7]
  obtain s' where s': "main_run D 7 (Key KeyGone, s1) = (Key KeyGone, s')" "absent s'"
      "hot_plug_count s' = 7" by auto
  have "main_run D (Suc 7) (Key KeyGone, s1) = (Key KeyLost, s')"
    using main_run_pre [OF s'(1)] s' by (simp del: iterate.simps)
  then have "main_run D 9 (Key KeyRead, s) = (Key KeyLost, s')"
    using iterate_add [of "main_machine D" 1 8 "(Key KeyRead, s)"] s1(1) by simp
  then show ?thesis using s'(2) by (rule that)
qed


lemma reach_read: "\<exists>s :: sim vars. reachable (Key KeyRead, s)"
proof -
  note k = passes_key [OF sim_cooperative]
  note passes_enumeration [OF sim_cooperative]
  also note k(2) also note k(3) also note k(4) also note k(5)
  finally have "passes sim_env 57 0 (Up Begin) (Key KeyRead)" by simp
  moreover have "live (Up Begin) (start_vars sim0)"
    by (simp add: live_def main_starts start_ok)
  ultimately obtain s where "main_run sim_env 57 (Up Begin, start_vars sim0) = (Key KeyRead, s)"
    unfolding passes_def by blast
  then show ?thesis using reachable_run [OF reachable.start [OF start_ok]] by metis
qed



lemma reach_lost: "\<exists>s :: sim vars. reachable (Key KeyLost, s) \<and> absent s"
proof -
  obtain s :: "sim vars" where s: "reachable (Key KeyRead, s)" using reach_read by blast
  obtain s' where "main_run gone_env 9 (Key KeyRead, s) = (Key KeyLost, s')" "absent s'"
    using removal_noticed [OF reachable_inv [OF s] gone_unplugged] by blast
  then show ?thesis using reachable_run [OF s] by metis
qed


end
