(* ===== verification/HpiIntf.thy ===== *)
theory HpiIntf
  imports HpiBus
begin

text \<open>
  The circuit between the processor's PIO registers and the pins of the USB chip
  (\<^verbatim>\<open>hpi_io_intf.sv\<close>): every output is a register of the 50 MHz clock, the data bus is driven only
  while the program holds its write strobe low. A board joins the circuit with a chip; it is an
  environment of the keyboard program in the sense of \<open>HpiBus\<close>, so that all that is proved for
  every environment holds with the circuit in between. The lemmas show what the chip sees of one
  \<open>IO_write\<close>, and what \<open>IO_read\<close> sees of the chip.
\<close>

section \<open>The circuit\<close>

record hpi_regs =
  from_sw_data_out_buffer :: u16
  OTG_ADDR :: "2 word"
  OTG_RD_N :: bool
  OTG_WR_N :: bool
  OTG_CS_N :: bool
  OTG_RST_N :: bool
  from_sw_data_in :: u16

text \<open>
  The inputs \<^verbatim>\<open>from_sw_...\<close> are the levels of the PIO registers, a record \<open>pins\<close>. The bus is driven by
  the circuit, or else it carries what is on the wire.
\<close>

definition drives :: "pins \<Rightarrow> hpi_regs \<Rightarrow> u16 option" where
  "drives p r = (if \<not> wr_n p then Some (from_sw_data_out_buffer r) else None)"

definition OTG_DATA :: "pins \<Rightarrow> hpi_regs \<Rightarrow> u16 \<Rightarrow> u16" where
  "OTG_DATA p r outside = (case drives p r of Some v \<Rightarrow> v | None \<Rightarrow> outside)"

definition hpi_step :: "bool \<Rightarrow> pins \<Rightarrow> u16 \<Rightarrow> hpi_regs \<Rightarrow> hpi_regs" where
  "hpi_step Reset p outside r =
     (if Reset
      then \<lparr>from_sw_data_out_buffer = 0, OTG_ADDR = 0, OTG_RD_N = True, OTG_WR_N = True, OTG_CS_N = True,
            OTG_RST_N = False, from_sw_data_in = 0\<rparr>
      else \<lparr>from_sw_data_out_buffer = p_data p, OTG_ADDR = p_addr p, OTG_RD_N = rd_n p, OTG_WR_N = wr_n p,
            OTG_CS_N = cs_n p, OTG_RST_N = rst_n p, from_sw_data_in = OTG_DATA p r outside\<rparr>)"

text \<open>What the chip sees of the registers.\<close>

definition chip_side :: "hpi_regs \<Rightarrow> pins" where
  "chip_side r =
     \<lparr>cs_n = OTG_CS_N r, rd_n = OTG_RD_N r, wr_n = OTG_WR_N r, rst_n = OTG_RST_N r, p_addr = OTG_ADDR r,
      p_data = from_sw_data_out_buffer r\<rparr>"

section \<open>A board\<close>

text \<open>
  The chip is a parameter: what it puts on the wire for the pins that it sees, and how a clock cycle
  with these pins, and with the bus driven or not, changes it. The cycles between one access of the
  program and the next are a parameter as well, \<open>gaps\<close>.
\<close>

record 'c chip =
  wire :: "pins \<Rightarrow> 'c \<Rightarrow> u16"
  clk :: "pins \<Rightarrow> u16 option \<Rightarrow> 'c \<Rightarrow> 'c"

record 'c board =
  sw_pins :: pins
  hpi :: hpi_regs
  chip_state :: 'c
  accesses :: nat
  lines :: "(pins \<times> u16 option) list"   \<comment> \<open>what the chip has seen, cycle by cycle\<close>

definition board_cycle :: "'c chip \<Rightarrow> 'c board \<Rightarrow> 'c board" where
  "board_cycle C b =
     (let q = chip_side (hpi b); d = drives (sw_pins b) (hpi b)
      in b\<lparr>hpi := hpi_step False (sw_pins b) (wire C q (chip_state b)) (hpi b),
           chip_state := clk C q d (chip_state b),
           lines := lines b @ [(q, d)]\<rparr>)"

text \<open>An access of the program and the cycles that follow it. The program reads only the data register.\<close>

definition access :: "(nat \<Rightarrow> nat) \<Rightarrow> 'c chip \<Rightarrow> event \<Rightarrow> 'c board \<Rightarrow> 'c board" where
  "access gaps C e b =
     iterate (board_cycle C) (gaps (accesses b))
       (b\<lparr>sw_pins := pin_step (sw_pins b) e, accesses := accesses b + 1\<rparr>)"

definition board_env :: "(nat \<Rightarrow> nat) \<Rightarrow> 'c chip \<Rightarrow> 'c board env" where
  "board_env gaps C =
     \<lparr>env_wr = (\<lambda>p v. access gaps C (PWr p v)),
      env_rd = (\<lambda>p b. (if p = Otg_hpi_data then ucast (from_sw_data_in (hpi b)) else 0, access gaps C (PRd p 0) b)),
      env_sleep = (\<lambda>us. iterate (board_cycle C) (50 * us))\<rparr>"

section \<open>The levels stay for some cycles\<close>

text \<open>One cycle as the chip sees it: the program's pins \<open>p\<close>, the chip's pins \<open>q\<close>.\<close>

definition seen :: "pins \<Rightarrow> pins \<Rightarrow> pins \<times> u16 option" where
  "seen p q = (q, if wr_n p then None else Some (p_data q))"

lemma chip_side_step [simp]: "chip_side (hpi_step False p x r) = p"
  by (simp add: chip_side_def hpi_step_def)

lemma drives_seen: "(chip_side r, drives p r) = seen p (chip_side r)"
  by (simp add: drives_def seen_def chip_side_def)

lemma cycle_fields [simp]:
  "sw_pins (board_cycle C b) = sw_pins b" "accesses (board_cycle C b) = accesses b"
  "chip_side (hpi (board_cycle C b)) = sw_pins b"
  "lines (board_cycle C b) = lines b @ [seen (sw_pins b) (chip_side (hpi b))]"
  by (simp_all add: board_cycle_def Let_def drives_seen)

lemma settled_run:
  "chip_side (hpi b) = sw_pins b \<Longrightarrow>
   sw_pins (iterate (board_cycle C) n b) = sw_pins b \<and> chip_side (hpi (iterate (board_cycle C) n b)) = sw_pins b
   \<and> accesses (iterate (board_cycle C) n b) = accesses b
   \<and> lines (iterate (board_cycle C) n b) = lines b @ replicate n (seen (sw_pins b) (sw_pins b))"
proof (induction n arbitrary: b)
  case (Suc n)
  from Suc.IH [of "board_cycle C b"] Suc.prems show ?case by simp
qed simp

lemma access_run:
  assumes "0 < gaps (accesses b)" and "p = pin_step (sw_pins b) e" and "q = chip_side (hpi b)"
  shows "sw_pins (access gaps C e b) = p" "chip_side (hpi (access gaps C e b)) = p"
    "accesses (access gaps C e b) = accesses b + 1"
    "lines (access gaps C e b) = lines b @ seen p q # replicate (gaps (accesses b) - 1) (seen p p)"
proof -
  obtain n where n: "gaps (accesses b) = Suc n" using assms(1) by (cases "gaps (accesses b)") auto
  let ?b = "board_cycle C (b\<lparr>sw_pins := p, accesses := accesses b + 1\<rparr>)"
  have "access gaps C e b = iterate (board_cycle C) n ?b" by (simp add: access_def n assms(2))
  then show "sw_pins (access gaps C e b) = p" "chip_side (hpi (access gaps C e b)) = p"
    "accesses (access gaps C e b) = accesses b + 1"
    "lines (access gaps C e b) = lines b @ seen p q # replicate (gaps (accesses b) - 1) (seen p p)"
    using settled_run [of ?b C n] by (simp_all add: n assms(3))
qed

text \<open>The chip has seen its lines.\<close>

definition chip_after :: "'c chip \<Rightarrow> (pins \<times> u16 option) list \<Rightarrow> 'c \<Rightarrow> 'c" where
  "chip_after C xs c = fold (\<lambda>(q, d). clk C q d) xs c"

definition grows :: "'c chip \<Rightarrow> 'c board \<Rightarrow> 'c board \<Rightarrow> bool" where
  "grows C b b' \<longleftrightarrow> (\<exists>xs. lines b' = lines b @ xs \<and> chip_state b' = chip_after C xs (chip_state b))"

lemma grows_refl: "grows C b b" "grows C b (b\<lparr>sw_pins := p, accesses := n\<rparr>)"
  by (auto simp: grows_def chip_after_def)

lemma grows_trans: "grows C a b \<Longrightarrow> grows C b c \<Longrightarrow> grows C a c"
  by (fastforce simp: grows_def chip_after_def)

lemma grows_cycle: "grows C b (board_cycle C b)"
  by (auto simp: grows_def chip_after_def board_cycle_def Let_def)

lemma grows_iterate: "grows C b (iterate (board_cycle C) n b)"
proof (induction n arbitrary: b)
  case (Suc n)
  show ?case using grows_trans [OF grows_cycle Suc.IH] by simp
qed (simp add: grows_refl)

lemma grows_access: "grows C b (access gaps C e b)"
  unfolding access_def using grows_trans [OF grows_refl(2) grows_iterate] by blast

lemma chip_at: "grows C b b' \<Longrightarrow> lines b' = lines b @ xs \<Longrightarrow> chip_state b' = chip_after C xs (chip_state b)"
  by (auto simp: grows_def)

section \<open>What the chip latches\<close>

text \<open>
  The effect of an event of the program on the board, and a chip that, selected for writing, keeps
  the last word driven on the bus and takes it when the strobe or the selection ends.
\<close>

fun board_event :: "(nat \<Rightarrow> nat) \<Rightarrow> 'c chip \<Rightarrow> event \<Rightarrow> 'c board \<Rightarrow> 'c board" where
  "board_event gaps C (PWr p v) b = access gaps C (PWr p v) b"
| "board_event gaps C (PRd p v) b = access gaps C (PRd p 0) b"
| "board_event gaps C (Slept us) b = iterate (board_cycle C) (50 * us) b"

type_synonym latch = "(2 word \<times> u16) option \<times> (2 word \<times> u16) list"

fun latch_step :: "pins \<times> u16 option \<Rightarrow> latch \<Rightarrow> latch" where
  "latch_step (q, d) (pending, taken) =
     (if \<not> cs_n q \<and> \<not> wr_n q
      then (case d of Some v \<Rightarrow> (Some (p_addr q, v), taken) | None \<Rightarrow> (pending, taken))
      else (None, case pending of Some x \<Rightarrow> taken @ [x] | None \<Rightarrow> taken))"

definition latched :: "(pins \<times> u16 option) list \<Rightarrow> (2 word \<times> u16) list" where
  "latched xs = snd (fold latch_step xs (None, []))"

fun writes :: "bus_event list \<Rightarrow> (2 word \<times> u16) list" where
  "writes [] = []"
| "writes (HW a d # es) = (a, d) # writes es"
| "writes (_ # es) = writes es"

lemma writes_append: "writes (xs @ ys) = writes xs @ writes ys"
  by (induction xs rule: writes.induct) auto

text \<open>Between two events the latch holds the word of a write that is under way.\<close>

definition under_way :: "pins \<Rightarrow> (2 word \<times> u16) option" where
  "under_way p = (if \<not> cs_n p \<and> \<not> wr_n p then Some (p_addr p, p_data p) else None)"

lemma latch_seen:
  "latch_step (seen p q) (pending, taken) =
     (if \<not> cs_n q \<and> \<not> wr_n q
      then (if wr_n p then (pending, taken) else (Some (p_addr q, p_data q), taken))
      else (None, case pending of Some x \<Rightarrow> taken @ [x] | None \<Rightarrow> taken))"
  by (simp add: seen_def)

lemma latch_settled:
  "fold latch_step (replicate n (seen p p)) (under_way p, taken) = (under_way p, taken)"
proof (induction n)
  case (Suc n)
  have "latch_step (seen p p) (under_way p, taken) = (under_way p, taken)"
    by (simp add: latch_seen under_way_def)
  then show ?case using Suc by (simp del: fold_replicate)
qed simp

lemma writes_out:
  "writes (bus_out p e) =
     (case e of PWr Otg_hpi_w v \<Rightarrow> (if \<not> cs_n p \<and> \<not> wr_n p \<and> odd v then [(p_addr p, p_data p)] else []) | _ \<Rightarrow> [])"
  by (cases "(p, e)" rule: bus_out.cases) auto

text \<open>The two kinds of line an event makes.\<close>

lemma latch_event:
  assumes "strobe_safe p e"
  shows "latch_step (seen (pin_step p e) (pin_step p e)) (latch_step (seen (pin_step p e) p) (under_way p, taken)) =
    (under_way (pin_step p e), taken @ writes (bus_out p e))"
proof (cases e)
  case (PWr r v)
  then show ?thesis using assms by (cases r) (auto simp: latch_seen under_way_def writes_out)
next
  case (PRd r v)
  then show ?thesis using assms by (cases r) (auto simp: latch_seen under_way_def writes_out)
next
  case (Slept n)
  then show ?thesis by (auto simp: latch_seen under_way_def writes_out)
qed

definition settled :: "'c board \<Rightarrow> bool" where
  "settled b \<longleftrightarrow> chip_side (hpi b) = sw_pins b"

lemma board_event_latch:
  assumes "settled b" "\<forall>i. 2 \<le> gaps i" "strobe_safe (sw_pins b) e"
  shows "settled (board_event gaps C e b) \<and> sw_pins (board_event gaps C e b) = pin_step (sw_pins b) e
     \<and> (\<exists>xs. lines (board_event gaps C e b) = lines b @ xs
         \<and> (\<forall>taken. fold latch_step xs (under_way (sw_pins b), taken) =
               (under_way (pin_step (sw_pins b) e), taken @ writes (bus_out (sw_pins b) e))))"
proof -
  let ?p = "sw_pins b"
  have acc: ?thesis if e': "board_event gaps C e b = access gaps C e' b" "pin_step ?p e' = pin_step ?p e" for e'
  proof -
    define p' where "p' = pin_step ?p e"
    define k where "k = gaps (accesses b) - 2"
    have k: "gaps (accesses b) = Suc (Suc k)" using assms(2) by (metis add_2_eq_Suc k_def le_add_diff_inverse)
    note run = access_run [of gaps b p' e' "chip_side (hpi b)" C]
    have "lines (access gaps C e' b) = lines b @ seen p' ?p # seen p' p' # replicate k (seen p' p')"
      using run(4) assms(1) e'(2) k by (simp add: p'_def settled_def)
    moreover have "fold latch_step (seen p' ?p # seen p' p' # replicate k (seen p' p')) (under_way ?p, taken)
        = (under_way p', taken @ writes (bus_out ?p e))" for taken
      using latch_event [OF assms(3), of taken] latch_settled by (simp add: p'_def)
    moreover have "settled (access gaps C e' b) \<and> sw_pins (access gaps C e' b) = p'"
      using run e'(2) k by (simp add: settled_def p'_def)
    ultimately show ?thesis unfolding e'(1) p'_def [symmetric] by blast
  qed
  show ?thesis
  proof (cases e)
    case (PWr r v)
    then show ?thesis by (intro acc) simp_all
  next
    case (PRd r v)
    then show ?thesis by (intro acc) (auto intro: arg_cong2)
  next
    case (Slept us)
    then show ?thesis
      using settled_run [of b C "50 * us"] assms(1) latch_settled by (auto simp: settled_def)
  qed
qed

lemma board_run_latch:
  assumes "\<forall>i. 2 \<le> gaps i" "all_safe (sw_pins b) es" "settled b"
  shows "settled (fold (board_event gaps C) es b) \<and> sw_pins (fold (board_event gaps C) es b) = pins_after (sw_pins b) es
     \<and> (\<exists>xs. lines (fold (board_event gaps C) es b) = lines b @ xs
         \<and> (\<forall>taken. fold latch_step xs (under_way (sw_pins b), taken) =
               (under_way (pins_after (sw_pins b) es), taken @ writes (decode (sw_pins b) es))))"
  using assms(2,3)
proof (induction es arbitrary: b)
  case (Cons e es)
  let ?b = "board_event gaps C e b"
  obtain xs where xs: "settled ?b" "sw_pins ?b = pin_step (sw_pins b) e" "lines ?b = lines b @ xs"
      "\<forall>taken. fold latch_step xs (under_way (sw_pins b), taken) =
         (under_way (pin_step (sw_pins b) e), taken @ writes (bus_out (sw_pins b) e))"
    using board_event_latch [OF Cons.prems(2) assms(1), of e C] Cons.prems(1) by auto
  obtain ys where ys: "settled (fold (board_event gaps C) es ?b)"
      "sw_pins (fold (board_event gaps C) es ?b) = pins_after (sw_pins ?b) es"
      "lines (fold (board_event gaps C) es ?b) = lines ?b @ ys"
      "\<forall>taken. fold latch_step ys (under_way (sw_pins ?b), taken) =
         (under_way (pins_after (sw_pins ?b) es), taken @ writes (decode (sw_pins ?b) es))"
    using Cons.IH [OF _ xs(1)] Cons.prems(1) xs(2) by auto
  have "lines (fold (board_event gaps C) es ?b) = lines b @ (xs @ ys)" using xs(3) ys(3) by simp
  moreover have "fold latch_step (xs @ ys) (under_way (sw_pins b), taken) =
      (under_way (pins_after (sw_pins b) (e # es)), taken @ writes (decode (sw_pins b) (e # es)))" for taken
    using xs(2,4) ys(4) by (simp add: writes_append)
  ultimately show ?case using ys(1,2) xs(2) by auto
qed (auto intro: exI [of _ "[]"])

text \<open>From idle pins on, the chip takes exactly the words that the trace of the program means.\<close>

lemma latched_idle:
  assumes "\<forall>i. 2 \<le> gaps i" "all_safe (sw_pins b) es" "settled b" "idle (sw_pins b)"
  shows "\<exists>xs. lines (fold (board_event gaps C) es b) = lines b @ xs \<and> latched xs = writes (decode (sw_pins b) es)"
proof -
  have "under_way (sw_pins b) = None" using assms(4) by (simp add: under_way_def idle_def)
  then show ?thesis using board_run_latch [OF assms(1-3), of C] by (fastforce simp: latched_def)
qed

section \<open>One write and one read\<close>

lemma board_env_simps:
  "dev (pio_write (board_env gaps C) r v w) = access gaps C (PWr r v) (dev w)"
  "dev (snd (pio_read (board_env gaps C) r w)) = access gaps C (PRd r 0) (dev w)"
  "fst (pio_read (board_env gaps C) Otg_hpi_data w) = ucast (from_sw_data_in (hpi (dev w)))"
  "dev (usleep (board_env gaps C) us w) = iterate (board_cycle C) (50 * us) (dev w)"
  by (simp_all add: pio_write_def pio_read_def usleep_def board_env_def)

text \<open>
  The strobe that the chip sees is as long as the program's, but in its last cycle the bus is already
  released: the enable of the bus is the program's strobe, and not the register that follows it.
\<close>

lemma strobe_outlasts_data:
  assumes "\<forall>i. 2 \<le> gaps i" "settled b" "idle (sw_pins b)" "b = dev w"
  shows "\<exists>xs q. lines (dev (IO_write (board_env gaps C) A D w)) = lines b @ xs
     \<and> \<not> cs_n q \<and> \<not> wr_n q \<and> rd_n q \<and> p_addr q = ucast A
     \<and> [l \<leftarrow> xs. \<not> wr_n (fst l)] = replicate (gaps (accesses b + 3) - 1) (q, Some D) @ [(q, None)]"
proof -
  define n where "n i = gaps (accesses b + i) - 1" for i
  have pos: "0 < gaps i" for i using assms(1) by (meson less_le_trans zero_less_numeral)
  define b1 where "b1 = access gaps C (PWr Otg_hpi_cs 0) b"
  define b2 where "b2 = access gaps C (PWr Otg_hpi_address (ucast A)) b1"
  define b3 where "b3 = access gaps C (PWr Otg_hpi_data (ucast D)) b2"
  define b4 where "b4 = access gaps C (PWr Otg_hpi_w 0) b3"
  define b5 where "b5 = access gaps C (PWr Otg_hpi_w 1) b4"
  define b6 where "b6 = access gaps C (PWr Otg_hpi_cs 1) b5"
  note run = access_run [OF pos refl refl, where C = C]
  note defs = b1_def b2_def b3_def b4_def b5_def b6_def
  define p where "p = sw_pins b"
  define p1 where "p1 = p\<lparr>cs_n := False\<rparr>"
  define p2 where "p2 = p1\<lparr>p_addr := ucast A\<rparr>"
  define p3 where "p3 = p2\<lparr>p_data := D\<rparr>"
  define p4 where "p4 = p3\<lparr>wr_n := False\<rparr>"
  define p5 where "p5 = p4\<lparr>wr_n := True\<rparr>"
  define p6 where "p6 = p5\<lparr>cs_n := True\<rparr>"
  note pdefs = p_def p1_def p2_def p3_def p4_def p5_def p6_def
  have pins: "sw_pins b1 = p1" "sw_pins b2 = p2" "sw_pins b3 = p3" "sw_pins b4 = p4" "sw_pins b5 = p5"
    by (simp_all add: defs run pdefs ucast_u8_u32_2)
  have chips: "chip_side (hpi b) = p" "chip_side (hpi b1) = p1" "chip_side (hpi b2) = p2" "chip_side (hpi b3) = p3"
    "chip_side (hpi b4) = p4" "chip_side (hpi b5) = p5"
    using assms(2) pins by (simp_all add: defs run settled_def p_def)
  have acc: "accesses b1 = accesses b + 1" "accesses b2 = accesses b + 2" "accesses b3 = accesses b + 3"
    "accesses b4 = accesses b + 4" "accesses b5 = accesses b + 5"
    by (simp_all add: defs run)
  have l: "lines b6 = lines b @ seen p1 p # replicate (n 0) (seen p1 p1) @ seen p2 p1 # replicate (n 1) (seen p2 p2)
      @ seen p3 p2 # replicate (n 2) (seen p3 p3) @ seen p4 p3 # replicate (n 3) (seen p4 p4)
      @ seen p5 p4 # replicate (n 4) (seen p5 p5) @ seen p6 p5 # replicate (n 5) (seen p6 p6)" (is "_ = _ @ ?xs")
  proof -
    have "lines b6 = lines b5 @ seen p6 p5 # replicate (n 5) (seen p6 p6)"
      using run(4) [where b = b5 and e = "PWr Otg_hpi_cs 1"] pins chips acc by (simp add: b6_def n_def p6_def)
    moreover have "lines b5 = lines b4 @ seen p5 p4 # replicate (n 4) (seen p5 p5)"
      using run(4) [where b = b4 and e = "PWr Otg_hpi_w 1"] pins chips acc by (simp add: b5_def n_def p5_def)
    moreover have "lines b4 = lines b3 @ seen p4 p3 # replicate (n 3) (seen p4 p4)"
      using run(4) [where b = b3 and e = "PWr Otg_hpi_w 0"] pins chips acc by (simp add: b4_def n_def p4_def)
    moreover have "lines b3 = lines b2 @ seen p3 p2 # replicate (n 2) (seen p3 p3)"
      using run(4) [where b = b2 and e = "PWr Otg_hpi_data (ucast D)"] pins chips acc by (simp add: b3_def n_def p3_def)
    moreover have "lines b2 = lines b1 @ seen p2 p1 # replicate (n 1) (seen p2 p2)"
      using run(4) [where b = b1 and e = "PWr Otg_hpi_address (ucast A)"] pins chips acc
      by (simp add: b2_def n_def p2_def ucast_u8_u32_2)
    moreover have "lines b1 = lines b @ seen p1 p # replicate (n 0) (seen p1 p1)"
      using run(4) [where b = b and e = "PWr Otg_hpi_cs 0"] chips by (simp add: b1_def n_def p_def p1_def)
    ultimately show ?thesis by simp
  qed
  have "dev (IO_write (board_env gaps C) A D w) = b6"
    by (simp add: IO_write_def Let_def board_env_simps defs assms(4))
  moreover have "[l \<leftarrow> ?xs. \<not> wr_n (fst l)] = replicate (n 3) (p4, Some D) @ [(p4, None)]"
    using assms(3) by (simp add: seen_def p1_def p2_def p3_def p4_def p5_def p6_def p_def idle_def)
  moreover have "\<not> cs_n p4 \<and> \<not> wr_n p4 \<and> rd_n p4 \<and> p_addr p4 = ucast A"
    using assms(3) by (simp add: p1_def p2_def p3_def p4_def p_def idle_def)
  ultimately show ?thesis using l unfolding n_def by blast
qed

lemma access_value:
  assumes "2 \<le> gaps (accesses b)" "wr_n p" "p = pin_step (sw_pins b) e"
  obtains b' where "grows C b b'" "lines (access gaps C e b) = lines b' @ [(p, None)]"
    "from_sw_data_in (hpi (access gaps C e b)) = wire C p (chip_state b')"
proof -
  obtain n where n: "gaps (accesses b) = Suc (Suc n)" using assms(1) by (metis add_2_eq_Suc le_Suc_ex)
  define a where "a = board_cycle C (b\<lparr>sw_pins := p, accesses := accesses b + 1\<rparr>)"
  define b' where "b' = iterate (board_cycle C) n a"
  have b': "sw_pins b' = p" "chip_side (hpi b') = p" using settled_run [of a C n] by (simp_all add: b'_def a_def)
  have acc: "access gaps C e b = board_cycle C b'"
    using iterate_Suc_right [of "board_cycle C" n a] by (simp add: access_def n assms(3) a_def b'_def)
  have "grows C b b'"
    unfolding b'_def a_def using grows_trans [OF grows_refl(2) grows_trans [OF grows_cycle grows_iterate]] by blast
  moreover have "lines (access gaps C e b) = lines b' @ [(p, None)]"
    unfolding acc using b' assms(2) by (simp add: seen_def)
  moreover have "from_sw_data_in (hpi (access gaps C e b)) = wire C p (chip_state b')"
    unfolding acc using b' assms(2) by (simp add: board_cycle_def Let_def hpi_step_def OTG_DATA_def drives_def)
  ultimately show thesis by (rule that)
qed

lemma lines_grow: "grows C b b' \<Longrightarrow> \<exists>xs. lines b' = lines b @ xs"
  by (auto simp: grows_def)

text \<open>
  Claim C28. \<open>IO_read\<close> through the circuit returns the word that the chip puts on the wire in one of
  the cycles of the access in which it sees itself selected, the register addressed and only its own
  strobe low, and in which the circuit does not drive the bus. Two cycles between the accesses of the
  program are enough for this.
\<close>

theorem read_through_circuit:
  assumes "\<forall>i. 2 \<le> gaps i" "settled (dev w)" "idle (sw_pins (dev w))"
  shows "\<exists>xs q ys. lines (dev (snd (IO_read (board_env gaps C) A w))) = lines (dev w) @ xs @ (q, None) # ys
     \<and> \<not> cs_n q \<and> \<not> rd_n q \<and> wr_n q \<and> p_addr q = ucast A
     \<and> fst (IO_read (board_env gaps C) A w) = wire C q (chip_after C xs (chip_state (dev w)))"
proof -
  have pos: "0 < gaps i" for i using assms(1) by (meson less_le_trans zero_less_numeral)
  note run = access_run [OF pos refl refl, where C = C]
  define b where "b = dev w"
  define b2 where "b2 = access gaps C (PWr Otg_hpi_address (ucast A)) (access gaps C (PWr Otg_hpi_cs 0) b)"
  define b3 where "b3 = access gaps C (PWr Otg_hpi_r 0) b2"
  define b6 where "b6 = access gaps C (PWr Otg_hpi_cs 1) (access gaps C (PWr Otg_hpi_r 1) (access gaps C (PRd Otg_hpi_data 0) b3))"
  define q where "q = (sw_pins b)\<lparr>cs_n := False, p_addr := ucast A, rd_n := False\<rparr>"
  have q: "q = pin_step (sw_pins b2) (PWr Otg_hpi_r 0)" by (simp add: b2_def run q_def ucast_u8_u32_2)
  have wr: "wr_n q" using assms(3) by (simp add: q_def b_def idle_def)
  obtain b' where b': "grows C b2 b'" "lines b3 = lines b' @ [(q, None)]" "from_sw_data_in (hpi b3) = wire C q (chip_state b')"
    unfolding b3_def by (rule access_value [where gaps = gaps and C = C, OF spec [OF assms(1)] wr q])
  have "grows C b b2" unfolding b2_def by (rule grows_trans [OF grows_access grows_access])
  then have g: "grows C b b'" by (rule grows_trans [OF _ b'(1)])
  then obtain xs where xs: "lines b' = lines b @ xs" using lines_grow by blast
  have "grows C b3 b6" unfolding b6_def by (rule grows_trans [OF grows_access grows_trans [OF grows_access grows_access]])
  then obtain ys where "lines b6 = lines b3 @ ys" using lines_grow by blast
  then have "lines b6 = lines b @ xs @ (q, None) # ys" using b'(2) xs by simp
  moreover have "fst (IO_read (board_env gaps C) A w) = wire C q (chip_after C xs (chip_state b))"
    using b'(3) chip_at [OF g xs]
    by (simp add: IO_read_def Let_def split_beta board_env_simps b3_def b2_def b_def)
  moreover have "dev (snd (IO_read (board_env gaps C) A w)) = b6"
    by (simp add: IO_read_def Let_def split_beta board_env_simps b6_def b3_def b2_def b_def)
  ultimately show ?thesis using assms(3) unfolding b_def [symmetric]
    by (intro exI [of _ xs] exI [of _ q] exI [of _ ys]) (auto simp: q_def idle_def)
qed

definition idle_pins :: pins where
  "idle_pins = \<lparr>cs_n = True, rd_n = True, wr_n = True, rst_n = True, p_addr = 0, p_data = 0\<rparr>"

text \<open>A chip with a counter, which it answers when it is read.\<close>

definition counting_chip :: "u16 chip" where
  "counting_chip = \<lparr>wire = (\<lambda>q c. if cs_n q \<or> rd_n q then 0xFFFF else c), clk = (\<lambda>q d c. c + 1)\<rparr>"

definition demo_board :: "u16 board" where
  "demo_board =
     \<lparr>sw_pins = idle_pins,
      hpi = \<lparr>from_sw_data_out_buffer = 0, OTG_ADDR = 0, OTG_RD_N = True, OTG_WR_N = True, OTG_CS_N = True,
             OTG_RST_N = True, from_sw_data_in = 0\<rparr>,
      chip_state = 7, accesses = 0, lines = []\<rparr>"

lemma demo_board_idle: "settled demo_board" "idle (sw_pins demo_board)"
  by (simp_all add: demo_board_def settled_def chip_side_def idle_pins_def idle_def)

theorem read_through_circuit_witness:
  "\<exists>xs q. \<not> rd_n q \<and> p_addr q = 3
     \<and> fst (IO_read (board_env (\<lambda>_. 2) counting_chip) 3 \<lparr>dev = demo_board, trace = []\<rparr>)
        = wire counting_chip q (chip_after counting_chip xs 7)"
proof -
  have "settled (dev \<lparr>dev = demo_board, trace = []\<rparr>)" "idle (sw_pins (dev \<lparr>dev = demo_board, trace = []\<rparr>))"
    using demo_board_idle by simp_all
  from read_through_circuit [OF _ this, of "\<lambda>_. 2" counting_chip 3] show ?thesis
    by (auto simp: demo_board_def)
qed

end
