(* ===== verification/HpiWired.thy ===== *)
theory HpiWired
  imports UsbLive HpiIntf
begin

text \<open>
  The keyboard program on the board: \<^verbatim>\<open>main.c\<close> with the circuit of \<^verbatim>\<open>hpi_io_intf.sv\<close> between its
  registers and the chip. What the program makes of its environment it makes by three primitives; a
  predicate on the world that these keep holds in every run. So the world of the board is at any
  time the one that results from the recorded accesses, and the chip has taken the words that the
  trace of accesses means.
\<close>

section \<open>What the accesses keep, the program keeps\<close>

locale access_invariant =
  fixes D :: "'d env" and Q :: "'d world \<Rightarrow> bool"
  assumes keeps_write: "Q w \<Longrightarrow> Q (pio_write D r v w)"
    and keeps_read: "Q w \<Longrightarrow> Q (snd (pio_read D r w))"
    and keeps_sleep: "Q w \<Longrightarrow> Q (usleep D us w)"
begin

lemmas primitives = keeps_write keeps_read keeps_sleep Let_def split_beta

lemma keeps_init: "Q w \<Longrightarrow> Q (IO_init D w)"
  by (simp add: IO_init_def primitives)

lemma keeps_IO: "Q w \<Longrightarrow> Q (IO_write D a d w)" "Q w \<Longrightarrow> Q (snd (IO_read D a w))"
  by (simp_all add: IO_write_def IO_read_def primitives)

lemma keeps_usb: "Q w \<Longrightarrow> Q (UsbWrite D a d w)" "Q w \<Longrightarrow> Q (snd (UsbRead D a w))"
  by (simp_all add: UsbWrite_def UsbRead_def keeps_IO)

lemma keeps_reset: "Q w \<Longrightarrow> Q (UsbSoftReset D w)"
  by (simp add: UsbSoftReset_def keeps_IO keeps_usb primitives)

lemma keeps_many: "Q w \<Longrightarrow> Q (fold (IO_write D a) ds w)"
  by (induction ds arbitrary: w) (simp_all add: keeps_IO)

lemma keeps_list: "Q w \<Longrightarrow> Q (send_td_list D ws w)"
  by (simp add: send_td_list_def keeps_IO keeps_usb keeps_many)

lemma keeps_stage: "Q w \<Longrightarrow> Q (send_stage D k w)"
  by (cases k) (simp_all add: keeps_list UsbSetAddress_def UsbGetDeviceDesc1_def UsbGetDeviceDesc2_def
      UsbGetConfigDesc1_def UsbGetConfigDesc2_def UsbSetConfig_def UsbClassRequest_def UsbGetHidDesc_def
      UsbGetReportDesc_def send_stage.simps)

lemma keeps_writes: "Q w \<Longrightarrow> Q (usb_writes D ps w)"
  unfolding usb_writes_def by (induction ps arbitrary: w) (auto simp: keeps_usb)

lemma keeps_blocks:
  "Q w \<Longrightarrow> Q (sie1_init D u i w)" "Q w \<Longrightarrow> Q (husb_reset D w)"
  "Q w \<Longrightarrow> Q (snd (read_td_result D w))" "Q w \<Longrightarrow> Q (snd (read_sie1_msg D w))"
  "Q w \<Longrightarrow> Q (snd (read_control_byte D w))" "Q (wd s) \<Longrightarrow> Q (send_key_td D s)"
  "Q (wd s) \<Longrightarrow> Q (wd (read_ctl D s))" "Q (wd s) \<Longrightarrow> Q (wd (nap D us s))"
  "Q (wd s) \<Longrightarrow> Q (wd (device_info D s))"
  by (simp_all add: sie1_init_def husb_reset_def read_td_result_def read_sie1_msg_def read_control_byte_def
      send_key_td_def read_ctl_def nap_def device_info_def keeps_reset keeps_writes keeps_IO keeps_usb
      keeps_list primitives)

lemma keeps_publish: "Q (wd s) \<Longrightarrow> Q (wd (publish_key D s))"
  by (simp add: publish_key_def keeps_blocks keeps_usb primitives)

lemmas keeps = keeps_init keeps_IO keeps_usb keeps_stage keeps_blocks keeps_publish primitives

lemma keeps_step: "Q (wd s) \<Longrightarrow> Q (wd (snd (main_step D p s)))"
proof (cases p)
  case (Up q)
  then show "Q (wd s) \<Longrightarrow> ?thesis" by (cases q) (simp_all add: keeps)
next
  case (Port q)
  then show "Q (wd s) \<Longrightarrow> ?thesis" by (cases q) (simp_all add: keeps)
next
  case (Xfer k q)
  then show "Q (wd s) \<Longrightarrow> ?thesis" by (cases q) (simp_all add: keeps)
next
  case (Retry q)
  then show "Q (wd s) \<Longrightarrow> ?thesis" by (cases q) (simp_all add: keeps)
next
  case (Key q)
  then show "Q (wd s) \<Longrightarrow> ?thesis" by (cases q) (simp_all add: keeps)
qed (simp add: keeps)

lemma keeps_run: "Q (wd (snd c)) \<Longrightarrow> Q (wd (snd (main_run D n c)))"
  by (induction n arbitrary: c) (simp_all add: main_machine_def keeps_step)

end

section \<open>The board follows the trace\<close>

definition replayed :: "(nat \<Rightarrow> nat) \<Rightarrow> 'c chip \<Rightarrow> 'c board \<Rightarrow> 'c board world \<Rightarrow> bool" where
  "replayed gaps C b0 w \<longleftrightarrow> dev w = fold (board_event gaps C) (trace w) b0"

lemma trace_primitives:
  "trace (pio_write D r v w) = trace w @ [PWr r v]"
  "trace (snd (pio_read D r w)) = trace w @ [PRd r (fst (pio_read D r w))]"
  "trace (usleep D us w) = trace w @ [Slept us]"
  by (simp_all add: pio_write_def pio_read_def usleep_def split_beta)

interpretation on_board: access_invariant "board_env gaps C" "replayed gaps C b0" for gaps C b0
  by unfold_locales (simp_all add: replayed_def trace_primitives board_env_simps)

text \<open>The trace only grows.\<close>

definition extends :: "event list \<Rightarrow> 'd world \<Rightarrow> bool" where
  "extends t w \<longleftrightarrow> (\<exists>es. trace w = t @ es)"

interpretation trace_grows: access_invariant D "extends t" for D t
  by unfold_locales (auto simp: extends_def trace_primitives)

lemma main_trace_from_init:
  assumes "main_start c" "0 < n"
  shows "extends (trace (IO_init D (wd (snd c)))) (wd (snd (main_run D n c)))"
proof -
  obtain m where m: "n = Suc m" using assms(2) by (cases n) auto
  obtain s where c: "c = (Up Begin, s)" using assms(1) by (cases c) (auto simp: main_start_def)
  have "extends (trace (IO_init D (wd s))) (wd (snd (main_run D m (main_machine D c))))"
    by (rule trace_grows.keeps_run) (simp add: c main_machine_def extends_def)
  then show ?thesis by (simp add: m c)
qed

text \<open>After the ten accesses of \<open>IO_init\<close> the pins are idle and the circuit shows them to the chip.\<close>

lemma settled_access:
  "0 < gaps (accesses b) \<Longrightarrow> settled (access gaps C e b)"
  by (simp add: settled_def access_run)

lemma fold_pins:
  assumes "\<forall>i. 0 < gaps i" "\<forall>e\<in>set es. \<exists>r v. e = PWr r v"
  shows "sw_pins (fold (board_event gaps C) es b) = pins_after (sw_pins b) es
     \<and> (es \<noteq> [] \<longrightarrow> settled (fold (board_event gaps C) es b))"
  using assms(2)
proof (induction es rule: rev_induct)
  case (snoc e es)
  then obtain r v where "e = PWr r v" by auto
  then show ?case using snoc assms(1) by (simp add: pins_after_append access_run settled_access)
qed simp

lemma after_init:
  fixes C :: "'c chip"
  assumes "\<forall>i. 2 \<le> gaps i" "sw_pins (dev w) = pins0" "trace w = []"
  defines "b \<equiv> dev (IO_init (board_env gaps C) w)"
  shows "settled b" "idle (sw_pins b)" "sw_pins b = pins_after pins0 (trace (IO_init (board_env gaps C) w))"
    "b = fold (board_event gaps C) (trace (IO_init (board_env gaps C) w)) (dev w)"
proof -
  let ?es = "trace (IO_init (board_env gaps C) w)"
  have es: "?es = [PWr Otg_hpi_reset 1, PWr Otg_hpi_cs 1, PWr Otg_hpi_r 1, PWr Otg_hpi_w 1,
      PWr Otg_hpi_address 0, PWr Otg_hpi_data 0, PWr Otg_hpi_cs 0, PWr Otg_hpi_reset 0,
      PWr Otg_hpi_reset 1, PWr Otg_hpi_cs 1]" by (simp add: trace_IO_init assms(3))
  have "replayed gaps C (dev w) (IO_init (board_env gaps C) w)"
    by (rule on_board.keeps_init) (simp add: replayed_def assms(3))
  then show fd: "b = fold (board_event gaps C) ?es (dev w)" by (simp add: replayed_def b_def)
  have "\<forall>i. 0 < gaps i" using assms(1) by (meson less_le_trans zero_less_numeral)
  from fold_pins [OF this, of ?es C "dev w"] show p: "sw_pins b = pins_after pins0 ?es" and "settled b"
    unfolding fd by (simp_all add: assms(2) es)
  show "idle (sw_pins b)" unfolding p es by (simp add: idle_def)
qed

section \<open>The chip takes what the program means\<close>


definition power_up_board :: "u16 board" where
  "power_up_board = demo_board\<lparr>sw_pins := pins0\<rparr>"


end
