(* ===== verification/Console.thy ===== *)
theory Console
  imports HpiWired GameClaims
begin

text \<open>
  The console (\<^verbatim>\<open>lab8.sv\<close>): the processor with the keyboard program and the game, joined by the
  8-bit register to which the program writes key codes. Program and game run side by side: an
  event is one step of the program or one clock cycle of the game, in any order.
\<close>

section \<open>Model\<close>

text \<open>The register holds the last key code written, and 0 before the first.\<close>

definition keycode_port :: "'d world \<Rightarrow> u8" where
  "keycode_port w =
     (case rev [e \<leftarrow> bus w. \<exists>k. e = KeyOut k] of KeyOut k # _ \<Rightarrow> k | _ \<Rightarrow> 0)"

record 'd console =
  prog :: "pc \<times> 'd vars"
  hardware :: game

datatype console_event = Program | Tick bool bool

fun console_step :: "'d env \<Rightarrow> console_event \<Rightarrow> 'd console \<Rightarrow> 'd console" where
  "console_step D Program c = c\<lparr>prog := main_machine D (prog c)\<rparr>"
| "console_step D (Tick Reset frame_clk) c =
     c\<lparr>hardware := game_step Reset frame_clk (keycode_port (wd (snd (prog c)))) (hardware c)\<rparr>"

section \<open>Lemmas\<close>

lemma prog_run: "\<exists>n. prog (fold (console_step D) es c) = main_run D n (prog c)"
proof (induction es arbitrary: c)
  case Nil
  then show ?case by (intro exI [of _ 0]) simp
next
  case (Cons e es)
  show ?case
  proof (cases e)
    case Program
    obtain n where "prog (fold (console_step D) es (console_step D e c)) = main_run D n (prog (console_step D e c))"
      using Cons by blast
    then show ?thesis using Program by (intro exI [of _ "Suc n"]) simp
  next
    case (Tick r f)
    then show ?thesis using Cons [of "console_step D e c"] by simp
  qed
qed

lemma last_such:
  assumes "[x \<leftarrow> l. P x] = ys @ [e]"
  obtains us vs where "l = us @ e # vs" "P e" "\<forall>v\<in>set vs. \<not> P v"
proof -
  have "[x \<leftarrow> rev l. P x] = e # rev ys" using assms by (simp add: rev_filter [symmetric])
  then obtain us vs where r: "rev l = us @ e # vs" "\<forall>u\<in>set us. \<not> P u" "P e"
    unfolding filter_eq_Cons_iff by blast
  then have "l = rev vs @ e # rev us" by (metis append.assoc append_Cons append_Nil rev.simps(2) rev_append rev_rev_ident)
  then show thesis using that r by simp
qed

lemma port_written:
  assumes "keycode_port w \<noteq> 0"
  obtains xs ys where "bus w = xs @ KeyOut (keycode_port w) # ys" "\<forall>k. KeyOut k \<notin> set ys"
proof -
  define P where "P = (\<lambda>e :: bus_event. \<exists>k. e = KeyOut k)"
  obtain e es where f: "rev (filter P (bus w)) = e # es"
    using assms by (cases "rev (filter P (bus w))") (auto simp: keycode_port_def P_def)
  then have "filter P (bus w) = rev es @ [e]" by (metis rev.simps(2) rev_rev_ident)
  then obtain xs ys where b: "bus w = xs @ e # ys" "P e" "\<forall>y\<in>set ys. \<not> P y"
    using last_such by metis
  then obtain k where k: "e = KeyOut k" by (auto simp: P_def)
  then have "keycode_port w = k" using f by (simp add: keycode_port_def P_def)
  then show thesis using that b k by (auto simp: P_def)
qed

lemma hardware_step [simp]:
  "hardware (console_step D Program c) = hardware c"
  "prog (console_step D (Tick r f) c) = prog c"
  "screen (hardware (console_step D (Tick r f) c)) =
     signal_controller r (keycode_port (wd (snd (prog c)))) (died (hardware c))
       (score (hardware c) = 0x12) (score (hardware c) = 0x13) (screen (hardware c))"
  by simp_all

lemma leaves_start:
  assumes "screen (hardware c) = START" and "screen (hardware (fold (console_step D) es c)) \<noteq> START"
  shows "\<exists>es1 r f es2. es = es1 @ Tick r f # es2
     \<and> keycode_port (wd (snd (prog (fold (console_step D) es1 c)))) = Enter"
  using assms
proof (induction es rule: rev_induct)
  case (snoc e es)
  let ?c = "fold (console_step D) es c"
  show ?case
  proof (cases "screen (hardware ?c) = START")
    case False
    then show ?thesis using snoc by fastforce
  next
    case True
    then obtain r f where e: "e = Tick r f" using snoc.prems by (cases e) auto
    then have "keycode_port (wd (snd (prog ?c))) = Enter"
      using snoc.prems True by (auto simp: signal_controller_def split: if_splits)
    then show ?thesis using e by blast
  qed
qed simp

section \<open>From the keyboard to the game\<close>


section \<open>A keyboard whose enter key is held\<close>

text \<open>The word that the program reads from the report buffer ends in the code of the key.\<close>

definition reports :: "'d env \<Rightarrow> u8 \<Rightarrow> bool" where
  "reports D k \<longleftrightarrow> (\<forall>w. ucast (fst (UsbRead D 0x051E w)) = k)"

lemma program_alone: "fold (console_step D) (replicate n Program) c = c\<lparr>prog := main_run D n (prog c)\<rparr>"
  by (induction n arbitrary: c) simp_all

lemma passes_to_read:
  assumes "cooperative D"
  shows "passes D 57 0 (Up Begin) (Key KeyRead)"
proof -
  note k = passes_key [OF assms]
  note passes_enumeration [OF assms] also note k(2) also note k(3) also note k(4) also note k(5)
  finally show ?thesis by simp
qed

lemma port_after_read:
  assumes "reports D k" "main_inv (Key KeyRead, s)"
  shows "keycode_port (wd (publish_key D s)) = k"
proof -
  let ?k = "fst (UsbRead D 0x051E (wd s))"
  have r: "ready (wd s)" "ctl_reg s = USB1_CTL_REG" using assms(2) by (auto simp: main_inv_def)
  have key: "(ucast ((ucast ?k :: u32) AND 0xFF) :: u8) = k"
    using assms(1) by (simp add: low_byte reports_def)
  show ?thesis
    by (simp add: publish_key_def read_ctl_def nap_def Let_def split_beta bus_simps ready_simps r key keycode_port_def)
qed

text \<open>Between two reads of the report the program does not write the register.\<close>

lemma step_keys:
  assumes "main_inv (p, s)" "p \<noteq> Up Begin" "p \<noteq> Key KeyRead"
  shows "keys_published (wd (snd (main_step D p s))) = keys_published (wd s)"
proof -
  have r: "ready (wd s)" "port_known p \<Longrightarrow> ctl_reg s = USB1_CTL_REG" using assms(1,2) by (auto simp: main_inv_def)
  show ?thesis
  proof (cases p)
    case (Up q)
    then show ?thesis using r assms(2) by (cases q) (simp_all add: block_simps keys_core)
  next
    case (Port q)
    then show ?thesis using r by (cases q) (simp_all add: block_simps keys_core)
  next
    case (Xfer k q)
    then show ?thesis using r by (cases q) (simp_all add: block_simps keys_core)
  next
    case (Retry q)
    then show ?thesis using r by (cases q) (simp_all add: block_simps keys_core)
  next
    case (Key q)
    then show ?thesis using r assms(3) by (cases q) (simp_all add: block_simps keys_core)
  qed (use r in \<open>simp_all add: block_simps keys_core\<close>)
qed

lemma keycode_kept:
  assumes "extends (trace w) w'" "keys_published w' = keys_published w"
  shows "keycode_port w' = keycode_port w"
proof -
  obtain es where es: "trace w' = trace w @ es" using assms(1) by (auto simp: extends_def)
  then obtain bs where bs: "bus w' = bus w @ bs" by (auto simp: bus_def decode_append)
  have "[e \<leftarrow> bs. \<exists>k. e = KeyOut k] = []" using assms(2) by (simp add: keys_published_def bs)
  then show ?thesis by (simp add: keycode_port_def bs)
qed

lemma key_stays:
  assumes "reports D k" "main_inv (p, s)" "p \<noteq> Up Begin" "keycode_port (wd s) = k"
  shows "keycode_port (wd (snd (main_step D p s))) = k"
proof (cases "p = Key KeyRead")
  case True
  then show ?thesis using port_after_read [OF assms(1)] assms(2) by (simp add: Let_def)
next
  case False
  have "extends (trace (wd s)) (wd (snd (main_step D p s)))"
    by (rule trace_grows.keeps_step) (simp add: extends_def)
  from keycode_kept [OF this step_keys [OF assms(2,3) False]] show ?thesis using assms(4) by simp
qed

text \<open>With a chip that answers and a key held, its code is in the register from step 58 on.\<close>

lemma key_arrives:
  assumes "cooperative D" "reports D k" "main_start c"
  shows "keycode_port (wd (snd (main_run D (58 + n) c))) = k"
proof (induction n)
  case 0
  obtain s where c: "c = (Up Begin, s)" using assms(3) by (cases c) (auto simp: main_start_def)
  have "live (Up Begin) s" using assms(3) c by (simp add: live_def main_starts)
  then obtain s' where s': "main_run D 57 (Up Begin, s) = (Key KeyRead, s')" "live (Key KeyRead) s'"
    using passes_to_read [OF assms(1)] unfolding passes_def by blast
  from main_run_pre [OF s'(1)] have m: "main_run D 58 (Up Begin, s) = key_step D KeyRead s'" by (simp del: key_step.simps)
  have "main_inv (Key KeyRead, s')" using s'(2) by (simp add: live_def)
  then show ?case unfolding c using m port_after_read [OF assms(2)] by (simp add: Let_def)
next
  case (Suc n)
  obtain p s where ps: "main_run D (58 + n) c = (p, s)" by fastforce
  have "main_inv (p, s)" using main_run_inv [OF assms(3), of D "58 + n"] ps by simp
  moreover have "p \<noteq> Up Begin" using run_past_begin [of "58 + n" D c] ps by simp
  moreover have "main_run D (58 + Suc n) c = main_step D p s"
    by (simp only: add_Suc_right iterate_Suc_right) (simp add: ps main_machine_def)
  ultimately show ?case using key_stays [OF assms(2)] Suc ps by simp
qed

lemma prog_steps: "prog (fold (console_step D) es c) = main_run D (length [e \<leftarrow> es. e = Program]) (prog c)"
proof (induction es arbitrary: c)
  case (Cons e es)
  then show ?case by (cases e) simp_all
qed simp

lemma first_tick_starts:
  assumes "cooperative D" "reports D Enter" "main_start (prog c)"
    and "58 \<le> length [e \<leftarrow> es. e = Program]" and "screen (hardware (fold (console_step D) es c)) = START"
  shows "screen (hardware (fold (console_step D) (es @ [Tick False f]) c)) = PLAY"
proof -
  let ?n = "length [e \<leftarrow> es. e = Program]"
  have "keycode_port (wd (snd (main_run D ?n (prog c)))) = Enter"
    using key_arrives [OF assms(1-3), of "?n - 58"] assms(4) by simp
  then show ?thesis using assms(5) by (simp add: prog_steps signal_controller_def)
qed


definition enter_env :: "sim env" where
  "enter_env = sim_env\<lparr>env_rd := (\<lambda>p c. (if sim_addr c = 0 \<and> sim_ptr c = 0x051E then 0x28 else ucast (sim_answer c), c))\<rparr>"

definition demo_console :: "sim console" where
  "demo_console = \<lparr>prog = (Up Begin, start_vars sim0), hardware = demo_game\<rparr>"

lemma enter_cooperative: "cooperative enter_env" "reports enter_env Enter"
  by (simp_all add: cooperative_def reports_def UsbRead_def IO_read_def IO_write_def pio_write_def pio_read_def
      enter_env_def sim_env_def sim_answer_def Let_def)

lemma enough_steps: "58 \<le> length [e \<leftarrow> replicate 58 Program. e = Program]"
  by (simp only: filter_replicate length_replicate if_True refl order_refl)



end
