(* ===== verification/NiosSystem.thy ===== *)
theory NiosSystem
  imports Console
begin

text \<open>
  The processor system: the description that the software is built with (\<^verbatim>\<open>system.h\<close>), the pointers
  and macros that make addresses of it (\<^verbatim>\<open>io_handler.h\<close>, \<^verbatim>\<open>io.h\<close>), and on the other side of the bus
  the address decoder, the PIO registers and the system id of the hardware (\<^verbatim>\<open>src/nios_system\<close>). The
  lemmas show that the decoder implements the address map of the description, and that a store of
  the keyboard program through its pointers is an event of \<open>HpiBus\<close>: the levels of the registers are
  the pins that the trace of the program means, and the key code on the port of the game is its last
  one. The software tells by the system id whether it was built for this hardware.
\<close>

section \<open>system.h\<close>

record cpu_config =
  big_endian :: bool
  break_addr :: u32
  cpu_freq :: nat
  cpu_id_size :: nat
  cpu_id_value :: u32
  cpu_implementation :: string
  data_addr_width :: nat
  dcache_line_size :: nat
  dcache_line_size_log2 :: nat
  dcache_size :: nat
  exception_addr :: u32
  flash_accelerator_lines :: nat
  flash_accelerator_line_size :: nat
  hardware_divide_present :: bool
  hardware_multiply_present :: bool
  hardware_mulx_present :: bool
  has_debug_core :: bool
  icache_line_size :: nat
  icache_line_size_log2 :: nat
  icache_size :: nat
  inst_addr_width :: nat
  oci_version :: nat
  reset_addr :: u32

definition ALT_CPU :: cpu_config where
  "ALT_CPU =
     \<lparr>big_endian = False, break_addr = 0x1020, cpu_freq = 50000000, cpu_id_size = 1, cpu_id_value = 0,
      cpu_implementation = ''tiny'', data_addr_width = 0x1d, dcache_line_size = 0, dcache_line_size_log2 = 0,
      dcache_size = 0, exception_addr = 0x10000020, flash_accelerator_lines = 0, flash_accelerator_line_size = 0,
      hardware_divide_present = False, hardware_multiply_present = False, hardware_mulx_present = False,
      has_debug_core = True, icache_line_size = 0, icache_line_size_log2 = 0, icache_size = 0,
      inst_addr_width = 0x1d, oci_version = 1, reset_addr = 0x10000000\<rparr>"

text \<open>The same values under the prefix of older software.\<close>

definition NIOS2_CPU :: cpu_config where
  "NIOS2_CPU =
     \<lparr>big_endian = False, break_addr = 0x1020, cpu_freq = 50000000, cpu_id_size = 1, cpu_id_value = 0,
      cpu_implementation = ''tiny'', data_addr_width = 0x1d, dcache_line_size = 0, dcache_line_size_log2 = 0,
      dcache_size = 0, exception_addr = 0x10000020, flash_accelerator_lines = 0, flash_accelerator_line_size = 0,
      hardware_divide_present = False, hardware_multiply_present = False, hardware_mulx_present = False,
      has_debug_core = True, icache_line_size = 0, icache_line_size_log2 = 0, icache_size = 0,
      inst_addr_width = 0x1d, oci_version = 1, reset_addr = 0x10000000\<rparr>"

record peripheral =
  dev_name :: string
  dev_type :: string
  base :: u32
  span :: nat
  irq :: int
  irq_interrupt_controller_id :: int

record pio_config = peripheral +
  bit_clearing_edge_register :: bool
  bit_modifying_output_register :: bool
  capture :: bool
  data_width :: nat
  do_test_bench_wiring :: bool
  driven_sim_value :: nat
  edge_type :: string
  freq :: nat
  has_in :: bool
  has_out :: bool
  has_tri :: bool
  irq_type :: string
  reset_value :: nat

text \<open>The seven parallel ports differ in name, address, width and direction only.\<close>

definition pio_port :: "string \<Rightarrow> u32 \<Rightarrow> nat \<Rightarrow> bool \<Rightarrow> pio_config" where
  "pio_port nm b w inp =
     \<lparr>dev_name = nm, dev_type = ''altera_avalon_pio'', base = b, span = 16, irq = - 1,
      irq_interrupt_controller_id = - 1, bit_clearing_edge_register = False,
      bit_modifying_output_register = False, capture = False, data_width = w, do_test_bench_wiring = False,
      driven_sim_value = 0, edge_type = ''NONE'', freq = 50000000, has_in = inp, has_out = True,
      has_tri = False, irq_type = ''NONE'', reset_value = 0\<rparr>"

definition keycode_config :: pio_config where
  "keycode_config = pio_port ''/dev/keycode'' 0x80 8 False"

definition otg_hpi_address_config :: pio_config where
  "otg_hpi_address_config = pio_port ''/dev/otg_hpi_address'' 0x70 2 False"

definition otg_hpi_cs_config :: pio_config where
  "otg_hpi_cs_config = pio_port ''/dev/otg_hpi_cs'' 0x30 1 False"

definition otg_hpi_data_config :: pio_config where
  "otg_hpi_data_config = pio_port ''/dev/otg_hpi_data'' 0x60 16 True"

definition otg_hpi_r_config :: pio_config where
  "otg_hpi_r_config = pio_port ''/dev/otg_hpi_r'' 0x50 1 False"

definition otg_hpi_reset_config :: pio_config where
  "otg_hpi_reset_config = pio_port ''/dev/otg_hpi_reset'' 0x20 1 False"

definition otg_hpi_w_config :: pio_config where
  "otg_hpi_w_config = pio_port ''/dev/otg_hpi_w'' 0x40 1 False"

record jtag_uart_config = peripheral +
  read_depth :: nat
  read_threshold :: nat
  write_depth :: nat
  write_threshold :: nat

definition jtag_uart_0_config :: jtag_uart_config where
  "jtag_uart_0_config =
     \<lparr>dev_name = ''/dev/jtag_uart_0'', dev_type = ''altera_avalon_jtag_uart'', base = 0xa8, span = 8, irq = 5,
      irq_interrupt_controller_id = 0, read_depth = 64, read_threshold = 8, write_depth = 64, write_threshold = 8\<rparr>"

text \<open>The standard streams: name, base and kind of the device behind each.\<close>

record std_stream =
  stream_name :: string
  stream_base :: u32
  stream_type :: string

definition ALT_STDERR :: std_stream where
  "ALT_STDERR = \<lparr>stream_name = ''/dev/jtag_uart_0'', stream_base = 0xa8, stream_type = ''altera_avalon_jtag_uart''\<rparr>"

definition ALT_STDIN :: std_stream where
  "ALT_STDIN = \<lparr>stream_name = ''/dev/jtag_uart_0'', stream_base = 0xa8, stream_type = ''altera_avalon_jtag_uart''\<rparr>"

definition ALT_STDOUT :: std_stream where
  "ALT_STDOUT = \<lparr>stream_name = ''/dev/jtag_uart_0'', stream_base = 0xa8, stream_type = ''altera_avalon_jtag_uart''\<rparr>"

definition stream_on :: "'a jtag_uart_config_scheme \<Rightarrow> std_stream" where
  "stream_on d = \<lparr>stream_name = dev_name d, stream_base = base d, stream_type = dev_type d\<rparr>"

lemma repeated_settings:
  "NIOS2_CPU = ALT_CPU"
  "ALT_STDIN = stream_on jtag_uart_0_config" "ALT_STDOUT = stream_on jtag_uart_0_config"
  "ALT_STDERR = stream_on jtag_uart_0_config"
  by (simp_all add: NIOS2_CPU_def ALT_CPU_def ALT_STDIN_def ALT_STDOUT_def ALT_STDERR_def stream_on_def jtag_uart_0_config_def)

definition onchip_memory2_0_config :: peripheral where
  "onchip_memory2_0_config =
     \<lparr>dev_name = ''/dev/onchip_memory2_0'', dev_type = ''altera_avalon_onchip_memory2'', base = 0, span = 16,
      irq = - 1, irq_interrupt_controller_id = - 1\<rparr>"

record sdram_config = peripheral +
  sdram_addr_width :: nat
  sdram_bank_width :: nat
  sdram_col_width :: nat
  sdram_data_width :: nat
  sdram_num_banks :: nat
  sdram_num_chipselects :: nat
  sdram_row_width :: nat

definition sdram_0_config :: sdram_config where
  "sdram_0_config =
     \<lparr>dev_name = ''/dev/sdram'', dev_type = ''altera_avalon_new_sdram_controller'', base = 0x10000000,
      span = 134217728, irq = - 1, irq_interrupt_controller_id = - 1, sdram_addr_width = 0x19,
      sdram_bank_width = 2, sdram_col_width = 10, sdram_data_width = 32, sdram_num_banks = 4,
      sdram_num_chipselects = 1, sdram_row_width = 13\<rparr>"

definition sdram_pll_config :: peripheral where
  "sdram_pll_config =
     \<lparr>dev_name = ''/dev/sdram_pll'', dev_type = ''altpll'', base = 0x90, span = 16, irq = - 1,
      irq_interrupt_controller_id = - 1\<rparr>"

record sysid_config = peripheral +
  sysid_id :: u32
  sysid_timestamp :: u32

definition sysid_qsys_0_config :: sysid_config where
  "sysid_qsys_0_config =
     \<lparr>dev_name = ''/dev/sysid_qsys_0'', dev_type = ''altera_avalon_sysid_qsys'', base = 0xb0, span = 8, irq = - 1,
      irq_interrupt_controller_id = - 1, sysid_id = 0, sysid_timestamp = 1576014614\<rparr>"

text \<open>What the processor reaches on the bus. The memory of its debugger is not in \<^verbatim>\<open>system.h\<close>.\<close>

datatype slave =
    Pio pio | Jtag_uart_0 | Onchip_memory2_0 | Sdram | Sdram_pll | Sysid_qsys_0 | Debug_mem

fun config_of :: "pio \<Rightarrow> pio_config" where
  "config_of Keycode_base = keycode_config"
| "config_of Otg_hpi_address = otg_hpi_address_config"
| "config_of Otg_hpi_cs = otg_hpi_cs_config"
| "config_of Otg_hpi_data = otg_hpi_data_config"
| "config_of Otg_hpi_r = otg_hpi_r_config"
| "config_of Otg_hpi_reset = otg_hpi_reset_config"
| "config_of Otg_hpi_w = otg_hpi_w_config"

fun mapped :: "slave \<Rightarrow> (nat \<times> nat) option" where
  "mapped (Pio p) = Some (unat (base (config_of p)), span (config_of p))"
| "mapped Jtag_uart_0 = Some (unat (base jtag_uart_0_config), span jtag_uart_0_config)"
| "mapped Onchip_memory2_0 = Some (unat (base onchip_memory2_0_config), span onchip_memory2_0_config)"
| "mapped Sdram = Some (unat (base sdram_0_config), span sdram_0_config)"
| "mapped Sdram_pll = Some (unat (base sdram_pll_config), span sdram_pll_config)"
| "mapped Sysid_qsys_0 = Some (unat (base sysid_qsys_0_config), span sysid_qsys_0_config)"
| "mapped Debug_mem = None"

text \<open>The regions that the linker fills (\<^verbatim>\<open>linker.h\<close>), base and span.\<close>

definition linker_regions :: "(nat \<times> nat) list" where
  "linker_regions = [(0x0, 16), (0x10000000, 32), (0x10000020, 134217696)]"

section \<open>io_handler.h and io.h\<close>

definition pointer :: "pio \<Rightarrow> u32" where
  "pointer p = base (config_of p)"

text \<open>Pointers to \<^verbatim>\<open>char\<close> store bytes.\<close>

fun is_char :: "pio \<Rightarrow> bool" where
  "is_char Otg_hpi_address = False"
| "is_char Otg_hpi_data = False"
| "is_char _ = True"

definition IO_CALC_ADDRESS_DYNAMIC :: "u32 \<Rightarrow> nat \<Rightarrow> u32" where
  "IO_CALC_ADDRESS_DYNAMIC BASE OFFSET = BASE + of_nat OFFSET"

definition IO_CALC_ADDRESS_NATIVE :: "u32 \<Rightarrow> nat \<Rightarrow> u32" where
  "IO_CALC_ADDRESS_NATIVE BASE REGNUM = BASE + of_nat (REGNUM * (32 div 8))"

section \<open>The address decoder\<close>

text \<open>The number of bits below which an address is not compared.\<close>

function log2ceil_from :: "nat \<Rightarrow> nat \<Rightarrow> nat \<Rightarrow> nat" where
  "log2ceil_from val i k = (if 0 < i \<and> i < val then log2ceil_from val (2 * i) (k + 1) else k)"
  by pat_completeness auto
termination by (relation "measure (\<lambda>(val, i, k). val - i)") auto

declare log2ceil_from.simps [simp del]

definition log2ceil :: "nat \<Rightarrow> nat" where
  "log2ceil val = log2ceil_from val 1 0"

definition address_hit :: "nat \<Rightarrow> nat \<Rightarrow> 29 word \<Rightarrow> bool" where
  "address_hit lo hi a \<longleftrightarrow> (let PAD = log2ceil (hi - lo) in push_bit PAD (drop_bit PAD a) = of_nat lo)"

text \<open>The tests in their order; a later one wins. The system id answers reads only.\<close>

definition decoder :: "(nat \<times> nat \<times> bool \<times> slave) list" where
  "decoder =
     [(0x0, 0x10, False, Onchip_memory2_0),
      (0x20, 0x30, False, Pio Otg_hpi_reset),
      (0x30, 0x40, False, Pio Otg_hpi_cs),
      (0x40, 0x50, False, Pio Otg_hpi_w),
      (0x50, 0x60, False, Pio Otg_hpi_r),
      (0x60, 0x70, False, Pio Otg_hpi_data),
      (0x70, 0x80, False, Pio Otg_hpi_address),
      (0x80, 0x90, False, Pio Keycode_base),
      (0x90, 0xa0, False, Sdram_pll),
      (0xa8, 0xb0, False, Jtag_uart_0),
      (0xb0, 0xb8, True, Sysid_qsys_0),
      (0x1000, 0x1800, False, Debug_mem),
      (0x10000000, 0x18000000, False, Sdram)]"

definition router :: "bool \<Rightarrow> 29 word \<Rightarrow> slave" where
  "router read_transaction a =
     fold (\<lambda>(lo, hi, rd_only, s) r. if address_hit lo hi a \<and> (rd_only \<longrightarrow> read_transaction) then s else r)
       decoder Sdram"

section \<open>Registers\<close>

text \<open>A parallel port of the width of its type, and the data port, which samples its input.\<close>

definition nios_pio :: "bool \<Rightarrow> bool \<Rightarrow> 2 word \<Rightarrow> u32 \<Rightarrow> 'w::len word \<Rightarrow> 'w word" where
  "nios_pio chipselect write_n addr writedata data_out =
     (if chipselect \<and> \<not> write_n \<and> addr = 0 then ucast writedata else data_out)"

definition nios_pio_read :: "2 word \<Rightarrow> 'w::len word \<Rightarrow> u32" where
  "nios_pio_read addr data = (if addr = 0 then ucast data else 0)"

definition nios_sysid :: "bool \<Rightarrow> u32" where
  "nios_sysid addr = (if addr then 1571715165 else 0)"

definition irq_mapper :: "bool \<Rightarrow> u32" where
  "irq_mapper receiver0_irq = (if receiver0_irq then push_bit 5 1 else 0)"

record nios_system =
  keycode_out :: u8
  otg_hpi_address_out :: "2 word"
  otg_hpi_data_out :: u16
  otg_hpi_r_out :: "1 word"
  otg_hpi_w_out :: "1 word"
  otg_hpi_cs_out :: "1 word"
  otg_hpi_reset_out :: "1 word"

definition nios_reset :: nios_system where
  "nios_reset =
     \<lparr>keycode_out = 0, otg_hpi_address_out = 0, otg_hpi_data_out = 0, otg_hpi_r_out = 0, otg_hpi_w_out = 0,
      otg_hpi_cs_out = 0, otg_hpi_reset_out = 0\<rparr>"

text \<open>A store of the processor: its address has 29 bits, a register is a word of four bytes.\<close>

definition bus_write :: "u32 \<Rightarrow> u32 \<Rightarrow> nios_system \<Rightarrow> nios_system" where
  "bus_write address writedata n =
     (let a = ucast address; s = router False a; reg = ucast (drop_bit 2 a)
      in \<lparr>keycode_out = nios_pio (s = Pio Keycode_base) False reg writedata (keycode_out n),
          otg_hpi_address_out = nios_pio (s = Pio Otg_hpi_address) False reg writedata (otg_hpi_address_out n),
          otg_hpi_data_out = nios_pio (s = Pio Otg_hpi_data) False reg writedata (otg_hpi_data_out n),
          otg_hpi_r_out = nios_pio (s = Pio Otg_hpi_r) False reg writedata (otg_hpi_r_out n),
          otg_hpi_w_out = nios_pio (s = Pio Otg_hpi_w) False reg writedata (otg_hpi_w_out n),
          otg_hpi_cs_out = nios_pio (s = Pio Otg_hpi_cs) False reg writedata (otg_hpi_cs_out n),
          otg_hpi_reset_out = nios_pio (s = Pio Otg_hpi_reset) False reg writedata (otg_hpi_reset_out n)\<rparr>)"

text \<open>A load; what memory, UART, PLL and debugger answer is a parameter.\<close>

definition bus_read :: "(slave \<Rightarrow> 29 word \<Rightarrow> u32) \<Rightarrow> u16 \<Rightarrow> u32 \<Rightarrow> nios_system \<Rightarrow> u32" where
  "bus_read others in_port address n =
     (let a = ucast address; s = router True a; reg = ucast (drop_bit 2 a)
      in case s of
           Pio Keycode_base \<Rightarrow> nios_pio_read reg (keycode_out n)
         | Pio Otg_hpi_address \<Rightarrow> nios_pio_read reg (otg_hpi_address_out n)
         | Pio Otg_hpi_data \<Rightarrow> nios_pio_read reg in_port
         | Pio Otg_hpi_r \<Rightarrow> nios_pio_read reg (otg_hpi_r_out n)
         | Pio Otg_hpi_w \<Rightarrow> nios_pio_read reg (otg_hpi_w_out n)
         | Pio Otg_hpi_cs \<Rightarrow> nios_pio_read reg (otg_hpi_cs_out n)
         | Pio Otg_hpi_reset \<Rightarrow> nios_pio_read reg (otg_hpi_reset_out n)
         | Sysid_qsys_0 \<Rightarrow> nios_sysid (odd reg)
         | _ \<Rightarrow> others s a)"

text \<open>A byte is put on all four lanes.\<close>

definition E_st_data :: "bool \<Rightarrow> u32 \<Rightarrow> u32" where
  "E_st_data mem8 v = (if mem8 then let b = ucast (ucast v :: u8) in b OR push_bit 8 b OR push_bit 16 b OR push_bit 24 b else v)"

definition program_event :: "event \<Rightarrow> nios_system \<Rightarrow> nios_system" where
  "program_event e n = (case e of PWr p v \<Rightarrow> bus_write (pointer p) (E_st_data (is_char p) v) n | _ \<Rightarrow> n)"

text \<open>The wires from the registers to the board.\<close>

definition nios_pins :: "nios_system \<Rightarrow> pins" where
  "nios_pins n =
     \<lparr>cs_n = odd (otg_hpi_cs_out n), rd_n = odd (otg_hpi_r_out n), wr_n = odd (otg_hpi_w_out n),
      rst_n = odd (otg_hpi_reset_out n), p_addr = otg_hpi_address_out n, p_data = otg_hpi_data_out n\<rparr>"

section \<open>The system id\<close>

definition alt_avalon_sysid_qsys_test :: "u32 \<Rightarrow> u32 \<Rightarrow> (nat \<Rightarrow> u32) \<Rightarrow> int" where
  "alt_avalon_sysid_qsys_test SYSID_ID SYSID_TIMESTAMP IORD_base =
     (let hardware_id = IORD_base 0; hardware_timestamp = IORD_base 1
      in if SYSID_TIMESTAMP = hardware_timestamp \<and> SYSID_ID = hardware_id then 0
         else if sint (hardware_timestamp - SYSID_TIMESTAMP) > 0 then 1 else - 1)"

definition sysid_on :: "(slave \<Rightarrow> 29 word \<Rightarrow> u32) \<Rightarrow> u16 \<Rightarrow> nios_system \<Rightarrow> int" where
  "sysid_on others in_port n =
     alt_avalon_sysid_qsys_test (sysid_id sysid_qsys_0_config) (sysid_timestamp sysid_qsys_0_config)
       (\<lambda>reg. bus_read others in_port (IO_CALC_ADDRESS_NATIVE (base sysid_qsys_0_config) reg) n)"

section \<open>The decoder implements the address map\<close>

lemma unat_upper_bits:
  fixes a :: "29 word"
  shows "unat (push_bit p (drop_bit p a)) = unat a div 2 ^ p * 2 ^ p"
proof -
  have "unat a div 2 ^ p * 2 ^ p \<le> unat a" by simp
  also have "unat a < 2 ^ 29" using unsigned_less [where w = a and 'a = nat] by simp
  finally have small: "unat a div 2 ^ p * 2 ^ p < 2 ^ 29" .
  have "unat a < 2 ^ 29" using unsigned_less [where w = a and 'a = nat] by simp
  then have "take_bit 29 (unat a) = unat a" by (rule take_bit_nat_eq_self)
  then have "unat (push_bit p (drop_bit p a)) = take_bit 29 (unat a div 2 ^ p * 2 ^ p)"
    by (simp add: unsigned_push_bit_eq unsigned_drop_bit_eq push_bit_nat_def drop_bit_nat_def)
  then show ?thesis using small by (simp only: take_bit_nat_eq_self)
qed

lemma aligned_block:
  fixes n k :: nat
  assumes "0 < m"
  shows "n div m * m = k * m \<longleftrightarrow> k * m \<le> n \<and> n < k * m + m"
proof -
  have "n div m * m = k * m \<longleftrightarrow> n div m = k" using assms by simp
  also have "\<dots> \<longleftrightarrow> k \<le> n div m \<and> n div m < k + 1" by auto
  also have "\<dots> \<longleftrightarrow> k * m \<le> n \<and> n < k * m + m"
    using assms by (simp add: less_eq_div_iff_mult_less_eq div_less_iff_less_mult add.commute)
  finally show ?thesis .
qed

lemma address_hit_iff:
  assumes "2 ^ log2ceil (hi - lo) = hi - lo" "(hi - lo) dvd lo" "lo < hi" "lo < 2 ^ 29"
  shows "address_hit lo hi a \<longleftrightarrow> lo \<le> unat a \<and> unat a < hi"
proof -
  obtain k where k: "lo = k * (hi - lo)" using assms(2) by (metis dvd_def mult.commute)
  have "unat (of_nat lo :: 29 word) = lo" using assms(4) by (simp add: unsigned_of_nat take_bit_nat_eq_self)
  then have "address_hit lo hi a \<longleftrightarrow> unat a div (hi - lo) * (hi - lo) = lo"
    by (simp only: address_hit_def Let_def word_unat_eq_iff unat_upper_bits assms(1))
  also have "\<dots> \<longleftrightarrow> k * (hi - lo) \<le> unat a \<and> unat a < k * (hi - lo) + (hi - lo)"
    using aligned_block [of "hi - lo" "unat a" k] assms(3) k by simp
  also have "\<dots> \<longleftrightarrow> lo \<le> unat a \<and> unat a < hi" using assms(3) unfolding k [symmetric] by simp
  finally show ?thesis .
qed

lemma pads:
  "log2ceil 16 = 4" "log2ceil 8 = 3" "log2ceil 2048 = 11" "log2ceil 134217728 = 27"
  by (simp_all add: log2ceil_def log2ceil_from.simps)

lemma hits:
  "address_hit 0x0 0x10 a \<longleftrightarrow> unat a < 0x10"
  "address_hit 0x20 0x30 a \<longleftrightarrow> 0x20 \<le> unat a \<and> unat a < 0x30"
  "address_hit 0x30 0x40 a \<longleftrightarrow> 0x30 \<le> unat a \<and> unat a < 0x40"
  "address_hit 0x40 0x50 a \<longleftrightarrow> 0x40 \<le> unat a \<and> unat a < 0x50"
  "address_hit 0x50 0x60 a \<longleftrightarrow> 0x50 \<le> unat a \<and> unat a < 0x60"
  "address_hit 0x60 0x70 a \<longleftrightarrow> 0x60 \<le> unat a \<and> unat a < 0x70"
  "address_hit 0x70 0x80 a \<longleftrightarrow> 0x70 \<le> unat a \<and> unat a < 0x80"
  "address_hit 0x80 0x90 a \<longleftrightarrow> 0x80 \<le> unat a \<and> unat a < 0x90"
  "address_hit 0x90 0xa0 a \<longleftrightarrow> 0x90 \<le> unat a \<and> unat a < 0xa0"
  "address_hit 0xa8 0xb0 a \<longleftrightarrow> 0xa8 \<le> unat a \<and> unat a < 0xb0"
  "address_hit 0xb0 0xb8 a \<longleftrightarrow> 0xb0 \<le> unat a \<and> unat a < 0xb8"
  "address_hit 0x1000 0x1800 a \<longleftrightarrow> 0x1000 \<le> unat a \<and> unat a < 0x1800"
  "address_hit 0x10000000 0x18000000 a \<longleftrightarrow> 0x10000000 \<le> unat a \<and> unat a < 0x18000000"
  by (simp_all add: address_hit_iff pads)

lemmas configs = pio_port_def keycode_config_def otg_hpi_address_config_def otg_hpi_cs_config_def
  otg_hpi_data_config_def otg_hpi_r_config_def otg_hpi_reset_config_def otg_hpi_w_config_def
  jtag_uart_0_config_def onchip_memory2_0_config_def sdram_0_config_def sdram_pll_config_def
  sysid_qsys_0_config_def

text \<open>The last test that holds decides; no two hold at once.\<close>

lemma router_cases:
  "router rd a =
     (let n = unat a in
      if 0x10000000 \<le> n \<and> n < 0x18000000 then Sdram
      else if 0x1000 \<le> n \<and> n < 0x1800 then Debug_mem
      else if 0xb0 \<le> n \<and> n < 0xb8 \<and> rd then Sysid_qsys_0
      else if 0xa8 \<le> n \<and> n < 0xb0 then Jtag_uart_0
      else if 0x90 \<le> n \<and> n < 0xa0 then Sdram_pll
      else if 0x80 \<le> n \<and> n < 0x90 then Pio Keycode_base
      else if 0x70 \<le> n \<and> n < 0x80 then Pio Otg_hpi_address
      else if 0x60 \<le> n \<and> n < 0x70 then Pio Otg_hpi_data
      else if 0x50 \<le> n \<and> n < 0x60 then Pio Otg_hpi_r
      else if 0x40 \<le> n \<and> n < 0x50 then Pio Otg_hpi_w
      else if 0x30 \<le> n \<and> n < 0x40 then Pio Otg_hpi_cs
      else if 0x20 \<le> n \<and> n < 0x30 then Pio Otg_hpi_reset
      else if n < 0x10 then Onchip_memory2_0
      else Sdram)"
  by (simp add: router_def decoder_def hits Let_def)

text \<open>
  Claim C30. For every peripheral of \<^verbatim>\<open>system.h\<close> but the memory to which the decoder sends what it does
  not know, a load or store reaches the peripheral exactly if its address lies in the range that
  \<^verbatim>\<open>system.h\<close> gives for it, the system id by loads only; the addresses of the memory reach the memory.
\<close>

theorem decoder_matches_system_h:
  assumes "mapped s = Some (b, n)"
  shows "if s = Sdram then b \<le> unat a \<and> unat a < b + n \<longrightarrow> router rd a = Sdram
    else router rd a = s \<longleftrightarrow> b \<le> unat a \<and> unat a < b + n \<and> (s = Sysid_qsys_0 \<longrightarrow> rd)"
proof (cases s)
  case (Pio p)
  then show ?thesis using assms by (cases p) (auto simp: router_cases configs Let_def split: if_splits)
qed (use assms in \<open>auto simp: router_cases configs Let_def split: if_splits\<close>)

theorem decoder_matches_system_h_witness:
  "router False 0x6C = Pio Otg_hpi_data \<and> router False 0xB4 \<noteq> Sysid_qsys_0"
  using decoder_matches_system_h [where s = "Pio Otg_hpi_data" and b = "0x60" and n = 16 and rd = False and a = "0x6C"]
    decoder_matches_system_h [where s = Sysid_qsys_0 and b = "0xB0" and n = 8 and rd = False and a = "0xB4"]
  by (simp add: configs)

text \<open>
  Reset and exceptions start in the memory, at the start of a region of the linker; a break goes to the
  debugger. The regions are disjoint and in the two memories, the geometry of the SDRAM gives its
  span, the UART's line is the one that \<^verbatim>\<open>system.h\<close> names and its two registers are its own.
\<close>

lemma vectors:
  "router rd (ucast (reset_addr ALT_CPU)) = Sdram" "router rd (ucast (exception_addr ALT_CPU)) = Sdram"
  "router rd (ucast (break_addr ALT_CPU)) = Debug_mem"
  "unat (reset_addr ALT_CPU) \<in> fst ` set linker_regions" "unat (exception_addr ALT_CPU) \<in> fst ` set linker_regions"
  by (simp_all add: router_cases ALT_CPU_def linker_regions_def)

lemma regions_in_memory:
  assumes "r \<in> set linker_regions" "fst r \<le> unat a" "unat a < fst r + snd r"
  shows "router rd a \<in> {Onchip_memory2_0, Sdram}"
proof -
  consider "unat a < 16" | "0x10000000 \<le> unat a" "unat a < 0x18000000"
    using assms by (auto simp: linker_regions_def)
  then show ?thesis by cases (simp_all add: router_cases Let_def)
qed

lemma regions_disjoint:
  "i < j \<Longrightarrow> j < length linker_regions \<Longrightarrow>
   fst (linker_regions ! i) + snd (linker_regions ! i) \<le> fst (linker_regions ! j)"
  by (auto simp: linker_regions_def less_Suc_eq)

lemma sdram_geometry:
  "2 ^ (sdram_bank_width sdram_0_config + sdram_row_width sdram_0_config + sdram_col_width sdram_0_config)
     * (sdram_data_width sdram_0_config div 8) = span sdram_0_config"
  by (simp add: configs)

lemma uart_line: "irq_mapper True = push_bit (nat (irq jtag_uart_0_config)) 1"
  by (simp add: irq_mapper_def configs)

lemma uart_registers:
  "i < 2 \<Longrightarrow> router rd (ucast (IO_CALC_ADDRESS_NATIVE (base jtag_uart_0_config) i)) = Jtag_uart_0"
  by (auto simp: IO_CALC_ADDRESS_NATIVE_def configs router_cases less_2_cases_iff)

section \<open>Stores of the program\<close>

lemma router_pointer: "router rd (ucast (pointer p)) = Pio p"
  by (cases p) (simp_all add: router_cases pointer_def configs)

lemma pointer_aligned: "ucast (drop_bit 2 (ucast (pointer p) :: 29 word)) = (0 :: 2 word)"
  by (cases p) (simp_all add: pointer_def configs)

text \<open>Of a byte on all lanes a port of at most eight bits takes the byte's low bits.\<close>

lemma store_byte: "bit (E_st_data m v) i = bit v i" if "i < 8" for i
  using that by (simp add: E_st_data_def Let_def bit_or_iff bit_push_bit_iff bit_ucast_iff)

lemma low_bits:
  "(ucast (E_st_data m v) :: u8) = ucast v" "odd (ucast (E_st_data m v) :: 1 word) = odd v"
proof -
  show "(ucast (E_st_data m v) :: u8) = ucast v" by (rule bit_word_eqI) (simp add: bit_ucast_iff store_byte)
  show "odd (ucast (E_st_data m v) :: 1 word) = odd v"
    using store_byte [of 0 m v] by (simp add: bit_0 [symmetric] bit_ucast_iff)
qed

lemma int_store: "E_st_data False v = v"
  by (simp add: E_st_data_def)

lemma nios_step:
  "nios_pins (program_event e n) = pin_step (nios_pins n) e"
  "keycode_out (program_event e n) = (case e of PWr Keycode_base v \<Rightarrow> ucast v | _ \<Rightarrow> keycode_out n)"
  by (cases "(nios_pins n, e)" rule: pin_step.cases;
      simp add: program_event_def bus_write_def Let_def router_pointer pointer_aligned nios_pio_def nios_pins_def
        low_bits int_store)+

lemma nios_run: "nios_pins (fold program_event es n) = pins_after (nios_pins n) es"
  by (induction es arbitrary: n) (simp_all add: nios_step)

lemma reset_pins: "nios_pins nios_reset = pins0"
  by (simp add: nios_pins_def nios_reset_def pins0_def)

text \<open>The key code on the bus and the one in the register.\<close>

definition key_written :: "bus_event list \<Rightarrow> u8" where
  "key_written bs = (case rev [b \<leftarrow> bs. \<exists>k. b = KeyOut k] of KeyOut k # _ \<Rightarrow> k | _ \<Rightarrow> 0)"

lemma key_written_snoc:
  "key_written (bs @ bus_out p e) = (case e of PWr Keycode_base v \<Rightarrow> ucast v | _ \<Rightarrow> key_written bs)"
  by (cases "(p, e)" rule: bus_out.cases) (auto simp: key_written_def)

lemma key_run:
  "keycode_out (fold program_event es nios_reset) = key_written (decode pins0 es)"
proof (induction es rule: rev_induct)
  case Nil
  show ?case by (simp add: nios_reset_def key_written_def)
next
  case (snoc e es)
  then show ?case by (simp add: decode_append key_written_snoc nios_step split: event.split pio.split)
qed


section \<open>The system id\<close>

lemma later_timestamp:
  fixes h t :: u32
  assumes "\<bar>uint h - uint t\<bar> < 2 ^ 31"
  shows "sint (h - t) = uint h - uint t"
proof -
  have "sint (h - t) = signed_take_bit 31 (uint h - uint t)"
    by (simp only: sint_uint uint_sub_lem uint_word_ariths take_bit_eq_mod [symmetric]) (simp add: signed_take_bit_take_bit)
  also have "\<dots> = uint h - uint t" using assms by (intro signed_take_bit_int_eq_self) auto
  finally show ?thesis .
qed

text \<open>
  The test of the system id gives 0 exactly if both words agree with those that the software
  was built for; otherwise, for times of generation less than 68 years apart, 1 if the hardware is the
  later one and -1 if it is not. On the hardware of the repository it gives -1: the software was built
  for a later generation of the system.
\<close>

theorem sysid_tells_age:
  assumes "\<bar>uint (iord 1) - uint t\<bar> < 2 ^ 31"
  shows "alt_avalon_sysid_qsys_test i t iord =
      (if iord 0 = i \<and> iord 1 = t then 0 else if uint t < uint (iord 1) then 1 else - 1)
    \<and> sysid_on others in_port n = - 1"
proof -
  have hw: "sysid_on others in_port n = - 1"
    by (simp add: sysid_on_def alt_avalon_sysid_qsys_test_def Let_def bus_read_def router_cases configs
        IO_CALC_ADDRESS_NATIVE_def nios_sysid_def)
  show ?thesis using later_timestamp [OF assms] hw
    by (auto simp: alt_avalon_sysid_qsys_test_def Let_def)
qed

theorem sysid_tells_age_witness:
  "alt_avalon_sysid_qsys_test 0 5 (\<lambda>reg. if reg = 0 then 0 else 7) = 1"
  using sysid_tells_age [where iord = "\<lambda>reg. if reg = 0 then 0 else 7" and t = 5 and i = 0] by simp

end
