(* ===== verification/Vga.thy ===== *)
theory Vga
  imports Game
begin

text \<open>
  The video timing (\<^verbatim>\<open>VGA_controller.sv\<close>): two counters that scan 525 lines of 800 pixels, and the
  signals derived from them. The output \<^verbatim>\<open>VGA_VS\<close> is also the frame clock of the game. The lemmas
  give the state of the controller after any number of pixels in closed form.
\<close>

section \<open>Model\<close>

record vga =
  VGA_HS :: bool
  VGA_VS :: bool
  VGA_BLANK_N :: bool
  h_counter :: coord
  v_counter :: coord

abbreviation (input) H_TOTAL :: coord where "H_TOTAL \<equiv> 800"
abbreviation (input) V_TOTAL :: coord where "V_TOTAL \<equiv> 525"

text \<open>The next values of the counters.\<close>

definition counters_in :: "coord \<Rightarrow> coord \<Rightarrow> coord \<times> coord" where
  "counters_in h v =
     (if h + 1 = H_TOTAL then (0, if v + 1 = V_TOTAL then 0 else v + 1) else (h + 1, v))"

text \<open>One edge of the 25 MHz pixel clock.\<close>

definition vga_step :: "bool \<Rightarrow> vga \<Rightarrow> vga" where
  "vga_step Reset s =
     (if Reset
      then \<lparr>VGA_HS = False, VGA_VS = False, VGA_BLANK_N = False, h_counter = 0, v_counter = 0\<rparr>
      else let (h, v) = counters_in (h_counter s) (v_counter s)
           in \<lparr>VGA_HS = (\<not> (h \<ge> 656 \<and> h < 752)), VGA_VS = (\<not> (v \<ge> 490 \<and> v < 492)),
               VGA_BLANK_N = (h < 640 \<and> v < 480), h_counter = h, v_counter = v\<rparr>)"

section \<open>Closed form\<close>

text \<open>Column and line of the \<open>n\<close>-th pixel after a reset.\<close>

definition pixel_x :: "nat \<Rightarrow> nat" where
  "pixel_x n = n mod 800"

definition pixel_y :: "nat \<Rightarrow> nat" where
  "pixel_y n = n div 800 mod 525"

definition vga_at :: "nat \<Rightarrow> vga" where
  "vga_at n =
     \<lparr>VGA_HS = (0 < n \<and> pixel_x n \<notin> {656..<752}), VGA_VS = (0 < n \<and> pixel_y n \<notin> {490, 491}),
      VGA_BLANK_N = (0 < n \<and> pixel_x n < 640 \<and> pixel_y n < 480),
      h_counter = of_nat (pixel_x n), v_counter = of_nat (pixel_y n)\<rparr>"

lemma pixel_less [simp]: "pixel_x n < 800" "pixel_y n < 525"
  by (simp_all add: pixel_x_def pixel_y_def)

lemma pixel_Suc:
  "pixel_x (Suc n) = (if Suc (pixel_x n) = 800 then 0 else Suc (pixel_x n))"
  "pixel_y (Suc n) =
     (if Suc (pixel_x n) = 800 then if Suc (pixel_y n) = 525 then 0 else Suc (pixel_y n) else pixel_y n)"
  by (simp_all add: pixel_x_def pixel_y_def mod_Suc div_Suc)

lemma of_nat_coord_eq: "a < 1024 \<Longrightarrow> b < 1024 \<Longrightarrow> (of_nat a = (of_nat b :: coord)) = (a = b)"
  by (simp add: word_unat_eq_iff unsigned_of_nat take_bit_nat_eq_self)

lemma of_nat_coord_le: "a < 1024 \<Longrightarrow> b < 1024 \<Longrightarrow> (of_nat a \<le> (of_nat b :: coord)) = (a \<le> b)"
  by (simp add: word_le_nat_alt unsigned_of_nat take_bit_nat_eq_self)

lemma of_nat_coord_less: "a < 1024 \<Longrightarrow> b < 1024 \<Longrightarrow> (of_nat a < (of_nat b :: coord)) = (a < b)"
  by (simp add: word_less_nat_alt unsigned_of_nat take_bit_nat_eq_self)

lemma counters_at:
  "counters_in (of_nat (pixel_x n)) (of_nat (pixel_y n)) = (of_nat (pixel_x (Suc n)), of_nat (pixel_y (Suc n)))"
proof -
  have x: "(of_nat (pixel_x n) + 1 = (800 :: coord)) = (Suc (pixel_x n) = 800)"
    using of_nat_coord_eq [of "Suc (pixel_x n)" 800] pixel_less(1) [of n] by (simp add: add.commute)
  have y: "(of_nat (pixel_y n) + 1 = (525 :: coord)) = (Suc (pixel_y n) = 525)"
    using of_nat_coord_eq [of "Suc (pixel_y n)" 525] pixel_less(2) [of n] by (simp add: add.commute)
  show ?thesis unfolding counters_in_def x y by (simp add: pixel_Suc add.commute)
qed

lemma vga_step_at: "vga_step False (vga_at n) = vga_at (Suc n)"
proof -
  have x: "pixel_x (Suc n) < 1024" "pixel_y (Suc n) < 1024"
    using pixel_less [of "Suc n"] by linarith+
  have "(490 \<le> k \<longrightarrow> \<not> k < 492) = (k \<noteq> 490 \<and> k \<noteq> 491)" for k :: nat by auto
  then show ?thesis
    using of_nat_coord_le [of 656 "pixel_x (Suc n)"] of_nat_coord_less [of "pixel_x (Suc n)" 752]
      of_nat_coord_le [of 490 "pixel_y (Suc n)"] of_nat_coord_less [of "pixel_y (Suc n)" 492]
      of_nat_coord_less [of "pixel_x (Suc n)" 640] of_nat_coord_less [of "pixel_y (Suc n)" 480] x
    by (simp add: vga_step_def counters_at vga_at_def)
qed

lemma vga_reset: "vga_step True s = vga_at 0"
  by (simp add: vga_step_def vga_at_def pixel_x_def pixel_y_def)

lemma vga_run: "iterate (vga_step False) n (vga_at m) = vga_at (m + n)"
  by (induction n arbitrary: m) (simp_all add: vga_step_at)

text \<open>When the frame clock rises: at the first pixel after a reset and at the start of line 492.\<close>

lemma line_492: "n mod 420000 = 393600 \<longleftrightarrow> pixel_y n = 492 \<and> pixel_x n = 0"
proof -
  have "(800 * y + x = 393600) = (y = 492 \<and> x = 0)" if "x < 800" for x y :: nat
  proof
    assume "800 * y + x = 393600"
    moreover from this that have "491 < y" "y \<le> 492" by linarith+
    ultimately show "y = 492 \<and> x = 0" by simp
  qed simp
  moreover have "n mod 420000 = 800 * pixel_y n + pixel_x n"
    using mod_mult2_eq [of n 800 525] by (simp add: pixel_x_def pixel_y_def)
  ultimately show ?thesis by simp
qed

lemma frame_clock_rises:
  "VGA_VS (vga_at (Suc n)) \<and> \<not> VGA_VS (vga_at n) \<longleftrightarrow> n = 0 \<or> Suc n mod 420000 = 393600"
proof -
  have main: "Suc n mod 420000 = 393600 \<longleftrightarrow> pixel_y (Suc n) \<notin> {490, 491} \<and> pixel_y n \<in> {490, 491}"
    unfolding line_492 pixel_Suc by auto
  show ?thesis
  proof (cases "n = 0")
    case True
    then show ?thesis by (simp add: vga_at_def pixel_x_def pixel_y_def)
  next
    case False
    then show ?thesis using main by (simp add: vga_at_def)
  qed
qed

section \<open>The scan\<close>

text \<open>
  After a reset the controller scans the screen: after \<open>n\<close> pixels it is in column
  \<open>n mod 800\<close> of line \<open>n div 800 mod 525\<close>, the sync pulses are low in the columns 656 to 751 and in
  the lines 490 and 491, and the picture is shown in the 640 columns and 480 lines at the start.
\<close>

theorem vga_scans_the_screen:
  assumes "s' = iterate (vga_step False) n (vga_step True s)" and "0 < n"
  shows "unat (h_counter s') = n mod 800 \<and> unat (v_counter s') = n div 800 mod 525
     \<and> VGA_HS s' = (h_counter s' < 656 \<or> 752 \<le> h_counter s')
     \<and> VGA_VS s' = (v_counter s' \<noteq> 490 \<and> v_counter s' \<noteq> 491)
     \<and> VGA_BLANK_N s' = (h_counter s' < 640 \<and> v_counter s' < 480)"
proof -
  have s': "s' = vga_at n" unfolding assms(1) vga_reset vga_run by simp
  have x: "pixel_x n < 1024" "pixel_y n < 1024" using pixel_less [of n] by linarith+
  then have u: "unat (of_nat (pixel_x n) :: coord) = pixel_x n" "unat (of_nat (pixel_y n) :: coord) = pixel_y n"
    by (simp_all add: unsigned_of_nat take_bit_nat_eq_self)
  have "(of_nat (pixel_y n) = (490 :: coord)) = (pixel_y n = 490)" "(of_nat (pixel_y n) = (491 :: coord)) = (pixel_y n = 491)"
    using of_nat_coord_eq [OF x(2), of 490] of_nat_coord_eq [OF x(2), of 491] by simp_all
  then show ?thesis
    using u assms(2) of_nat_coord_less [OF x(1), of 656] of_nat_coord_le [of 752, OF _ x(1)]
      of_nat_coord_less [OF x(1), of 640] of_nat_coord_less [OF x(2), of 480]
    by (simp add: s' vga_at_def pixel_x_def pixel_y_def not_less) auto
qed

theorem vga_scans_the_screen_witness:
  "VGA_BLANK_N (iterate (vga_step False) 1700 (vga_step True \<lparr>VGA_HS = True, VGA_VS = True, VGA_BLANK_N = True,
     h_counter = 7, v_counter = 9\<rparr>))"
proof -
  define z where "z = iterate (vga_step False) 1700 (vga_step True \<lparr>VGA_HS = True, VGA_VS = True, VGA_BLANK_N = True,
     h_counter = 7, v_counter = 9\<rparr>)"
  show ?thesis
    using vga_scans_the_screen [OF z_def] unfolding z_def [symmetric] by (simp add: word_less_nat_alt)
qed

end
