(* ===== verification/Video.thy ===== *)
theory Video
  imports Vga GameClaims
begin

text \<open>
  The game on its clock (\<^verbatim>\<open>lab8.sv\<close>): the video timing takes a step at every second cycle of the
  50 MHz clock, and its vertical sync pulse is the frame clock of the game. The lemmas say in which
  cycles the game sees a frame, and what may move in the others.
\<close>

section \<open>Model\<close>

text \<open>\<open>pixel_edge\<close> says whether the present cycle ends with an edge of the 25 MHz clock.\<close>

record video =
  pixel_edge :: bool
  vga_controller :: vga
  gc :: game

definition video_step :: "bool \<Rightarrow> u8 \<Rightarrow> video \<Rightarrow> video" where
  "video_step Reset keycode d =
     \<lparr>pixel_edge = (\<not> pixel_edge d),
      vga_controller = (if pixel_edge d then vga_step Reset (vga_controller d) else vga_controller d),
      gc = game_step Reset (VGA_VS (vga_controller d)) keycode (gc d)\<rparr>"

text \<open>Three cycles of reset, then one cycle for each key code of a list.\<close>

definition video_reset :: "u8 \<Rightarrow> u8 \<Rightarrow> u8 \<Rightarrow> video \<Rightarrow> video" where
  "video_reset k1 k2 k3 d = video_step True k3 (video_step True k2 (video_step True k1 d))"

definition video_run :: "u8 list \<Rightarrow> video \<Rightarrow> video" where
  "video_run ks d = fold (video_step False) ks d"

section \<open>The edge detectors of the game\<close>

text \<open>All modules have the same edge detector and see the same frame clock.\<close>

definition edges_are :: "edge_detector \<Rightarrow> game \<Rightarrow> bool" where
  "edges_are e g \<longleftrightarrow> us_edge (ship g) = e \<and> l_edge (ulaser g) = e \<and> e_edge (bboi g) = e
     \<and> (\<forall>x\<in>set (enemies g). e_edge x = e)"

lemma step_edges:
  "us_edge (user_ship_step r f k s) = detect_edge f (us_edge s)"
  "l_edge (user_laser_step r f k ux uy p b h l) = detect_edge f (l_edge l)"
  "e_edge (boss_step r f k b d lx ly x) = detect_edge f (e_edge x)"
  "e_edge (enemy_step r f x0 y0 p d lx ly x) = detect_edge f (e_edge x)"
  by (simp_all add: user_ship_step_def user_laser_step_def boss_step_def enemy_step_def Let_def)

lemma laser_step:
  "ulaser (game_step r f k g) =
     user_laser_step r f k (User_Ship_X_Pos (ship g)) (User_Ship_Y_Pos (ship g)) (screen g = PLAY)
       (screen g = BOSS_FIGHT) (laser_hit g) (ulaser g)"
  by (simp add: game_step_def Let_def)

lemma edges_step:
  assumes "rows_ok g" "edges_are e g"
  shows "edges_are (detect_edge f e) (game_step r f k g)"
proof -
  have "e_edge x = detect_edge f e" if "x \<in> set (enemies (game_step r f k g))" for x
    by (rule enemy_after_step [OF assms(1) that]) (use assms(2) in \<open>simp add: step_edges edges_are_def\<close>)
  then show ?thesis using assms(2) by (simp add: edges_are_def step_edges laser_step)
qed

lemma edges_twice:
  assumes "rows_ok g"
  shows "edges_are \<lparr>frame_clk_delayed = f', frame_clk_rising_edge = (f' \<and> \<not> f)\<rparr>
    (game_step r' f' k' (game_step r f k g))"
proof -
  let ?g = "game_step r f k g" and ?e = "\<lparr>frame_clk_delayed = f', frame_clk_rising_edge = (f' \<and> \<not> f)\<rparr>"
  have d: "detect_edge f' (detect_edge f y) = ?e" for y by (simp add: detect_edge_def)
  have "e_edge x = ?e" if x: "x \<in> set (enemies (game_step r' f' k' ?g))" for x
  proof -
    obtain y where y: "y \<in> set (enemies ?g)" "e_edge x = detect_edge f' (e_edge y)"
      by (rule enemy_after_step [OF rows_ok_step [OF assms] x]) (use that in \<open>auto simp: step_edges\<close>)
    show ?thesis
      by (rule enemy_after_step [OF assms y(1)]) (simp add: y(2) step_edges d)
  qed
  then show ?thesis by (simp add: edges_are_def step_edges laser_step d)
qed

section \<open>A run after a reset\<close>

text \<open>
  \<open>c\<close> is 1 if the first cycle after the reset ends with an edge of the pixel clock, and 0
  otherwise. In cycle \<open>t\<close> the controller has seen \<open>(t + c) div 2\<close> pixels.
\<close>

definition vs_at :: "nat \<Rightarrow> nat \<Rightarrow> bool" where
  "vs_at c t = VGA_VS (vga_at ((t + c) div 2))"

definition edge_at :: "nat \<Rightarrow> nat \<Rightarrow> edge_detector" where
  "edge_at c t =
     \<lparr>frame_clk_delayed = (0 < t \<and> vs_at c (t - 1)),
      frame_clk_rising_edge = (0 < t \<and> vs_at c (t - 1) \<and> \<not> (1 < t \<and> vs_at c (t - 2)))\<rparr>"

definition video_at :: "nat \<Rightarrow> nat \<Rightarrow> video \<Rightarrow> bool" where
  "video_at c t d \<longleftrightarrow> pixel_edge d = odd (t + c) \<and> vga_controller d = vga_at ((t + c) div 2)
     \<and> edges_are (edge_at c t) (gc d) \<and> rows_ok (gc d)"

lemma video_starts:
  assumes "power_up (gc d)"
  shows "video_at (if pixel_edge d then 0 else 1) 0 (video_reset k1 k2 k3 d)"
proof -
  have ok: "rows_ok (gc d)" using assms by (simp add: power_up_def rows_ok_def)
  have v: "\<not> VGA_VS (vga_at 0)" "vga_at (Suc 0 div 2) = vga_at 0" by (simp_all add: vga_at_def)
  have e: "edge_at c 0 = \<lparr>frame_clk_delayed = False, frame_clk_rising_edge = (False \<and> \<not> x)\<rparr>" for c x
    by (simp add: edge_at_def)
  show ?thesis
  proof (cases "pixel_edge d")
    case True
    then show ?thesis
      using v ok unfolding video_at_def e [of _ "VGA_VS (vga_at 0)"]
      by (simp add: video_reset_def video_step_def vga_reset rows_ok_step edges_twice [where f' = False, simplified])
  next
    case False
    then show ?thesis
      using v ok unfolding video_at_def e [of _ "VGA_VS (vga_controller d)"]
      by (simp add: video_reset_def video_step_def vga_reset rows_ok_step edges_twice [where f' = False, simplified])
  qed
qed

lemma edge_at_Suc: "detect_edge (vs_at c t) (edge_at c t) = edge_at c (Suc t)"
  by (auto simp: detect_edge_def edge_at_def)

lemma video_goes_on:
  assumes "video_at c t d" "c < 2"
  shows "video_at c (Suc t) (video_step False k d)"
proof -
  let ?n = "(t + c) div 2"
  have vs: "VGA_VS (vga_controller d) = vs_at c t" using assms by (simp add: video_at_def vs_at_def)
  have "vga_controller (video_step False k d) = vga_at ((Suc t + c) div 2)"
  proof (cases "odd (t + c)")
    case True
    then have "(Suc t + c) div 2 = Suc ?n" by presburger
    then show ?thesis using assms(1) True by (simp add: video_at_def video_step_def vga_step_at)
  next
    case False
    then have "(Suc t + c) div 2 = ?n" by presburger
    then show ?thesis using assms(1) False by (simp add: video_at_def video_step_def)
  qed
  moreover have "gc (video_step False k d) = game_step False (vs_at c t) k (gc d)"
    by (simp add: video_step_def vs)
  moreover have "edges_are (edge_at c (Suc t)) (game_step False (vs_at c t) k (gc d))"
    using edges_step [of "gc d" "edge_at c t" "vs_at c t" False k, unfolded edge_at_Suc] assms(1)
    unfolding video_at_def by blast
  moreover have "pixel_edge (video_step False k d) = odd (Suc t + c)"
    using assms(1) by (simp add: video_at_def video_step_def)
  ultimately show ?thesis using assms(1) unfolding video_at_def by (simp add: rows_ok_step)
qed

lemma video_run_at:
  assumes "video_at c t d" "c < 2"
  shows "video_at c (t + length ks) (video_run ks d)"
  using assms(1)
proof (induction ks arbitrary: t d)
  case Nil
  then show ?case by (simp add: video_run_def)
next
  case (Cons k ks)
  from Cons.IH [OF video_goes_on [OF Cons.prems assms(2)]] show ?case by (simp add: video_run_def)
qed

lemma odd_mod_double: "0 < n \<Longrightarrow> (2 * m + 1) mod (2 * n) = 2 * (m mod n) + (1 :: nat)"
proof -
  assume "0 < n"
  have "2 * m mod (2 * n) = 2 * (m mod n)" by (rule mult_mod_right [symmetric])
  moreover have "Suc (2 * (m mod n)) \<noteq> 2 * n"
  proof
    assume "Suc (2 * (m mod n)) = 2 * n"
    then have "even (Suc (2 * (m mod n)))" by simp
    then show False by simp
  qed
  ultimately show ?thesis by (simp add: mod_Suc)
qed

text \<open>The cycles in which the game sees a frame.\<close>

lemma frame_cycle:
  assumes "4 \<le> t" "c < 2"
  shows "frame_clk_rising_edge (edge_at c t) \<longleftrightarrow> (t + c) mod 840000 = 787201"
proof -
  define s where "s = t - 2"
  have s: "t = Suc (Suc s)" using assms(1) by (simp add: s_def)
  let ?n = "(s + c) div 2"
  have r: "frame_clk_rising_edge (edge_at c t) \<longleftrightarrow> vs_at c (Suc s) \<and> \<not> vs_at c s"
    by (simp add: edge_at_def s)
  show ?thesis
  proof (cases "odd (s + c)")
    case True
    then have n: "(Suc s + c) div 2 = Suc ?n" "s + c = 2 * ?n + 1" by presburger+
    have "?n \<noteq> 0" using assms s n(2) by presburger
    then have "frame_clk_rising_edge (edge_at c t) \<longleftrightarrow> Suc ?n mod 420000 = 393600"
      unfolding r vs_at_def n(1) using frame_clock_rises [of ?n] by simp
    moreover have "t + c = 2 * Suc ?n + 1" using n(2) s by simp
    then have "(t + c) mod 840000 = 2 * (Suc ?n mod 420000) + 1"
      using odd_mod_double [of 420000 "Suc ?n"] by simp
    ultimately show ?thesis by simp
  next
    case False
    then have "(Suc s + c) div 2 = ?n" "even (t + c)" using s by presburger+
    moreover from this(2) have "even ((t + c) mod 840000)" by (simp add: dvd_mod_iff)
    then have "(t + c) mod 840000 \<noteq> 787201" by (metis odd_numeral)
    ultimately show ?thesis unfolding r vs_at_def by simp
  qed
qed

lemma frame_in_blanking:
  assumes "4 \<le> t" "c < 2" "frame_clk_rising_edge (edge_at c t)"
  shows "\<not> VGA_BLANK_N (vga_at ((t + c) div 2)) \<and> \<not> VGA_BLANK_N (vga_at ((Suc t + c) div 2))"
proof -
  let ?m = "(t + c) div 2"
  have "(t + c) mod 840000 = 787201" using frame_cycle [OF assms(1,2)] assms(3) by simp
  moreover from this have "odd (t + c)" by (metis dvd_mod_iff even_numeral odd_numeral)
  then have n: "t + c = 2 * ?m + 1" "(Suc t + c) div 2 = Suc ?m" by presburger+
  ultimately have "?m mod 420000 = 393600" using odd_mod_double [of 420000 ?m] by simp
  then have "pixel_y ?m = 492" "pixel_x ?m = 0" using line_492 by simp_all
  then have "pixel_y (Suc ?m) = 492" by (simp add: pixel_Suc)
  then show ?thesis unfolding n(2) using \<open>pixel_y ?m = 492\<close> by (simp add: vga_at_def)
qed

section \<open>Pictures and frames\<close>

text \<open>
  Claim C13. However the keys are pressed, from the fourth cycle after a reset on every module of
  the game sees a frame in the same cycles, one in 840000, which is one for each picture.
\<close>

theorem one_frame_per_picture:
  assumes "power_up (gc d)" and "z = gc (video_run ks (video_reset k1 k2 k3 d))" and "4 \<le> length ks"
    and "e \<in> {us_edge (ship z), l_edge (ulaser z), e_edge (bboi z)} \<union> e_edge ` set (enemies z)"
  shows "frame_clk_rising_edge e \<longleftrightarrow> (length ks + (if pixel_edge d then 0 else 1)) mod 840000 = 787201"
proof -
  define c where "c = (if pixel_edge d then 0 else 1 :: nat)"
  have c: "c < 2" by (simp add: c_def)
  from video_run_at [OF video_starts [OF assms(1), folded c_def] c, of ks k1 k2 k3]
  have "edges_are (edge_at c (length ks)) z" by (simp add: video_at_def assms(2))
  then have "e = edge_at c (length ks)" using assms(4) by (auto simp: edges_are_def)
  then show ?thesis using frame_cycle [OF assms(3) c] by (simp add: c_def)
qed

definition demo_video :: video where
  "demo_video = \<lparr>pixel_edge = True, vga_controller = vga_at 5, gc = demo_game\<rparr>"

theorem one_frame_per_picture_witness:
  "frame_clk_rising_edge (l_edge (ulaser (gc (video_run (replicate 787201 0) (video_reset 0 0 0 demo_video)))))
   \<and> \<not> frame_clk_rising_edge (l_edge (ulaser (gc (video_run (replicate 787202 0) (video_reset 0 0 0 demo_video)))))"
proof -
  have d: "power_up (gc demo_video)" "pixel_edge demo_video" by (simp_all add: demo_video_def demo_power_up)
  show ?thesis
    using one_frame_per_picture [OF d(1) refl, of "replicate 787201 0" "l_edge (ulaser (gc (video_run (replicate 787201 0) (video_reset 0 0 0 demo_video))))" 0 0 0]
      one_frame_per_picture [OF d(1) refl, of "replicate 787202 0" "l_edge (ulaser (gc (video_run (replicate 787202 0) (video_reset 0 0 0 demo_video))))" 0 0 0]
    by (simp add: d(2))
qed

section \<open>Nothing moves while it is drawn\<close>

lemma unmoved:
  "\<not> frame_clk_rising_edge (us_edge s) \<Longrightarrow> User_Ship_X_Pos (user_ship_step False f k s) = User_Ship_X_Pos s
     \<and> User_Ship_Y_Pos (user_ship_step False f k s) = User_Ship_Y_Pos s"
  "\<not> frame_clk_rising_edge (l_edge l) \<Longrightarrow> p \<or> b \<Longrightarrow> laser_X_Pos (user_laser_step False f k ux uy p b False l) = laser_X_Pos l
     \<and> laser_Y_Pos (user_laser_step False f k ux uy p b False l) = laser_Y_Pos l"
  "\<not> frame_clk_rising_edge (e_edge e) \<Longrightarrow> \<not> at_bottom e \<Longrightarrow> \<not> enemy_hit e \<Longrightarrow>
     X_Pos (enemy_step False f x y True n lx ly e) = X_Pos e \<and> Y_Pos (enemy_step False f x y True n lx ly e) = Y_Pos e"
  "\<not> frame_clk_rising_edge (e_edge e) \<Longrightarrow> \<not> at_bottom e \<Longrightarrow> \<not> enemy_hit e \<Longrightarrow>
     X_Pos (boss_step False f k True n lx ly e) = X_Pos e \<and> Y_Pos (boss_step False f k True n lx ly e) = Y_Pos e"
  by (auto simp: user_ship_step_def user_laser_step_def enemy_step_def enemy_move_def boss_step_def boss_move_def Let_def)

lemma drawn_unmoved:
  assumes "power_up (gc d)" and "z = video_run ks (video_reset k1 k2 k3 d)" and "4 \<le> length ks"
    and "z' = video_step False k z" and "VGA_BLANK_N (vga_controller z) \<or> VGA_BLANK_N (vga_controller z')"
  shows "User_Ship_X_Pos (ship (gc z')) = User_Ship_X_Pos (ship (gc z))
     \<and> User_Ship_Y_Pos (ship (gc z')) = User_Ship_Y_Pos (ship (gc z))
     \<and> (screen (gc z) = PLAY \<longrightarrow> (\<forall>i<18. let e = enemies (gc z) ! i; e' = enemies (gc z') ! i in
          at_bottom e \<or> enemy_hit e \<or> X_Pos e' = X_Pos e \<and> Y_Pos e' = Y_Pos e))
     \<and> (screen (gc z) = BOSS_FIGHT \<longrightarrow> (let e = bboi (gc z); e' = bboi (gc z') in
          at_bottom e \<or> enemy_hit e \<or> X_Pos e' = X_Pos e \<and> Y_Pos e' = Y_Pos e))
     \<and> (screen (gc z) \<in> {PLAY, BOSS_FIGHT} \<longrightarrow> laser_hit (gc z) \<or>
          laser_X_Pos (ulaser (gc z')) = laser_X_Pos (ulaser (gc z)) \<and> laser_Y_Pos (ulaser (gc z')) = laser_Y_Pos (ulaser (gc z)))"
proof -
  define c where "c = (if pixel_edge d then 0 else 1 :: nat)"
  define t where "t = length ks"
  have c: "c < 2" by (simp add: c_def)
  have z: "video_at c t z"
    using video_run_at [OF video_starts [OF assms(1), folded c_def] c, of ks k1 k2 k3] by (simp add: assms(2) t_def)
  have z': "video_at c (Suc t) z'" using video_goes_on [OF z c] assms(4) by simp
  have "VGA_BLANK_N (vga_at ((t + c) div 2)) \<or> VGA_BLANK_N (vga_at ((Suc t + c) div 2))"
    using z z' assms(5) by (simp add: video_at_def)
  then have no: "\<not> frame_clk_rising_edge (edge_at c t)"
    using frame_in_blanking [OF assms(3) c] by (auto simp: t_def)
  have e: "edges_are (edge_at c t) (gc z)" and ok: "rows_ok (gc z)" using z by (simp_all add: video_at_def)
  define f where "f = VGA_VS (vga_controller z)"
  have g: "gc z' = game_step False f k (gc z)" by (simp add: assms(4) video_step_def f_def)
  have en: "\<not> frame_clk_rising_edge (e_edge (enemies (gc z) ! i))" if "i < 18" for i
    using that e no rows_18 [OF ok] by (simp add: edges_are_def)
  have "X_Pos (enemies (gc z') ! i) = X_Pos (enemies (gc z) ! i) \<and> Y_Pos (enemies (gc z') ! i) = Y_Pos (enemies (gc z) ! i)"
    if "i < 18" "screen (gc z) = PLAY" "\<not> at_bottom (enemies (gc z) ! i)" "\<not> enemy_hit (enemies (gc z) ! i)" for i
    unfolding g enemy_nth [OF ok that(1)] using unmoved(3) [OF en [OF that(1)] that(3,4)] that(2) by simp
  then show ?thesis
    using e no unmoved(1) [of "ship (gc z)" f k] unmoved(4) [of "bboi (gc z)" f k]
      unmoved(2) [of "ulaser (gc z)" "screen (gc z) = PLAY" "screen (gc z) = BOSS_FIGHT"]
    by (auto simp: g edges_are_def laser_step Let_def)
qed



end
