(* ===== verification/Draw.thy ===== *)
theory Draw
  imports Video
begin

text \<open>
  What is shown: the sprites and their memories (\<^verbatim>\<open>ram.sv\<close> and the drawing parts of \<^verbatim>\<open>user_ship.sv\<close>,
  \<^verbatim>\<open>laser.sv\<close>, \<^verbatim>\<open>enemy-ship.sv\<close>, \<^verbatim>\<open>boss.sv\<close>), the texts (\<^verbatim>\<open>galaga_logo.sv\<close>, \<^verbatim>\<open>sprite_rom.sv\<close>), the
  choice of the colour (\<^verbatim>\<open>game_controller.sv\<close>, \<^verbatim>\<open>Color_Mapper.sv\<close>) and the score on the seven-segment
  displays (\<^verbatim>\<open>HexDriver.sv\<close>, \<^verbatim>\<open>lab8.sv\<close>). The contents of the sprite memories, which come from files, are
  a parameter. The lemmas show that every sprite is read inside its memory, and where the texts are
  not.
\<close>

section \<open>Sprites\<close>

definition inside :: "coord \<Rightarrow> coord \<Rightarrow> coord \<Rightarrow> coord \<Rightarrow> coord \<Rightarrow> coord \<Rightarrow> bool" where
  "inside x y X Y w h \<longleftrightarrow> x \<ge> X \<and> x < X + w \<and> y \<ge> Y \<and> y < Y + h"

type_synonym colour24 = "24 word"

definition user_ship_addr :: "coord \<Rightarrow> coord \<Rightarrow> user_ship \<Rightarrow> 11 word" where
  "user_ship_addr x y s =
     (if inside x y (User_Ship_X_Pos s) (User_Ship_Y_Pos s) 40 40
      then (ucast y - ucast (User_Ship_Y_Pos s)) * 40 + (ucast x - ucast (User_Ship_X_Pos s)) else 0)"

definition laser_addr :: "coord \<Rightarrow> coord \<Rightarrow> user_laser \<Rightarrow> 10 word" where
  "laser_addr x y l =
     (if inside x y (laser_X_Pos l) (laser_Y_Pos l) 20 49
      then (y - laser_Y_Pos l) * 20 + (x - laser_X_Pos l) else 0)"

text \<open>The same for enemies and boss. The address has one bit more than the port of the memory.\<close>

definition enemy_ship_addr :: "coord \<Rightarrow> coord \<Rightarrow> enemy \<Rightarrow> 11 word" where
  "enemy_ship_addr x y e =
     (if inside x y (X_Pos e) (Y_Pos e) 30 30 \<and> \<not> enemy_hit e
      then (ucast y - ucast (Y_Pos e)) * 30 + (ucast x - ucast (X_Pos e)) else 0)"

text \<open>The memories give the word at the address of the cycle before.\<close>

definition shipRAM :: "colour24 list \<Rightarrow> 11 word \<Rightarrow> colour24" where
  "shipRAM mem a = (if a \<le> 1600 then mem ! unat a else 0)"

definition enemyRAM :: "colour24 list \<Rightarrow> 10 word \<Rightarrow> colour24" where
  "enemyRAM mem a = (if a \<le> 900 then mem ! unat a else 0)"

definition laserRAM :: "colour24 list \<Rightarrow> 10 word \<Rightarrow> colour24" where
  "laserRAM mem a = (if a \<le> 980 then mem ! unat a else 0)"

record memories =
  ship_mem :: "colour24 list"
  enemy_mem :: "colour24 list"
  laser_mem :: "colour24 list"

record sprite_data =
  user_ship_data :: colour24
  laser_data :: colour24
  enemy_ship_data :: "colour24 list"
  boss_data :: colour24

definition ram_step :: "memories \<Rightarrow> coord \<Rightarrow> coord \<Rightarrow> game \<Rightarrow> sprite_data" where
  "ram_step M x y g =
     \<lparr>user_ship_data = shipRAM (ship_mem M) (user_ship_addr x y (ship g)),
      laser_data = laserRAM (laser_mem M) (laser_addr x y (ulaser g)),
      enemy_ship_data = map (\<lambda>e. enemyRAM (enemy_mem M) (ucast (enemy_ship_addr x y e))) (row1 g @ row2 g @ row3 g),
      boss_data = enemyRAM (enemy_mem M) (ucast (enemy_ship_addr x y (bboi g)))\<rparr>"

text \<open>The colour of the background in the pictures is not drawn.\<close>

definition is_user_ship :: "coord \<Rightarrow> coord \<Rightarrow> colour24 \<Rightarrow> user_ship \<Rightarrow> bool" where
  "is_user_ship x y d s \<longleftrightarrow> inside x y (User_Ship_X_Pos s) (User_Ship_Y_Pos s) 40 40 \<and> d \<noteq> 0x002000"

definition is_laser :: "coord \<Rightarrow> coord \<Rightarrow> colour24 \<Rightarrow> user_laser \<Rightarrow> bool" where
  "is_laser x y d l \<longleftrightarrow>
     inside x y (laser_X_Pos l) (laser_Y_Pos l) 20 49 \<and> d \<noteq> 0x002000 \<and> space_pressed l"

definition is_enemy_ship :: "coord \<Rightarrow> coord \<Rightarrow> colour24 \<Rightarrow> enemy \<Rightarrow> bool" where
  "is_enemy_ship x y d e \<longleftrightarrow> inside x y (X_Pos e) (Y_Pos e) 30 30 \<and> \<not> enemy_hit e \<and> d \<noteq> 0x002000"

section \<open>Texts\<close>

text \<open>
  The bit of a text at a pixel: the row is cut to the width \<open>n\<close> of the address port, the column
  counts down from \<open>last_bit\<close>. \<open>None\<close> where the row or the column lies outside the memory; such a bit is
  undefined, and does not count as 1 in a comparison.
\<close>

definition logo :: "'a::len word list \<Rightarrow> nat \<Rightarrow> coord \<Rightarrow> coord \<times> coord \<Rightarrow> coord \<times> coord \<Rightarrow> coord \<Rightarrow> coord \<Rightarrow> bool option" where
  "logo rom n last_bit xs ys x y =
     (if x \<ge> fst xs \<and> x \<le> snd xs \<and> y \<ge> fst ys \<and> y \<le> snd ys
      then let addr = take_bit n (unat (y - fst ys)); i = unat (last_bit - (x - fst xs))
           in if addr < length rom \<and> i < LENGTH('a) then Some (bit (rom ! addr) i) else None
      else Some False)"

definition galaga_rom :: "96 word list" where
  "galaga_rom =
     [0,
      0,
      0xFF00300FF0003000FF00300,
      0x3C3C0FC03C000FC03C3C0FC0,
      0xF00C3CF03C003CF0F00C3CF0,
      0xF000F03C3C00F03CF000F03C,
      0xF000F03C3C00F03CF000F03C,
      0xF3FCFFFC3C00FFFCF3FCFFFC,
      0xF03CF03C3C00F03CF03CF03C,
      0xF03CF03C3C00F03CF03CF03C,
      0x3C3CF03C3C0CF03C3C3CF03C,
      0xFCCF03CFFFCF03C0FCCF03C,
      0,
      0,
      0,
      0]"

definition gameover_rom :: "128 word list" where
  "gameover_rom =
     [0,
      0,
      0xFF00300F00FFFFC3FF0F00FFFFCFFF0,
      0x3C3C0FC0FC3F3C3CF03CF00F3C3C3C3C,
      0xF00C3CF0FFFF3C0CF03CF00F3C0C3C3C,
      0xF000F03CFFFF3CC0F03CF00F3CC03C3C,
      0xF000F03CF3CF3FC0F03CF00F3FC03FF0,
      0xF3FCFFFCF00F3CC0F03CF00F3CC03C3C,
      0xF03CF03CF00F3C00F03CF00F3C003C3C,
      0xF03CF03CF00F3C0CF03C3C3C3C0C3C3C,
      0x3C3CF03CF00F3F3CF03C0FF03F3C3C3C,
      0xFCCF03CF00FFFFC3FF003C0FFFCFC3E,
      0,
      0,
      0,
      0]"

definition press_start_rom :: "55 word list" where
  "press_start_rom =
     [0x7B9E7381E8FFDC,
      0x4A5084010C9212,
      0x7B9C7381CA939C,
      0x42900841099214,
      0x425E7381E893D2]"

definition you_win_rom :: "112 word list" where
  "you_win_rom =
     [0,
      0,
      0xF00E9FF8F00F0000F00F0FF0F03C,
      0xF00EF81EF00F0000F00F03C0FC3C,
      0xF00EF81EF00F0000F00F03C0FE3C,
      0x3C3C781EF00F0000F00F03C0FFFC,
      0xFF0781EF00F0000F18F03C0F3FC,
      0x3C0781EF00F0000F3CF03C0F0FC,
      0x3C0781EF00F0000FFFF03C0F03C,
      0x3C0781E781E0000FFFF03C0F03C,
      0x3C0781E3FFC0000FC3F03C0F03C,
      0xFF01FF80FF00000F00F0FF0F03C,
      0,
      0,
      0,
      0]"

definition boss_rom :: "64 word list" where
  "boss_rom =
     [0,
      0,
      0x7FF81FF83FF03FF0,
      0x1E1E781EF03CF03C,
      0x1E1E781EF03CF03C,
      0x1E1E781E3C003C00,
      0x1FF8781E0FC00FC0,
      0x1E1E781E00F000F0,
      0x1E1E781E003C003C,
      0x1E1E781EF03CF03C,
      0x1E1E781EF03CF03C,
      0x7FF81FF83FF03FF0,
      0,
      0,
      0,
      0]"

definition galaga_logo :: "coord \<Rightarrow> coord \<Rightarrow> bool option" where
  "galaga_logo = logo galaga_rom 4 95 (272, 368) (232, 248)"

definition gameover_logo :: "coord \<Rightarrow> coord \<Rightarrow> bool option" where
  "gameover_logo = logo gameover_rom 4 127 (256, 384) (232, 248)"

definition press_start_logo :: "coord \<Rightarrow> coord \<Rightarrow> bool option" where
  "press_start_logo = logo press_start_rom 3 55 (293, 348) (253, 258)"

definition you_win_logo :: "coord \<Rightarrow> coord \<Rightarrow> bool option" where
  "you_win_logo = logo you_win_rom 4 111 (264, 376) (232, 248)"

definition boss_logo :: "coord \<Rightarrow> coord \<Rightarrow> bool option" where
  "boss_logo = logo boss_rom 4 63 (288, 352) (232, 248)"

section \<open>The colour of a pixel\<close>

type_synonym rgb = "u8 \<times> u8 \<times> u8"

abbreviation (input) white :: rgb where "white \<equiv> (0xFF, 0xFF, 0xFF)"
abbreviation (input) background :: rgb where "background \<equiv> (0x20, 0, 0)"

definition sprite_colour :: "colour24 \<Rightarrow> rgb" where
  "sprite_colour d = (ucast (drop_bit 8 d), ucast (drop_bit 16 d), ucast d)"

text \<open>The tests of the 18 enemies, one after the other.\<close>

fun enemy_colour :: "coord \<Rightarrow> coord \<Rightarrow> (colour24 \<times> enemy) list \<Rightarrow> rgb" where
  "enemy_colour x y [] = background"
| "enemy_colour x y ((d, e) # des) =
     (if is_enemy_ship x y d e then sprite_colour d else enemy_colour x y des)"

fun text_colour :: "bool option list \<Rightarrow> rgb \<Rightarrow> rgb" where
  "text_colour [] c = c"
| "text_colour (t # ts) c = (if t = Some True then white else text_colour ts c)"

definition color_data :: "sprite_data \<Rightarrow> coord \<Rightarrow> coord \<Rightarrow> game \<Rightarrow> rgb" where
  "color_data q x y g =
     (let ship_or = (\<lambda>c. if is_user_ship x y (user_ship_data q) (ship g)
                         then sprite_colour (user_ship_data q) else c);
          laser_or = (\<lambda>c. if is_laser x y (laser_data q) (ulaser g) then sprite_colour (laser_data q) else c)
      in case screen g of
           START \<Rightarrow> text_colour [galaga_logo x y, press_start_logo x y] (ship_or background)
         | PLAY \<Rightarrow> ship_or (laser_or (enemy_colour x y (zip (enemy_ship_data q) (row1 g @ row2 g @ row3 g))))
         | BOSS_LOGO \<Rightarrow> text_colour [boss_logo x y, press_start_logo x y] background
         | BOSS_FIGHT \<Rightarrow>
             (if is_enemy_ship x y (boss_data q) (bboi g) then sprite_colour (boss_data q)
              else ship_or (laser_or background))
         | GAMEOVER \<Rightarrow> text_colour [gameover_logo x y, press_start_logo x y] background
         | WIN \<Rightarrow> text_colour [you_win_logo x y, press_start_logo x y] background)"

section \<open>The score on the displays\<close>

definition HexDriver :: "4 word \<Rightarrow> 7 word" where
  "HexDriver In0 =
     [0x40, 0x79, 0x24, 0x30, 0x19, 0x12, 0x02, 0x78, 0x00, 0x10, 0x08, 0x03, 0x46, 0x21, 0x06, 0x0E] ! unat In0"

text \<open>\<open>HEX1\<close> and \<open>HEX0\<close>.\<close>

definition score_display :: "5 word \<Rightarrow> 7 word \<times> 7 word" where
  "score_display s =
     (HexDriver (of_nat (unat s div 10 mod 10)), HexDriver (of_nat (unat s mod 10)))"

section \<open>Every sprite is read inside its memory\<close>

lemma inside_offset:
  assumes "inside x y X Y w h"
  shows "unat x - unat X < unat w" "unat y - unat Y < unat h" "unat X \<le> unat x" "unat Y \<le> unat y"
    "unat (x - X) = unat x - unat X" "unat (y - Y) = unat y - unat Y"
proof -
  have o: "b - a < unat k" if "A \<le> B" "B < A + k" "a = unat A" "b = unat B" for A B k :: coord and a b
  proof -
    have "unat (A + k) \<le> unat A + unat k" by (simp add: unat_plus_coord)
    then show ?thesis using that by (simp add: word_less_nat_alt word_le_nat_alt)
  qed
  show "unat x - unat X < unat w" "unat y - unat Y < unat h" "unat X \<le> unat x" "unat Y \<le> unat y"
    using assms o by (auto simp: inside_def word_le_nat_alt)
  show "unat (x - X) = unat x - unat X" "unat (y - Y) = unat y - unat Y"
    using assms by (auto simp: inside_def unat_sub)
qed

lemma unat_small_11: "n < 2048 \<Longrightarrow> unat (of_nat n :: 11 word) = n"
  by (simp add: unsigned_of_nat take_bit_nat_eq_self)

lemma unat_small_10: "n < 1024 \<Longrightarrow> unat (of_nat n :: 10 word) = n"
  by (simp add: unsigned_of_nat take_bit_nat_eq_self)

lemma wide_difference:
  fixes y Y :: coord
  assumes "unat Y \<le> unat y"
  shows "(ucast y - ucast Y :: 11 word) = of_nat (unat y - unat Y)"
proof -
  have "(of_nat (unat y - unat Y) :: 11 word) = of_nat (unat y) - of_nat (unat Y)" by (rule of_nat_diff [OF assms])
  then show ?thesis by simp
qed

lemma ship_addr:
  assumes "inside x y (User_Ship_X_Pos s) (User_Ship_Y_Pos s) 40 40"
  defines "a \<equiv> (unat y - unat (User_Ship_Y_Pos s)) * 40 + (unat x - unat (User_Ship_X_Pos s))"
  shows "unat (user_ship_addr x y s) = a" "a < 1600"
proof -
  note o = inside_offset [OF assms(1)]
  show a: "a < 1600" using o(1,2) by (simp add: a_def)
  have "user_ship_addr x y s = of_nat a"
    using assms(1) by (simp only: user_ship_addr_def a_def wide_difference o(3,4) if_True of_nat_add of_nat_mult of_nat_numeral)
  then show "unat (user_ship_addr x y s) = a" using a by (simp add: unat_small_11)
qed

lemma enemy_addr:
  assumes "inside x y (X_Pos e) (Y_Pos e) 30 30" "\<not> enemy_hit e"
  defines "a \<equiv> (unat y - unat (Y_Pos e)) * 30 + (unat x - unat (X_Pos e))"
  shows "unat (ucast (enemy_ship_addr x y e) :: 10 word) = a" "a < 900"
proof -
  note o = inside_offset [OF assms(1)]
  show a: "a < 900" using o(1,2) by (simp add: a_def)
  have "enemy_ship_addr x y e = of_nat a"
    using assms(1,2) by (simp only: enemy_ship_addr_def a_def wide_difference o(3,4) if_True of_nat_add of_nat_mult
        of_nat_numeral simp_thms)
  then have "unat (enemy_ship_addr x y e) = a" using a by (simp add: unat_small_11)
  then show "unat (ucast (enemy_ship_addr x y e) :: 10 word) = a"
    using a by (simp add: unsigned_ucast_eq take_bit_nat_eq_self)
qed

lemma laser_address:
  assumes "inside x y (laser_X_Pos l) (laser_Y_Pos l) 20 49"
  defines "a \<equiv> (unat y - unat (laser_Y_Pos l)) * 20 + (unat x - unat (laser_X_Pos l))"
  shows "unat (laser_addr x y l) = a" "a < 980"
proof -
  note o = inside_offset [OF assms(1)]
  show a: "a < 980" using o(1,2) by (simp add: a_def)
  have "x - laser_X_Pos l = of_nat (unat x - unat (laser_X_Pos l))"
    "y - laser_Y_Pos l = of_nat (unat y - unat (laser_Y_Pos l))"
    by (simp_all add: o(3,4))
  then have "laser_addr x y l = of_nat a"
    using assms(1) by (simp only: laser_addr_def a_def if_True of_nat_add of_nat_mult of_nat_numeral)
  then show "unat (laser_addr x y l) = a" using a by (simp add: unat_small_10)
qed

text \<open>
  Claim C31. Wherever a sprite is, also across the edge where coordinates wrap, a pixel inside it is
  read from its own place in the memory, row by row, below the 1600, 900 and 980 words that the
  files fill; outside a sprite the address is 0.
\<close>

theorem sprites_read_in_bounds:
  "(if inside x y (User_Ship_X_Pos s) (User_Ship_Y_Pos s) 40 40
    then let a = (unat y - unat (User_Ship_Y_Pos s)) * 40 + (unat x - unat (User_Ship_X_Pos s))
         in shipRAM mem (user_ship_addr x y s) = mem ! a \<and> a < 1600
    else user_ship_addr x y s = 0)
   \<and> (if inside x y (X_Pos e) (Y_Pos e) 30 30 \<and> \<not> enemy_hit e
      then let a = (unat y - unat (Y_Pos e)) * 30 + (unat x - unat (X_Pos e))
           in enemyRAM mem (ucast (enemy_ship_addr x y e)) = mem ! a \<and> a < 900
      else enemy_ship_addr x y e = 0)
   \<and> (if inside x y (laser_X_Pos l) (laser_Y_Pos l) 20 49
      then let a = (unat y - unat (laser_Y_Pos l)) * 20 + (unat x - unat (laser_X_Pos l))
           in laserRAM mem (laser_addr x y l) = mem ! a \<and> a < 980
      else laser_addr x y l = 0)"
  using ship_addr [of x y s] enemy_addr [of x y e] laser_address [of x y l]
  by (auto simp: shipRAM_def enemyRAM_def laserRAM_def word_le_nat_alt user_ship_addr_def enemy_ship_addr_def
      laser_addr_def Let_def)

section \<open>The texts are not\<close>

lemma column:
  fixes x x0 w :: coord
  assumes "x0 \<le> x" "x \<le> x0 + w" "unat x0 + unat w < 1024" "unat w \<le> unat m + 1" "unat m < 512"
  shows "unat (m - (x - x0)) = (if unat x - unat x0 \<le> unat m then unat m - (unat x - unat x0) else 1023)"
proof -
  have d: "unat (x - x0) = unat x - unat x0" using assms(1) by (rule unat_sub)
  have "unat (x0 + w) = unat x0 + unat w" using assms(3) by (simp add: unat_plus_coord)
  then have x: "unat x \<le> unat x0 + unat w" using assms(2) by (simp add: word_le_nat_alt)
  show ?thesis
  proof (cases "unat x - unat x0 \<le> unat m")
    case True
    then have "x - x0 \<le> m" by (simp add: word_le_nat_alt d)
    then show ?thesis using True by (simp add: unat_sub d)
  next
    case False
    then have "unat (x - x0) = unat (m + 1)" using x assms(4,5) by (simp add: d unat_plus_coord)
    then have "x - x0 = m + 1" by (simp only: word_unat_eq_iff)
    then show ?thesis using False by (simp add: unsigned_minus_1_eq_mask mask_eq_exp_minus_1)
  qed
qed

lemma logo_None:
  "logo rom n m (x0, x1) (y0, y1) x y = None \<longleftrightarrow>
     x0 \<le> x \<and> x \<le> x1 \<and> y0 \<le> y \<and> y \<le> y1
     \<and> (length rom \<le> take_bit n (unat (y - y0)) \<or> LENGTH('a) \<le> unat (m - (x - x0)))"
  for rom :: "'a::len word list"
  by (auto simp: logo_def Let_def not_less)

text \<open>In a text of 16 rows every row of the window is there, the 17th is the first again.\<close>

lemma row_16: "length rom = 16 \<Longrightarrow> \<not> length rom \<le> take_bit 4 k"
  using take_bit_nat_less_exp [of 4 k] by simp

lemma rom_lengths:
  "length galaga_rom = 16" "length gameover_rom = 16" "length press_start_rom = 5" "length you_win_rom = 16"
  "length boss_rom = 16"
  by (simp_all add: galaga_rom_def gameover_rom_def press_start_rom_def you_win_rom_def boss_rom_def)

lemma last_column:
  fixes x x0 x1 m :: coord
  assumes "x0 \<le> x" "x \<le> x1" "x1 = x0 + m + 1" "unat x0 + unat m + 1 < 1024" "unat m < 511"
  shows "unat m + 1 \<le> unat (m - (x - x0)) \<longleftrightarrow> x = x1"
proof -
  have m1: "unat (m + 1) = unat m + 1" using assms(5) by (simp add: unat_plus_coord)
  have x1: "unat x1 = unat x0 + unat m + 1" using assms(3,4) m1 by (simp add: unat_plus_coord add.assoc)
  have "x \<le> x0 + (m + 1)" using assms(2,3) by (simp add: add.assoc)
  from column [OF assms(1) this, of m] have c: "unat (m - (x - x0)) =
      (if unat x - unat x0 \<le> unat m then unat m - (unat x - unat x0) else 1023)"
    using assms(4,5) m1 by simp
  have le: "unat x0 \<le> unat x" "unat x \<le> unat x1" using assms(1,2) by (simp_all add: word_le_nat_alt)
  have "unat m + 1 \<le> unat (m - (x - x0)) \<longleftrightarrow> unat x = unat x1"
    unfolding c using le x1 assms(5) by auto
  then show ?thesis by (simp only: word_unat_eq_iff)
qed

lemma large_text:
  fixes rom :: "'a::len word list"
  assumes "length rom = 16" "LENGTH('a) = unat m + 1" "x1 = x0 + m + 1" "unat x0 + unat m + 1 < 1024" "unat m < 511"
    "x0 \<le> x1"
  shows "logo rom 4 m (x0, x1) (y0, y1) x y = None \<longleftrightarrow> x = x1 \<and> y0 \<le> y \<and> y \<le> y1"
proof -
  have "x0 \<le> x \<and> x \<le> x1 \<and> LENGTH('a) \<le> unat (m - (x - x0)) \<longleftrightarrow> x = x1"
    using last_column [OF _ _ assms(3-5), of x] assms(2,6) by auto
  then show ?thesis unfolding logo_None using row_16 [OF assms(1)] by blast
qed

lemma press_column:
  fixes x :: coord
  assumes "293 \<le> x" "x \<le> 348"
  shows "55 \<le> unat (55 - (x - 293)) \<longleftrightarrow> x = 293"
proof -
  have c: "unat (55 - (x - 293)) = (if unat x - 293 \<le> 55 then 55 - (unat x - 293) else 1023)"
    using column [OF assms(1), of 55 55] assms(2) by simp
  have "293 \<le> unat x" "unat x \<le> 348" using assms by (simp_all add: word_le_nat_alt)
  then have "55 \<le> unat (55 - (x - 293)) \<longleftrightarrow> unat x = 293" unfolding c by auto
  then show ?thesis by (simp add: word_unat_eq_iff)
qed

lemma press_row:
  fixes y :: coord
  assumes "253 \<le> y" "y \<le> 258"
  shows "5 \<le> take_bit 3 (unat (y - 253)) \<longleftrightarrow> y = 258"
proof -
  have y: "253 \<le> unat y" "unat y \<le> 258" using assms by (simp_all add: word_le_nat_alt)
  have "unat (y - 253) = unat y - 253" using unat_sub [OF assms(1)] by simp
  moreover have "unat y - 253 < 2 ^ 3" using y by simp
  then have "take_bit 3 (unat y - 253) = unat y - 253" by (rule take_bit_nat_eq_self)
  ultimately have t: "take_bit 3 (unat (y - 253)) = unat y - 253" by (simp only:)
  have "5 \<le> unat y - 253 \<longleftrightarrow> unat y = 258" using y by linarith
  then show ?thesis unfolding t by (simp add: word_unat_eq_iff)
qed

text \<open>
  The bits of the texts are undefined exactly here: in the last column of the window of
  each large text, whose index is one below the first bit of the memory; and in the first column
  and the last row of \<^verbatim>\<open>PRESS ENTER\<close>, whose window is 56 by 6 where the memory is 55 by 5. Everywhere
  else the memories are read inside their bounds.
\<close>

theorem texts_undefined_at_edges:
  "(galaga_logo x y = None \<longleftrightarrow> x = 368 \<and> 232 \<le> y \<and> y \<le> 248)
   \<and> (gameover_logo x y = None \<longleftrightarrow> x = 384 \<and> 232 \<le> y \<and> y \<le> 248)
   \<and> (you_win_logo x y = None \<longleftrightarrow> x = 376 \<and> 232 \<le> y \<and> y \<le> 248)
   \<and> (boss_logo x y = None \<longleftrightarrow> x = 352 \<and> 232 \<le> y \<and> y \<le> 248)
   \<and> (press_start_logo x y = None \<longleftrightarrow>
        (x = 293 \<and> 253 \<le> y \<and> y \<le> 258) \<or> (y = 258 \<and> 293 \<le> x \<and> x \<le> 348))"
proof -
  have "galaga_logo x y = None \<longleftrightarrow> x = 368 \<and> 232 \<le> y \<and> y \<le> 248"
    unfolding galaga_logo_def by (rule large_text) (simp_all add: rom_lengths)
  moreover have "gameover_logo x y = None \<longleftrightarrow> x = 384 \<and> 232 \<le> y \<and> y \<le> 248"
    unfolding gameover_logo_def by (rule large_text) (simp_all add: rom_lengths)
  moreover have "you_win_logo x y = None \<longleftrightarrow> x = 376 \<and> 232 \<le> y \<and> y \<le> 248"
    unfolding you_win_logo_def by (rule large_text) (simp_all add: rom_lengths)
  moreover have "boss_logo x y = None \<longleftrightarrow> x = 352 \<and> 232 \<le> y \<and> y \<le> 248"
    unfolding boss_logo_def by (rule large_text) (simp_all add: rom_lengths)
  moreover have "press_start_logo x y = None \<longleftrightarrow>
      (x = 293 \<and> 253 \<le> y \<and> y \<le> 258) \<or> (y = 258 \<and> 293 \<le> x \<and> x \<le> 348)"
  proof (cases "293 \<le> x \<and> x \<le> 348 \<and> 253 \<le> y \<and> y \<le> 258")
    case True
    then show ?thesis
      using press_column [of x] press_row [of y] unfolding press_start_logo_def logo_None rom_lengths
      by simp blast
  next
    case False
    moreover have "(293 :: coord) \<le> 348" "(253 :: coord) \<le> 258" by simp_all
    ultimately show ?thesis unfolding press_start_logo_def logo_None by auto
  qed
  ultimately show ?thesis by blast
qed

section \<open>The picture\<close>

text \<open>The data of an enemy that has been hit are not looked at.\<close>

lemma enemy_colour_cong:
  "length ds = length es \<Longrightarrow> length ds' = length es \<Longrightarrow>
   (\<forall>i<length es. \<not> enemy_hit (es ! i) \<longrightarrow> ds ! i = ds' ! i) \<Longrightarrow>
   enemy_colour x y (zip ds es) = enemy_colour x y (zip ds' es)"
proof (induction es arbitrary: ds ds')
  case (Cons e es)
  obtain d ts where d: "ds = d # ts" using Cons.prems(1) by (cases ds) auto
  obtain d' ts' where d': "ds' = d' # ts'" using Cons.prems(2) by (cases ds') auto
  have "enemy_colour x y (zip ts es) = enemy_colour x y (zip ts' es)"
    using Cons.prems d d' by (intro Cons.IH) force+
  moreover have "\<not> enemy_hit e \<longrightarrow> d = d'" using Cons.prems(3) d d' by force
  ultimately show ?case by (auto simp: d d' is_enemy_ship_def)
qed simp

lemma sprite_data_here:
  "User_Ship_X_Pos s' = User_Ship_X_Pos s \<Longrightarrow> User_Ship_Y_Pos s' = User_Ship_Y_Pos s \<Longrightarrow>
     user_ship_addr x y s' = user_ship_addr x y s"
  "laser_X_Pos l' = laser_X_Pos l \<Longrightarrow> laser_Y_Pos l' = laser_Y_Pos l \<Longrightarrow> laser_addr x y l' = laser_addr x y l"
  "X_Pos e' = X_Pos e \<Longrightarrow> Y_Pos e' = Y_Pos e \<Longrightarrow> \<not> enemy_hit e' \<Longrightarrow> \<not> enemy_hit e \<Longrightarrow>
     enemy_ship_addr x y e' = enemy_ship_addr x y e"
  by (simp_all add: user_ship_addr_def laser_addr_def enemy_ship_addr_def)

lemma hit_stays:
  "\<not> enemy_hit (enemy_step False f x y p False lx ly e) \<Longrightarrow> \<not> enemy_hit e"
  "\<not> enemy_hit (boss_step False f k True False lx ly e) \<Longrightarrow> \<not> enemy_hit e"
  by (auto simp: enemy_step_def boss_step_def hit_controller_def hit_controller_boss_def split: if_splits)

text \<open>
  Claim C12. Every pixel lasts two cycles, and the memories are one cycle late; in the second cycle,
  in which the colour is taken, it is nevertheless the colour that the sprites at their present
  places give, as if the memories answered at once. This is so in every cycle after the fourth from
  a reset in which the picture is drawn, if between the two cycles the laser does not hit, the game
  does not end and the screen does not change.
\<close>

theorem picture_is_up_to_date:
  assumes "power_up (gc d)" and "z = video_run ks (video_reset k1 k2 k3 d)" and "4 \<le> length ks"
    and "\<not> pixel_edge z" and "z' = video_step False k z" and "VGA_BLANK_N (vga_controller z')"
    and "x = h_counter (vga_controller z)" and "y = v_counter (vga_controller z)"
    and "screen (gc z') = screen (gc z)" and "\<not> finished (gc z)" and "\<not> laser_hit (gc z)"
  shows "h_counter (vga_controller z') = x \<and> v_counter (vga_controller z') = y
     \<and> color_data (ram_step M x y (gc z)) x y (gc z') = color_data (ram_step M x y (gc z')) x y (gc z')"
proof -
  note still = drawn_unmoved [OF assms(1-3,5) disjI2 [OF assms(6)]]
  note ship_still = conjunct1 [OF still] conjunct1 [OF conjunct2 [OF still]]
  note enemy_still = conjunct1 [OF conjunct2 [OF conjunct2 [OF still]]]
  note boss_still = conjunct1 [OF conjunct2 [OF conjunct2 [OF conjunct2 [OF still]]]]
  note laser_still = conjunct2 [OF conjunct2 [OF conjunct2 [OF conjunct2 [OF still]]]]
  define c where "c = (if pixel_edge d then 0 else 1 :: nat)"
  have "video_at c (length ks) z"
    using video_run_at [OF video_starts [OF assms(1), folded c_def], of ks k1 k2 k3] by (simp add: assms(2) c_def)
  then have ok: "rows_ok (gc z)" by (simp add: video_at_def)
  have ok': "rows_ok (gc z')" using rows_ok_step [OF ok] by (simp add: assms(5) video_step_def)
  have g: "gc z' = game_step False (VGA_VS (vga_controller z)) k (gc z)" by (simp add: assms(5) video_step_def)
  have nf: "finished (gc z) = False" and not_died: "\<not> died (gc z)" using assms(10) by (simp_all add: finished_def)
  let ?q = "ram_step M x y (gc z)" and ?q' = "ram_step M x y (gc z')"
  have ship: "user_ship_data ?q = user_ship_data ?q'"
    using sprite_data_here(1) [OF ship_still] by (simp add: ram_step_def)
  have laser: "laser_data ?q = laser_data ?q'" if "screen (gc z) \<in> {PLAY, BOSS_FIGHT}"
  proof -
    from mp [OF laser_still that] assms(11)
    have "laser_X_Pos (ulaser (gc z')) = laser_X_Pos (ulaser (gc z))" "laser_Y_Pos (ulaser (gc z')) = laser_Y_Pos (ulaser (gc z))"
      by blast+
    from sprite_data_here(2) [OF this] show ?thesis by (simp add: ram_step_def)
  qed
  have enemies: "enemy_colour x y (zip (enemy_ship_data ?q) (enemies (gc z'))) =
      enemy_colour x y (zip (enemy_ship_data ?q') (enemies (gc z')))" if play: "screen (gc z) = PLAY"
  proof (intro enemy_colour_cong allI impI)
    show "length (enemy_ship_data ?q) = length (enemies (gc z'))" "length (enemy_ship_data ?q') = length (enemies (gc z'))"
      using rows_18 [OF ok] rows_18 [OF ok'] by (simp_all add: ram_step_def enemies_def)
    fix i assume "i < length (enemies (gc z'))" and h': "\<not> enemy_hit (enemies (gc z') ! i)"
    then have i: "i < 18" using rows_18 [OF ok'] by simp
    have h: "\<not> enemy_hit (enemies (gc z) ! i)"
      using h' unfolding g enemy_nth [OF ok i] nf by (rule hit_stays(1))
    have "enemies (gc z) ! i \<in> set (enemies (gc z))" using i rows_18 [OF ok] by simp
    then have "\<not> at_bottom (enemies (gc z) ! i)" using not_died play by (auto simp: died_iff)
    then have "X_Pos (enemies (gc z') ! i) = X_Pos (enemies (gc z) ! i)"
      "Y_Pos (enemies (gc z') ! i) = Y_Pos (enemies (gc z) ! i)"
      using enemy_still play i h by (auto simp: Let_def)
    from sprite_data_here(3) [OF this h' h]
    show "enemy_ship_data ?q ! i = enemy_ship_data ?q' ! i"
      using i rows_18 [OF ok] rows_18 [OF ok'] by (simp add: ram_step_def flip: enemies_def)
  qed
  have boss: "boss_data ?q = boss_data ?q'" if fight: "screen (gc z) = BOSS_FIGHT" and h': "\<not> enemy_hit (bboi (gc z'))"
  proof -
    have h: "\<not> enemy_hit (bboi (gc z))" using h' fight unfolding g step_fields nf by (auto dest: hit_stays(2))
    have "\<not> at_bottom (bboi (gc z))" using not_died fight by (simp add: died_iff)
    then have "X_Pos (bboi (gc z')) = X_Pos (bboi (gc z))" "Y_Pos (bboi (gc z')) = Y_Pos (bboi (gc z))"
      using boss_still fight h by (simp_all add: Let_def)
    from sprite_data_here(3) [OF this h' h] show ?thesis by (simp add: ram_step_def)
  qed
  have "color_data ?q x y (gc z') = color_data ?q' x y (gc z')"
    using ship laser enemies boss assms(9)
    by (cases "screen (gc z)") (auto simp: color_data_def is_enemy_ship_def enemies_def Let_def)
  then show ?thesis using assms(4,7,8) by (simp add: assms(5) video_step_def)
qed

lemma start_is_quiet:
  assumes "game_inv g" "screen g = START"
  shows "\<not> finished g" "\<not> laser_hit g"
proof -
  have "rows_ok g" "\<not> enemy_hit (bboi g)" using assms by (simp_all add: game_inv_def)
  then have "score g \<noteq> 0x13" by (rule score_all(2))
  then show "\<not> finished g" using assms(2) by (simp add: finished_def died_iff)
  show "\<not> laser_hit g" using assms(2) by (simp add: laser_hit_def enemy_laser_hit_def list_ex_iff Let_def)
qed

theorem picture_is_up_to_date_witness:
  "\<exists>M. let z = video_run [0, 0, 0, 0] (video_reset 0 0 0 demo_video); z' = video_step False 0 z in
     color_data (ram_step M 2 0 (gc z)) 2 0 (gc z') = color_data (ram_step M 2 0 (gc z')) 2 0 (gc z')"
proof -
  define z where "z = video_run [0, 0, 0, 0] (video_reset 0 0 0 demo_video)"
  define z' where "z' = video_step False 0 z"
  have d: "power_up (gc demo_video)" by (simp add: demo_video_def demo_power_up)
  note defs = z_def z'_def video_run_def video_reset_def video_step_def
  have v: "vga_controller z = vga_at 2" "vga_controller z' = vga_at 2" "\<not> pixel_edge z"
    by (simp_all add: defs demo_video_def vga_reset vga_step_at numeral_2_eq_2)
  have s: "screen (gc z) = START" "screen (gc z') = START" by (simp_all add: defs signal_controller_def)
  have "game_inv (gc z)"
    using d by (simp add: defs power_up_def rows_ok_def game_inv_step game_inv_reset rows_ok_step)
  from picture_is_up_to_date [OF d z_def _ v(3) z'_def _ refl refl _ start_is_quiet [OF this s(1)]]
  show ?thesis unfolding z_def [symmetric] Let_def z'_def [symmetric]
    by (simp add: v s) (simp add: vga_at_def pixel_x_def pixel_y_def)
qed

section \<open>The score\<close>

lemma hex_digits: "m < 10 \<Longrightarrow> n < 10 \<Longrightarrow> HexDriver (of_nat m) = HexDriver (of_nat n) \<longleftrightarrow> m = n"
proof -
  have all: "\<forall>m\<in>{..<10}. \<forall>n\<in>{..<10}. HexDriver (of_nat m) = HexDriver (of_nat n) \<longrightarrow> m = n"
    by code_simp
  then show "m < 10 \<Longrightarrow> n < 10 \<Longrightarrow> ?thesis" by auto
qed

text \<open>
  In every cycle after a reset the two displays show the number of ships hit, the boss
  included, in decimal; and from the displays the number can be read off: two games show the same
  exactly if they have the same number of hits.
\<close>

definition ships_hit :: "game \<Rightarrow> nat" where
  "ships_hit g = hits (enemies g) + (if enemy_hit (bboi g) then 1 else 0)"

theorem score_is_shown:
  assumes "power_up g" and "z = after_reset f k es g" and "power_up g'" and "z' = after_reset f' k' es' g'"
  shows "score_display (score z) = (HexDriver (of_nat (ships_hit z div 10)), HexDriver (of_nat (ships_hit z mod 10)))
     \<and> (score_display (score z) = score_display (score z') \<longleftrightarrow> ships_hit z = ships_hit z')"
proof -
  have shown: "unat (score u) = ships_hit u" "ships_hit u < 20" if "game_inv u" for u
  proof -
    have "hits (enemies u) \<le> 18" using rows_18 [of u] that length_filter_le [of enemy_hit "enemies u"]
      by (simp add: game_inv_def hits_def)
    then show "ships_hit u < 20" by (simp add: ships_hit_def)
    then show "unat (score u) = ships_hit u"
      by (simp only: score_hits ships_hit_def [symmetric] unsigned_of_nat) (simp add: take_bit_nat_eq_self)
  qed
  note u = shown [OF game_inv_run [OF assms(1), of f k es, folded assms(2)]]
  note u' = shown [OF game_inv_run [OF assms(3), of f' k' es', folded assms(4)]]
  have digits: "score_display (score z) = (HexDriver (of_nat (ships_hit z div 10)), HexDriver (of_nat (ships_hit z mod 10)))"
    "score_display (score z') = (HexDriver (of_nat (ships_hit z' div 10)), HexDriver (of_nat (ships_hit z' mod 10)))"
    using u u' by (simp_all add: score_display_def)
  have "ships_hit z div 10 = ships_hit z' div 10 \<and> ships_hit z mod 10 = ships_hit z' mod 10 \<longleftrightarrow> ships_hit z = ships_hit z'"
    by (metis div_mult_mod_eq)
  then show ?thesis unfolding digits using u(2) u'(2) by (simp add: hex_digits)
qed

theorem score_is_shown_witness:
  "score_display (score (after_reset False 0 [(False, True, 0x28)] demo_game)) =
     (HexDriver (of_nat (ships_hit (after_reset False 0 [(False, True, 0x28)] demo_game) div 10)),
      HexDriver (of_nat (ships_hit (after_reset False 0 [(False, True, 0x28)] demo_game) mod 10)))"
  using score_is_shown [OF demo_power_up refl demo_power_up refl] by blast

end
