(* ===== verification/Llist.thy ===== *)
theory Llist
  imports Prelude
begin

text \<open>
  The intrusive doubly linked lists of the HAL (\<^verbatim>\<open>HAL/inc/sys/alt_llist.h\<close>): device list,
  file-system list and alarm list are all of this kind. The elements live in a store from
  addresses to link pairs; the lemmas show that insertion and removal implement the
  operations of a list, for any list that the store represents.
\<close>

section \<open>Code\<close>

record links =
  l_next :: nat
  l_prev :: nat

type_synonym store = "nat \<Rightarrow> links"

definition set_next :: "nat \<Rightarrow> nat \<Rightarrow> store \<Rightarrow> store" where
  "set_next a v st = st(a := (st a)\<lparr>l_next := v\<rparr>)"

definition set_prev :: "nat \<Rightarrow> nat \<Rightarrow> store \<Rightarrow> store" where
  "set_prev a v st = st(a := (st a)\<lparr>l_prev := v\<rparr>)"

text \<open>\<^verbatim>\<open>ALT_LLIST_HEAD\<close>: an empty list points to its own head.\<close>

definition alt_llist_head :: "nat \<Rightarrow> store \<Rightarrow> store" where
  "alt_llist_head h st = set_prev h h (set_next h h st)"

definition alt_llist_insert :: "nat \<Rightarrow> nat \<Rightarrow> store \<Rightarrow> store" where
  "alt_llist_insert list entry st =
     (let st = set_prev entry list st;
          st = set_next entry (l_next (st list)) st;
          st = set_prev (l_next (st list)) entry st
      in set_next list entry st)"

definition alt_llist_remove :: "nat \<Rightarrow> store \<Rightarrow> store" where
  "alt_llist_remove entry st =
     (let st = set_prev (l_next (st entry)) (l_prev (st entry)) st;
          st = set_next (l_prev (st entry)) (l_next (st entry)) st;
          st = set_prev entry entry st
      in set_next entry entry st)"

text \<open>The loop \<^verbatim>\<open>while (next != head)\<close> that the clients use to visit a list, with fuel.\<close>

fun llist_walk :: "nat \<Rightarrow> nat \<Rightarrow> store \<Rightarrow> nat \<Rightarrow> nat list option" where
  "llist_walk 0 h st a = None"
| "llist_walk (Suc n) h st a =
     (if a = h then Some [] else map_option (\<lambda>xs. a # xs) (llist_walk n h st (l_next (st a))))"

section \<open>What a store represents\<close>

fun chain :: "store \<Rightarrow> nat \<Rightarrow> nat list \<Rightarrow> nat \<Rightarrow> bool" where
  "chain st a [] z = (l_next (st a) = z \<and> l_prev (st z) = a)"
| "chain st a (x # xs) z = (l_next (st a) = x \<and> l_prev (st x) = a \<and> chain st x xs z)"

definition represents :: "store \<Rightarrow> nat \<Rightarrow> nat list \<Rightarrow> bool" where
  "represents st h xs \<longleftrightarrow> chain st h xs h \<and> distinct (h # xs)"

lemma chain_append: "chain st a (xs @ y # ys) z = (chain st a xs y \<and> chain st y ys z)"
  by (induction xs arbitrary: a) auto

lemma chain_cong:
  assumes "\<And>x. x \<in> set (a # xs) \<Longrightarrow> l_next (st' x) = l_next (st x)"
    and "\<And>x. x \<in> set (xs @ [z]) \<Longrightarrow> l_prev (st' x) = l_prev (st x)"
  shows "chain st' a xs z = chain st a xs z"
  using assms by (induction xs arbitrary: a) auto

lemmas store_simps = set_next_def set_prev_def Let_def

lemma chain_set_next:
  "a \<notin> set (b # xs) \<Longrightarrow> chain (set_next a v st) b xs z = chain st b xs z"
  by (rule chain_cong) (auto simp: set_next_def)

lemma chain_set_prev:
  "a \<notin> set (xs @ [z]) \<Longrightarrow> chain (set_prev a v st) b xs z = chain st b xs z"
  by (rule chain_cong) (auto simp: set_prev_def)

lemma represents_head: "represents (alt_llist_head h st) h []"
  by (simp add: represents_def alt_llist_head_def store_simps)

lemma chain_last_change:
  assumes "chain st a xs z" "distinct (a # xs)" "z \<notin> set xs"
    and "\<And>x. x \<in> set (a # xs) \<Longrightarrow> x \<noteq> last (a # xs) \<Longrightarrow> l_next (st' x) = l_next (st x)"
    and "\<And>x. x \<in> set xs \<Longrightarrow> l_prev (st' x) = l_prev (st x)"
    and "l_next (st' (last (a # xs))) = z'" "l_prev (st' z') = last (a # xs)"
  shows "chain st' a xs z'"
  using assms
proof (induction xs arbitrary: a)
  case (Cons x xs)
  have "chain st' x xs z'" using Cons.prems by (intro Cons.IH) auto
  moreover have "a \<noteq> last (a # x # xs)"
    using Cons.prems(2) last_in_set [of "x # xs"] by auto
  ultimately show ?case using Cons.prems by auto
qed simp

lemma represents_insert:
  assumes "represents st h xs" "e \<notin> set (h # xs)"
  shows "represents (alt_llist_insert h e st) h (e # xs)"
proof (cases xs)
  case Nil
  with assms show ?thesis
    by (auto simp: represents_def alt_llist_insert_def store_simps)
next
  case (Cons x ys)
  let ?st = "alt_llist_insert h e st"
  have c: "chain st x ys h" "l_next (st h) = x" "distinct (h # x # ys)"
    "e \<noteq> h" "e \<noteq> x" "e \<notin> set ys"
    using assms Cons by (auto simp: represents_def)
  have "chain ?st x ys h = chain st x ys h"
    using c by (intro chain_cong) (auto simp: alt_llist_insert_def store_simps)
  then show ?thesis
    using c Cons by (auto simp: represents_def alt_llist_insert_def store_simps)
qed

lemma represents_remove:
  assumes "represents st h (xs @ e # ys)"
  shows "represents (alt_llist_remove e st) h (xs @ ys)"
proof -
  let ?st = "alt_llist_remove e st"
  have c: "chain st h xs e" "chain st e ys h" and d: "distinct (h # xs @ e # ys)"
    using assms by (auto simp: represents_def chain_append)
  define p where "p = last (h # xs)"
  define q where "q = hd (ys @ [h])"
  have p: "l_prev (st e) = p" using c(1) unfolding p_def
    by (induction xs arbitrary: h) auto
  have q: "l_next (st e) = q" using c(2) unfolding q_def by (cases ys) auto
  have pin: "p \<in> set (h # xs)" unfolding p_def by (rule last_in_set) simp
  have pe: "p \<noteq> e" using pin d by auto
  have qe: "q \<noteq> e" using d unfolding q_def by (cases ys) auto
  have st: "l_next (?st x) = (if x = e then e else if x = p then q else l_next (st x))"
    "l_prev (?st x) = (if x = e then e else if x = q then p else l_prev (st x))" for x
    using p q pe qe by (auto simp: alt_llist_remove_def store_simps)
  have q_not: "q \<notin> set xs" using d unfolding q_def by (cases ys) auto
  have left: "chain ?st h xs q"
  proof (rule chain_last_change [OF c(1)])
    show "distinct (h # xs)" "e \<notin> set xs" using d by auto
    show "l_next (?st x) = l_next (st x)" if "x \<in> set (h # xs)" "x \<noteq> last (h # xs)" for x
      using that d by (auto simp: st p_def)
    show "l_prev (?st x) = l_prev (st x)" if "x \<in> set xs" for x
      using that d q_not by (auto simp: st)
    show "l_next (?st (last (h # xs))) = q" "l_prev (?st q) = last (h # xs)"
      using pe qe by (auto simp: st p_def)
  qed
  show ?thesis
  proof (cases ys)
    case Nil
    with left d show ?thesis by (simp add: represents_def q_def)
  next
    case (Cons y zs)
    have "p \<notin> set (y # zs)" using pin d Cons by auto
    moreover have "y = q" using Cons by (simp add: q_def)
    ultimately have "chain ?st y zs h = chain st y zs h"
      using d Cons pe by (intro chain_cong) (auto simp: st)
    with c(2) Cons left \<open>y = q\<close> d show ?thesis by (simp add: represents_def chain_append)
  qed
qed

lemma remove_again: "alt_llist_remove e (alt_llist_remove e st) = alt_llist_remove e st"
  by (rule ext) (simp add: alt_llist_remove_def store_simps)

lemma walk_chain:
  "chain st a xs z \<Longrightarrow> z \<notin> set xs \<Longrightarrow> length xs < n \<Longrightarrow>
   llist_walk n z st (l_next (st a)) = Some xs"
proof (induction xs arbitrary: a n)
  case (Cons x xs)
  then show ?case by (cases n) auto
qed (auto elim: llist_walk.elims simp: gr0_conv_Suc)

lemma represents_walk:
  "represents st h xs \<Longrightarrow> length xs < n \<Longrightarrow> llist_walk n h st (l_next (st h)) = Some xs"
  by (auto simp: represents_def intro: walk_chain)

text \<open>Operations on one list leave the others alone.\<close>

lemma insert_elsewhere:
  assumes "represents st h xs" "represents st g ys" "e \<notin> set (h # xs)" "e \<notin> set (g # ys)"
    and "set (h # xs) \<inter> set (g # ys) = {}"
  shows "represents (alt_llist_insert h e st) g ys"
proof -
  have "l_next (st h) \<in> set (h # xs)" using assms(1) by (cases xs) (auto simp: represents_def)
  then have "l_next (st h) \<notin> set (g # ys)" "e \<noteq> h" using assms(3,5) by auto
  then have "chain (alt_llist_insert h e st) g ys g = chain st g ys g"
    using assms(4,5)
    by (intro chain_cong) (auto simp: alt_llist_insert_def store_simps)
  with assms(2) show ?thesis by (simp add: represents_def)
qed

section \<open>A list as the clients see it\<close>

text \<open>
  What the device layer and the alarms rely on: entries can be put in front and taken out,
  and a visit sees the entries in order.
\<close>

locale linked_list =
  fixes ins :: "nat \<Rightarrow> 'st \<Rightarrow> 'st"
    and rem :: "nat \<Rightarrow> 'st \<Rightarrow> 'st"
    and holds :: "'st \<Rightarrow> nat list \<Rightarrow> bool"
    and visit :: "nat \<Rightarrow> 'st \<Rightarrow> nat list option"
    and head :: nat
  assumes ins_holds: "holds st xs \<Longrightarrow> e \<noteq> head \<Longrightarrow> e \<notin> set xs \<Longrightarrow> holds (ins e st) (e # xs)"
    and rem_holds: "holds st (xs @ e # ys) \<Longrightarrow> holds (rem e st) (xs @ ys)"
    and visit_holds: "holds st xs \<Longrightarrow> length xs < n \<Longrightarrow> visit n st = Some xs"
    and holds_distinct: "holds st xs \<Longrightarrow> distinct (head # xs)"
begin

lemma ins_many:
  "holds st xs \<Longrightarrow> distinct es \<Longrightarrow> set es \<inter> set (head # xs) = {} \<Longrightarrow>
   holds (fold ins es st) (rev es @ xs)"
proof (induction es arbitrary: st xs)
  case (Cons e es)
  then have "holds (ins e st) (e # xs)" by (intro ins_holds) auto
  from Cons.IH [OF this] Cons.prems show ?case by auto
qed simp

lemma rem_member: "holds st xs \<Longrightarrow> e \<in> set xs \<Longrightarrow> holds (rem e st) (remove1 e xs)"
proof -
  assume h: "holds st xs" and "e \<in> set xs"
  then obtain ys zs where x: "xs = ys @ e # zs" by (meson split_list)
  have "e \<notin> set ys" using holds_distinct [OF h] x by auto
  then have "remove1 e xs = ys @ zs" by (simp add: x remove1_append)
  with h x rem_holds show ?thesis by simp
qed

lemma ins_rem: "holds st xs \<Longrightarrow> e \<noteq> head \<Longrightarrow> e \<notin> set xs \<Longrightarrow> holds (rem e (ins e st)) xs"
  using rem_holds [of "ins e st" "[]" e xs] ins_holds by simp

lemma visit_members:
  "holds st xs \<Longrightarrow> length xs < n \<Longrightarrow> visit n st = Some ys \<Longrightarrow> ys = xs"
  using visit_holds by simp

end

interpretation llist: linked_list "alt_llist_insert h" alt_llist_remove "\<lambda>st. represents st h"
    "\<lambda>n st. llist_walk n h st (l_next (st h))" h for h
proof unfold_locales
  show "distinct (h # xs)" if "represents st h xs" for st xs
    using that by (simp only: represents_def)
qed (auto intro: represents_insert represents_remove represents_walk)

section \<open>Properties\<close>

text \<open>
  Claim C36. Inserting an entry that is in no list puts it in front and keeps the links of the
  whole list consistent in both directions; taking any entry out closes the gap; taking it
  out a second time changes nothing, as the comment in \<^verbatim>\<open>alt_llist.h\<close> promises; and the loop
  over the list ends at the head after visiting exactly the entries.
\<close>

theorem llist_operations:
  assumes "represents st h xs" and "e \<noteq> h" and "e \<notin> set xs" and "x \<in> set xs"
  shows "represents (alt_llist_insert h e st) h (e # xs)
     \<and> represents (alt_llist_remove x st) h (remove1 x xs)
     \<and> alt_llist_remove x (alt_llist_remove x st) = alt_llist_remove x st
     \<and> llist_walk (Suc (length xs)) h st (l_next (st h)) = Some xs"
  using llist.ins_holds [OF assms(1,2,3)] llist.rem_member [OF assms(1,4)] remove_again
    represents_walk [OF assms(1), of "Suc (length xs)"] by blast

definition three_links :: store where
  "three_links = fold (alt_llist_insert 0) [3, 2, 1] (alt_llist_head 0 (\<lambda>a. \<lparr>l_next = 9, l_prev = 9\<rparr>))"

lemma three_links: "represents three_links 0 [1, 2, 3]"
  using llist.ins_many [OF represents_head, of "[3, 2, 1]" 0] by (simp add: three_links_def)

theorem llist_operations_witness:
  "represents (alt_llist_remove 2 three_links) 0 [1, 3]
   \<and> llist_walk 4 0 three_links (l_next (three_links 0)) = Some [1, 2, 3]"
  using llist_operations [OF three_links, of 7 2] by (simp add: numeral_eq_Suc)

text \<open>
  An insertion into one list does not disturb another list of the same store.
\<close>

theorem llist_insert_frame:
  assumes "represents st h xs" and "represents st g ys"
    and "e \<notin> set (h # xs)" and "e \<notin> set (g # ys)" and "set (h # xs) \<inter> set (g # ys) = {}"
  shows "represents (alt_llist_insert h e st) g ys"
  using insert_elsewhere [OF assms] .

theorem llist_insert_frame_witness:
  "represents (alt_llist_insert 0 7 (alt_llist_head 5 three_links)) 5 []"
proof -
  have "represents (alt_llist_head 5 three_links) 0 [1, 2, 3]"
    using three_links
    by (simp add: represents_def alt_llist_head_def store_simps)
  then show ?thesis
    using llist_insert_frame [of "alt_llist_head 5 three_links" 0 "[1, 2, 3]" 5 "[]" 7]
      represents_head by simp
qed

end
