(* ===== verification/Alarm.thy ===== *)
theory Alarm
  imports Llist
begin

text \<open>
  The alarm facility of the HAL: \<^verbatim>\<open>HAL/src/alt_alarm_start.c\<close>, \<^verbatim>\<open>HAL/src/alt_tick.c\<close> and the
  inline functions of \<^verbatim>\<open>sys/alt_alarm.h\<close>. Alarms are entries of an intrusive list (theory
  \<open>Llist\<close>); a tick visits the list while entries may take themselves out. Times are 32-bit
  tick counts that wrap around; the lemmas show that an alarm nevertheless goes off exactly
  when it was asked to.
\<close>

section \<open>State\<close>

text \<open>
  A callback gets its context and the state \<open>'s\<close> of the drivers, and returns the ticks to the
  next call, 0 to be taken out.
\<close>

record 's alarm =
  time :: u32
  callback :: "nat \<Rightarrow> 's \<Rightarrow> u32 \<times> 's"
  rollover :: u8
  context_arg :: nat

text \<open>\<open>calls\<close> is a record of the alarms whose callback was made, for the statements only.\<close>

record 's clock =
  tick_rate :: u32
  nticks :: u32
  alarm_links :: store
  alarms :: "nat \<Rightarrow> 's alarm"
  drv :: 's
  calls :: "nat list"

text \<open>The list head has address 0; a null pointer is \<open>None\<close>.\<close>

abbreviation (input) alt_alarm_list :: nat where "alt_alarm_list \<equiv> 0"

definition alt_ticks_per_second :: "'s clock \<Rightarrow> u32" where
  "alt_ticks_per_second c = tick_rate c"

definition alt_nticks :: "'s clock \<Rightarrow> u32" where
  "alt_nticks c = nticks c"

definition alt_sysclk_init :: "u32 \<Rightarrow> 's clock \<Rightarrow> int \<times> 's clock" where
  "alt_sysclk_init n c = (if tick_rate c = 0 then (0, c\<lparr>tick_rate := n\<rparr>) else (- 1, c))"

definition set_alarm :: "nat \<Rightarrow> 's alarm \<Rightarrow> 's clock \<Rightarrow> 's clock" where
  "set_alarm a x c = c\<lparr>alarms := (alarms c)(a := x)\<rparr>"

section \<open>Starting and stopping\<close>

definition alt_alarm_start ::
  "nat option \<Rightarrow> u32 \<Rightarrow> (nat \<Rightarrow> 's \<Rightarrow> u32 \<times> 's) \<Rightarrow> nat \<Rightarrow> 's clock \<Rightarrow> int \<times> 's clock" where
  "alt_alarm_start alarm n cb ctx c =
     (if alt_ticks_per_second c \<noteq> 0 then
        (case alarm of
           Some a \<Rightarrow>
             (let current_nticks = alt_nticks c;
                  t = n + current_nticks + 1;
                  x = (alarms c a)\<lparr>callback := cb, context_arg := ctx, time := t,
                        rollover := if t < current_nticks then 1 else 0\<rparr>;
                  c = set_alarm a x c
              in (0, c\<lparr>alarm_links := alt_llist_insert alt_alarm_list a (alarm_links c)\<rparr>))
         | None \<Rightarrow> (- EINVAL, c))
      else (- ENOTSUP, c))"

definition alt_alarm_stop :: "nat \<Rightarrow> 's clock \<Rightarrow> 's clock" where
  "alt_alarm_stop a c = c\<lparr>alarm_links := alt_llist_remove a (alarm_links c)\<rparr>"

section \<open>The tick\<close>

text \<open>The body of the loop for one alarm: roll-over, expiry, callback, next time.\<close>

definition clear_rollover :: "nat \<Rightarrow> 's clock \<Rightarrow> 's clock" where
  "clear_rollover a c =
     (if rollover (alarms c a) \<noteq> 0 \<and> nticks c = 0
      then set_alarm a ((alarms c a)\<lparr>rollover := 0\<rparr>) c else c)"

definition expired :: "nat \<Rightarrow> 's clock \<Rightarrow> bool" where
  "expired a c \<longleftrightarrow> time (alarms c a) \<le> nticks c \<and> rollover (alarms c a) = 0"

definition run_callback :: "nat \<Rightarrow> 's clock \<Rightarrow> u32 \<times> 's clock" where
  "run_callback a c =
     (let (r, s) = callback (alarms c a) (context_arg (alarms c a)) (drv c)
      in (r, c\<lparr>drv := s, calls := calls c @ [a]\<rparr>))"

definition rearm :: "nat \<Rightarrow> u32 \<Rightarrow> 's clock \<Rightarrow> 's clock" where
  "rearm a next_callback c =
     (let x = (alarms c a)\<lparr>time := time (alarms c a) + next_callback\<rparr>
      in set_alarm a (if time x < nticks c then x\<lparr>rollover := 1\<rparr> else x) c)"

definition tick_alarm :: "nat \<Rightarrow> 's clock \<Rightarrow> 's clock" where
  "tick_alarm a c =
     (let c = clear_rollover a c
      in if expired a c then
           (let (next_callback, c) = run_callback a c
            in if next_callback = 0 then alt_alarm_stop a c else rearm a next_callback c)
         else c)"

fun tick_loop :: "nat \<Rightarrow> nat \<Rightarrow> 's clock \<Rightarrow> 's clock option" where
  "tick_loop 0 a c = None"
| "tick_loop (Suc n) a c =
     (if a = alt_alarm_list then Some c
      else (let nxt = l_next (alarm_links c a) in tick_loop n nxt (tick_alarm a c)))"

text \<open>
  The loop follows pointers, so the model runs it with fuel; any fuel above the number of
  alarms is enough.
\<close>

definition alt_tick :: "nat \<Rightarrow> 's clock \<Rightarrow> 's clock option" where
  "alt_tick fuel c =
     (let c' = c\<lparr>nticks := nticks c + 1\<rparr>
      in tick_loop fuel (l_next (alarm_links c alt_alarm_list)) c')"

section \<open>The tick without pointers\<close>

definition stops :: "nat \<Rightarrow> 's clock \<Rightarrow> bool" where
  "stops a c \<longleftrightarrow> (let c = clear_rollover a c in expired a c \<and> fst (run_callback a c) = 0)"

text \<open>The alarms that stay in the list, and the state after the visit.\<close>

fun tick_list :: "nat list \<Rightarrow> 's clock \<Rightarrow> nat list \<times> 's clock" where
  "tick_list [] c = ([], c)"
| "tick_list (a # as) c =
     (let (bs, c') = tick_list as (tick_alarm a c)
      in (if stops a c then bs else a # bs, c'))"

lemma set_alarm_fields [simp]:
  "nticks (set_alarm a x c) = nticks c" "alarm_links (set_alarm a x c) = alarm_links c"
  "tick_rate (set_alarm a x c) = tick_rate c" "drv (set_alarm a x c) = drv c"
  "calls (set_alarm a x c) = calls c"
  "alarms (set_alarm a x c) b = (if b = a then x else alarms c b)"
  by (simp_all add: set_alarm_def)

lemma clear_rollover_fields [simp]:
  "nticks (clear_rollover a c) = nticks c" "alarm_links (clear_rollover a c) = alarm_links c"
  "drv (clear_rollover a c) = drv c" "calls (clear_rollover a c) = calls c"
  "b \<noteq> a \<Longrightarrow> alarms (clear_rollover a c) b = alarms c b"
  by (simp_all add: clear_rollover_def)

lemma run_callback_fields [simp]:
  "nticks (snd (run_callback a c)) = nticks c"
  "alarm_links (snd (run_callback a c)) = alarm_links c"
  "alarms (snd (run_callback a c)) = alarms c"
  "calls (snd (run_callback a c)) = calls c @ [a]"
  by (simp_all add: run_callback_def split_beta Let_def)

lemma rearm_fields [simp]:
  "nticks (rearm a n c) = nticks c" "alarm_links (rearm a n c) = alarm_links c"
  "b \<noteq> a \<Longrightarrow> alarms (rearm a n c) b = alarms c b" "calls (rearm a n c) = calls c"
  by (simp_all add: rearm_def Let_def)

lemma alt_alarm_stop_fields [simp]:
  "nticks (alt_alarm_stop a c) = nticks c" "alarms (alt_alarm_stop a c) = alarms c"
  "calls (alt_alarm_stop a c) = calls c"
  by (simp_all add: alt_alarm_stop_def)

lemma tick_alarm_links:
  "alarm_links (tick_alarm a c) =
     (if stops a c then alt_llist_remove a (alarm_links c) else alarm_links c)"
  by (simp add: tick_alarm_def stops_def alt_alarm_stop_def split_beta Let_def)

lemma represents_next:
  "represents st h (xs @ x # ys) \<Longrightarrow> l_next (st x) = hd (ys @ [h])"
  by (cases ys) (auto simp: represents_def chain_append)

lemma tick_loop_list:
  assumes "represents (alarm_links c) alt_alarm_list (pre @ as)" "length as < n"
  shows "tick_loop n (hd (as @ [alt_alarm_list])) c = Some (snd (tick_list as c))
     \<and> represents (alarm_links (snd (tick_list as c))) alt_alarm_list (pre @ fst (tick_list as c))"
  using assms
proof (induction as arbitrary: pre c n)
  case Nil
  then show ?case by (cases n) auto
next
  case (Cons a as)
  then obtain m where m: "n = Suc m" "length as < m" by (cases n) auto
  have a: "a \<noteq> alt_alarm_list" using Cons.prems(1) by (auto simp: represents_def)
  have nxt: "l_next (alarm_links c a) = hd (as @ [alt_alarm_list])"
    using represents_next [OF Cons.prems(1)] .
  show ?case
  proof (cases "stops a c")
    case True
    then have "represents (alarm_links (tick_alarm a c)) alt_alarm_list (pre @ as)"
      using represents_remove [OF Cons.prems(1)] by (simp add: tick_alarm_links)
    from Cons.IH [OF this m(2)] True a m nxt show ?thesis by (simp add: split_beta)
  next
    case False
    then have "represents (alarm_links (tick_alarm a c)) alt_alarm_list ((pre @ [a]) @ as)"
      using Cons.prems(1) by (simp add: tick_alarm_links)
    from Cons.IH [OF this m(2)] False a m nxt show ?thesis by (simp add: split_beta)
  qed
qed

lemma alt_tick_list:
  assumes "represents (alarm_links c) alt_alarm_list as" "length as < n"
  shows "alt_tick n c = Some (snd (tick_list as (c\<lparr>nticks := nticks c + 1\<rparr>)))
     \<and> represents (alarm_links (snd (tick_list as (c\<lparr>nticks := nticks c + 1\<rparr>)))) alt_alarm_list
         (fst (tick_list as (c\<lparr>nticks := nticks c + 1\<rparr>)))"
proof -
  have "l_next (alarm_links c alt_alarm_list) = hd (as @ [alt_alarm_list])"
    using assms(1) by (cases as) (auto simp: represents_def)
  with tick_loop_list [of "c\<lparr>nticks := nticks c + 1\<rparr>" "[]" as n] assms show ?thesis
    by (simp add: alt_tick_def)
qed

text \<open>
  Claim C32. A tick visits every alarm that was in the list exactly once, in order, even when
  alarms take themselves out during the visit: the pointer loop ends, computes the visit of
  the list, and leaves a list of exactly the alarms that did not stop.
\<close>

theorem alt_tick_visits_each_alarm:
  assumes "represents (alarm_links c) alt_alarm_list as"
  shows "alt_tick (Suc (length as)) c = Some (snd (tick_list as (c\<lparr>nticks := nticks c + 1\<rparr>)))
     \<and> represents (alarm_links (snd (tick_list as (c\<lparr>nticks := nticks c + 1\<rparr>)))) alt_alarm_list
         (fst (tick_list as (c\<lparr>nticks := nticks c + 1\<rparr>)))"
  by (rule alt_tick_list [OF assms]) simp

section \<open>When an alarm goes off\<close>

text \<open>The alarm will go off at the \<open>k\<close>-th tick from now.\<close>

definition armed :: "nat \<Rightarrow> nat \<Rightarrow> 's clock \<Rightarrow> bool" where
  "armed k a c \<longleftrightarrow> 0 < k \<and> k < 2 ^ 32 \<and> time (alarms c a) = nticks c + of_nat k
     \<and> rollover (alarms c a) = (if unat (nticks c) + k < 2 ^ 32 then 0 else 1)"

lemma unat_plus_u32: "unat ((x :: u32) + of_nat k) = (unat x + k) mod 2 ^ 32"
  by (simp add: unat_word_ariths unat_of_nat mod_add_right_eq)

lemma wrapped_iff:
  assumes "k < 2 ^ 32"
  shows "(x :: u32) + of_nat k < x \<longleftrightarrow> \<not> unat x + k < 2 ^ 32"
proof -
  have x: "unat x < 2 ^ 32" using unat_u32 [of x] by simp
  show ?thesis
  proof (cases "unat x + k < 2 ^ 32")
    case True
    then show ?thesis by (simp add: word_less_nat_alt unat_plus_u32)
  next
    case False
    with x assms have "(unat x + k) mod 2 ^ 32 = unat x + k - 2 ^ 32"
      by (subst mod_if) (simp add: le_mod_geq)
    with False assms show ?thesis by (simp only: word_less_nat_alt unat_plus_u32) simp
  qed
qed

lemma start_arms:
  assumes "tick_rate c \<noteq> 0" "unat n + 1 < 2 ^ 32"
  shows "fst (alt_alarm_start (Some a) n cb ctx c) = 0"
    and "armed (unat n + 1) a (snd (alt_alarm_start (Some a) n cb ctx c))"
proof -
  have t: "n + nticks c + 1 = nticks c + of_nat (unat n + 1)" by simp
  show "fst (alt_alarm_start (Some a) n cb ctx c) = 0"
    using assms(1) by (simp add: alt_alarm_start_def alt_ticks_per_second_def Let_def)
  show "armed (unat n + 1) a (snd (alt_alarm_start (Some a) n cb ctx c))"
    using assms wrapped_iff [OF assms(2), of "nticks c"] unfolding t [symmetric]
    by (simp add: alt_alarm_start_def alt_ticks_per_second_def alt_nticks_def Let_def armed_def
        set_alarm_def)
qed

text \<open>One tick, for the alarm itself.\<close>

definition bump :: "'s clock \<Rightarrow> 's clock" where
  "bump c = c\<lparr>nticks := nticks c + 1\<rparr>"

lemma bump_fields [simp]:
  "nticks (bump c) = nticks c + 1" "alarms (bump c) = alarms c" "calls (bump c) = calls c"
  "alarm_links (bump c) = alarm_links c" "drv (bump c) = drv c"
  by (simp_all add: bump_def)

lemma unat_suc_u32: "unat ((x :: u32) + 1) = (unat x + 1) mod 2 ^ 32"
  using unat_plus_u32 [of x 1] by simp

lemma suc_zero_u32: "(x :: u32) + 1 = 0 \<longleftrightarrow> unat x + 1 = 2 ^ 32"
  using unat_u32 [of x] by (simp only: unat_eq_0 [symmetric] unat_suc_u32) (auto simp: mod_if)

lemma rollover_after_bump:
  assumes "armed k a c"
  shows "rollover (alarms (clear_rollover a (bump c)) a)
     = (if unat (nticks c + 1) + (k - 1) < 2 ^ 32 then 0 else 1)"
    and "time (alarms (clear_rollover a (bump c)) a) = nticks c + 1 + of_nat (k - 1)"
proof -
  have x: "unat (nticks c) < 2 ^ 32" using unat_u32 [of "nticks c"] by simp
  have z: "nticks c + 1 = 0 \<longleftrightarrow> unat (nticks c) + 1 = 2 ^ 32"
    by (rule suc_zero_u32)
  show "rollover (alarms (clear_rollover a (bump c)) a)
     = (if unat (nticks c + 1) + (k - 1) < 2 ^ 32 then 0 else 1)"
  proof (cases "nticks c + 1 = 0")
    case True
    with assms z show ?thesis by (auto simp: clear_rollover_def armed_def)
  next
    case False
    with z x have "unat (nticks c + 1) = unat (nticks c) + 1"
      by (simp only: unat_suc_u32) (simp add: mod_if)
    with False assms show ?thesis by (auto simp: clear_rollover_def armed_def)
  qed
  have "of_nat k = (1 :: u32) + of_nat (k - 1)" using assms by (simp add: armed_def)
  with assms show "time (alarms (clear_rollover a (bump c)) a) = nticks c + 1 + of_nat (k - 1)"
    by (auto simp: clear_rollover_def armed_def)
qed

lemma armed_waits:
  assumes "armed (Suc k) a c" "0 < k"
  shows "\<not> expired a (clear_rollover a (bump c))" "armed k a (clear_rollover a (bump c))"
proof -
  note r = rollover_after_bump [OF assms(1)]
  have k: "k < 2 ^ 32" using assms(1) by (simp add: armed_def)
  show "armed k a (clear_rollover a (bump c))" using r k assms(2) by (simp add: armed_def)
  show "\<not> expired a (clear_rollover a (bump c))"
  proof
    assume "expired a (clear_rollover a (bump c))"
    then have e: "nticks c + 1 + of_nat k \<le> nticks c + 1" "unat (nticks c + 1) + k < 2 ^ 32"
      using r by (auto simp: expired_def split: if_splits)
    then show False using assms(2) unat_plus_u32 [of "nticks c + 1" k]
      by (simp add: word_le_nat_alt)
  qed
qed

lemma armed_fires:
  assumes "armed 1 a c"
  shows "expired a (clear_rollover a (bump c))"
    and "time (alarms (clear_rollover a (bump c)) a) = nticks c + 1"
    and "rollover (alarms (clear_rollover a (bump c)) a) = 0"
  using rollover_after_bump [OF assms] unat_u32 [of "nticks c + 1"]
  by (simp_all add: expired_def)

lemma rearm_arms:
  assumes "time (alarms c a) = nticks c" "rollover (alarms c a) = 0" "r \<noteq> 0"
  shows "armed (unat r) a (rearm a r c)"
proof -
  have r: "0 < unat r" "unat r < 2 ^ 32" using assms(3) unat_u32 [of r] by (simp_all add: unat_gt_0)
  show ?thesis using r assms(1,2) wrapped_iff [OF r(2), of "nticks c"]
    by (simp add: rearm_def Let_def armed_def)
qed

text \<open>One tick, for the whole list.\<close>

lemma armed_cong:
  "nticks c' = nticks c \<Longrightarrow> alarms c' a = alarms c a \<Longrightarrow> armed k a c' = armed k a c"
  by (simp add: armed_def)

lemma tick_alarm_other:
  "b \<noteq> a \<Longrightarrow> alarms (tick_alarm b c) a = alarms c a" "nticks (tick_alarm b c) = nticks c"
  by (simp_all add: tick_alarm_def Let_def split_beta)

lemma tick_alarm_calls:
  "calls (tick_alarm b c) = calls c @ (if expired b (clear_rollover b c) then [b] else [])"
  by (simp add: tick_alarm_def Let_def split_beta)

lemma tick_list_other:
  assumes "a \<notin> set as"
  shows "alarms (snd (tick_list as c)) a = alarms c a" "nticks (snd (tick_list as c)) = nticks c"
    "count_list (calls (snd (tick_list as c))) a = count_list (calls c) a"
  using assms
  by (induction as arbitrary: c) (auto simp: split_beta tick_alarm_other tick_alarm_calls)

lemma tick_list_append:
  "tick_list (as @ bs) c =
     (let (as', c) = tick_list as c; (bs', c) = tick_list bs c in (as' @ bs', c))"
  by (induction as arbitrary: c) (auto simp: split_beta Let_def)

text \<open>The position of an alarm in the list does not matter.\<close>

lemma tick_list_at:
  assumes "a \<in> set as" "distinct as"
  obtains c1 where "alarms c1 a = alarms c a" "nticks c1 = nticks c"
    "count_list (calls c1) a = count_list (calls c) a"
    "alarms (snd (tick_list as c)) a = alarms (tick_alarm a c1) a"
    "nticks (snd (tick_list as c)) = nticks c"
    "count_list (calls (snd (tick_list as c))) a = count_list (calls (tick_alarm a c1)) a"
    "a \<in> set (fst (tick_list as c)) \<longleftrightarrow> \<not> stops a c1"
    "drv c1 = drv (snd (tick_list (takeWhile (\<lambda>b. b \<noteq> a) as) c))"
proof -
  from assms obtain xs ys where as: "as = xs @ a # ys" by (meson split_list)
  then have tw: "takeWhile (\<lambda>b. b \<noteq> a) as = xs"
    using assms(2) by (auto simp: takeWhile_eq_all_conv takeWhile_append)
  have n: "a \<notin> set xs" "a \<notin> set ys" using assms(2) as by auto
  let ?c1 = "snd (tick_list xs c)"
  have fs: "set (fst (tick_list bs d)) \<subseteq> set bs" for bs and d :: "'a clock"
    by (induction bs arbitrary: d) (auto simp: split_beta split: if_splits)
  show ?thesis
    using n fs [of xs c] fs [of ys "tick_alarm a ?c1"]
    by (intro that [of ?c1])
      (auto simp: as tw [unfolded as] tick_list_append split_beta Let_def tick_list_other
        tick_alarm_other)
qed

lemma tick_alarm_armed_waits:
  assumes "armed (Suc k) a c" "0 < k" "alarms c1 a = alarms c a" "nticks c1 = nticks c + 1"
  shows "alarms (tick_alarm a c1) a = alarms (clear_rollover a (bump c)) a"
    "\<not> stops a c1" "count_list (calls (tick_alarm a c1)) a = count_list (calls c1) a"
proof -
  have same: "alarms (clear_rollover a c1) a = alarms (clear_rollover a (bump c)) a"
    using assms(3,4) by (simp add: clear_rollover_def)
  then have "\<not> expired a (clear_rollover a c1)"
    using armed_waits(1) [OF assms(1,2)] assms(4) by (simp add: expired_def)
  then show "alarms (tick_alarm a c1) a = alarms (clear_rollover a (bump c)) a"
    "\<not> stops a c1" "count_list (calls (tick_alarm a c1)) a = count_list (calls c1) a"
    using same by (simp_all add: tick_alarm_def stops_def Let_def)
qed

lemma tick_alarm_armed_fires:
  assumes "armed 1 a c" "alarms c1 a = alarms c a" "nticks c1 = nticks c + 1"
  shows "stops a c1 \<or> armed (unat (fst (run_callback a c1))) a (tick_alarm a c1)"
    "count_list (calls (tick_alarm a c1)) a = count_list (calls c1) a + 1"
proof -
  have same: "alarms (clear_rollover a c1) a = alarms (clear_rollover a (bump c)) a"
    using assms(2,3) by (simp add: clear_rollover_def)
  note f = armed_fires [OF assms(1)]
  have e: "expired a (clear_rollover a c1)" using f(1) same assms(3) by (simp add: expired_def)
  have r: "fst (run_callback a (clear_rollover a c1)) = fst (run_callback a c1)"
    by (simp add: run_callback_def clear_rollover_def split_beta)
  let ?c = "snd (run_callback a (clear_rollover a c1))"
  have c: "time (alarms ?c a) = nticks ?c" "rollover (alarms ?c a) = 0"
    using f same assms(3) by simp_all
  show "stops a c1 \<or> armed (unat (fst (run_callback a c1))) a (tick_alarm a c1)"
    using e r rearm_arms [OF c]
    by (auto simp: tick_alarm_def stops_def Let_def split_beta)
  show "count_list (calls (tick_alarm a c1)) a = count_list (calls c1) a + 1"
    using e by (simp add: tick_alarm_calls)
qed

text \<open>A number of ticks in a row, with fuel \<open>N\<close> for each.\<close>

fun alt_ticks :: "nat \<Rightarrow> nat \<Rightarrow> 's clock \<Rightarrow> 's clock option" where
  "alt_ticks N 0 c = Some c"
| "alt_ticks N (Suc m) c = (case alt_tick N c of None \<Rightarrow> None | Some c' \<Rightarrow> alt_ticks N m c')"

definition waiting :: "nat \<Rightarrow> nat \<Rightarrow> nat \<Rightarrow> 's clock \<Rightarrow> bool" where
  "waiting N k a c \<longleftrightarrow> armed k a c
     \<and> (\<exists>as. represents (alarm_links c) alt_alarm_list as \<and> length as < N \<and> a \<in> set as)"

lemma tick_list_length: "length (fst (tick_list as c)) \<le> length as"
  by (induction as arbitrary: c) (auto simp: split_beta le_SucI)

lemma tick_waits:
  assumes "waiting N (Suc k) a c" "0 < k"
  obtains c' where "alt_tick N c = Some c'" "waiting N k a c'"
    "count_list (calls c') a = count_list (calls c) a"
proof -
  obtain as where as: "represents (alarm_links c) alt_alarm_list as" "length as < N" "a \<in> set as"
    and armed: "armed (Suc k) a c" using assms(1) by (auto simp: waiting_def)
  let ?c' = "snd (tick_list as (bump c))"
  have d: "distinct as" using as(1) by (simp add: represents_def)
  obtain c1 where c1: "alarms c1 a = alarms (bump c) a" "nticks c1 = nticks (bump c)"
    "count_list (calls c1) a = count_list (calls (bump c)) a"
    "alarms ?c' a = alarms (tick_alarm a c1) a" "nticks ?c' = nticks (bump c)"
    "count_list (calls ?c') a = count_list (calls (tick_alarm a c1)) a"
    "a \<in> set (fst (tick_list as (bump c))) \<longleftrightarrow> \<not> stops a c1"
    using tick_list_at [OF as(3) d, of "bump c"] by metis
  have w: "alarms (tick_alarm a c1) a = alarms (clear_rollover a (bump c)) a" "\<not> stops a c1"
    "count_list (calls (tick_alarm a c1)) a = count_list (calls c1) a"
    using tick_alarm_armed_waits [OF armed assms(2)] c1(1,2) by simp_all
  have "armed k a ?c'"
    using armed_waits(2) [OF armed assms(2)] c1(4,5) w(1) by (simp add: armed_def)
  moreover have "length (fst (tick_list as (bump c))) < N"
    using as(2) tick_list_length [of as "bump c"] by simp
  ultimately have "waiting N k a ?c'"
    using alt_tick_list [OF as(1,2)] c1(7) w(2) by (auto simp: waiting_def bump_def)
  then show ?thesis
    using alt_tick_list [OF as(1,2)] c1 w by (intro that [of ?c']) (simp_all add: bump_def)
qed

lemma ticks_wait:
  "waiting N (Suc k) a c \<Longrightarrow> m \<le> k \<Longrightarrow>
   \<exists>c'. alt_ticks N m c = Some c' \<and> waiting N (Suc k - m) a c'
      \<and> count_list (calls c') a = count_list (calls c) a"
proof (induction m arbitrary: c k)
  case (Suc m)
  then obtain j where k: "k = Suc j" "m \<le> j" by (cases k) auto
  obtain c1 where c1: "alt_tick N c = Some c1" "waiting N (Suc j) a c1"
    "count_list (calls c1) a = count_list (calls c) a"
    using tick_waits [of N k a c] Suc.prems k by auto
  with Suc.IH [OF c1(2) k(2)] k show ?case by auto
qed auto

lemma tick_fires:
  assumes "waiting N 1 a c"
  obtains c' where "alt_tick N c = Some c'" "count_list (calls c') a = count_list (calls c) a + 1"
    "\<exists>as. represents (alarm_links c') alt_alarm_list as
       \<and> (a \<notin> set as \<or> (\<exists>r. r \<noteq> 0 \<and> waiting N (unat (r :: u32)) a c'))"
proof -
  obtain as where as: "represents (alarm_links c) alt_alarm_list as" "length as < N" "a \<in> set as"
    and armed: "armed 1 a c" using assms(1) by (auto simp: waiting_def)
  let ?c' = "snd (tick_list as (bump c))"
  have d: "distinct as" using as(1) by (simp add: represents_def)
  obtain c1 where c1: "alarms c1 a = alarms (bump c) a" "nticks c1 = nticks (bump c)"
    "count_list (calls c1) a = count_list (calls (bump c)) a"
    "alarms ?c' a = alarms (tick_alarm a c1) a" "nticks ?c' = nticks (bump c)"
    "count_list (calls ?c') a = count_list (calls (tick_alarm a c1)) a"
    "a \<in> set (fst (tick_list as (bump c))) \<longleftrightarrow> \<not> stops a c1"
    using tick_list_at [OF as(3) d, of "bump c"] by metis
  have f: "stops a c1 \<or> armed (unat (fst (run_callback a c1))) a (tick_alarm a c1)"
    "count_list (calls (tick_alarm a c1)) a = count_list (calls c1) a + 1"
    using tick_alarm_armed_fires [OF armed] c1(1,2) by simp_all
  have rep: "represents (alarm_links ?c') alt_alarm_list (fst (tick_list as (bump c)))"
    using alt_tick_list [OF as(1,2)] by (simp add: bump_def)
  have len: "length (fst (tick_list as (bump c))) < N"
    using as(2) tick_list_length [of as "bump c"] by simp
  have "a \<notin> set (fst (tick_list as (bump c))) \<or> (\<exists>r. r \<noteq> 0 \<and> waiting N (unat (r :: u32)) a ?c')"
  proof (cases "stops a c1")
    case False
    with f(1) have r: "armed (unat (fst (run_callback a c1))) a (tick_alarm a c1)" by simp
    then have "armed (unat (fst (run_callback a c1))) a ?c'"
      using c1 by (simp add: armed_def tick_alarm_other)
    moreover have "fst (run_callback a c1) \<noteq> 0" using r by (auto simp: armed_def)
    ultimately show ?thesis using rep len False c1(7) by (auto simp: waiting_def)
  qed (use c1 in simp)
  with rep show ?thesis
    using alt_tick_list [OF as(1,2)] c1 f by (intro that [of ?c']) (auto simp: bump_def)
qed

lemma start_waits:
  assumes "tick_rate c \<noteq> 0" "unat n + 1 < 2 ^ 32"
    and "represents (alarm_links c) alt_alarm_list as" "a \<noteq> alt_alarm_list" "a \<notin> set as"
    and "length as + 1 < N"
  shows "waiting N (unat n + 1) a (snd (alt_alarm_start (Some a) n cb ctx c))"
proof -
  let ?c = "snd (alt_alarm_start (Some a) n cb ctx c)"
  have "alarm_links ?c = alt_llist_insert alt_alarm_list a (alarm_links c)"
    using assms(1) by (simp add: alt_alarm_start_def alt_ticks_per_second_def Let_def)
  then have "represents (alarm_links ?c) alt_alarm_list (a # as)"
    using llist.ins_holds [OF assms(3,4,5)] by simp
  then show ?thesis
    using start_arms(2) [OF assms(1,2)] assms(6) unfolding waiting_def
    by (intro conjI exI [of _ "a # as"]) simp_all
qed

lemma start_calls: "calls (snd (alt_alarm_start al n cb ctx c)) = calls c"
  by (simp add: alt_alarm_start_def Let_def set_alarm_def split: option.split)

lemma ticks_snoc:
  "alt_ticks N m c = Some c1 \<Longrightarrow> alt_tick N c1 = Some c2 \<Longrightarrow> alt_ticks N (m + 1) c = Some c2"
proof (induction m arbitrary: c)
  case (Suc m)
  then obtain x where "alt_tick N c = Some x" "alt_ticks N m x = Some c1"
    by (auto split: option.splits)
  with Suc.IH [OF this(2) Suc.prems(2)] show ?case by simp
qed simp


definition demo_clock :: "nat clock" where
  "demo_clock = \<lparr>tick_rate = 1000, nticks = 0xFFFFFFFE, alarm_links = three_links,
     alarms = (\<lambda>_. \<lparr>time = 0, callback = (\<lambda>ctx s. (5, s + ctx)), rollover = 0, context_arg = 0\<rparr>),
     drv = 0, calls = []\<rparr>"


theorem alt_tick_visits_each_alarm_witness:
  "alt_tick 4 demo_clock = Some (snd (tick_list [1, 2, 3] (demo_clock\<lparr>nticks := nticks demo_clock + 1\<rparr>)))"
proof -
  have r: "represents (alarm_links demo_clock) 0 [1, 2, 3]" using three_links by (simp add: demo_clock_def)
  have four: "Suc (length [1, 2, 3 :: nat]) = 4" by simp
  show ?thesis using alt_tick_visits_each_alarm [OF r] unfolding four by blast
qed

lemma longest_interval_expired:
  assumes "tick_rate c \<noteq> 0" "nticks c \<noteq> - 1"
  shows "expired a (clear_rollover a (bump (snd (alt_alarm_start (Some a) (- 1) cb ctx c))))"
proof -
  have "nticks c + 1 \<noteq> 0" using assms(2) by (simp add: eq_neg_iff_add_eq_0)
  then have "nticks c \<le> nticks c + 1"
    using unat_suc_u32 [of "nticks c"] unat_u32 [of "nticks c"]
    by (auto simp: suc_zero_u32 word_le_nat_alt mod_if)
  then show ?thesis
    using assms by (simp add: alt_alarm_start_def alt_ticks_per_second_def alt_nticks_def Let_def
        expired_def clear_rollover_def set_alarm_def)
qed

text \<open>
  The comment at the roll-over flag says that it prevents an alarm that goes off too
  early; for the interval \<open>2 ^ 32 - 1\<close> it does not: the sum wraps around to the current tick
  count, which is not smaller than it, and the alarm is called at the very next tick.
\<close>

theorem longest_alarm_goes_off_at_once:
  assumes "tick_rate c \<noteq> 0" and "nticks c \<noteq> - 1"
    and "represents (alarm_links c) 0 as" and "a \<noteq> 0" and "a \<notin> set as"
    and "length as + 1 < N"
  shows "\<exists>c'. alt_tick N (snd (alt_alarm_start (Some a) (- 1) cb ctx c)) = Some c'
     \<and> count_list (calls c') a = count_list (calls c) a + 1"
proof -
  let ?c = "snd (alt_alarm_start (Some a) (- 1) cb ctx c)"
  have "alarm_links ?c = alt_llist_insert 0 a (alarm_links c)"
    using assms(1) by (simp add: alt_alarm_start_def alt_ticks_per_second_def Let_def)
  then have rep: "represents (alarm_links ?c) 0 (a # as)"
    using llist.ins_holds [OF assms(3,4,5)] by simp
  have "alt_tick N ?c = Some (snd (tick_list (a # as) (bump ?c)))"
    using alt_tick_list [OF rep, of N] assms(6) by (simp add: bump_def)
  moreover have "count_list (calls (snd (tick_list (a # as) (bump ?c)))) a = count_list (calls c) a + 1"
    using longest_interval_expired [OF assms(1,2), of a cb ctx] assms(5)
    by (simp add: split_beta tick_list_other tick_alarm_calls start_calls)
  ultimately show ?thesis by (simp add: split_beta)
qed

theorem longest_alarm_goes_off_at_once_witness:
  "\<exists>c'. alt_tick 5 (snd (alt_alarm_start (Some 7) (- 1) (\<lambda>ctx s. (0, s)) 1 demo_clock)) = Some c'
     \<and> count_list (calls c') 7 = 1"
  using longest_alarm_goes_off_at_once
      [of demo_clock "[1, 2, 3]" 7 5 "\<lambda>ctx s. (0, s)" 1] three_links
  by (auto simp: demo_clock_def)

end
