(* ===== verification/TimeOfDay.thy ===== *)
theory TimeOfDay
  imports Alarm
begin

text \<open>
  Wall-clock time and process times: \<^verbatim>\<open>HAL/src/alt_gettod.c\<close>, \<^verbatim>\<open>HAL/src/alt_settod.c\<close> and
  \<^verbatim>\<open>HAL/src/alt_times.c\<close>, over the tick counter of theory \<open>Alarm\<close>. \<^verbatim>\<open>long\<close> and \<^verbatim>\<open>alt_u32\<close> are
  32 bits wide and mix freely in the code; they are kept as words, read as signed numbers
  where the code compares a \<^verbatim>\<open>long\<close>.
\<close>

abbreviation (input) ALT_US :: u32 where "ALT_US \<equiv> 1000000"

record timeval =
  tv_sec :: u32
  tv_usec :: u32

record timezone =
  tz_minuteswest :: u32
  tz_dsttime :: u32

record tms =
  tms_utime :: u32
  tms_stime :: u32
  tms_cutime :: u32
  tms_cstime :: u32

record tod =
  alt_resettime :: timeval
  alt_timezone :: timezone
  tod_errno :: int

text \<open>The two normalising loops of \<^verbatim>\<open>gettimeofday\<close>.\<close>

function usec_up :: "timeval \<Rightarrow> timeval" where
  "usec_up t =
     (if sint (tv_usec t) < 0 then
        (if sint (tv_sec t) \<le> 0 then t\<lparr>tv_sec := 0, tv_usec := 0\<rparr>
         else usec_up (t\<lparr>tv_sec := tv_sec t - 1, tv_usec := tv_usec t + ALT_US\<rparr>))
      else t)"
  by pat_completeness auto

function usec_down :: "timeval \<Rightarrow> timeval" where
  "usec_down t =
     (if sint (tv_usec t) \<ge> 1000000 then
        usec_down (t\<lparr>tv_sec := tv_sec t + 1, tv_usec := tv_usec t - ALT_US\<rparr>)
      else t)"
  by pat_completeness auto

lemma sint_u32_bounds: "- (2 ^ 31) \<le> sint (x :: u32)" "sint (x :: u32) < 2 ^ 31"
  using sint_greater_eq [of x] sint_less [of x] by simp_all

lemma sint_add_u32:
  "- (2 ^ 31) \<le> sint x + sint y \<Longrightarrow> sint x + sint y < 2 ^ 31 \<Longrightarrow>
   sint ((x :: u32) + y) = sint x + sint y"
  by (simp add: sint_word_ariths signed_take_bit_int_eq_self)

lemma sint_sub_u32:
  "- (2 ^ 31) \<le> sint x - sint y \<Longrightarrow> sint x - sint y < 2 ^ 31 \<Longrightarrow>
   sint ((x :: u32) - y) = sint x - sint y"
  by (simp add: sint_word_ariths signed_take_bit_int_eq_self)

lemma sint_us: "sint ALT_US = 1000000"
  by simp

lemma usec_up_step: "sint (u :: u32) < 0 \<Longrightarrow> sint (u + ALT_US) = sint u + 1000000"
  using sint_u32_bounds [of u] by (subst sint_add_u32) (simp_all add: sint_us)

lemma usec_down_step: "1000000 \<le> sint (u :: u32) \<Longrightarrow> sint (u - ALT_US) = sint u - 1000000"
  using sint_u32_bounds [of u] by (subst sint_sub_u32) (simp_all add: sint_us)

termination usec_up
  by (relation "measure (\<lambda>t. nat (- sint (tv_usec t)))") (auto simp: usec_up_step)

termination usec_down
  by (relation "measure (\<lambda>t. nat (sint (tv_usec t)))") (auto simp: usec_down_step)

declare usec_up.simps [simp del] usec_down.simps [simp del]

text \<open>\<open>None\<close> for the time zone is the null pointer that the code tests for.\<close>

definition gettimeofday ::
  "'s clock \<Rightarrow> tod \<Rightarrow> timeval \<times> timezone option \<Rightarrow> int \<times> (timeval \<times> timezone option)" where
  "gettimeofday c g p =
     (let n = alt_nticks c; r = alt_ticks_per_second c
      in if r \<noteq> 0 then
           (let t = \<lparr>tv_sec = tv_sec (alt_resettime g) + n div r,
                     tv_usec = tv_usec (alt_resettime g)
                       + ucast (((ucast n :: 64 word) * ucast (ALT_US div r)) mod 1000000)\<rparr>;
                t = usec_up t;
                t = usec_down t
            in (0, (t, map_option (\<lambda>_. alt_timezone g) (snd p))))
         else (- ENOTSUP, p))"

definition settimeofday :: "'s clock \<Rightarrow> timeval \<Rightarrow> timezone \<Rightarrow> tod \<Rightarrow> int \<times> tod" where
  "settimeofday c t tz g =
     (let n = alt_nticks c; r = alt_ticks_per_second c
      in if r \<noteq> 0 then
           (0, g\<lparr>alt_resettime :=
                   \<lparr>tv_sec = tv_sec t - n div r,
                    tv_usec = tv_usec t - (n * (ALT_US div r)) mod ALT_US\<rparr>,
                 alt_timezone := tz\<rparr>)
         else (- 1, g\<lparr>tod_errno := ENOSYS\<rparr>))"

definition times :: "'s clock \<Rightarrow> tod \<Rightarrow> tms \<Rightarrow> u32 \<times> tms \<times> tod" where
  "times c g buf =
     (let ticks = alt_nticks c
      in if alt_ticks_per_second c = 0 then (0, buf, g\<lparr>tod_errno := ENOSYS\<rparr>)
         else (ticks, \<lparr>tms_utime = 0, tms_stime = ticks, tms_cutime = 0, tms_cstime = 0\<rparr>, g))"

section \<open>Properties\<close>

text \<open>The result of the two loops is a normalised time.\<close>

lemma usec_up_range: "0 \<le> sint (tv_usec (usec_up t))"
  by (induction t rule: usec_up.induct) (subst usec_up.simps, auto)

lemma usec_down_range:
  "0 \<le> sint (tv_usec t) \<Longrightarrow>
   0 \<le> sint (tv_usec (usec_down t)) \<and> sint (tv_usec (usec_down t)) < 1000000"
  by (induction t rule: usec_down.induct) (subst (1 2) usec_down.simps, auto simp: usec_down_step)

text \<open>
  Whatever the reset time and the tick count are, the microseconds that
  \<open>gettimeofday\<close> returns are in the range from 0 to 999999; both normalising loops end.
\<close>

theorem gettimeofday_normalised:
  assumes "tick_rate c \<noteq> 0"
  shows "fst (gettimeofday c g p) = 0
     \<and> 0 \<le> sint (tv_usec (fst (snd (gettimeofday c g p))))
     \<and> sint (tv_usec (fst (snd (gettimeofday c g p)))) < 1000000"
  using assms usec_down_range [OF usec_up_range]
  by (simp add: gettimeofday_def alt_ticks_per_second_def Let_def)

definition demo_tod :: tod where
  "demo_tod = \<lparr>alt_resettime = \<lparr>tv_sec = 7, tv_usec = 0\<rparr>,
     alt_timezone = \<lparr>tz_minuteswest = 0, tz_dsttime = 0\<rparr>, tod_errno = 0\<rparr>"

definition clock_at :: "u32 \<Rightarrow> u32 \<Rightarrow> nat clock" where
  "clock_at r n = \<lparr>tick_rate = r, nticks = n, alarm_links = three_links,
     alarms = (\<lambda>_. \<lparr>time = 0, callback = (\<lambda>ctx s. (0, s)), rollover = 0, context_arg = 0\<rparr>),
     drv = 0, calls = []\<rparr>"

theorem gettimeofday_normalised_witness:
  "sint (tv_usec (fst (snd (gettimeofday (clock_at 100 12345) demo_tod
     (\<lparr>tv_sec = 0, tv_usec = 0\<rparr>, None))))) < 1000000"
  using gettimeofday_normalised [of "clock_at 100 12345" demo_tod "(\<lparr>tv_sec = 0, tv_usec = 0\<rparr>, None)"]
  by (simp add: clock_at_def)

lemma usec_stable:
  assumes "0 \<le> sint (tv_usec t)" "sint (tv_usec t) < 1000000"
  shows "usec_down (usec_up t) = t"
  using assms by (subst usec_up.simps, subst usec_down.simps) simp

text \<open>The 32-bit product of \<open>settimeofday\<close> and the 64-bit product of \<open>gettimeofday\<close>.\<close>

lemma products_agree:
  fixes n k :: u32
  assumes "unat n * unat k < 2 ^ 32"
  shows "ucast (((ucast n :: 64 word) * ucast k) mod 1000000) = (n * k) mod ALT_US"
proof -
  have u: "unat (ucast x :: 64 word) = unat x" for x :: u32
    using unat_u32 [of x] by (simp add: unsigned_ucast_eq take_bit_nat_eq_self)
  have "unat ((ucast n :: 64 word) * ucast k) = unat n * unat k"
    using assms by (subst unat_mult_lem [THEN iffD1]) (simp_all add: u)
  then have "unat (((ucast n :: 64 word) * ucast k) mod 1000000) = (unat n * unat k) mod 1000000"
    by (simp add: unat_mod_distrib)
  moreover have "unat ((n * k) mod ALT_US) = (unat n * unat k) mod 1000000"
    using assms by (simp add: unat_mod_distrib unat_word_ariths)
  ultimately show ?thesis
    by (intro word_unat_eq_iff [THEN iffD2]) (simp add: unsigned_ucast_eq take_bit_nat_eq_self)
qed

text \<open>
  Claim C39. As the comment at \<open>settimeofday\<close> promises, an immediate call of \<open>gettimeofday\<close>
  returns the time and the zone that were set, as long as the elapsed microseconds that
  \<open>settimeofday\<close> computes fit in 32 bits.
\<close>

theorem settimeofday_then_gettimeofday:
  assumes "tick_rate c \<noteq> 0" and "unat (nticks c) * unat (1000000 div tick_rate c) < 2 ^ 32"
    and "0 \<le> sint (tv_usec t)" and "sint (tv_usec t) < 1000000"
  shows "gettimeofday c (snd (settimeofday c t tz g)) (p, Some z) = (0, (t, Some tz))"
proof -
  have "ucast (((ucast (nticks c) :: 64 word) * ucast (ALT_US div tick_rate c)) mod 1000000)
      = (nticks c * (ALT_US div tick_rate c)) mod ALT_US"
    using products_agree [OF assms(2)] .
  then show ?thesis
    using assms(1) usec_stable [OF assms(3,4)]
    by (cases t) (simp add: gettimeofday_def settimeofday_def alt_ticks_per_second_def alt_nticks_def Let_def)
qed

theorem settimeofday_then_gettimeofday_witness:
  "gettimeofday (clock_at 100 400000)
     (snd (settimeofday (clock_at 100 400000) \<lparr>tv_sec = 9, tv_usec = 5\<rparr>
        \<lparr>tz_minuteswest = 60, tz_dsttime = 0\<rparr> demo_tod))
     (\<lparr>tv_sec = 0, tv_usec = 0\<rparr>, Some (alt_timezone demo_tod))
   = (0, (\<lparr>tv_sec = 9, tv_usec = 5\<rparr>, Some \<lparr>tz_minuteswest = 60, tz_dsttime = 0\<rparr>))"
  by (rule settimeofday_then_gettimeofday) (simp_all add: clock_at_def)

text \<open>
  Beyond that bound the promise is broken: at 1000 ticks per second, from 4294968
  ticks (72 minutes) on, the product of \<open>settimeofday\<close> wraps around at 32 bits while the one of
  \<open>gettimeofday\<close> does not, and the time that is read back is 0.967 seconds off.
\<close>

theorem settimeofday_wraps:
  "gettimeofday (clock_at 1000 4294968)
     (snd (settimeofday (clock_at 1000 4294968) \<lparr>tv_sec = 100, tv_usec = 5\<rparr> z demo_tod)) (p, None)
   = (0, (\<lparr>tv_sec = 100, tv_usec = 967301\<rparr>, None))"
  by (simp add: gettimeofday_def settimeofday_def alt_ticks_per_second_def alt_nticks_def
      clock_at_def usec_stable Let_def)

text \<open>
  \<open>times\<close> charges all elapsed ticks to the system; without a system clock it, and the
  time-of-day functions, report an error and change neither the result nor the stored time.
\<close>

theorem no_clock_no_time:
  assumes "tick_rate c = 0"
  shows "times c g b = (0, b, g\<lparr>tod_errno := ENOSYS\<rparr>)
     \<and> gettimeofday c g p = (- ENOTSUP, p)
     \<and> settimeofday c t tz g = (- 1, g\<lparr>tod_errno := ENOSYS\<rparr>)
     \<and> alt_alarm_start al n cb ctx c = (- ENOTSUP, c)"
  using assms by (simp add: times_def gettimeofday_def settimeofday_def alt_alarm_start_def
      alt_ticks_per_second_def Let_def)

theorem no_clock_no_time_witness:
  "fst (alt_alarm_start (Some 3) 5 (\<lambda>ctx s. (0, s)) 1 (clock_at 0 0)) = - 134"
  using no_clock_no_time [of "clock_at 0 0" demo_tod "\<lparr>tms_utime = 1, tms_stime = 1, tms_cutime = 1,
      tms_cstime = 1\<rparr>" "(\<lparr>tv_sec = 0, tv_usec = 0\<rparr>, None)" "\<lparr>tv_sec = 0, tv_usec = 0\<rparr>"
      "\<lparr>tz_minuteswest = 60, tz_dsttime = 0\<rparr>" "Some 3" 5 "\<lambda>ctx s. (0, s)" 1]
  by (simp add: clock_at_def)

end
