(* ===== verification/BusySleep.thy ===== *)
theory BusySleep
  imports Prelude
begin

text \<open>
  \<^verbatim>\<open>HAL/src/alt_busy_sleep.c\<close> and \<^verbatim>\<open>alt_usleep.c\<close>: the calibrated delay behind every \<^verbatim>\<open>usleep\<close> of
  the keyboard program. The delay is made of assembler loops that count a register down; the
  model counts how often they go round. The processor model and the clock frequency are the
  ones of \<^verbatim>\<open>system.h\<close>.
\<close>

section \<open>Model\<close>

abbreviation (input) NIOS2_CPU_IMPLEMENTATION :: string where "NIOS2_CPU_IMPLEMENTATION \<equiv> ''tiny''"
abbreviation (input) ALT_CPU_FREQ :: u32 where "ALT_CPU_FREQ \<equiv> 50000000"

text \<open>\<^verbatim>\<open>addi r, r, -1\<close>, then back while \<open>r\<close> is not zero.\<close>

function bne_loop :: "u32 \<Rightarrow> nat" where
  "bne_loop r = (if r - 1 \<noteq> 0 then Suc (bne_loop (r - 1)) else 1)"
  by pat_completeness auto
termination
proof (relation "measure (\<lambda>r. unat (r - 1))")
  fix r :: u32
  assume "r - 1 \<noteq> 0"
  then show "(r - 1, r) \<in> measure (\<lambda>r. unat (r - 1))"
    using unat_pred_u32 [of "r - 1"] unat_gt_0 [of "r - 1"] by simp
qed simp

text \<open>The same, back while \<open>r\<close> is positive as a signed number.\<close>

function bgt_loop :: "u32 \<Rightarrow> nat" where
  "bgt_loop r = (if 0 < sint (r - 1) then Suc (bgt_loop (r - 1)) else 1)"
  by pat_completeness auto
termination
proof (relation "measure (\<lambda>r. unat (r - 1))")
  fix r :: u32
  assume "0 < sint (r - 1)"
  then have "r - 1 \<noteq> 0" by auto
  then show "(r - 1, r) \<in> measure (\<lambda>r. unat (r - 1))"
    using unat_pred_u32 [of "r - 1"] unat_gt_0 [of "r - 1"] by simp
qed simp

declare bne_loop.simps [simp del] bgt_loop.simps [simp del]

definition cycles_per_loop :: u32 where
  "cycles_per_loop = (if NIOS2_CPU_IMPLEMENTATION = ''tiny'' then 9 else 3)"

definition loops_per_us :: u32 where
  "loops_per_us = ALT_CPU_FREQ div (cycles_per_loop * 1000000)"

text \<open>The loop over \<^verbatim>\<open>big_loops\<close>: rounds taken and microseconds left.\<close>

fun big_rounds :: "nat \<Rightarrow> u32 \<Rightarrow> nat \<times> u32" where
  "big_rounds 0 us = (0, us)"
| "big_rounds (Suc n) us =
     (let (k, rest) = big_rounds n (us - INT_MAX div loops_per_us) in (bne_loop INT_MAX + k, rest))"

text \<open>The number of times a delay loop goes round, and the result.\<close>

definition alt_busy_sleep :: "u32 \<Rightarrow> nat \<times> u32" where
  "alt_busy_sleep us =
     (let big_loops = us div (INT_MAX div loops_per_us)
      in (if big_loops \<noteq> 0
          then (let (k, us) = big_rounds (unat big_loops) us in k + bne_loop (us * loops_per_us))
          else bgt_loop (us * loops_per_us), 0))"

definition alt_usleep :: "u32 \<Rightarrow> nat \<times> u32" where
  "alt_usleep us = alt_busy_sleep us"

section \<open>How often the loops go round\<close>

lemma bne_loop_count: "bne_loop r = (if r = 0 then 2 ^ 32 else unat r)"
proof (induction r rule: bne_loop.induct)
  case (1 r)
  show ?case
  proof (cases "r = 1")
    case False
    then have ne: "r - 1 \<noteq> 0" by simp
    then have "bne_loop r = Suc (unat (r - 1))"
      using 1 by (subst bne_loop.simps) simp
    moreover have "Suc (unat (r - 1)) = (if r = 0 then 2 ^ 32 else unat r)"
    proof (cases "r = 0")
      case True
      then show ?thesis by (simp add: unat_minus_1_u32)
    next
      case pos: False
      then show ?thesis using unat_gt_0 [of r] by (simp add: unat_minus_one)
    qed
    ultimately show ?thesis by simp
  qed (subst bne_loop.simps, simp)
qed

lemma sint_pos_iff: "0 < sint r \<longleftrightarrow> 0 < unat r \<and> unat r < 2 ^ 31" for r :: u32
  using sint_small [of r] sint_large [of r] by (cases "unat r < 2 ^ 31") linarith+

lemma bgt_loop_count: "unat r < 2 ^ 31 \<Longrightarrow> bgt_loop r = max 1 (unat r)"
proof (induction r rule: bgt_loop.induct)
  case (1 r)
  consider "r = 0" | "r = 1" | "r \<noteq> 0" "r - 1 \<noteq> 0" by force
  then show ?case
  proof cases
    case 3
    have p: "unat (r - 1) = unat r - 1" "0 < unat (r - 1)"
      using unat_pred_u32 [OF 3(1)] 3(2) unat_gt_0 by blast+
    with 1 have "bgt_loop r = Suc (max 1 (unat r - 1))"
      by (subst bgt_loop.simps) (simp add: sint_pos_iff)
    then show ?thesis using p by simp
  qed (subst bgt_loop.simps; simp)+
qed

lemma constants:
  "INT_MAX div 5 = 429496729" "loops_per_us = 5" "bne_loop INT_MAX = 2 ^ 31 - 1"
  by (simp_all add: bne_loop_count INT_MAX_def loops_per_us_def cycles_per_loop_def)

lemma big_rounds_count:
  "big_rounds n us = (n * (2 ^ 31 - 1), us - of_nat n * 429496729)"
proof (induction n arbitrary: us)
  case (Suc n)
  then show ?case
    by (simp add: constants algebra_simps)
qed simp

section \<open>Property\<close>

text \<open>
  The exact number of rounds of the delay loops for every argument, with the five
  rounds per microsecond that the integer division leaves at 50 MHz: five per microsecond (and
  one for none) below 429496729 us; from there on as many full countdowns as fit and five per
  remaining microsecond, but \<open>2 ^ 32\<close> rounds when nothing remains, because the loop tests its
  counter after the decrement.
\<close>

theorem busy_sleep_rounds:
  "alt_usleep us =
     (if unat us < 429496729 then max 1 (5 * unat us)
      else unat us div 429496729 * (2 ^ 31 - 1)
        + (if unat us mod 429496729 = 0 then 2 ^ 32 else 5 * (unat us mod 429496729)), 0)"
proof -
  note q = constants(1,2)
  have d: "unat (us div 429496729) = unat us div 429496729" by (simp add: unat_div_distrib)
  show ?thesis
  proof (cases "unat us < 429496729")
    case True
    then have "unat (us div 429496729) = 0" using d by simp
    then have z: "us div 429496729 = 0" by (simp add: unsigned_eq_0_iff)
    have "unat (us * 5) = unat us * 5" using True by (simp add: unat_word_ariths)
    then have "bgt_loop (us * 5) = max 1 (5 * unat us)"
      using True by (subst bgt_loop_count) (simp_all add: mult.commute)
    then show ?thesis using True z by (simp add: alt_usleep_def alt_busy_sleep_def q)
  next
    case False
    then have "0 < unat us div 429496729" by (simp add: div_greater_zero_iff)
    then have z: "us div 429496729 \<noteq> 0" using d by (auto simp: unsigned_eq_0_iff [symmetric])
    define m where "m = us - of_nat (unat us div 429496729) * 429496729"
    have "unat m = unat us mod 429496729"
      using div_mult_mod_eq [of "unat us" 429496729]
    proof -
      have "m = us mod 429496729"
        unfolding m_def by (simp add: minus_div_mult_eq_mod [symmetric] word_div_def d [symmetric])
      then show ?thesis by (simp add: unat_mod_distrib)
    qed
    moreover from this have "unat (m * 5) = unat m * 5"
      by (simp add: unat_word_ariths)
    ultimately have "bne_loop (m * 5) =
        (if unat us mod 429496729 = 0 then 2 ^ 32 else 5 * (unat us mod 429496729))"
      unfolding bne_loop_count using unat_gt_0 [of "m * 5"] by auto
    then show ?thesis using False z
      by (simp add: alt_usleep_def alt_busy_sleep_def q d big_rounds_count m_def)
  qed
qed

end
