(* ===== verification/Printf.thy ===== *)
theory Printf
  imports Prelude "HOL-Library.Char_ord"
begin

text \<open>
  \<^verbatim>\<open>HAL/src/alt_printf.c\<close>: the small formatted output of the HAL. The characters handed to
  \<^verbatim>\<open>alt_putchar\<close> are the result; the variable arguments are a list, and taking one that is not
  there or of the other kind is a fault.
\<close>

section \<open>Model\<close>

datatype va = Word u32 | Str string
datatype va_fault = VaArg

text \<open>The hexadecimal digit at position \<open>k\<close> (shift \<open>4 * k\<close>) as a character.\<close>

definition digit_at :: "u32 \<Rightarrow> nat \<Rightarrow> u32" where
  "digit_at v k = drop_bit (4 * k) (v AND push_bit (4 * k) 0xF)"

definition hex_char :: "u32 \<Rightarrow> char" where
  "hex_char digit = (if digit \<le> 9 then char_of (48 + unat digit) else char_of (97 + unat digit - 10))"

text \<open>Find the first digit that is not zero, from position \<open>k\<close> down.\<close>

fun first_digit :: "u32 \<Rightarrow> nat \<Rightarrow> nat" where
  "first_digit v 0 = 0"
| "first_digit v (Suc k) = (if v AND push_bit (4 * Suc k) 0xF = 0 then first_digit v k else Suc k)"

fun put_digits :: "u32 \<Rightarrow> nat \<Rightarrow> string" where
  "put_digits v 0 = [hex_char (digit_at v 0)]"
| "put_digits v (Suc k) = hex_char (digit_at v (Suc k)) # put_digits v k"

definition put_hex :: "u32 \<Rightarrow> string" where
  "put_hex v = (if v = 0 then ''0'' else put_digits v (first_digit v 7))"

definition emit :: "string \<Rightarrow> va_fault + string \<Rightarrow> va_fault + string" where
  "emit s r = map_sum id (\<lambda>t. s @ t) r"

fun alt_printf :: "string \<Rightarrow> va list \<Rightarrow> va_fault + string" where
  "alt_printf [] args = Inr []"
| "alt_printf (c # w) args =
     (if c \<noteq> CHR ''%'' then emit [c] (alt_printf w args)
      else case w of
        [] \<Rightarrow> Inr []
      | f # w' \<Rightarrow>
          if f = CHR ''%'' then emit [f] (alt_printf w' args)
          else if f = CHR ''c'' then
            (case args of Word v # as \<Rightarrow> emit [char_of (unat v)] (alt_printf w' as) | _ \<Rightarrow> Inl VaArg)
          else if f = CHR ''x'' then
            (case args of Word v # as \<Rightarrow> emit (put_hex v) (alt_printf w' as) | _ \<Rightarrow> Inl VaArg)
          else if f = CHR ''s'' then
            (case args of Str s # as \<Rightarrow> emit s (alt_printf w' as) | _ \<Rightarrow> Inl VaArg)
          else alt_printf w' args)"

section \<open>Reading hexadecimal digits back\<close>

definition digit_value :: "char \<Rightarrow> nat" where
  "digit_value c = (if of_char c \<le> (57 :: nat) then of_char c - 48 else of_char c - 87)"

definition hex_value :: "string \<Rightarrow> nat" where
  "hex_value s = foldl (\<lambda>n c. 16 * n + digit_value c) 0 s"

lemma unat_digit_at: "unat (digit_at v k) = unat v div 16 ^ k mod 16"
proof -
  have "digit_at v k = take_bit 4 (drop_bit (4 * k) v)"
  proof (rule bit_word_eqI)
    fix n assume "n < LENGTH(32)"
    have m: "(0xF :: int) = mask 4" by (simp add: mask_eq_exp_minus_1)
    have f: "bit (0xF :: int) j \<longleftrightarrow> j < 4" for j unfolding m bit_mask_iff by auto
    show "bit (digit_at v k) n = bit (take_bit 4 (drop_bit (4 * k) v)) n"
      using bit_imp_le_length [of v "4 * k + n"]
      by (auto simp: digit_at_def bit_drop_bit_eq bit_and_iff bit_push_bit_iff bit_take_bit_iff f [of n])
  qed
  then have "unat (digit_at v k) = take_bit 4 (drop_bit (4 * k) (unat v))"
    by (simp only: unsigned_take_bit_eq unsigned_drop_bit_eq) (simp add: take_bit_nat_eq_self [OF unat_u32])
  then show ?thesis by (simp add: take_bit_eq_mod drop_bit_eq_div power_mult)
qed

lemma digit_value_hex: "unat d < 16 \<Longrightarrow> digit_value (hex_char d) = unat d"
  by (auto simp: hex_char_def digit_value_def word_le_nat_alt)

lemma foldl_digits:
  "foldl (\<lambda>n c. 16 * n + digit_value c) acc (put_digits v k) = acc * 16 ^ Suc k + unat v mod 16 ^ Suc k"
proof (induction k arbitrary: acc)
  case 0
  then show ?case by (simp add: digit_value_hex unat_digit_at)
next
  case (Suc k)
  have d: "digit_value (hex_char (digit_at v (Suc k))) = unat v div 16 ^ Suc k mod 16"
    by (subst digit_value_hex) (simp_all add: unat_digit_at)
  have "unat v mod 16 ^ Suc (Suc k) = 16 ^ Suc k * (unat v div 16 ^ Suc k mod 16) + unat v mod 16 ^ Suc k"
    by (metis mod_mult2_eq mult.commute power_Suc)
  then show ?case
    by (simp only: put_digits.simps foldl.simps Suc.IH d) (simp add: algebra_simps)
qed

lemma digit_test: "v AND push_bit (4 * k) 0xF = 0 \<longleftrightarrow> digit_at v k = 0"
proof
  assume "digit_at v k = 0"
  show "v AND push_bit (4 * k) 0xF = 0"
  proof (rule bit_word_eqI)
    fix n assume "n < LENGTH(32)"
    have "bit (v AND push_bit (4 * k) 0xF) n \<Longrightarrow> 4 * k \<le> n" by (simp add: bit_and_iff bit_push_bit_iff)
    moreover have "bit (digit_at v k) (n - 4 * k) = bit (v AND push_bit (4 * k) 0xF) n" if "4 * k \<le> n"
      unfolding digit_at_def bit_drop_bit_eq using that by simp
    ultimately show "bit (v AND push_bit (4 * k) 0xF) n = bit 0 n"
      using \<open>digit_at v k = 0\<close> by auto
  qed
qed (simp add: digit_at_def)

lemma first_digit_bound:
  "unat v < 16 ^ Suc k \<Longrightarrow> unat v < 16 ^ Suc (first_digit v k)
     \<and> first_digit v k \<le> k \<and> (v \<noteq> 0 \<longrightarrow> digit_at v (first_digit v k) \<noteq> 0)"
proof (induction k)
  case 0
  then have "unat (digit_at v 0) = unat v" by (simp add: unat_digit_at)
  then have "v \<noteq> 0 \<longrightarrow> digit_at v 0 \<noteq> 0" using unat_gt_0 [of v] by auto
  with 0 show ?case by simp
next
  case (Suc k)
  show ?case
  proof (cases "digit_at v (Suc k) = 0")
    case True
    then have "unat v div 16 ^ Suc k mod 16 = 0" using unat_digit_at [of v "Suc k"] by simp
    moreover have "unat v div 16 ^ Suc k < 16"
      using Suc.prems by (simp add: less_mult_imp_div_less mult.commute)
    ultimately have "unat v div 16 ^ Suc k = 0" by simp
    then have "unat v < 16 ^ Suc k" by (simp add: div_eq_0_iff)
    with Suc.IH True digit_test [of v "Suc k"] show ?thesis by simp
  next
    case False
    then show ?thesis using Suc.prems digit_test [of v "Suc k"] by simp
  qed
qed

lemma put_hex_value:
  "hex_value (put_hex v) = unat v" "length (put_hex v) \<le> 8" "v = 0 \<or> hd (put_hex v) \<noteq> CHR ''0''"
proof -
  have v: "unat v < 16 ^ Suc 7" using unat_u32 [of v] by simp
  note f = first_digit_bound [OF v]
  show "hex_value (put_hex v) = unat v"
  proof (cases "v = 0")
    case True
    then show ?thesis by (simp add: put_hex_def hex_value_def digit_value_def)
  next
    case False
    then show ?thesis using f by (simp add: put_hex_def hex_value_def foldl_digits)
  qed
  have l: "length (put_digits v k) = Suc k" for k by (induction k) auto
  show "length (put_hex v) \<le> 8" using f by (simp add: put_hex_def l)
  have h: "hd (put_digits v k) = hex_char (digit_at v k)" for k by (cases k) auto
  have "hex_char d \<noteq> CHR ''0''" if "d \<noteq> 0" "unat d < 16" for d
  proof
    assume "hex_char d = CHR ''0''"
    then have "unat d = digit_value (CHR ''0'')" using digit_value_hex [OF that(2)] by simp
    then show False using that(1) unat_gt_0 [of d] by (simp add: digit_value_def)
  qed
  then show "v = 0 \<or> hd (put_hex v) \<noteq> CHR ''0''"
    using f by (auto simp: put_hex_def h unat_digit_at)
qed

section \<open>What a format means\<close>

text \<open>The pieces of a format string, their characters, their arguments and the text they stand for.\<close>

datatype piece = Plain char | Percent | OneChar u32 | Hex u32 | Text string

fun piece_format :: "piece \<Rightarrow> string" where
  "piece_format (Plain c) = [c]"
| "piece_format Percent = ''%%''"
| "piece_format (OneChar v) = ''%c''"
| "piece_format (Hex v) = ''%x''"
| "piece_format (Text s) = ''%s''"

fun piece_args :: "piece \<Rightarrow> va list" where
  "piece_args (OneChar v) = [Word v]"
| "piece_args (Hex v) = [Word v]"
| "piece_args (Text s) = [Str s]"
| "piece_args _ = []"

text \<open>A piece stands for a text; for a number it is any minimal hexadecimal form.\<close>

fun piece_text :: "piece \<Rightarrow> string \<Rightarrow> bool" where
  "piece_text (Plain c) t = (t = [c])"
| "piece_text Percent t = (t = ''%'')"
| "piece_text (OneChar v) t = (t = [char_of (unat v)])"
| "piece_text (Hex v) t =
     (hex_value t = unat v \<and> t \<noteq> [] \<and> length t \<le> 8 \<and> (v = 0 \<or> hd t \<noteq> CHR ''0''))"
| "piece_text (Text s) t = (t = s)"

fun plain_ok :: "piece \<Rightarrow> bool" where
  "plain_ok (Plain c) = (c \<noteq> CHR ''%'')"
| "plain_ok _ = True"

lemma put_hex_nonempty: "put_hex v \<noteq> []"
  by (cases "first_digit v 7") (auto simp: put_hex_def)

fun printed :: "piece \<Rightarrow> string" where
  "printed (Plain c) = [c]"
| "printed Percent = ''%''"
| "printed (OneChar v) = [char_of (unat v)]"
| "printed (Hex v) = put_hex v"
| "printed (Text s) = s"

lemma printed_text: "piece_text p (printed p)"
  using put_hex_value put_hex_nonempty by (cases p) auto

lemma emit_emit [simp]: "emit s (emit t r) = emit (s @ t) r" "emit [] r = r" "emit s (Inr t) = Inr (s @ t)"
  by (cases r; simp add: emit_def)+

lemma printf_pieces:
  "list_all plain_ok ps \<Longrightarrow>
   alt_printf (concat (map piece_format ps) @ w) (concat (map piece_args ps) @ as)
     = emit (concat (map printed ps)) (alt_printf w as)"
proof (induction ps)
  case (Cons p ps)
  then show ?case by (cases p) auto
qed simp

section \<open>Rendering\<close>

text \<open>
  A format made of plain characters and the four conversions, with the arguments they
  take, prints the texts of the pieces one after the other and no fault occurs: \<^verbatim>\<open>%x\<close> prints a
  number in at most eight hexadecimal digits without leading zero that read back as the number.
  An unknown conversion prints nothing and takes no argument, and a final percent sign is dropped.
\<close>

theorem printf_renders_pieces:
  assumes "list_all plain_ok ps"
  shows "\<exists>ts. list_all2 piece_text ps ts
     \<and> alt_printf (concat (map piece_format ps)) (concat (map piece_args ps)) = Inr (concat ts)
     \<and> alt_printf (concat (map piece_format ps) @ ''%d%'') (concat (map piece_args ps)) = Inr (concat ts)"
  using printf_pieces [OF assms, of "[]" "[]"] printf_pieces [OF assms, of "''%d%''" "[]"]
  by (intro exI [of _ "map printed ps"]) (simp add: list_all2_conv_all_nth printed_text)

theorem printf_renders_pieces_witness:
  "\<exists>t. alt_printf ''id=%x%%'' [Word 0x1C0] = Inr (''id='' @ t @ ''%'') \<and> hex_value t = 0x1C0"
  using printf_renders_pieces [of "[Plain CHR ''i'', Plain CHR ''d'', Plain CHR ''='', Hex 0x1C0, Percent]"]
  by (auto simp: list_all2_Cons1)

end
