(* ===== verification/Ring.thy ===== *)
theory Ring
  imports Prelude
begin

text \<open>
  Ring buffers as the UART driver keeps them: an array of \<open>N\<close> bytes and two indices, empty
  when the indices are equal and full when the one after \<open>i\<close> is \<open>out\<close>. The lemmas show what a
  contiguous copy into and out of the array does to the queue the ring represents, and the
  interface \<open>byte_queue\<close> is what the driver's loops rely on.
\<close>

section \<open>Contents of a ring\<close>

definition ring_ok :: "nat \<Rightarrow> 'a list \<Rightarrow> nat \<Rightarrow> nat \<Rightarrow> bool" where
  "ring_ok N buf i out \<longleftrightarrow> length buf = N \<and> i < N \<and> out < N"

definition used :: "nat \<Rightarrow> nat \<Rightarrow> nat \<Rightarrow> nat" where
  "used N i out = (if out \<le> i then i - out else N - out + i)"

definition contents :: "nat \<Rightarrow> 'a list \<Rightarrow> nat \<Rightarrow> nat \<Rightarrow> 'a list" where
  "contents N buf i out = map (\<lambda>k. buf ! ((out + k) mod N)) [0..<used N i out]"

text \<open>\<^verbatim>\<open>memcpy\<close> of some bytes to index \<open>i\<close>.\<close>

definition write_at :: "nat \<Rightarrow> 'a list \<Rightarrow> 'a list \<Rightarrow> 'a list" where
  "write_at i bs buf = take i buf @ bs @ drop (i + length bs) buf"

lemma length_contents [simp]: "length (contents N buf i out) = used N i out"
  by (simp add: contents_def)

lemma nth_contents: "k < used N i out \<Longrightarrow> contents N buf i out ! k = buf ! ((out + k) mod N)"
  by (simp add: contents_def)

lemma used_less: "i < N \<Longrightarrow> out < N \<Longrightarrow> used N i out < N"
  by (auto simp: used_def)

lemma used_empty: "i < N \<Longrightarrow> out < N \<Longrightarrow> used N i out = 0 \<longleftrightarrow> i = out"
  by (auto simp: used_def)

lemma contents_empty: "i < N \<Longrightarrow> out < N \<Longrightarrow> contents N buf i out = [] \<longleftrightarrow> i = out"
  using used_empty [of i N out] by (simp add: contents_def)

lemma length_write_at [simp]: "i + length bs \<le> length buf \<Longrightarrow> length (write_at i bs buf) = length buf"
  by (simp add: write_at_def)

lemma nth_write_at:
  "i + length bs \<le> length buf \<Longrightarrow> k < length buf \<Longrightarrow>
   write_at i bs buf ! k = (if i \<le> k \<and> k < i + length bs then bs ! (k - i) else buf ! k)"
  by (auto simp: write_at_def nth_append min_def)

lemma used_put:
  "i < N \<Longrightarrow> out < N \<Longrightarrow> i + n \<le> N \<Longrightarrow> used N i out + n < N \<Longrightarrow>
   used N ((i + n) mod N) out = used N i out + n"
  by (cases "i + n = N") (auto simp: used_def split: if_splits)

lemma used_get:
  "i < N \<Longrightarrow> out < N \<Longrightarrow> out + n \<le> N \<Longrightarrow> n \<le> used N i out \<Longrightarrow>
   used N i ((out + n) mod N) = used N i out - n"
  by (cases "out + n = N") (auto simp: used_def split: if_splits)

text \<open>The position of the \<open>k\<close>-th byte.\<close>

lemma position_old:
  assumes "i < N" "out < N" "i + n \<le> N" "used N i out + n < N" "k < used N i out"
  shows "\<not> (i \<le> (out + k) mod N \<and> (out + k) mod N < i + n)"
  using assms by (cases "out + k < N") (auto simp: used_def mod_if split: if_splits)

lemma position_new:
  assumes "i < N" "out < N" "i + n \<le> N" "j < n"
  shows "(out + (used N i out + j)) mod N = i + j"
  using assms by (auto simp: used_def mod_if split: if_splits)

lemma ring_put:
  assumes "ring_ok N buf i out" "i + length bs \<le> N" "used N i out + length bs < N"
  shows "ring_ok N (write_at i bs buf) ((i + length bs) mod N) out"
    and "contents N (write_at i bs buf) ((i + length bs) mod N) out = contents N buf i out @ bs"
proof -
  have N: "length buf = N" "i < N" "out < N" "0 < N" using assms(1) by (auto simp: ring_ok_def)
  show "ring_ok N (write_at i bs buf) ((i + length bs) mod N) out"
    using N assms(2) by (simp add: ring_ok_def)
  have u: "used N ((i + length bs) mod N) out = used N i out + length bs"
    using used_put [OF N(2,3) assms(2,3)] .
  show "contents N (write_at i bs buf) ((i + length bs) mod N) out = contents N buf i out @ bs"
  proof (rule nth_equalityI)
    fix k assume "k < length (contents N (write_at i bs buf) ((i + length bs) mod N) out)"
    then have k: "k < used N i out + length bs" by (simp add: u)
    have m: "(out + k) mod N < length buf" using N by simp
    show "contents N (write_at i bs buf) ((i + length bs) mod N) out ! k = (contents N buf i out @ bs) ! k"
    proof (cases "k < used N i out")
      case True
      then show ?thesis
        using position_old [OF N(2,3) assms(2,3) True] m assms(2) N
        by (auto simp: nth_contents u nth_append nth_write_at)
    next
      case False
      define j where "j = k - used N i out"
      then have j: "j < length bs" "k = used N i out + j" using False k by auto
      have "(out + k) mod N = i + j" using position_new [OF N(2,3) assms(2) j(1)] j(2) by simp
      then show ?thesis
        using m assms(2) N j k by (simp add: nth_contents u nth_append nth_write_at)
    qed
  qed (simp add: u)
qed

lemma ring_get:
  assumes "ring_ok N buf i out" "out + n \<le> N" "n \<le> used N i out"
  shows "ring_ok N buf i ((out + n) mod N)"
    and "take n (drop out buf) = take n (contents N buf i out)"
    and "contents N buf i ((out + n) mod N) = drop n (contents N buf i out)"
proof -
  have N: "length buf = N" "i < N" "out < N" "0 < N" using assms(1) by (auto simp: ring_ok_def)
  show "ring_ok N buf i ((out + n) mod N)" using N by (simp add: ring_ok_def)
  show "take n (drop out buf) = take n (contents N buf i out)"
  proof (rule nth_equalityI)
    fix k assume "k < length (take n (drop out buf))"
    then have k: "k < n" "out + k < N" using assms(2) by auto
    then show "take n (drop out buf) ! k = take n (contents N buf i out) ! k"
      using assms(3) N by (simp add: nth_contents)
  qed (use assms N in auto)
  have u: "used N i ((out + n) mod N) = used N i out - n" using used_get [OF N(2,3) assms(2,3)] .
  show "contents N buf i ((out + n) mod N) = drop n (contents N buf i out)"
  proof (rule nth_equalityI)
    fix k assume "k < length (contents N buf i ((out + n) mod N))"
    then have k: "k < used N i out - n" by (simp add: u)
    have "((out + n) mod N + k) mod N = (out + (n + k)) mod N"
      by (simp add: mod_add_left_eq add.assoc)
    then show "contents N buf i ((out + n) mod N) ! k = drop n (contents N buf i out) ! k"
      using k by (simp add: nth_contents u)
  qed (simp add: u)
qed

section \<open>The queue interface\<close>

text \<open>
  A queue of bytes inside a larger state: \<open>put\<close> appends a block where \<open>room\<close> says that it fits
  in one piece, \<open>get\<close> takes a number of bytes where \<open>avail\<close> says that they lie in one piece.
\<close>

locale byte_queue =
  fixes q :: "'s \<Rightarrow> 'a list"
    and good :: "'s \<Rightarrow> bool"
    and put :: "'a list \<Rightarrow> 's \<Rightarrow> 's"
    and room :: "'s \<Rightarrow> nat"
    and get :: "nat \<Rightarrow> 's \<Rightarrow> 'a list \<times> 's"
    and avail :: "'s \<Rightarrow> nat"
  assumes put_good: "good s \<Longrightarrow> length bs \<le> room s \<Longrightarrow> good (put bs s)"
    and put_q: "good s \<Longrightarrow> length bs \<le> room s \<Longrightarrow> q (put bs s) = q s @ bs"
    and get_good: "good s \<Longrightarrow> n \<le> avail s \<Longrightarrow> good (snd (get n s))"
    and get_q: "good s \<Longrightarrow> n \<le> avail s \<Longrightarrow> fst (get n s) = take n (q s) \<and> q (snd (get n s)) = drop n (q s)"
    and avail_le: "good s \<Longrightarrow> avail s \<le> length (q s)"
    and avail_pos: "good s \<Longrightarrow> q s \<noteq> [] \<Longrightarrow> 0 < avail s"
begin

lemma get_split: "good s \<Longrightarrow> n \<le> avail s \<Longrightarrow> q s = fst (get n s) @ q (snd (get n s))"
  by (simp add: get_q)

lemma get_length: "good s \<Longrightarrow> n \<le> avail s \<Longrightarrow> length (fst (get n s)) = n"
  using avail_le [of s] by (simp add: get_q)

lemma put_then_get:
  "good s \<Longrightarrow> q s = [] \<Longrightarrow> length bs \<le> room s \<Longrightarrow> n \<le> avail (put bs s) \<Longrightarrow>
   fst (get n (put bs s)) = take n bs"
  by (simp add: get_q put_good put_q)

end

end
