(* ===== verification/FdTable.thy ===== *)
theory FdTable
  imports Llist
begin

text \<open>
  The descriptor pool and the device lists of the HAL: \<^verbatim>\<open>alt_dev.c\<close>, \<^verbatim>\<open>alt_get_fd.c\<close>,
  \<^verbatim>\<open>alt_release_fd.c\<close>, \<^verbatim>\<open>alt_fd_lock.c\<close>, \<^verbatim>\<open>alt_fd_unlock.c\<close>, \<^verbatim>\<open>alt_find_dev.c\<close>,
  \<^verbatim>\<open>alt_find_file.c\<close>, \<^verbatim>\<open>alt_dev_llist_insert.c\<close> and \<^verbatim>\<open>alt_fs_reg.c\<close> under
  \<^verbatim>\<open>HAL/src\<close>. Reads outside an array or through a null pointer are a \<open>fault\<close>.
\<close>

section \<open>Data\<close>

text \<open>
  Devices are objects at addresses; a null device pointer is \<open>None\<close>. A driver function gets
  the descriptor, its arguments and the state \<open>'s\<close> of all drivers, and returns the C result
  and the new state; \<open>dev_open\<close> also returns the descriptor's new private word. The bytes
  behind a buffer pointer are passed and returned as lists, the integer behind an \<open>ioctl\<close>
  argument and the mode field behind an \<open>fstat\<close> buffer as words.
\<close>

record alt_fd =
  fd_dev :: "nat option"
  fd_priv :: u32
  fd_flags :: u32

record 's alt_dev =
  dev_name :: "string option"
  dev_open :: "(alt_fd \<Rightarrow> string \<Rightarrow> u32 \<Rightarrow> u32 \<Rightarrow> 's \<Rightarrow> int \<times> u32 \<times> 's) option"
  dev_close :: "(alt_fd \<Rightarrow> 's \<Rightarrow> int \<times> 's) option"
  dev_read :: "(alt_fd \<Rightarrow> nat \<Rightarrow> 's \<Rightarrow> int \<times> u8 list \<times> 's) option"
  dev_write :: "(alt_fd \<Rightarrow> u8 list \<Rightarrow> 's \<Rightarrow> int \<times> 's) option"
  dev_lseek :: "(alt_fd \<Rightarrow> int \<Rightarrow> int \<Rightarrow> 's \<Rightarrow> int \<times> 's) option"
  dev_fstat :: "(alt_fd \<Rightarrow> u32 \<Rightarrow> 's \<Rightarrow> int \<times> u32 \<times> 's) option"
  dev_ioctl :: "(alt_fd \<Rightarrow> int \<Rightarrow> u32 \<Rightarrow> 's \<Rightarrow> int \<times> u32 \<times> 's) option"

record 's sys =
  devices :: "nat \<Rightarrow> 's alt_dev"
  alt_dev_list :: "nat list"
  alt_fs_list :: "nat list"
  alt_fd_list :: "alt_fd list"
  alt_max_fd :: int
  errno :: int
  drivers :: 's

abbreviation (input) ALT_MAX_FD :: nat where "ALT_MAX_FD \<equiv> 32"
abbreviation (input) ALT_FD_EXCL :: u32 where "ALT_FD_EXCL \<equiv> 0x80000000"
abbreviation (input) ALT_FD_DEV :: u32 where "ALT_FD_DEV \<equiv> 0x40000000"
abbreviation (input) ALT_FD_FLAGS_MASK :: u32 where "ALT_FD_FLAGS_MASK \<equiv> 0xC0000000"

text \<open>The device that is there before any other, and the pool at start-up.\<close>

abbreviation (input) alt_dev_null_addr :: nat where "alt_dev_null_addr \<equiv> 1"

definition alt_dev_null_write :: "alt_fd \<Rightarrow> u8 list \<Rightarrow> 's \<Rightarrow> int \<times> 's" where
  "alt_dev_null_write fd bytes s = (int (length bytes), s)"

definition alt_dev_null :: "'s alt_dev" where
  "alt_dev_null =
     \<lparr>dev_name = Some ''/dev/null'', dev_open = None, dev_close = None, dev_read = None,
      dev_write = Some alt_dev_null_write, dev_lseek = None, dev_fstat = None,
      dev_ioctl = None\<rparr>"

definition fd_pool :: "alt_fd list" where
  "fd_pool = replicate 3 \<lparr>fd_dev = Some alt_dev_null_addr, fd_priv = 0, fd_flags = 0\<rparr>
     @ replicate (ALT_MAX_FD - 3) \<lparr>fd_dev = None, fd_priv = 0, fd_flags = 0\<rparr>"

definition sys_start :: "'s sys \<Rightarrow> bool" where
  "sys_start y \<longleftrightarrow> devices y alt_dev_null_addr = alt_dev_null \<and> alt_dev_list y = [alt_dev_null_addr]
     \<and> alt_fs_list y = [] \<and> alt_fd_list y = fd_pool \<and> alt_max_fd y = - 1"

definition set_fd :: "nat \<Rightarrow> alt_fd \<Rightarrow> 's sys \<Rightarrow> 's sys" where
  "set_fd i x y = y\<lparr>alt_fd_list := (alt_fd_list y)[i := x]\<rparr>"

section \<open>Registration\<close>

text \<open>
  The two lists are the ones of theory \<open>Llist\<close>; a new entry goes in front.
\<close>

definition alt_dev_reg :: "nat option \<Rightarrow> 's sys \<Rightarrow> int \<times> 's sys" where
  "alt_dev_reg dev y =
     (case dev of
        None \<Rightarrow> (- EINVAL, y\<lparr>errno := EINVAL\<rparr>)
      | Some d \<Rightarrow>
          if dev_name (devices y d) = None then (- EINVAL, y\<lparr>errno := EINVAL\<rparr>)
          else (0, y\<lparr>alt_dev_list := d # alt_dev_list y\<rparr>))"

definition alt_fs_reg :: "nat \<Rightarrow> 's sys \<Rightarrow> int \<times> 's sys" where
  "alt_fs_reg d y =
     (if dev_name (devices y d) = None then (- ENODEV, y)
      else (0, y\<lparr>alt_fs_list := d # alt_fs_list y\<rparr>))"

section \<open>Look-up by name\<close>

abbreviation (input) NUL :: char where "NUL \<equiv> CHR 0x00"

text \<open>\<^verbatim>\<open>memcmp(a, b, n) == 0\<close> on two objects: reading behind the end of one is a fault.\<close>

fun memcmp_eq :: "nat \<Rightarrow> char list \<Rightarrow> char list \<Rightarrow> fault + bool" where
  "memcmp_eq 0 xs ys = Inr True"
| "memcmp_eq (Suc n) (x # xs) (y # ys) = (if x = y then memcmp_eq n xs ys else Inr False)"
| "memcmp_eq (Suc n) _ _ = Inl OutOfBounds"

fun alt_find_dev :: "'s sys \<Rightarrow> string \<Rightarrow> nat list \<Rightarrow> fault + nat option" where
  "alt_find_dev y name [] = Inr None"
| "alt_find_dev y name (d # ds) =
     (case dev_name (devices y d) of
        None \<Rightarrow> Inl NullDeref
      | Some nm \<Rightarrow>
          (case memcmp_eq (length name + 1) (nm @ [NUL]) (name @ [NUL]) of
             Inl f \<Rightarrow> Inl f
           | Inr True \<Rightarrow> Inr (Some d)
           | Inr False \<Rightarrow> alt_find_dev y name ds))"

text \<open>Is the file below the mount point \<open>nm\<close>? A read of \<^verbatim>\<open>name[len]\<close> comes before the comparison.\<close>

definition fs_match :: "string \<Rightarrow> string \<Rightarrow> fault + bool" where
  "fs_match nm name =
     (if nm = [] then Inl OutOfBounds
      else
        (let len = (if last nm = CHR ''/'' then length nm - 1 else length nm)
         in if length name < len then Inl OutOfBounds
            else if (name @ [NUL]) ! len = CHR ''/'' \<or> (name @ [NUL]) ! len = NUL
                 then memcmp_eq len (nm @ [NUL]) (name @ [NUL])
                 else Inr False))"

fun find_file :: "'s sys \<Rightarrow> string \<Rightarrow> nat list \<Rightarrow> fault + nat option" where
  "find_file y name [] = Inr None"
| "find_file y name (d # ds) =
     (case dev_name (devices y d) of
        None \<Rightarrow> Inl NullDeref
      | Some nm \<Rightarrow>
          (case fs_match nm name of
             Inl f \<Rightarrow> Inl f
           | Inr True \<Rightarrow> Inr (Some d)
           | Inr False \<Rightarrow> find_file y name ds))"

definition alt_find_file :: "'s sys \<Rightarrow> string \<Rightarrow> fault + nat option" where
  "alt_find_file y name = find_file y name (alt_fs_list y)"

section \<open>The descriptor pool\<close>

text \<open>The first descriptor from index \<open>i\<close> on without a device.\<close>

fun first_free :: "nat \<Rightarrow> alt_fd list \<Rightarrow> nat option" where
  "first_free i [] = None"
| "first_free i (x # xs) = (if fd_dev x = None then Some i else first_free (i + 1) xs)"

definition alt_get_fd :: "nat \<Rightarrow> 's sys \<Rightarrow> int \<times> 's sys" where
  "alt_get_fd d y =
     (case first_free 0 (alt_fd_list y) of
        None \<Rightarrow> (- EMFILE, y)
      | Some i \<Rightarrow>
          (int i, (set_fd i ((alt_fd_list y ! i)\<lparr>fd_dev := Some d\<rparr>) y)
             \<lparr>alt_max_fd := (if int i > alt_max_fd y then int i else alt_max_fd y)\<rparr>))"

definition alt_release_fd :: "int \<Rightarrow> 's sys \<Rightarrow> 's sys" where
  "alt_release_fd fd y =
     (if fd > 2 then
        set_fd (nat fd) ((alt_fd_list y ! nat fd)\<lparr>fd_flags := 0, fd_dev := None\<rparr>) y
      else y)"

text \<open>A loop over the pool from index \<open>i\<close> on, while \<open>go\<close> holds, that looks for a hit.\<close>

fun scan_fds :: "(nat \<Rightarrow> bool) \<Rightarrow> (nat \<Rightarrow> alt_fd \<Rightarrow> bool) \<Rightarrow> nat \<Rightarrow> alt_fd list \<Rightarrow> fault + bool" where
  "scan_fds go hit i [] = (if go i then Inl OutOfBounds else Inr False)"
| "scan_fds go hit i (x # xs) =
     (if go i then if hit i x then Inr True else scan_fds go hit (i + 1) xs else Inr False)"

definition alt_fd_lock :: "nat \<Rightarrow> 's sys \<Rightarrow> fault + (int \<times> 's sys)" where
  "alt_fd_lock fd y =
     (let self = alt_fd_list y ! fd
      in case scan_fds (\<lambda>i. int i < alt_max_fd y) (\<lambda>i x. i \<noteq> fd \<and> fd_dev x = fd_dev self) 0
                (alt_fd_list y) of
           Inl f \<Rightarrow> Inl f
         | Inr True \<Rightarrow> Inr (- EACCES, y)
         | Inr False \<Rightarrow> Inr (0, set_fd fd (self\<lparr>fd_flags := fd_flags self OR ALT_FD_EXCL\<rparr>) y))"

definition alt_fd_unlock :: "nat \<Rightarrow> 's sys \<Rightarrow> int \<times> 's sys" where
  "alt_fd_unlock fd y =
     (let self = alt_fd_list y ! fd
      in (0, set_fd fd (self\<lparr>fd_flags := fd_flags self AND NOT ALT_FD_EXCL\<rparr>) y))"

text \<open>\<^verbatim>\<open>alt_file_locked\<close> of \<^verbatim>\<open>alt_open.c\<close>; its loop compares an unsigned index with the mark.\<close>

definition alt_file_locked :: "nat \<Rightarrow> 's sys \<Rightarrow> fault + (int \<times> 's sys)" where
  "alt_file_locked fd y =
     (let y = set_fd fd ((alt_fd_list y ! fd)\<lparr>fd_flags := fd_flags (alt_fd_list y ! fd) OR ALT_FD_DEV\<rparr>) y;
          self = alt_fd_list y ! fd
      in case scan_fds (\<lambda>i. i \<le> unat (word_of_int (alt_max_fd y) :: u32))
                (\<lambda>i x. fd_dev x = fd_dev self \<and> fd_flags x AND ALT_FD_EXCL \<noteq> 0 \<and> i \<noteq> fd) 0
                (alt_fd_list y) of
           Inl f \<Rightarrow> Inl f
         | Inr True \<Rightarrow> Inr (- EACCES, y)
         | Inr False \<Rightarrow> Inr (0, y))"

end
