(* ===== verification/Uart.thy ===== *)
theory Uart
  imports Ring FdTable
begin

text \<open>
  The driver of the JTAG UART that carries the standard streams, in its interrupt-driven
  form: \<^verbatim>\<open>drivers/src/altera_avalon_jtag_uart_init.c\<close> (initialisation, interrupt routine,
  host timeout, close), \<^verbatim>\<open>_read.c\<close>, \<^verbatim>\<open>_write.c\<close>, \<^verbatim>\<open>_ioctl.c\<close> and \<^verbatim>\<open>_fd.c\<close>. The registers
  of the device are a parameter. Interrupts that arrive while a call waits are an explicit
  schedule: a call whose schedule runs out has not returned.
\<close>

section \<open>Registers and state\<close>

abbreviation (input) DATA_DATA :: u32 where "DATA_DATA \<equiv> 0xFF"
abbreviation (input) DATA_RVALID :: u32 where "DATA_RVALID \<equiv> 0x8000"
abbreviation (input) DATA_RAVAIL :: u32 where "DATA_RAVAIL \<equiv> 0xFFFF0000"
abbreviation (input) CONTROL_RE :: u32 where "CONTROL_RE \<equiv> 1"
abbreviation (input) CONTROL_WE :: u32 where "CONTROL_WE \<equiv> 2"
abbreviation (input) CONTROL_RI :: u32 where "CONTROL_RI \<equiv> 0x100"
abbreviation (input) CONTROL_WI :: u32 where "CONTROL_WI \<equiv> 0x200"
abbreviation (input) CONTROL_AC :: u32 where "CONTROL_AC \<equiv> 0x400"
abbreviation (input) BUF_LEN :: nat where "BUF_LEN \<equiv> 2048"
abbreviation (input) NONBLOCK :: u32 where "NONBLOCK \<equiv> 0x4000"

record 'h jtag =
  rd_control :: "'h \<Rightarrow> u32 \<times> 'h"
  rd_data :: "'h \<Rightarrow> u32 \<times> 'h"
  wr_control :: "u32 \<Rightarrow> 'h \<Rightarrow> 'h"
  wr_data :: "u32 \<Rightarrow> 'h \<Rightarrow> 'h"

text \<open>
  \<^verbatim>\<open>altera_avalon_jtag_uart_state\<close>, with the hardware, and with a record of the characters
  taken from and given to the hardware (\<open>got\<close>, \<open>sent\<close>) that only the statements use.
\<close>

record 'h uart =
  hw :: 'h
  timeout :: u32
  irq_enable :: u32
  host_inactive :: u32
  rx_in :: u32
  rx_out :: u32
  tx_in :: u32
  tx_out :: u32
  rx_buf :: "u8 list"
  tx_buf :: "u8 list"
  got :: "u8 list"
  sent :: "u8 list"

definition iord_control :: "'h jtag \<Rightarrow> 'h uart \<Rightarrow> u32 \<times> 'h uart" where
  "iord_control H s = (let (v, h) = rd_control H (hw s) in (v, s\<lparr>hw := h\<rparr>))"

definition iowr_control :: "'h jtag \<Rightarrow> u32 \<Rightarrow> 'h uart \<Rightarrow> 'h uart" where
  "iowr_control H v s = s\<lparr>hw := wr_control H v (hw s)\<rparr>"

definition iord_data :: "'h jtag \<Rightarrow> 'h uart \<Rightarrow> u32 \<times> 'h uart" where
  "iord_data H s =
     (let (v, h) = rd_data H (hw s)
      in (v, s\<lparr>hw := h, got := got s @ (if v AND DATA_RVALID = 0 then [] else [ucast v])\<rparr>))"

definition iowr_data :: "'h jtag \<Rightarrow> u8 \<Rightarrow> 'h uart \<Rightarrow> 'h uart" where
  "iowr_data H c s = s\<lparr>hw := wr_data H (ucast c) (hw s), sent := sent s @ [c]\<rparr>"

text \<open>\<^verbatim>\<open>(i + n) % ALTERA_AVALON_JTAG_UART_BUF_LEN\<close> on unsigned integers.\<close>

definition adv :: "u32 \<Rightarrow> nat \<Rightarrow> u32" where
  "adv i n = (i + of_nat n) mod 2048"

definition enable_irq :: "'h jtag \<Rightarrow> u32 \<Rightarrow> 'h uart \<Rightarrow> 'h uart" where
  "enable_irq H m s = (let s = s\<lparr>irq_enable := irq_enable s OR m\<rparr> in iowr_control H (irq_enable s) s)"

definition disable_irq :: "'h jtag \<Rightarrow> u32 \<Rightarrow> 'h uart \<Rightarrow> 'h uart" where
  "disable_irq H m s =
     (let s = s\<lparr>irq_enable := irq_enable s AND NOT m\<rparr>;
          s = iowr_control H (irq_enable s) s
      in snd (iord_control H s))"

section \<open>The interrupt routine\<close>

text \<open>Store one received character.\<close>

definition rx_put :: "u8 \<Rightarrow> 'h uart \<Rightarrow> 'h uart" where
  "rx_put c s = s\<lparr>rx_buf := (rx_buf s)[unat (rx_in s) := c], rx_in := adv (rx_in s) 1\<rparr>"

partial_function (option) rx_fill ::
  "'h jtag \<Rightarrow> u32 \<Rightarrow> 'h uart \<Rightarrow> (fault + (u32 \<times> 'h uart)) option" where
  "rx_fill H data s =
     (if adv (rx_in s) 1 = rx_out s then Some (Inr (data, s))
      else if fst (iord_data H s) AND DATA_RVALID = 0 then Some (Inr (iord_data H s))
      else if length (rx_buf s) \<le> unat (rx_in s) then Some (Inl OutOfBounds)
      else rx_fill H (fst (iord_data H s)) (rx_put (ucast (fst (iord_data H s))) (snd (iord_data H s))))"

definition rx_irq :: "'h jtag \<Rightarrow> 'h uart \<Rightarrow> (fault + 'h uart) option" where
  "rx_irq H s =
     map_option (map_sum id (\<lambda>(data, s).
       if data AND DATA_RAVAIL \<noteq> 0 then disable_irq H CONTROL_RE s else s))
       (rx_fill H 0x10000 s)"

fun tx_drain :: "'h jtag \<Rightarrow> nat \<Rightarrow> 'h uart \<Rightarrow> fault + (nat \<times> 'h uart)" where
  "tx_drain H 0 s = Inr (0, s)"
| "tx_drain H (Suc space) s =
     (if tx_out s = tx_in s then Inr (Suc space, s)
      else if length (tx_buf s) \<le> unat (tx_out s) then Inl OutOfBounds
      else
        (let s = iowr_data H (tx_buf s ! unat (tx_out s)) s
         in tx_drain H space (s\<lparr>tx_out := adv (tx_out s) 1\<rparr>)))"

definition tx_irq :: "'h jtag \<Rightarrow> u32 \<Rightarrow> 'h uart \<Rightarrow> fault + 'h uart" where
  "tx_irq H control s =
     map_sum id (\<lambda>(space, s). if space > 0 then disable_irq H CONTROL_WE s else s)
       (tx_drain H (unat (drop_bit 16 control)) s)"

definition irq_body :: "'h jtag \<Rightarrow> u32 \<Rightarrow> 'h uart \<Rightarrow> (fault + 'h uart) option" where
  "irq_body H control s =
     (case (if control AND CONTROL_RI \<noteq> 0 then rx_irq H s else Some (Inr s)) of
        None \<Rightarrow> None
      | Some (Inl f) \<Rightarrow> Some (Inl f)
      | Some (Inr s) \<Rightarrow>
          Some (if control AND CONTROL_WI \<noteq> 0 then tx_irq H control s else Inr s))"

partial_function (option) altera_avalon_jtag_uart_irq ::
  "'h jtag \<Rightarrow> 'h uart \<Rightarrow> (fault + 'h uart) option" where
  "altera_avalon_jtag_uart_irq H s =
     (case iord_control H s of (control, s) \<Rightarrow>
        if control AND (CONTROL_RI OR CONTROL_WI) = 0 then Some (Inr s)
        else
          (case irq_body H control s of
             None \<Rightarrow> None
           | Some r \<Rightarrow> (case r of
               Inl f \<Rightarrow> Some (Inl f) | Inr s \<Rightarrow> altera_avalon_jtag_uart_irq H s)))"

section \<open>Host timeout, initialisation, close\<close>

text \<open>The timer callback; it returns the ticks to the next call, \<open>tps\<close> ticks per second.\<close>

definition altera_avalon_jtag_uart_timeout :: "'h jtag \<Rightarrow> u32 \<Rightarrow> 'h uart \<Rightarrow> u32 \<times> 'h uart" where
  "altera_avalon_jtag_uart_timeout H tps s =
     (let (control, s) = iord_control H s
      in (tps,
          if control AND CONTROL_AC \<noteq> 0
          then (iowr_control H (irq_enable s OR CONTROL_AC) s)\<lparr>host_inactive := 0\<rparr>
          else if host_inactive s < INT_MAX - 2
          then s\<lparr>host_inactive := host_inactive s + 1\<rparr>
          else s))"

text \<open>
  The result of \<^verbatim>\<open>alt_alarm_start\<close> is a parameter; the interrupt handler is registered
  by the enhanced interrupt API, which is part of another component.
\<close>

definition altera_avalon_jtag_uart_init :: "'h jtag \<Rightarrow> int \<Rightarrow> 'h uart \<Rightarrow> 'h uart" where
  "altera_avalon_jtag_uart_init H alarm_result s =
     (let s = s\<lparr>irq_enable := CONTROL_RE\<rparr>;
          s = iowr_control H (irq_enable s) s;
          s = s\<lparr>host_inactive := 0\<rparr>
      in if alarm_result < 0 then s\<lparr>timeout := INT_MAX\<rparr> else s)"

text \<open>What can happen while a call waits.\<close>

datatype interrupt = Irq | Second

definition serve :: "'h jtag \<Rightarrow> interrupt \<Rightarrow> 'h uart \<Rightarrow> (fault + 'h uart) option" where
  "serve H i s =
     (case i of
        Irq \<Rightarrow> altera_avalon_jtag_uart_irq H s
      | Second \<Rightarrow> Some (Inr (snd (altera_avalon_jtag_uart_timeout H 0 s))))"

text \<open>Spin while \<open>busy\<close> holds and the host counts as present.\<close>

fun spin ::
  "'h jtag \<Rightarrow> ('h uart \<Rightarrow> bool) \<Rightarrow> interrupt list \<Rightarrow> 'h uart
     \<Rightarrow> (fault + (interrupt list \<times> 'h uart)) option" where
  "spin H busy is s =
     (if busy s \<and> host_inactive s < timeout s then
        (case is of
           [] \<Rightarrow> None
         | i # is \<Rightarrow>
             (case serve H i s of
                None \<Rightarrow> None
              | Some (Inl f) \<Rightarrow> Some (Inl f)
              | Some (Inr s) \<Rightarrow> spin H busy is s))
      else Some (Inr (is, s)))"

declare spin.simps [simp del]

definition altera_avalon_jtag_uart_close ::
  "'h jtag \<Rightarrow> u32 \<Rightarrow> interrupt list \<Rightarrow> 'h uart \<Rightarrow> (fault + (int \<times> interrupt list \<times> 'h uart)) option"
where
  "altera_avalon_jtag_uart_close H flags is s =
     (if tx_out s \<noteq> tx_in s \<and> host_inactive s < timeout s \<and> flags AND NONBLOCK \<noteq> 0
      then Some (Inr (- EWOULDBLOCK, is, s))
      else map_option (map_sum id (\<lambda>(is, s). (0, is, s)))
             (spin H (\<lambda>s. tx_out s \<noteq> tx_in s) is s))"

section \<open>read\<close>

text \<open>Take \<open>n\<close> bytes that lie in one piece; the \<^verbatim>\<open>do ... while\<close> loop that does so.\<close>

definition rx_get :: "nat \<Rightarrow> 'h uart \<Rightarrow> u8 list \<times> 'h uart" where
  "rx_get n s = (take n (drop (unat (rx_out s)) (rx_buf s)), s\<lparr>rx_out := adv (rx_out s) n\<rparr>)"

definition rx_avail :: "'h uart \<Rightarrow> nat" where
  "rx_avail s =
     unat (if rx_in s \<ge> rx_out s then rx_in s - rx_out s else of_nat BUF_LEN - rx_out s)"

function read_copy :: "nat \<Rightarrow> 'h uart \<Rightarrow> fault + (u8 list \<times> nat \<times> 'h uart)" where
  "read_copy space s =
     (let n = min (rx_avail s) space
      in if rx_avail s = 0 then Inr ([], space, s)
         else if length (rx_buf s) < unat (rx_out s) + n then Inl OutOfBounds
         else
           (let (bs, s) = rx_get n s
            in if space - n > 0
               then map_sum id (\<lambda>(cs, r). (bs @ cs, r)) (read_copy (space - n) s)
               else Inr (bs, space - n, s)))"
  by pat_completeness auto
termination
  by (relation "measure fst") auto

declare read_copy.simps [simp del]

text \<open>The outer loop, entered with space left and nothing read yet.\<close>

partial_function (option) read_loop ::
  "'h jtag \<Rightarrow> nat \<Rightarrow> u32 \<Rightarrow> interrupt list \<Rightarrow> 'h uart
     \<Rightarrow> (fault + (u8 list \<times> interrupt list \<times> 'h uart)) option" where
  "read_loop H space flags is s =
     (case read_copy space s of
        Inl f \<Rightarrow> Some (Inl f)
      | Inr (bs, space', s) \<Rightarrow>
          if bs \<noteq> [] \<or> flags AND NONBLOCK \<noteq> 0 then Some (Inr (bs, is, s))
          else
            (case spin H (\<lambda>s'. rx_in s' = rx_in s) is s of
               None \<Rightarrow> None
             | Some r \<Rightarrow> (case r of
                 Inl f \<Rightarrow> Some (Inl f)
               | Inr (is, s') \<Rightarrow>
                   if rx_in s' = rx_in s then Some (Inr ([], is, s'))
                   else read_loop H space' flags is s')))"

text \<open>\<open>space\<close> is a C \<^verbatim>\<open>int\<close>; the result is the return value and the bytes put into the buffer.\<close>

definition altera_avalon_jtag_uart_read ::
  "'h jtag \<Rightarrow> int \<Rightarrow> u32 \<Rightarrow> interrupt list \<Rightarrow> 'h uart
     \<Rightarrow> (fault + (int \<times> u8 list \<times> interrupt list \<times> 'h uart)) option" where
  "altera_avalon_jtag_uart_read H space flags is s =
     map_option (map_sum id (\<lambda>(bs, is, s).
         if bs \<noteq> [] then (int (length bs), bs, is, enable_irq H CONTROL_RE s)
         else (if flags AND NONBLOCK \<noteq> 0 then - EWOULDBLOCK else - EIO, [], is, s)))
       (if space > 0 then read_loop H (nat space) flags is s else Some (Inr ([], is, s)))"

section \<open>write\<close>

definition tx_room :: "'h uart \<Rightarrow> nat" where
  "tx_room s =
     unat (if tx_in s < tx_out s then tx_out s - 1 - tx_in s
           else if tx_out s > 0 then of_nat BUF_LEN - tx_in s
           else of_nat BUF_LEN - 1 - tx_in s)"

definition tx_put :: "u8 list \<Rightarrow> 'h uart \<Rightarrow> 'h uart" where
  "tx_put bs s =
     s\<lparr>tx_buf := write_at (unat (tx_in s)) bs (tx_buf s), tx_in := adv (tx_in s) (length bs)\<rparr>"

text \<open>Copy as much as fits; the bytes that are left.\<close>

function write_copy :: "u8 list \<Rightarrow> 'h uart \<Rightarrow> fault + (u8 list \<times> 'h uart)" where
  "write_copy bs s =
     (let n = min (tx_room s) (length bs)
      in if bs = [] \<or> tx_room s = 0 then Inr (bs, s)
         else if length (tx_buf s) < unat (tx_in s) + n then Inl OutOfBounds
         else write_copy (drop n bs) (tx_put (take n bs) s))"
  by pat_completeness auto
termination
  by (relation "measure (\<lambda>(bs, s). length bs)") auto

declare write_copy.simps [simp del]

partial_function (option) write_loop ::
  "'h jtag \<Rightarrow> u8 list \<Rightarrow> u32 \<Rightarrow> interrupt list \<Rightarrow> 'h uart
     \<Rightarrow> (fault + (u8 list \<times> interrupt list \<times> 'h uart)) option" where
  "write_loop H bs flags is s =
     (case write_copy bs s of
        Inl f \<Rightarrow> Some (Inl f)
      | Inr (rest, s) \<Rightarrow>
          (let s = enable_irq H CONTROL_WE s
           in if rest = [] \<or> flags AND NONBLOCK \<noteq> 0 then Some (Inr (rest, is, s))
              else
                (case spin H (\<lambda>s'. tx_out s' = tx_out s) is s of
                   None \<Rightarrow> None
                 | Some r \<Rightarrow> (case r of
                     Inl f \<Rightarrow> Some (Inl f)
                   | Inr (is, s') \<Rightarrow>
                       if host_inactive s' \<noteq> 0 then Some (Inr (rest, is, s'))
                       else write_loop H rest flags is s'))))"

definition altera_avalon_jtag_uart_write ::
  "'h jtag \<Rightarrow> u8 list \<Rightarrow> u32 \<Rightarrow> interrupt list \<Rightarrow> 'h uart
     \<Rightarrow> (fault + (int \<times> interrupt list \<times> 'h uart)) option" where
  "altera_avalon_jtag_uart_write H bs flags is s =
     map_option (map_sum id (\<lambda>(rest, is, s).
         (if length rest < length bs then int (length bs - length rest)
          else if flags AND NONBLOCK \<noteq> 0 then - EWOULDBLOCK else - EIO, is, s)))
       (write_loop H bs flags is s)"

section \<open>ioctl\<close>

text \<open>The word behind the argument pointer is passed in and returned.\<close>

definition altera_avalon_jtag_uart_ioctl :: "int \<Rightarrow> u32 \<Rightarrow> 'h uart \<Rightarrow> int \<times> u32 \<times> 'h uart" where
  "altera_avalon_jtag_uart_ioctl req arg s =
     (if req = 0x6A01 then
        if timeout s \<noteq> INT_MAX
        then (0, arg, s\<lparr>timeout := if 2 \<le> sint arg \<and> sint arg < sint INT_MAX then arg else INT_MAX - 1\<rparr>)
        else (- ENOTTY, arg, s)
      else if req = 0x6A02 then
        if timeout s \<noteq> INT_MAX
        then (0, if host_inactive s < timeout s then 1 else 0, s)
        else (- ENOTTY, arg, s)
      else (- ENOTTY, arg, s))"

section \<open>The functions in the device table\<close>

definition altera_avalon_jtag_uart_read_fd ::
  "'h jtag \<Rightarrow> alt_fd \<Rightarrow> int \<Rightarrow> interrupt list \<Rightarrow> 'h uart
     \<Rightarrow> (fault + (int \<times> u8 list \<times> interrupt list \<times> 'h uart)) option" where
  "altera_avalon_jtag_uart_read_fd H fd space is dev =
     altera_avalon_jtag_uart_read H space (fd_flags fd) is dev"

definition altera_avalon_jtag_uart_write_fd ::
  "'h jtag \<Rightarrow> alt_fd \<Rightarrow> u8 list \<Rightarrow> interrupt list \<Rightarrow> 'h uart
     \<Rightarrow> (fault + (int \<times> interrupt list \<times> 'h uart)) option" where
  "altera_avalon_jtag_uart_write_fd H fd buffer is dev =
     altera_avalon_jtag_uart_write H buffer (fd_flags fd) is dev"

definition altera_avalon_jtag_uart_close_fd ::
  "'h jtag \<Rightarrow> alt_fd \<Rightarrow> interrupt list \<Rightarrow> 'h uart \<Rightarrow> (fault + (int \<times> interrupt list \<times> 'h uart)) option"
where
  "altera_avalon_jtag_uart_close_fd H fd is dev =
     altera_avalon_jtag_uart_close H (fd_flags fd) is dev"

definition altera_avalon_jtag_uart_ioctl_fd ::
  "alt_fd \<Rightarrow> int \<Rightarrow> u32 \<Rightarrow> 'h uart \<Rightarrow> int \<times> u32 \<times> 'h uart" where
  "altera_avalon_jtag_uart_ioctl_fd fd req arg dev = altera_avalon_jtag_uart_ioctl req arg dev"

end
