(* ===== verification/LogPrintf.thy ===== *)
theory LogPrintf
  imports Printf Uart Alarm
begin

text \<open>
  \<^verbatim>\<open>HAL/src/alt_log_printf.c\<close>: the boot and driver log. Its \<^verbatim>\<open>printf\<close> is a state machine over the
  format string, with widths, leading zeros, signs and three number bases; the characters handed to
  \<^verbatim>\<open>alt_log_txchar\<close> are the result. The configuration of the board compiles the log out; the model is
  of the code as it is when \<^verbatim>\<open>ALT_LOG_ENABLE\<close> is defined.
\<close>

section \<open>Characters\<close>

definition alt_log_repchar :: "char \<Rightarrow> int \<Rightarrow> string" where
  "alt_log_repchar c r = replicate (nat r) c"

text \<open>
  \<^verbatim>\<open>alt_log_txchar\<close>: wait until the device has room, then write the register. The device may never
  have room.
\<close>

partial_function (option) alt_log_txchar :: "'h jtag \<Rightarrow> u32 \<Rightarrow> 'h \<Rightarrow> 'h option" where
  "alt_log_txchar H c h =
     (let (control, h) = rd_control H h
      in if control AND 0xFFFF0000 = 0 then alt_log_txchar H c h else Some (wr_data H c h))"

section \<open>Numbers\<close>

text \<open>The values that \<^verbatim>\<open>fmtBase\<close> takes.\<close>

datatype radix = Octal | Decimal | Hexadecimal

fun base_of :: "radix \<Rightarrow> u32" where
  "base_of Octal = 8"
| "base_of Decimal = 10"
| "base_of Hexadecimal = 16"

record fmt =
  fmtLeadingZero :: bool
  fmtLong :: bool
  fmtBeforeDecimal :: int
  fmtAfterDecimal :: int
  fmtBase :: radix
  fmtSigned :: bool
  fmtCase :: bool

lemma unat_base: "unat (base_of b) \<in> {8, 10, 16}"
  by (cases b) simp_all

lemma div_base_less: "x \<noteq> 0 \<Longrightarrow> unat (x div base_of b) < unat x"
  using unat_base [of b] by (auto simp: unat_div_distrib unat_gt_0)

text \<open>Count the digits and find the largest place value.\<close>

function place_value :: "radix \<Rightarrow> u32 \<Rightarrow> u32 \<Rightarrow> int \<Rightarrow> u32 \<times> int" where
  "place_value b vShrink p digitCount =
     (let vShrink = vShrink div base_of b
      in if vShrink > 0 then place_value b vShrink (p * base_of b) (digitCount + 1) else (p, digitCount))"
  by auto
termination
proof (relation "measure (\<lambda>(b, v, p, n). unat v)")
  fix b vShrink p digitCount and x :: u32
  assume "x = vShrink div base_of b" "0 < x"
  then show "((b, x, p * base_of b, digitCount + 1), (b, vShrink, p, digitCount)) \<in> measure (\<lambda>(b, v, p, n). unat v)"
    using div_base_less [of vShrink b] by (cases "vShrink = 0") auto
qed simp

definition log_digit :: "bool \<Rightarrow> u32 \<Rightarrow> char" where
  "log_digit upper x =
     (let d = (ucast x :: u8) + 48;
          d = (if d > 57 then d + ((if upper then 65 else 97) - 48 - 10) else d)
      in char_of (unat d))"

function put_number :: "radix \<Rightarrow> bool \<Rightarrow> u32 \<Rightarrow> u32 \<Rightarrow> string" where
  "put_number b upper v p =
     (if p \<noteq> 0 then log_digit upper (v div p) # put_number b upper (v mod p) (p div base_of b) else [])"
  by auto
termination
  by (relation "measure (\<lambda>(b, u, v, p). unat p)") (auto intro: div_base_less)

declare place_value.simps [simp del] put_number.simps [simp del]

text \<open>\<^verbatim>\<open>doIntegerPrint\<close>; \<^verbatim>\<open>long\<close> and \<^verbatim>\<open>int\<close> have the same 32 bits.\<close>

definition print_integer :: "fmt \<Rightarrow> u32 \<Rightarrow> string" where
  "print_integer F v =
     (let (v, sign) = (if fmtSigned F \<and> v AND 0x80000000 \<noteq> 0 then (NOT v + 1, True) else (v, False));
          (p, digitCount) = place_value (fmtBase F) v 1 1;
          before = fmtBeforeDecimal F - digitCount
      in (if fmtLeadingZero F
          then (if sign then ''-'' @ alt_log_repchar CHR ''0'' (before - 1) else alt_log_repchar CHR ''0'' before)
          else (if sign then alt_log_repchar CHR '' '' (before - 1) @ ''-'' else alt_log_repchar CHR '' '' before))
         @ put_number (fmtBase F) (fmtCase F) v p)"

section \<open>The state machine\<close>

datatype pf_state = Chars | FirstFmtChar | OtherFmtChar

definition fmt_start :: fmt where
  "fmt_start =
     \<lparr>fmtLeadingZero = False, fmtLong = False, fmtBeforeDecimal = - 1, fmtAfterDecimal = - 1,
      fmtBase = Decimal, fmtSigned = True, fmtCase = False\<rparr>"

definition integer_conversion :: "fmt \<Rightarrow> char \<Rightarrow> fmt option" where
  "integer_conversion F c =
     (if c = CHR ''d'' \<or> c = CHR ''i'' then Some F
      else if c = CHR ''u'' then Some (F\<lparr>fmtSigned := False\<rparr>)
      else if c = CHR ''o'' then Some (F\<lparr>fmtSigned := False, fmtBase := Octal\<rparr>)
      else if c = CHR ''x'' then Some (F\<lparr>fmtSigned := False, fmtBase := Hexadecimal\<rparr>)
      else if c = CHR ''X'' then Some (F\<lparr>fmtSigned := False, fmtBase := Hexadecimal, fmtCase := True\<rparr>)
      else None)"

definition is_digit :: "char \<Rightarrow> bool" where
  "is_digit c \<longleftrightarrow> CHR ''0'' \<le> c \<and> c \<le> CHR ''9''"

definition fmt_digit :: "char \<Rightarrow> fmt \<Rightarrow> fmt" where
  "fmt_digit c F =
     (let d = of_char c - 48
      in if fmtAfterDecimal F < 0
         then F\<lparr>fmtBeforeDecimal := (if fmtBeforeDecimal F < 0 then 0 else fmtBeforeDecimal F * 10) + d\<rparr>
         else F\<lparr>fmtAfterDecimal := fmtAfterDecimal F * 10 + d\<rparr>)"

text \<open>The padding of a string: a signed number less an unsigned one, as a signed argument.\<close>

definition string_pad :: "fmt \<Rightarrow> string \<Rightarrow> int" where
  "string_pad F s = sint (word_of_int (fmtBeforeDecimal F) - of_nat (length s) :: u32)"

fun alt_log_private_printf :: "pf_state \<Rightarrow> fmt \<Rightarrow> string \<Rightarrow> va list \<Rightarrow> va_fault + string" where
  "alt_log_private_printf state F [] args = Inr []"
| "alt_log_private_printf state F (c # w) args =
     (if state = Chars then
        if c = CHR ''%'' then alt_log_private_printf FirstFmtChar fmt_start w args
        else emit [c] (alt_log_private_printf Chars F w args)
      else if state = FirstFmtChar \<and> c = CHR ''0'' then
        alt_log_private_printf OtherFmtChar (F\<lparr>fmtLeadingZero := True\<rparr>) w args
      else if state = FirstFmtChar \<and> c = CHR ''%'' then
        emit [c] (alt_log_private_printf Chars F w args)
      else if c = CHR ''.'' then alt_log_private_printf OtherFmtChar (F\<lparr>fmtAfterDecimal := 0\<rparr>) w args
      else if is_digit c then alt_log_private_printf OtherFmtChar (fmt_digit c F) w args
      else if c = CHR ''l'' then alt_log_private_printf OtherFmtChar (F\<lparr>fmtLong := True\<rparr>) w args
      else
        (case integer_conversion F c of
           Some F \<Rightarrow>
             (case args of
                Word v # as \<Rightarrow> emit (print_integer F v) (alt_log_private_printf Chars F w as)
              | _ \<Rightarrow> Inl VaArg)
         | None \<Rightarrow>
             if c = CHR ''c'' then
               (case args of
                  Word v # as \<Rightarrow>
                    emit (alt_log_repchar CHR '' '' (fmtBeforeDecimal F - 1) @ [char_of (unat v)])
                      (alt_log_private_printf Chars F w as)
                | _ \<Rightarrow> Inl VaArg)
             else if c = CHR ''s'' then
               (case args of
                  Str s # as \<Rightarrow>
                    emit (alt_log_repchar CHR '' '' (string_pad F s) @ s) (alt_log_private_printf Chars F w as)
                | _ \<Rightarrow> Inl VaArg)
             else alt_log_private_printf Chars F w args))"

definition alt_log_printf_proc :: "string \<Rightarrow> va list \<Rightarrow> va_fault + string" where
  "alt_log_printf_proc fmt args = alt_log_private_printf Chars fmt_start fmt args"

section \<open>What the log prints\<close>

text \<open>\<^verbatim>\<open>alt_log_jtag_uart_print_control_reg\<close> and its callers.\<close>

definition alt_log_jtag_uart_print_control_reg ::
  "'h jtag \<Rightarrow> string \<Rightarrow> 'h uart \<Rightarrow> (va_fault + string) \<times> 'h uart" where
  "alt_log_jtag_uart_print_control_reg H header dev =
     (let (control, dev) = iord_control H dev;
          space = drop_bit 16 (control AND 0xFFFF0000);
          we = drop_bit 1 (control AND CONTROL_WE);
          re = drop_bit 0 (control AND CONTROL_RE);
          ri = drop_bit 8 (control AND CONTROL_RI);
          wi = drop_bit 9 (control AND CONTROL_WI);
          ac = drop_bit 10 (control AND CONTROL_AC)
      in (alt_log_printf_proc
            (''%s SW CirBuf = %d, HW FIFO wspace=%d AC=%d WI=%d RI=%d WE=%d RE=%d'' @ [CHR 0x0D, CHR 0x0A])
            [Str header, Word (tx_out dev - tx_in dev), Word space, Word ac, Word wi, Word ri, Word we, Word re],
          dev))"

definition altera_avalon_jtag_uart_report_log ::
  "'h jtag \<Rightarrow> bool \<Rightarrow> u32 \<Rightarrow> 'h uart \<Rightarrow> u32 \<times> (va_fault + string) \<times> 'h uart" where
  "altera_avalon_jtag_uart_report_log H alarm_on_flag tps dev =
     (if alarm_on_flag then
        (let (out, dev) = alt_log_jtag_uart_print_control_reg H ''JTAG Alarm:'' dev in (tps div 10, out, dev))
      else (0, Inr [], dev))"

definition alt_log_jtag_uart_startup_info :: "'h jtag \<Rightarrow> 'h uart \<Rightarrow> (va_fault + string) \<times> 'h uart" where
  "alt_log_jtag_uart_startup_info H dev = alt_log_jtag_uart_print_control_reg H ''JTAG Startup Info:'' dev"

definition alt_log_jtag_uart_isr_proc :: "'h jtag \<Rightarrow> bool \<Rightarrow> 'h uart \<Rightarrow> (va_fault + string) \<times> 'h uart" where
  "alt_log_jtag_uart_isr_proc H isr_on_flag dev =
     (if isr_on_flag then alt_log_jtag_uart_print_control_reg H ''JTAG IRQ:'' dev else (Inr [], dev))"

text \<open>
  \<^verbatim>\<open>alt_log_write\<close>: the buffer has \<open>ALT_LOG_WRITE_ECHO_LEN + 2\<close> characters; a store behind its end
  would be a fault.
\<close>

abbreviation (input) ALT_LOG_WRITE_ECHO_LEN :: nat where "ALT_LOG_WRITE_ECHO_LEN \<equiv> 15"

definition poke :: "nat \<Rightarrow> char \<Rightarrow> fault + string \<Rightarrow> fault + string" where
  "poke i c r =
     (case r of Inl f \<Rightarrow> Inl f | Inr buf \<Rightarrow> if i < length buf then Inr (buf[i := c]) else Inl OutOfBounds)"

text \<open>\<^verbatim>\<open>strncpy\<close>: copy up to the end of the string, then fill with zeros.\<close>

definition strncpy :: "string \<Rightarrow> string \<Rightarrow> nat \<Rightarrow> string" where
  "strncpy buf src n =
     (let s = takeWhile (\<lambda>c. c \<noteq> NUL) (take n src) in s @ replicate (n - length s) NUL @ drop n buf)"

definition alt_log_write :: "bool \<Rightarrow> string \<Rightarrow> string \<Rightarrow> (fault + (va_fault + string)) \<times> string" where
  "alt_log_write write_on_flag ptr buf =
     (if \<not> write_on_flag then (Inr (Inr []), buf)
      else
        (let len = length ptr;
             n = (if ALT_LOG_WRITE_ECHO_LEN > len then len else ALT_LOG_WRITE_ECHO_LEN)
         in if n < 2 then (Inr (Inr []), buf)
            else
              (case poke (n + 1) NUL (poke n (CHR 0x0D) (poke (n - 1) (CHR 0x0A) (Inr (strncpy buf ptr n)))) of
                 Inl f \<Rightarrow> (Inl f, buf)
               | Inr buf \<Rightarrow>
                   (let buf = map (\<lambda>(i, c). if i < n \<and> c = CHR 0x04 then CHR ''D'' else c) (enumerate 0 buf)
                    in (Inr (alt_log_printf_proc ''Write Echo: %s'' [Str (takeWhile (\<lambda>c. c \<noteq> NUL) buf)]), buf)))))"

text \<open>\<^verbatim>\<open>alt_log_system_clock\<close>, with its two counters.\<close>

definition alt_log_system_clock :: "bool \<Rightarrow> u32 \<Rightarrow> int \<times> u32 \<Rightarrow> (va_fault + string) \<times> (int \<times> u32)" where
  "alt_log_system_clock sys_clk_on_flag interval s =
     (let (sys_clk_count, clock_in_sec) = s
      in if \<not> sys_clk_on_flag then (Inr [], s)
         else
           (let sys_clk_count = sys_clk_count + 1
            in if word_of_int sys_clk_count > interval
               then (alt_log_printf_proc (''System Clock On %u'' @ [CHR 0x0D, CHR 0x0A]) [Word clock_in_sec],
                     (0, clock_in_sec + 1))
               else (Inr [], (sys_clk_count, clock_in_sec))))"

section \<open>Numerals\<close>

text \<open>The digits of a number in a base, the most significant first, without leading zeros.\<close>

fun numeral_of :: "nat \<Rightarrow> nat \<Rightarrow> nat list" where
  "numeral_of b n = (if b < 2 \<or> n < b then [n] else numeral_of b (n div b) @ [n mod b])"

declare numeral_of.simps [simp del]

abbreviation base_nat :: "radix \<Rightarrow> nat" where
  "base_nat b \<equiv> unat (base_of b)"

lemma base_nat: "2 \<le> base_nat b" "base_nat b \<le> 16" "0 < base_nat b"
  using unat_base [of b] by auto

lemma numeral_of_small: "n < base_nat b \<Longrightarrow> numeral_of (base_nat b) n = [n]"
  by (subst numeral_of.simps) simp

lemma numeral_of_step:
  "\<not> n < base_nat b \<Longrightarrow> numeral_of (base_nat b) n = numeral_of (base_nat b) (n div base_nat b) @ [n mod base_nat b]"
  using base_nat(1) [of b] by (subst numeral_of.simps) simp

text \<open>The digits at the places from \<open>k\<close> down to 0.\<close>

fun digits_from :: "nat \<Rightarrow> nat \<Rightarrow> nat \<Rightarrow> nat list" where
  "digits_from b 0 n = [n]"
| "digits_from b (Suc k) n = n div b ^ Suc k # digits_from b k (n mod b ^ Suc k)"

lemma digits_from_snoc:
  "0 < b \<Longrightarrow> digits_from b (Suc k) n = digits_from b k (n div b) @ [n mod b]"
proof (induction k arbitrary: n)
  case (Suc k)
  have d: "n div b ^ Suc (Suc k) = n div b div b ^ Suc k"
    by (simp add: div_mult2_eq mult.commute)
  have m: "n mod b ^ Suc (Suc k) div b = n div b mod b ^ Suc k" "n mod b ^ Suc (Suc k) mod b = n mod b"
    using mod_mult2_eq [of n b "b ^ Suc k"] Suc.prems by (simp_all add: mult.commute)
  show ?case
    using Suc.IH [OF Suc.prems, of "n mod b ^ Suc (Suc k)"] d m by simp
qed simp

lemma digits_from_numeral:
  "n < base_nat b ^ Suc k \<Longrightarrow> k = 0 \<or> base_nat b ^ k \<le> n \<Longrightarrow>
   digits_from (base_nat b) k n = numeral_of (base_nat b) n"
proof (induction k arbitrary: n)
  case 0
  then show ?case by (simp add: numeral_of_small)
next
  case (Suc k)
  note B = base_nat [of b]
  have lo: "base_nat b ^ Suc k \<le> n" using Suc.prems(2) by simp
  have "base_nat b \<le> base_nat b ^ Suc k" using B by simp
  then have big: "\<not> n < base_nat b" using lo by linarith
  have "base_nat b ^ k \<le> n div base_nat b"
    using lo B(3) by (simp add: less_eq_div_iff_mult_less_eq mult.commute)
  moreover have "n div base_nat b < base_nat b ^ Suc k"
    using Suc.prems(1) B(3) by (simp add: less_mult_imp_div_less mult.commute)
  ultimately have "digits_from (base_nat b) k (n div base_nat b) = numeral_of (base_nat b) (n div base_nat b)"
    by (intro Suc.IH) simp_all
  then show ?case by (simp only: digits_from_snoc [OF B(3)] numeral_of_step [OF big])
qed

lemma place_value_steps:
  "unat v < base_nat b ^ Suc k \<Longrightarrow> k = 0 \<or> base_nat b ^ k \<le> unat v \<Longrightarrow>
   place_value b v p n = (p * base_of b ^ k, n + int k)"
proof (induction k arbitrary: v p n)
  case 0
  then have "unat (v div base_of b) = 0" by (simp add: unat_div_distrib)
  then have "v div base_of b = 0" by (simp only: unsigned_eq_0_iff)
  then show ?case by (subst place_value.simps) simp
next
  case (Suc k)
  note B = base_nat [of b]
  have d: "unat (v div base_of b) = unat v div base_nat b" by (simp add: unat_div_distrib)
  have lo: "base_nat b ^ Suc k \<le> unat v" using Suc.prems(2) by simp
  have l: "base_nat b ^ k \<le> unat (v div base_of b)"
    unfolding d using lo B(3) by (simp add: less_eq_div_iff_mult_less_eq mult.commute)
  have h: "unat (v div base_of b) < base_nat b ^ Suc k"
    unfolding d using Suc.prems(1) B(3) by (simp add: less_mult_imp_div_less mult.commute)
  have "0 < base_nat b ^ k" using B(3) by simp
  then have "v div base_of b \<noteq> 0" using l by auto
  then have "0 < v div base_of b" by (simp add: word_gt_0)
  moreover have "place_value b (v div base_of b) (p * base_of b) (n + 1) =
      (p * base_of b * base_of b ^ k, n + 1 + int k)"
    using l h by (intro Suc.IH) simp_all
  ultimately show ?case by (subst place_value.simps) (simp add: algebra_simps)
qed

lemma put_number_digits:
  "unat v < base_nat b ^ Suc k \<Longrightarrow> base_nat b ^ k < 2 ^ 32 \<Longrightarrow>
   put_number b upper v (base_of b ^ k) = map (\<lambda>d. log_digit upper (of_nat d)) (digits_from (base_nat b) k (unat v))"
proof (induction k arbitrary: v)
  case 0
  have "base_of b div base_of b = 1 \<and> 1 div base_of b = 0" by (cases b) simp_all
  then show ?case by (subst put_number.simps) (simp add: put_number.simps [of _ _ _ 0])
next
  case (Suc k)
  note B = base_nat [of b]
  have pw: "unat (base_of b ^ j) = base_nat b ^ j" if "j \<le> Suc k" for j
  proof -
    have "base_nat b ^ j \<le> base_nat b ^ Suc k" using that B by (intro power_increasing) simp_all
    then have "base_nat b ^ j < 2 ^ 32" using Suc.prems(2) by linarith
    moreover have e: "base_of b ^ j = of_nat (base_nat b ^ j)" by simp
    ultimately show ?thesis unfolding e unsigned_of_nat by (simp add: take_bit_nat_eq_self)
  qed
  have nz: "base_of b ^ Suc k \<noteq> 0" using pw [of "Suc k"] B(3) by fastforce
  have "unat (base_of b ^ Suc k div base_of b) = base_nat b ^ k"
    using pw [of "Suc k"] B(3) by (simp add: unat_div_distrib del: power_Suc) simp
  then have dv: "base_of b ^ Suc k div base_of b = base_of b ^ k"
    using pw [of k] by (simp add: word_unat_eq_iff del: power_Suc)
  have um: "unat (v mod base_of b ^ Suc k) = unat v mod base_nat b ^ Suc k"
    using pw [of "Suc k"] by (simp add: unat_mod_distrib del: power_Suc)
  have ud: "v div base_of b ^ Suc k = of_nat (unat v div base_nat b ^ Suc k)"
  proof -
    have "unat v div base_nat b ^ Suc k < 2 ^ 32"
      using unat_u32 [of v] div_le_dividend [of "unat v" "base_nat b ^ Suc k"] by linarith
    then have "unat (of_nat (unat v div base_nat b ^ Suc k) :: u32) = unat v div base_nat b ^ Suc k"
      unfolding unsigned_of_nat by (simp add: take_bit_nat_eq_self del: power_Suc)
    moreover have "unat (v div base_of b ^ Suc k) = unat v div base_nat b ^ Suc k"
      using pw [of "Suc k"] by (simp add: unat_div_distrib del: power_Suc)
    ultimately show ?thesis by (simp only: word_unat_eq_iff)
  qed
  have "put_number b upper (v mod base_of b ^ Suc k) (base_of b ^ k) =
      map (\<lambda>d. log_digit upper (of_nat d)) (digits_from (base_nat b) k (unat v mod base_nat b ^ Suc k))"
    unfolding um [symmetric]
  proof (rule Suc.IH)
    show "unat (v mod base_of b ^ Suc k) < base_nat b ^ Suc k" unfolding um using B(3) by simp
    have "base_nat b ^ k \<le> base_nat b ^ Suc k" using B(3) by simp
    then show "base_nat b ^ k < 2 ^ 32" using Suc.prems(2) by linarith
  qed
  then show ?case using nz dv ud by (subst put_number.simps) (simp del: power_Suc)
qed

lemma numeral_of_digits: "d \<in> set (numeral_of (base_nat b) n) \<Longrightarrow> d < base_nat b"
proof (induction "base_nat b" n rule: numeral_of.induct)
  case (1 n)
  show ?case
  proof (cases "n < base_nat b")
    case False
    then show ?thesis using 1 base_nat [of b] by (auto simp: numeral_of_step)
  qed (use 1 in \<open>simp add: numeral_of_small\<close>)
qed

lemma length_digits_from: "length (digits_from b k n) = Suc k"
  by (induction k arbitrary: n) auto

definition digit_char :: "bool \<Rightarrow> nat \<Rightarrow> char" where
  "digit_char upper d = char_of (if d < 10 then 48 + d else (if upper then 65 else 97) + d - 10)"

lemma log_digit_char: "d < 16 \<Longrightarrow> log_digit upper (of_nat d) = digit_char upper d"
proof -
  assume d: "d < 16"
  have l: "[0..<16] = [0, 1, 2, 3, 4, 5, 6, 7, 8, 9, 10, 11, 12, 13, 14, 15]" by code_simp
  have "list_all (\<lambda>d. log_digit upper (of_nat d) = digit_char upper d) [0..<16]"
    unfolding l by (cases upper) (simp_all add: log_digit_def digit_char_def)
  with d show ?thesis by (simp add: list_all_iff)
qed

definition numeral_text :: "radix \<Rightarrow> bool \<Rightarrow> nat \<Rightarrow> string" where
  "numeral_text b upper n = map (digit_char upper) (numeral_of (base_nat b) n)"

lemma digit_count: "\<exists>k. n < base_nat b ^ Suc k \<and> (k = 0 \<or> base_nat b ^ k \<le> n)"
proof (induction "base_nat b" n rule: numeral_of.induct)
  case (1 n)
  show ?case
  proof (cases "n < base_nat b")
    case True
    then show ?thesis by (intro exI [of _ 0]) simp
  next
    case False
    note B = base_nat [of b]
    from 1 False B obtain k where k: "n div base_nat b < base_nat b ^ Suc k"
      "k = 0 \<or> base_nat b ^ k \<le> n div base_nat b" by auto
    have "base_nat b ^ Suc k \<le> n"
      using k(2) False B(3) by (auto simp: less_eq_div_iff_mult_less_eq mult.commute)
    moreover have "n < base_nat b ^ Suc (Suc k)"
      using k(1) B(3) by (simp add: div_less_iff_less_mult mult.commute)
    ultimately show ?thesis by blast
  qed
qed

lemma place_and_digits:
  "\<exists>p. place_value b v 1 1 = (p, int (length (numeral_text b upper (unat v))))
     \<and> put_number b upper v p = numeral_text b upper (unat v)"
proof -
  obtain k where k: "unat v < base_nat b ^ Suc k" "k = 0 \<or> base_nat b ^ k \<le> unat v"
    using digit_count by blast
  have "base_nat b ^ k < 2 ^ 32" using k(2) unat_u32 [of v] by auto
  note put = put_number_digits [OF k(1) this, of upper]
  note dig = digits_from_numeral [OF k]
  have "map (\<lambda>d. log_digit upper (of_nat d)) (numeral_of (base_nat b) (unat v)) = numeral_text b upper (unat v)"
    unfolding numeral_text_def
    using numeral_of_digits [of _ b] base_nat(2) [of b] by (intro map_cong refl log_digit_char) fastforce
  then have "put_number b upper v (base_of b ^ k) = numeral_text b upper (unat v)" using put dig by simp
  moreover have "length (numeral_text b upper (unat v)) = Suc k"
    by (simp add: numeral_text_def length_digits_from flip: dig)
  ultimately show ?thesis using place_value_steps [OF k, of 1 1] by auto
qed

lemma sign_bit: "v AND 0x80000000 \<noteq> 0 \<longleftrightarrow> sint (v :: u32) < 0"
proof -
  have "(0x80000000 :: u32) = push_bit 31 1" by (simp add: push_bit_eq_mult)
  then show ?thesis using and_single [of v 31] bit_last_iff [of v] by simp
qed

text \<open>The number \<open>v\<close> as the conversion reads it, its text, and the text in its field.\<close>

definition field_text :: "bool \<Rightarrow> int \<Rightarrow> string \<Rightarrow> string \<Rightarrow> string" where
  "field_text zeros width sign digits =
     (let pad = nat (width - int (length sign) - int (length digits))
      in if zeros then sign @ replicate pad CHR ''0'' @ digits else replicate pad CHR '' '' @ sign @ digits)"

lemma print_integer_text:
  "print_integer F v =
     (let n = (if fmtSigned F then sint v else uint v)
      in field_text (fmtLeadingZero F) (fmtBeforeDecimal F) (if n < 0 then ''-'' else [])
           (numeral_text (fmtBase F) (fmtCase F) (nat \<bar>n\<bar>)))"
proof -
  define neg where "neg \<longleftrightarrow> fmtSigned F \<and> sint v < 0"
  define m where "m = (if neg then - v else v)"
  define n where "n = (if fmtSigned F then sint v else uint v)"
  have n: "n < 0 \<longleftrightarrow> neg" by (auto simp: n_def neg_def not_less)
  have "int (unat m) = \<bar>n\<bar>"
  proof (cases neg)
    case True
    then show ?thesis using unat_minus_u32 [of v] by (simp add: m_def n_def neg_def)
  next
    case False
    then have "\<not> sint v < 0" if "fmtSigned F" using that by (simp add: neg_def)
    then show ?thesis using False sint_u32 [of v] uint_bounded [of v] by (auto simp: m_def n_def)
  qed
  then have m: "unat m = nat \<bar>n\<bar>" by linarith
  have e: "(if fmtSigned F \<and> v AND 0x80000000 \<noteq> 0 then (NOT v + 1, True) else (v, False)) = (m, neg)"
    unfolding sign_bit by (simp add: m_def neg_def minus_eq_not_plus_1)
  obtain p where p: "place_value (fmtBase F) m 1 1 =
      (p, int (length (numeral_text (fmtBase F) (fmtCase F) (unat m))))"
    "put_number (fmtBase F) (fmtCase F) m p = numeral_text (fmtBase F) (fmtCase F) (unat m)"
    using place_and_digits by blast
  have c: "a - b - 1 = a - 1 - b" for a b :: int by simp
  show ?thesis
    unfolding print_integer_def e split p(1) Let_def p(2) m n_def [symmetric]
    by (simp add: n field_text_def alt_log_repchar_def c)
qed

section \<open>What a format means\<close>

datatype int_conv = ConvD | ConvU | ConvO | ConvX | ConvUpperX

fun conv_letter :: "int_conv \<Rightarrow> char" where
  "conv_letter ConvD = CHR ''d''"
| "conv_letter ConvU = CHR ''u''"
| "conv_letter ConvO = CHR ''o''"
| "conv_letter ConvX = CHR ''x''"
| "conv_letter ConvUpperX = CHR ''X''"

fun conv_radix :: "int_conv \<Rightarrow> radix" where
  "conv_radix ConvO = Octal"
| "conv_radix ConvX = Hexadecimal"
| "conv_radix ConvUpperX = Hexadecimal"
| "conv_radix _ = Decimal"

text \<open>
  The pieces of a format: a character, a percent sign, a number (zeros wanted, width, long), a
  character in a field, a string in a field.
\<close>

datatype log_piece =
    Lit char | Pct | Number bool string bool int_conv u32 | CharField string u32 | StrField string string

fun log_format :: "log_piece \<Rightarrow> string" where
  "log_format (Lit c) = [c]"
| "log_format Pct = ''%%''"
| "log_format (Number z w l k v) =
     ''%'' @ (if z then ''0'' else []) @ w @ (if l then ''l'' else []) @ [conv_letter k]"
| "log_format (CharField w v) = ''%'' @ w @ ''c''"
| "log_format (StrField w t) = ''%'' @ w @ ''s''"

fun log_args :: "log_piece \<Rightarrow> va list" where
  "log_args (Number z w l k v) = [Word v]"
| "log_args (CharField w v) = [Word v]"
| "log_args (StrField w t) = [Str t]"
| "log_args _ = []"

definition width_value :: "string \<Rightarrow> int" where
  "width_value w = (if w = [] then - 1 else foldl (\<lambda>n c. n * 10 + (of_char c - 48)) 0 w)"

fun log_text :: "log_piece \<Rightarrow> string" where
  "log_text (Lit c) = [c]"
| "log_text Pct = ''%''"
| "log_text (Number z w l k v) =
     (let n = (if k = ConvD then sint v else uint v)
      in field_text z (width_value w) (if n < 0 then ''-'' else [])
           (numeral_text (conv_radix k) (k = ConvUpperX) (nat \<bar>n\<bar>)))"
| "log_text (CharField w v) = replicate (nat (width_value w - 1)) CHR '' '' @ [char_of (unat v)]"
| "log_text (StrField w t) = replicate (nat (width_value w - int (length t))) CHR '' '' @ t"

definition width_ok :: "string \<Rightarrow> bool" where
  "width_ok w \<longleftrightarrow> list_all is_digit w \<and> width_value w < 2 ^ 30"

definition no_zero :: "string \<Rightarrow> bool" where
  "no_zero w \<longleftrightarrow> (case w of [] \<Rightarrow> True | c # _ \<Rightarrow> c \<noteq> CHR ''0'')"

fun piece_ok :: "log_piece \<Rightarrow> bool" where
  "piece_ok (Lit c) = (c \<noteq> CHR ''%'')"
| "piece_ok Pct = True"
| "piece_ok (Number z w l k v) = (width_ok w \<and> (z \<or> no_zero w))"
| "piece_ok (CharField w v) = (width_ok w \<and> no_zero w)"
| "piece_ok (StrField w t) = (width_ok w \<and> no_zero w \<and> length t < 2 ^ 30)"

text \<open>The width is read digit by digit.\<close>

lemma digit_bounds: "is_digit c \<Longrightarrow> 0 \<le> (of_char c - 48 :: int)"
proof -
  assume "is_digit c"
  then have "(48 :: nat) \<le> of_char c" by (simp add: is_digit_def less_eq_char_def)
  then have "int 48 \<le> int (of_char c)" by (simp only: of_nat_le_iff)
  then show ?thesis by (simp add: of_nat_of_char)
qed

lemma fold_fmt_digit:
  "list_all is_digit w \<Longrightarrow> fmtAfterDecimal F < 0 \<Longrightarrow> 0 \<le> fmtBeforeDecimal F \<Longrightarrow>
   fold fmt_digit w F =
     F\<lparr>fmtBeforeDecimal := foldl (\<lambda>n c. n * 10 + (of_char c - 48)) (fmtBeforeDecimal F) w\<rparr>"
proof (induction w arbitrary: F)
  case (Cons c w)
  have "fmt_digit c F = F\<lparr>fmtBeforeDecimal := fmtBeforeDecimal F * 10 + (of_char c - 48)\<rparr>"
    using Cons.prems by (simp add: fmt_digit_def)
  then show ?case using Cons digit_bounds [of c] by simp
qed simp

lemma width_read:
  assumes "list_all is_digit w" "fmtAfterDecimal F < 0" "fmtBeforeDecimal F = - 1"
  shows "fold fmt_digit w F = F\<lparr>fmtBeforeDecimal := width_value w\<rparr>"
proof (cases w)
  case Nil
  then show ?thesis using assms by (simp add: width_value_def)
next
  case (Cons c v)
  have "fmt_digit c F = F\<lparr>fmtBeforeDecimal := of_char c - 48\<rparr>" using assms by (simp add: fmt_digit_def)
  then show ?thesis using assms digit_bounds [of c] Cons by (simp add: fold_fmt_digit width_value_def)
qed

lemma other_digits:
  "list_all is_digit w \<Longrightarrow>
   alt_log_private_printf OtherFmtChar F (w @ r) as = alt_log_private_printf OtherFmtChar (fold fmt_digit w F) r as"
proof (induction w arbitrary: F)
  case (Cons c w)
  then have "c \<noteq> CHR ''.''" by (auto simp: is_digit_def less_eq_char_def)
  with Cons show ?case by simp
qed simp

lemma first_is_other:
  "c \<noteq> CHR ''0'' \<Longrightarrow> c \<noteq> CHR ''%'' \<Longrightarrow>
   alt_log_private_printf FirstFmtChar F (c # r) as = alt_log_private_printf OtherFmtChar F (c # r) as"
  by simp

declare alt_log_private_printf.simps(2) [simp del]

lemma chars_any_fmt: "alt_log_private_printf Chars F w as = alt_log_private_printf Chars G w as"
  by (induction w) (simp_all add: alt_log_private_printf.simps(2))

lemma not_digit: "is_digit c \<Longrightarrow> c \<noteq> CHR ''%''"
  by (auto simp: is_digit_def less_eq_char_def)

abbreviation with_width :: "string \<Rightarrow> fmt" where
  "with_width w \<equiv> fmt_start\<lparr>fmtBeforeDecimal := width_value w\<rparr>"

lemma percent: "alt_log_private_printf Chars F (CHR ''%'' # r) as = alt_log_private_printf FirstFmtChar fmt_start r as"
  by (simp add: alt_log_private_printf.simps(2))

lemma field_width:
  assumes "list_all is_digit w" "no_zero w" "c \<noteq> CHR ''0''" "c \<noteq> CHR ''%''"
  shows "alt_log_private_printf FirstFmtChar fmt_start (w @ c # r) as =
         alt_log_private_printf OtherFmtChar (with_width w) (c # r) as"
proof -
  have "alt_log_private_printf FirstFmtChar fmt_start (w @ c # r) as =
        alt_log_private_printf OtherFmtChar fmt_start (w @ c # r) as"
    using assms by (cases w) (auto intro!: first_is_other dest: not_digit simp: no_zero_def)
  then show ?thesis using assms by (simp add: other_digits width_read fmt_start_def)
qed

lemma zero_width:
  assumes "list_all is_digit w"
  shows "alt_log_private_printf FirstFmtChar fmt_start (CHR ''0'' # w @ r) as =
         alt_log_private_printf OtherFmtChar ((with_width w)\<lparr>fmtLeadingZero := True\<rparr>) r as"
  using assms
  by (simp add: alt_log_private_printf.simps(2) [of FirstFmtChar] other_digits width_read fmt_start_def)

lemma long_flag:
  "alt_log_private_printf OtherFmtChar F (CHR ''l'' # r) as =
   alt_log_private_printf OtherFmtChar (F\<lparr>fmtLong := True\<rparr>) r as"
  by (simp add: alt_log_private_printf.simps(2) is_digit_def less_eq_char_def)

lemma integer_letter:
  "alt_log_private_printf OtherFmtChar F (conv_letter k # r) (Word v # as) =
   emit (print_integer (the (integer_conversion F (conv_letter k))) v) (alt_log_private_printf Chars G r as)"
proof -
  have "alt_log_private_printf OtherFmtChar F (conv_letter k # r) (Word v # as) =
      emit (print_integer (the (integer_conversion F (conv_letter k))) v)
        (alt_log_private_printf Chars (the (integer_conversion F (conv_letter k))) r as)"
    by (cases k)
      (simp_all add: alt_log_private_printf.simps(2) is_digit_def less_eq_char_def integer_conversion_def)
  then show ?thesis unfolding chars_any_fmt [of "the (integer_conversion F (conv_letter k))" r as G] .
qed

lemma conv_letter: "conv_letter k \<noteq> CHR ''0''" "conv_letter k \<noteq> CHR ''%''"
  by (cases k; simp)+

lemma integer_text:
  "print_integer (the (integer_conversion (fmt_start\<lparr>fmtBeforeDecimal := b, fmtLeadingZero := z, fmtLong := l\<rparr>)
       (conv_letter k))) v =
   (let n = (if k = ConvD then sint v else uint v)
    in field_text z b (if n < 0 then ''-'' else []) (numeral_text (conv_radix k) (k = ConvUpperX) (nat \<bar>n\<bar>)))"
  by (cases k) (simp_all add: print_integer_text integer_conversion_def fmt_start_def)

lemma number_piece:
  assumes "width_ok w" "z \<or> no_zero w"
  shows "alt_log_private_printf Chars F (log_format (Number z w l k v) @ r) (Word v # as) =
         emit (log_text (Number z w l k v)) (alt_log_private_printf Chars F r as)"
proof -
  define L where "L = (if l then ''l'' else []) @ conv_letter k # r"
  define G where "G = fmt_start\<lparr>fmtBeforeDecimal := width_value w, fmtLeadingZero := z\<rparr>"
  have d: "list_all is_digit w" using assms(1) by (simp add: width_ok_def)
  have "alt_log_private_printf FirstFmtChar fmt_start ((if z then ''0'' else []) @ w @ L) (Word v # as) =
      alt_log_private_printf OtherFmtChar G L (Word v # as)"
  proof (cases z)
    case True
    then show ?thesis using zero_width [OF d, of L] by (simp add: G_def)
  next
    case False
    then have "no_zero w" using assms(2) by simp
    moreover obtain c t where "L = c # t" "c \<noteq> CHR ''0''" "c \<noteq> CHR ''%''"
      using conv_letter [of k] by (cases l) (auto simp: L_def)
    ultimately show ?thesis using field_width [OF d, of c t] False by (simp add: G_def fmt_start_def)
  qed
  also have "\<dots> = alt_log_private_printf OtherFmtChar (G\<lparr>fmtLong := l\<rparr>) (conv_letter k # r) (Word v # as)"
    by (cases l) (simp_all add: L_def long_flag G_def fmt_start_def)
  also have "\<dots> = emit (log_text (Number z w l k v)) (alt_log_private_printf Chars F r as)"
    unfolding integer_letter [of _ k r v as F] G_def by (simp add: integer_text)
  finally show ?thesis by (simp add: percent L_def)
qed

lemma string_pad_text:
  assumes "width_value w < 2 ^ 30" "length t < 2 ^ 30" "- 1 \<le> width_value w"
  shows "string_pad (with_width w) t = width_value w - int (length t)"
proof -
  have e: "sint (word_of_int n :: u32) = n" if "- (2 ^ 31) \<le> n" "n < 2 ^ 31" for n
    using that by (simp add: signed_of_int signed_take_bit_int_eq_self)
  have "sint (word_of_int (width_value w - int (length t)) :: u32) = width_value w - int (length t)"
    using assms by (intro e) simp_all
  then show ?thesis by (simp add: string_pad_def)
qed

lemma width_value_bound: "list_all is_digit w \<Longrightarrow> - 1 \<le> width_value w"
proof -
  have "list_all is_digit w \<Longrightarrow> 0 \<le> n \<Longrightarrow> 0 \<le> foldl (\<lambda>n c. n * 10 + (of_char c - 48 :: int)) n w" for n
  proof (induction w arbitrary: n)
    case (Cons c w)
    then show ?case using digit_bounds [of c] by simp
  qed simp
  from this [of 0] show "list_all is_digit w \<Longrightarrow> - 1 \<le> width_value w" by (simp add: width_value_def)
qed

lemma field_letter:
  assumes "width_ok w" "no_zero w" "c = CHR ''c'' \<or> c = CHR ''s''"
  shows "alt_log_private_printf Chars F (CHR ''%'' # w @ c # r) as =
         alt_log_private_printf OtherFmtChar (with_width w) (c # r) as"
  unfolding percent using assms by (intro field_width) (auto simp: width_ok_def)

lemma piece_printed:
  assumes "piece_ok p"
  shows "alt_log_private_printf Chars F (log_format p @ r) (log_args p @ as) =
         emit (log_text p) (alt_log_private_printf Chars F r as)"
proof (cases p)
  case (Lit c)
  then show ?thesis using assms by (simp add: alt_log_private_printf.simps(2))
next
  case Pct
  then show ?thesis
    by (simp add: alt_log_private_printf.simps(2) chars_any_fmt [of fmt_start r as F])
next
  case (Number z w l k v)
  then show ?thesis using assms number_piece [of w z F l k v r as] by (simp del: log_format.simps log_text.simps)
next
  case (CharField w v)
  then have w: "width_ok w" "no_zero w" using assms by simp_all
  show ?thesis
    unfolding CharField using field_letter [OF w, of "CHR ''c''" F r "Word v # as"]
    by (simp add: alt_log_private_printf.simps(2) [of OtherFmtChar] is_digit_def less_eq_char_def
        integer_conversion_def alt_log_repchar_def chars_any_fmt [of "with_width w" r as F])
next
  case (StrField w t)
  then have w: "width_ok w" "no_zero w" "length t < 2 ^ 30" using assms by simp_all
  then have "string_pad (with_width w) t = width_value w - int (length t)"
    using width_value_bound [of w] by (intro string_pad_text) (simp_all add: width_ok_def)
  then show ?thesis
    unfolding StrField using field_letter [OF w(1,2), of "CHR ''s''" F r "Str t # as"]
    by (simp add: alt_log_private_printf.simps(2) [of OtherFmtChar] is_digit_def less_eq_char_def
        integer_conversion_def alt_log_repchar_def chars_any_fmt [of "with_width w" r as F])
qed

lemma pieces_printed:
  "list_all piece_ok ps \<Longrightarrow>
   alt_log_private_printf Chars F (concat (map log_format ps)) (concat (map log_args ps)) =
     Inr (concat (map log_text ps))"
proof (induction ps)
  case (Cons p ps)
  then show ?case
    using piece_printed [of p F "concat (map log_format ps)" "concat (map log_args ps)"] by simp
qed simp

section \<open>Reading a number back\<close>

definition numeral_value :: "nat \<Rightarrow> nat list \<Rightarrow> nat" where
  "numeral_value b ds = foldl (\<lambda>n d. b * n + d) 0 ds"

lemma numeral_value_of: "numeral_value (base_nat b) (numeral_of (base_nat b) n) = n"
proof (induction "base_nat b" n rule: numeral_of.induct)
  case (1 n)
  show ?case
  proof (cases "n < base_nat b")
    case False
    then show ?thesis using 1 base_nat [of b] by (simp add: numeral_of_step numeral_value_def)
  qed (simp add: numeral_of_small numeral_value_def)
qed

lemma numeral_no_zero: "n \<noteq> 0 \<Longrightarrow> hd (numeral_of (base_nat b) n) \<noteq> 0"
proof (induction "base_nat b" n rule: numeral_of.induct)
  case (1 n)
  show ?case
  proof (cases "n < base_nat b")
    case False
    then have "n div base_nat b \<noteq> 0" using base_nat [of b] by (simp add: div_eq_0_iff)
    moreover have "numeral_of (base_nat b) m \<noteq> []" for m by (subst numeral_of.simps) simp
    ultimately show ?thesis using 1 False base_nat [of b] by (simp add: numeral_of_step)
  qed (use 1 in \<open>simp add: numeral_of_small\<close>)
qed

section \<open>The other log functions\<close>

definition escape :: "char \<Rightarrow> char" where
  "escape c = (if c = CHR 0x04 then CHR ''D'' else c)"

lemma map_enumerate_prefix:
  "map (\<lambda>(i, c). if i < n \<and> c = CHR 0x04 then CHR ''D'' else c) (enumerate 0 (xs @ ys)) = map escape xs @ ys"
  if "length xs = n"
  using that
  by (intro nth_equalityI) (auto simp: escape_def nth_append nth_enumerate_eq split: if_splits)

text \<open>
  A call of \<^verbatim>\<open>write\<close> is echoed up to one character less than the limit, since the last one is
  overwritten by the end of the line; nothing is stored behind the buffer.
\<close>

lemma write_echo:
  fixes ptr :: string
  defines "n \<equiv> min 15 (length ptr)"
  assumes buf: "length buf = 17" and len: "2 \<le> length ptr" and chars: "NUL \<notin> set ptr"
  shows "\<exists>buf'. length buf' = 17 \<and>
     alt_log_write True ptr buf =
       (Inr (Inr (''Write Echo: '' @ map escape (take (n - 1) ptr) @ [CHR 0x0A, CHR 0x0D])), buf')"
proof -
  have n: "2 \<le> n" "n \<le> 15" "n \<le> length ptr" using len by (auto simp: n_def)
  have nn: "(if 15 > length ptr then length ptr else 15) = n" by (simp add: n_def)
  have tw: "takeWhile (\<lambda>c. c \<noteq> NUL) (take n ptr) = take n ptr"
    using chars by (auto simp: takeWhile_eq_all_conv dest: in_set_takeD)
  have cp: "strncpy buf ptr n = take n ptr @ drop n buf"
    unfolding strncpy_def tw Let_def using n by simp
  define rest where "rest = drop (n + 2) buf"
  obtain x y where "drop n buf = x # y # rest"
    using buf n by (simp add: rest_def Cons_nth_drop_Suc [symmetric])
  moreover have "take n ptr = take (n - 1) ptr @ [ptr ! (n - 1)]"
    using n take_Suc_conv_app_nth [of "n - 1" ptr] by simp
  ultimately have e: "strncpy buf ptr n = take (n - 1) ptr @ ptr ! (n - 1) # x # y # rest" by (simp add: cp)
  have l: "length (take (n - 1) ptr) = n - 1" using n by simp
  define b where "b = (take (n - 1) ptr @ [CHR 0x0A]) @ CHR 0x0D # NUL # rest"
  have st: "poke (n + 1) NUL (poke n (CHR 0x0D) (poke (n - 1) (CHR 0x0A) (Inr (strncpy buf ptr n)))) = Inr b"
  proof -
    obtain m where m: "n = Suc m" using n by (cases n) auto
    show ?thesis
      using l e unfolding b_def m by (simp add: poke_def list_update_append Suc_diff_le)
  qed
  define b' where "b' = (map escape (take (n - 1) ptr) @ [CHR 0x0A]) @ CHR 0x0D # NUL # rest"
  have m: "map (\<lambda>(i, c). if i < n \<and> c = CHR 0x04 then CHR ''D'' else c) (enumerate 0 b) = b'"
    unfolding b_def b'_def using n by (subst map_enumerate_prefix) (simp_all add: escape_def)
  have "c \<noteq> NUL" if "c \<in> set (map escape (take (n - 1) ptr))" for c
    using that chars by (auto simp: escape_def dest: in_set_takeD split: if_splits)
  note takeWhile_append2 [of "map escape (take (n - 1) ptr)" "\<lambda>c. c \<noteq> NUL", OF this]
  then have t: "takeWhile (\<lambda>c. c \<noteq> NUL) b' = map escape (take (n - 1) ptr) @ [CHR 0x0A, CHR 0x0D]"
    by (simp add: b'_def del: set_map)
  have "length b' = 17" using n buf by (simp add: b'_def rest_def)
  moreover have "alt_log_printf_proc ''Write Echo: %s'' [Str t] = Inr (''Write Echo: '' @ t)"
    if "length t < 2 ^ 30" for t
    using pieces_printed [of "map Lit ''Write Echo: '' @ [StrField [] t]" fmt_start] that
    by (simp add: alt_log_printf_proc_def width_ok_def no_zero_def width_value_def)
  moreover have "length (map escape (take (n - 1) ptr) @ [CHR 0x0A, CHR 0x0D]) < 2 ^ 30" using n by simp
  moreover have "alt_log_write True ptr buf =
      (Inr (alt_log_printf_proc ''Write Echo: %s'' [Str (map escape (take (n - 1) ptr) @ [CHR 0x0A, CHR 0x0D])]), b')"
  proof -
    have "(n < 2) = False" using n by simp
    then show ?thesis
      unfolding alt_log_write_def Let_def nn by (simp only: st sum.case m t if_False simp_thms)
  qed
  ultimately show ?thesis by auto
qed

text \<open>The clock message comes every \<open>interval + 1\<close> calls: the counter has to exceed the interval.\<close>

lemma clock_message:
  assumes "c \<ge> 0" "c < uint interval"
  shows "alt_log_system_clock True interval (c, s) = (Inr [], (c + 1, s))"
  using assms uint_bounded [of interval]
  by (simp add: alt_log_system_clock_def word_less_alt unsigned_of_int take_bit_int_eq_self not_less)

lemma clock_message_due:
  assumes "uint interval < 2 ^ 31 - 1"
  shows "\<exists>out. alt_log_system_clock True interval (uint interval, s) = (out, (0, s + 1))"
  using assms uint_bounded [of interval]
  by (simp add: alt_log_system_clock_def word_less_alt unsigned_of_int take_bit_int_eq_self not_less)

section \<open>Properties\<close>

text \<open>
  Claim C40. The log's \<^verbatim>\<open>printf\<close> renders every format: for a format made of characters, percent
  signs and the conversions \<^verbatim>\<open>d u o x X c s\<close>, with a width, leading zeros and \<^verbatim>\<open>l\<close> in any combination
  that C's \<^verbatim>\<open>printf\<close> allows them in, and the arguments the conversions take, the characters put out
  are the texts of the pieces one after the other. A number is read as signed by \<^verbatim>\<open>d\<close> and as
  unsigned by the others, its digits in base 8, 10 or 16 denote its magnitude with no leading zero,
  and the field is filled to its width with spaces before the sign or zeros behind it.
\<close>

theorem log_printf_renders:
  assumes "list_all piece_ok ps"
  shows "alt_log_printf_proc (concat (map log_format ps)) (concat (map log_args ps)) =
           Inr (concat (map log_text ps))
     \<and> (\<forall>b n. numeral_value (base_nat b) (numeral_of (base_nat b) n) = n
          \<and> (n = 0 \<or> hd (numeral_of (base_nat b) n) \<noteq> 0))"
  unfolding alt_log_printf_proc_def pieces_printed [OF assms]
  using numeral_value_of numeral_no_zero by blast

theorem log_printf_renders_witness:
  "alt_log_printf_proc ''t=%04d %5lX'' [Word (- 42), Word 0xBEEF] = Inr ''t=-042  BEEF''"
proof -
  have n: "numeral_of 10 42 = [4, 2]" "numeral_of 16 48879 = [11, 14, 14, 15]"
    by (simp_all add: numeral_of.simps)
  have c: "char_of (52 :: nat) = CHR ''4''" "char_of (50 :: nat) = CHR ''2''" "char_of (66 :: nat) = CHR ''B''"
    "char_of (69 :: nat) = CHR ''E''" "char_of (70 :: nat) = CHR ''F''"
    by code_simp+
  have s: "sint (- 42 :: u32) = - 42" "uint (48879 :: u32) = 48879" by simp_all
  show ?thesis
    using log_printf_renders [of "[Lit CHR ''t'', Lit CHR ''='', Number True ''4'' False ConvD (- 42), Lit CHR '' '',
        Number False ''5'' True ConvUpperX 0xBEEF]"]
    by (simp add: width_ok_def no_zero_def width_value_def is_digit_def less_eq_char_def field_text_def
        numeral_text_def digit_char_def n s c Let_def)
qed

end
