(* ===== verification/LogConfig.thy ===== *)
theory LogConfig
  imports LogPrintf
begin

text \<open>
  The switches of the log (\<^verbatim>\<open>HAL/inc/sys/alt_log_printf.h\<close>): six flags, which the preprocessor sets
  from the level \<^verbatim>\<open>ALT_LOG_FLAGS\<close> unless the build sets them one by one, and the macros that test
  them. A name that is not defined counts as 0 in a condition of the preprocessor.
\<close>

section \<open>The flags\<close>

text \<open>\<open>given\<close> is a setting from the command line, \<open>F\<close> the level and \<open>uart\<close> whether there is a JTAG UART.\<close>

definition ALT_LOG_BOOT_ON_FLAG_SETTING :: "int option \<Rightarrow> int \<Rightarrow> int" where
  "ALT_LOG_BOOT_ON_FLAG_SETTING given F =
     (case given of Some v \<Rightarrow> v
      | None \<Rightarrow> if F = 1 then 1 else if F = 2 then 1 else if F = 3 then 1 else if F = - 1 then 0 else 1)"

definition ALT_LOG_SYS_CLK_ON_FLAG_SETTING :: "int option \<Rightarrow> int \<Rightarrow> int" where
  "ALT_LOG_SYS_CLK_ON_FLAG_SETTING given F =
     (case given of Some v \<Rightarrow> v
      | None \<Rightarrow> if F = 1 then 1 else if F = 2 then 1 else if F = 3 then 1 else if F = - 1 then 0 else 0)"

definition ALT_LOG_WRITE_ON_FLAG_SETTING :: "int option \<Rightarrow> int \<Rightarrow> int" where
  "ALT_LOG_WRITE_ON_FLAG_SETTING given F =
     (case given of Some v \<Rightarrow> v
      | None \<Rightarrow> if F = 1 then 0 else if F = 2 then 1 else if F = 3 then 1 else if F = - 1 then 0 else 0)"

definition ALT_LOG_JTAG_UART_ALARM_ON_FLAG_SETTING :: "int option \<Rightarrow> bool \<Rightarrow> int \<Rightarrow> int" where
  "ALT_LOG_JTAG_UART_ALARM_ON_FLAG_SETTING given uart F =
     (case given of Some v \<Rightarrow> v
      | None \<Rightarrow> if \<not> uart then 0
          else if F = 1 then 0 else if F = 2 then 1 else if F = 3 then 1 else if F = - 1 then 0 else 0)"

definition ALT_LOG_JTAG_UART_STARTUP_INFO_ON_FLAG_SETTING :: "int option \<Rightarrow> bool \<Rightarrow> int \<Rightarrow> int" where
  "ALT_LOG_JTAG_UART_STARTUP_INFO_ON_FLAG_SETTING given uart F =
     (case given of Some v \<Rightarrow> v
      | None \<Rightarrow> if \<not> uart then 0
          else if F = 1 then 1 else if F = 2 then 1 else if F = 3 then 1 else if F = - 1 then 0 else 0)"

definition ALT_LOG_JTAG_UART_ISR_ON_FLAG_SETTING :: "int option \<Rightarrow> bool \<Rightarrow> int \<Rightarrow> int" where
  "ALT_LOG_JTAG_UART_ISR_ON_FLAG_SETTING given uart F =
     (case given of Some v \<Rightarrow> v
      | None \<Rightarrow> if \<not> uart then 0
          else if F = 1 then 0 else if F = 2 then 0 else if F = 3 then 1 else if F = - 1 then 0 else 0)"

text \<open>The variables start with these values; all but the first are bytes.\<close>

record log_flags =
  alt_log_boot_on_flag :: u32
  alt_log_write_on_flag :: u8
  alt_log_sys_clk_on_flag :: u8
  alt_log_jtag_uart_alarm_on_flag :: u8
  alt_log_jtag_uart_isr_on_flag :: u8
  alt_log_jtag_uart_startup_info_on_flag :: u8

definition log_flags_at :: "bool \<Rightarrow> int \<Rightarrow> log_flags" where
  "log_flags_at uart F =
     \<lparr>alt_log_boot_on_flag = of_int (ALT_LOG_BOOT_ON_FLAG_SETTING None F),
      alt_log_write_on_flag = of_int (ALT_LOG_WRITE_ON_FLAG_SETTING None F),
      alt_log_sys_clk_on_flag = of_int (ALT_LOG_SYS_CLK_ON_FLAG_SETTING None F),
      alt_log_jtag_uart_alarm_on_flag = of_int (ALT_LOG_JTAG_UART_ALARM_ON_FLAG_SETTING None uart F),
      alt_log_jtag_uart_isr_on_flag = of_int (ALT_LOG_JTAG_UART_ISR_ON_FLAG_SETTING None uart F),
      alt_log_jtag_uart_startup_info_on_flag =
        of_int (ALT_LOG_JTAG_UART_STARTUP_INFO_ON_FLAG_SETTING None uart F)\<rparr>"

section \<open>The macros\<close>

definition ALT_LOG_PRINT_BOOT :: "log_flags \<Rightarrow> string \<Rightarrow> va list \<Rightarrow> va_fault + string" where
  "ALT_LOG_PRINT_BOOT f fmt args = (if alt_log_boot_on_flag f = 1 then alt_log_printf_proc fmt args else Inr [])"

definition ALT_LOG_JTAG_UART_TICKS :: "'s clock \<Rightarrow> u32" where
  "ALT_LOG_JTAG_UART_TICKS c = alt_ticks_per_second c div 10"

text \<open>
  \<open>log_alarm\<close> is \<^verbatim>\<open>alt_log_jtag_uart_alarm_1\<close>, \<open>report\<close> the callback
  \<^verbatim>\<open>altera_avalon_jtag_uart_report_log\<close>.
\<close>

definition ALT_LOG_JTAG_UART_ALARM_REGISTER ::
  "'h jtag \<Rightarrow> log_flags \<Rightarrow> nat \<Rightarrow> (nat \<Rightarrow> 's \<Rightarrow> u32 \<times> 's) \<Rightarrow> nat \<Rightarrow> 'h uart \<Rightarrow> 's clock \<Rightarrow>
   (va_fault + string) \<times> 'h uart \<times> 's clock" where
  "ALT_LOG_JTAG_UART_ALARM_REGISTER H f log_alarm report dev_addr dev c =
     (let c = (if alt_log_jtag_uart_alarm_on_flag f = 1
               then snd (alt_alarm_start (Some log_alarm) (ALT_LOG_JTAG_UART_TICKS c) report dev_addr c) else c)
      in if alt_log_jtag_uart_startup_info_on_flag f = 1
         then (let (out, dev) = alt_log_jtag_uart_startup_info H dev in (out, dev, c))
         else (Inr [], dev, c))"

definition ALT_LOG_SYS_CLK_INTERVAL :: "'s clock \<Rightarrow> u32" where
  "ALT_LOG_SYS_CLK_INTERVAL c = alt_ticks_per_second c * 1"

section \<open>The levels\<close>

lemmas settings =
  ALT_LOG_BOOT_ON_FLAG_SETTING_def ALT_LOG_SYS_CLK_ON_FLAG_SETTING_def ALT_LOG_WRITE_ON_FLAG_SETTING_def
  ALT_LOG_JTAG_UART_ALARM_ON_FLAG_SETTING_def ALT_LOG_JTAG_UART_STARTUP_INFO_ON_FLAG_SETTING_def
  ALT_LOG_JTAG_UART_ISR_ON_FLAG_SETTING_def

text \<open>From level 0 to level 3 each level logs all that the one below it logs; level -1 is silent.\<close>

lemma levels_grow:
  assumes "0 \<le> F" "F \<le> G" "G \<le> 3"
  shows "ALT_LOG_BOOT_ON_FLAG_SETTING given F \<le> ALT_LOG_BOOT_ON_FLAG_SETTING given G
     \<and> ALT_LOG_SYS_CLK_ON_FLAG_SETTING given F \<le> ALT_LOG_SYS_CLK_ON_FLAG_SETTING given G
     \<and> ALT_LOG_WRITE_ON_FLAG_SETTING given F \<le> ALT_LOG_WRITE_ON_FLAG_SETTING given G
     \<and> ALT_LOG_JTAG_UART_ALARM_ON_FLAG_SETTING given uart F \<le> ALT_LOG_JTAG_UART_ALARM_ON_FLAG_SETTING given uart G
     \<and> ALT_LOG_JTAG_UART_STARTUP_INFO_ON_FLAG_SETTING given uart F
        \<le> ALT_LOG_JTAG_UART_STARTUP_INFO_ON_FLAG_SETTING given uart G
     \<and> ALT_LOG_JTAG_UART_ISR_ON_FLAG_SETTING given uart F \<le> ALT_LOG_JTAG_UART_ISR_ON_FLAG_SETTING given uart G"
proof -
  consider "G = 0" | "G = 1" | "G = 2" | "G = 3" using assms by linarith
  then show ?thesis using assms by cases (auto simp: settings split: option.split)
qed

lemma silent_level:
  "ALT_LOG_PRINT_BOOT (log_flags_at uart (- 1)) fmt args = Inr []"
  "ALT_LOG_JTAG_UART_ALARM_REGISTER H (log_flags_at uart (- 1)) a cb d dev c = (Inr [], dev, c)"
  by (simp_all add: ALT_LOG_PRINT_BOOT_def ALT_LOG_JTAG_UART_ALARM_REGISTER_def log_flags_at_def settings)

text \<open>A level above the last is like none: only the boot messages are printed.\<close>

lemma level_too_high: "3 < F \<Longrightarrow> log_flags_at uart F = log_flags_at uart 0"
  by (simp add: log_flags_at_def settings)

end
