(* ===== verification/UartProps.thy ===== *)
theory UartProps
  imports Uart
begin

text \<open>
  The UART driver as two queues of characters: the receive ring is filled by the interrupt
  routine and emptied by \<open>read\<close>, the transmit ring is filled by \<open>write\<close> and emptied by the
  interrupt routine. No character is lost, duplicated or reordered on either way, and no
  access leaves a buffer.
\<close>

section \<open>The two rings\<close>

definition rx_q :: "'h uart \<Rightarrow> u8 list" where
  "rx_q s = contents BUF_LEN (rx_buf s) (unat (rx_in s)) (unat (rx_out s))"

definition tx_q :: "'h uart \<Rightarrow> u8 list" where
  "tx_q s = contents BUF_LEN (tx_buf s) (unat (tx_in s)) (unat (tx_out s))"

definition uart_ok :: "'h uart \<Rightarrow> bool" where
  "uart_ok s \<longleftrightarrow> ring_ok BUF_LEN (rx_buf s) (unat (rx_in s)) (unat (rx_out s))
     \<and> ring_ok BUF_LEN (tx_buf s) (unat (tx_in s)) (unat (tx_out s))"

lemma unat_adv: "unat (adv i n) = (unat i + n) mod 2048"
proof -
  have "unat (i + of_nat n) = (unat i + n) mod 2 ^ 32"
    by (simp add: unat_word_ariths unat_of_nat mod_add_right_eq)
  then show ?thesis unfolding adv_def by (simp add: unat_mod_distrib mod_mod_cancel)
qed

lemma uart_ok_less:
  assumes "uart_ok s"
  shows "unat (rx_in s) < 2048" "unat (rx_out s) < 2048" "unat (tx_in s) < 2048"
    "unat (tx_out s) < 2048" "length (rx_buf s) = 2048" "length (tx_buf s) = 2048"
  using assms by (auto simp: uart_ok_def ring_ok_def)

lemma rx_put_ok:
  assumes "uart_ok s" "length (rx_q s) < 2047"
  shows "uart_ok (rx_put c s)" "rx_q (rx_put c s) = rx_q s @ [c]" "tx_q (rx_put c s) = tx_q s"
proof -
  have w: "(rx_buf s)[unat (rx_in s) := c] = write_at (unat (rx_in s)) [c] (rx_buf s)"
    using uart_ok_less [OF assms(1)] by (simp add: write_at_def upd_conv_take_nth_drop)
  have r: "ring_ok 2048 (rx_buf s) (unat (rx_in s)) (unat (rx_out s))"
    using assms(1) by (simp add: uart_ok_def)
  have l: "unat (rx_in s) + length [c] \<le> 2048" using uart_ok_less [OF assms(1)] by simp
  have u: "used 2048 (unat (rx_in s)) (unat (rx_out s)) + length [c] < 2048"
    using assms(2) by (simp add: rx_q_def)
  show "uart_ok (rx_put c s)"
    using ring_put(1) [OF r l u] assms(1) by (simp add: uart_ok_def rx_put_def unat_adv w)
  show "rx_q (rx_put c s) = rx_q s @ [c]"
    using ring_put(2) [OF r l u] by (simp add: rx_q_def rx_put_def unat_adv w)
  show "tx_q (rx_put c s) = tx_q s" by (simp add: tx_q_def rx_put_def)
qed

lemma rx_put_many:
  "uart_ok s \<Longrightarrow> length bs \<le> 2047 - length (rx_q s) \<Longrightarrow>
   uart_ok (fold rx_put bs s) \<and> rx_q (fold rx_put bs s) = rx_q s @ bs"
proof (induction bs arbitrary: s)
  case (Cons c bs)
  then have "length (rx_q s) < 2047" by simp
  with Cons rx_put_ok [OF Cons.prems(1) this, of c] show ?case by simp
qed simp

lemma rx_avail_eq:
  assumes "uart_ok s"
  shows "rx_avail s = (if unat (rx_out s) \<le> unat (rx_in s) then unat (rx_in s) - unat (rx_out s)
     else 2048 - unat (rx_out s))"
  using uart_ok_less [OF assms]
  by (auto simp: rx_avail_def word_le_nat_alt unat_sub)

lemma rx_get_ok:
  assumes "uart_ok s" "n \<le> rx_avail s"
  shows "uart_ok (snd (rx_get n s))" "fst (rx_get n s) = take n (rx_q s)"
    "rx_q (snd (rx_get n s)) = drop n (rx_q s)" "unat (rx_out s) + n \<le> 2048"
proof -
  note l = uart_ok_less [OF assms(1)]
  have r: "ring_ok 2048 (rx_buf s) (unat (rx_in s)) (unat (rx_out s))"
    using assms(1) by (simp add: uart_ok_def)
  show n: "unat (rx_out s) + n \<le> 2048"
    using assms(2) l rx_avail_eq [OF assms(1)] by (simp split: if_splits)
  have u: "n \<le> used 2048 (unat (rx_in s)) (unat (rx_out s))"
    using assms(2) l rx_avail_eq [OF assms(1)] by (simp add: used_def split: if_splits)
  show "uart_ok (snd (rx_get n s))"
    using ring_get(1) [OF r n u] assms(1) by (simp add: uart_ok_def rx_get_def unat_adv)
  show "fst (rx_get n s) = take n (rx_q s)"
    using ring_get(2) [OF r n u] by (simp add: rx_q_def rx_get_def)
  show "rx_q (snd (rx_get n s)) = drop n (rx_q s)"
    using ring_get(3) [OF r n u] by (simp add: rx_q_def rx_get_def unat_adv)
qed

lemma rx_avail_bounds:
  assumes "uart_ok s"
  shows "rx_avail s \<le> length (rx_q s)" "rx_avail s = 0 \<longleftrightarrow> rx_q s = []"
  using uart_ok_less [OF assms] rx_avail_eq [OF assms]
    contents_empty [of "unat (rx_in s)" 2048 "unat (rx_out s)" "rx_buf s"]
  by (auto simp: rx_q_def used_def)

interpretation rx: byte_queue rx_q uart_ok "fold rx_put" "\<lambda>s. 2047 - length (rx_q s)" rx_get rx_avail
proof unfold_locales
  show "0 < rx_avail s" if "uart_ok s" "rx_q s \<noteq> []" for s :: "'a uart"
    using rx_avail_bounds(2) [OF that(1)] that(2) by simp
qed (simp_all add: rx_put_many rx_get_ok rx_avail_bounds)

text \<open>The transmit ring; the interrupt routine takes one character at a time.\<close>

lemma tx_room_eq:
  assumes "uart_ok s"
  shows "tx_room s = (if unat (tx_in s) < unat (tx_out s) then unat (tx_out s) - 1 - unat (tx_in s)
     else if 0 < unat (tx_out s) then 2048 - unat (tx_in s) else 2047 - unat (tx_in s))"
  using uart_ok_less [OF assms]
  by (auto simp: tx_room_def word_less_nat_alt unat_sub word_le_nat_alt unat_gt_0)

lemma tx_put_ok:
  assumes "uart_ok s" "length bs \<le> tx_room s"
  shows "uart_ok (tx_put bs s)" "tx_q (tx_put bs s) = tx_q s @ bs" "rx_q (tx_put bs s) = rx_q s"
    "unat (tx_in s) + length bs \<le> 2048"
proof -
  note l = uart_ok_less [OF assms(1)]
  have r: "ring_ok 2048 (tx_buf s) (unat (tx_in s)) (unat (tx_out s))"
    using assms(1) by (simp add: uart_ok_def)
  show n: "unat (tx_in s) + length bs \<le> 2048"
    using assms(2) l tx_room_eq [OF assms(1)] by (simp split: if_splits)
  have u: "used 2048 (unat (tx_in s)) (unat (tx_out s)) + length bs < 2048"
    using assms(2) l tx_room_eq [OF assms(1)] by (simp add: used_def split: if_splits)
  show "uart_ok (tx_put bs s)"
    using ring_put(1) [OF r n u] assms(1) by (simp add: uart_ok_def tx_put_def unat_adv)
  show "tx_q (tx_put bs s) = tx_q s @ bs"
    using ring_put(2) [OF r n u] by (simp add: tx_q_def tx_put_def unat_adv)
  show "rx_q (tx_put bs s) = rx_q s" by (simp add: rx_q_def tx_put_def)
qed

definition tx_get :: "nat \<Rightarrow> 'h uart \<Rightarrow> u8 list \<times> 'h uart" where
  "tx_get n s = (take n (drop (unat (tx_out s)) (tx_buf s)), s\<lparr>tx_out := adv (tx_out s) n\<rparr>)"

definition tx_avail :: "'h uart \<Rightarrow> nat" where
  "tx_avail s = min 1 (length (tx_q s))"

lemma tx_get_ok:
  assumes "uart_ok s" "n \<le> tx_avail s"
  shows "uart_ok (snd (tx_get n s))" "fst (tx_get n s) = take n (tx_q s)"
    "tx_q (snd (tx_get n s)) = drop n (tx_q s)"
proof -
  have r: "ring_ok 2048 (tx_buf s) (unat (tx_in s)) (unat (tx_out s))"
    using assms(1) by (simp add: uart_ok_def)
  have n: "unat (tx_out s) + n \<le> 2048"
    using assms(2) uart_ok_less [OF assms(1)] by (simp add: tx_avail_def)
  have u: "n \<le> used 2048 (unat (tx_in s)) (unat (tx_out s))"
    using assms(2) by (simp add: tx_avail_def tx_q_def)
  show "uart_ok (snd (tx_get n s))"
    using ring_get(1) [OF r n u] assms(1) by (simp add: uart_ok_def tx_get_def unat_adv)
  show "fst (tx_get n s) = take n (tx_q s)"
    using ring_get(2) [OF r n u] by (simp add: tx_q_def tx_get_def)
  show "tx_q (snd (tx_get n s)) = drop n (tx_q s)"
    using ring_get(3) [OF r n u] by (simp add: tx_q_def tx_get_def unat_adv)
qed

interpretation tx: byte_queue tx_q uart_ok tx_put tx_room tx_get tx_avail
proof unfold_locales
  show "tx_avail s \<le> length (tx_q s)" for s :: "'a uart"
    by (simp add: tx_avail_def)
  show "0 < tx_avail s" if "tx_q s \<noteq> []" for s :: "'a uart"
    using that by (simp add: tx_avail_def)
qed (simp_all add: tx_put_ok tx_get_ok)

section \<open>What an operation does to the queues\<close>

text \<open>
  \<open>moves s ret acc s'\<close>: between \<open>s\<close> and \<open>s'\<close> the bytes \<open>ret\<close> were delivered to the caller and the
  bytes \<open>acc\<close> were accepted from it; everything taken from the hardware is delivered or still
  queued, in order, and everything accepted is sent or still queued, in order. The timeout stays,
  and the count of silent seconds does not pass its bound.
\<close>

definition calm :: "'h uart \<Rightarrow> 'h uart \<Rightarrow> bool" where
  "calm s s' \<longleftrightarrow> timeout s' = timeout s
     \<and> (host_inactive s \<le> INT_MAX - 2 \<longrightarrow> host_inactive s' \<le> INT_MAX - 2)"

definition moves :: "'h uart \<Rightarrow> u8 list \<Rightarrow> u8 list \<Rightarrow> 'h uart \<Rightarrow> bool" where
  "moves s ret acc s' \<longleftrightarrow> uart_ok s' \<and> calm s s'
     \<and> (\<exists>new. got s' = got s @ new \<and> ret @ rx_q s' = rx_q s @ new)
     \<and> (\<exists>out. sent s' = sent s @ out \<and> out @ tx_q s' = tx_q s @ acc)"

lemma moves_refl: "uart_ok s \<Longrightarrow> moves s [] [] s"
  by (simp add: moves_def calm_def)

lemma moves_trans:
  assumes "moves s r a s1" "moves s1 r' a' s2"
  shows "moves s (r @ r') (a @ a') s2"
proof -
  obtain n o1 n' o' where "got s1 = got s @ n" "r @ rx_q s1 = rx_q s @ n"
    "sent s1 = sent s @ o1" "o1 @ tx_q s1 = tx_q s @ a"
    "got s2 = got s1 @ n'" "r' @ rx_q s2 = rx_q s1 @ n'"
    "sent s2 = sent s1 @ o'" "o' @ tx_q s2 = tx_q s1 @ a'" and ok: "uart_ok s2" "calm s s2"
    using assms unfolding moves_def calm_def by auto
  then have "got s2 = got s @ (n @ n')" "(r @ r') @ rx_q s2 = rx_q s @ (n @ n')"
    "sent s2 = sent s @ (o1 @ o')" "(o1 @ o') @ tx_q s2 = tx_q s @ (a @ a')"
    by (metis append_assoc)+
  with ok show ?thesis unfolding moves_def by blast
qed

lemma moves_then_quiet: "moves s r a s1 \<Longrightarrow> moves s1 [] [] s2 \<Longrightarrow> moves s r a s2"
  using moves_trans [of s r a s1 "[]" "[]" s2] by simp

text \<open>Operations on the registers and the other fields.\<close>

lemma same_rings:
  assumes "uart_ok s" "rx_buf s' = rx_buf s" "rx_in s' = rx_in s" "rx_out s' = rx_out s"
    "tx_buf s' = tx_buf s" "tx_in s' = tx_in s" "tx_out s' = tx_out s" "got s' = got s" "sent s' = sent s"
    "calm s s'"
  shows "moves s [] [] s'"
  using assms by (simp add: moves_def uart_ok_def rx_q_def tx_q_def)

lemma moves_iord_control: "uart_ok s \<Longrightarrow> moves s [] [] (snd (iord_control H s))"
  by (rule same_rings) (simp_all add: calm_def iord_control_def split_beta)

lemma moves_iowr_control: "uart_ok s \<Longrightarrow> moves s [] [] (iowr_control H v s)"
  by (rule same_rings) (simp_all add: calm_def iowr_control_def)

lemma moves_enable: "uart_ok s \<Longrightarrow> moves s [] [] (enable_irq H m s)"
  by (rule same_rings) (simp_all add: calm_def enable_irq_def iowr_control_def Let_def)

lemma moves_disable: "uart_ok s \<Longrightarrow> moves s [] [] (disable_irq H m s)"
  by (rule same_rings)
    (simp_all add: calm_def disable_irq_def iowr_control_def iord_control_def Let_def split_beta)

lemma moves_ok: "moves s r a s' \<Longrightarrow> uart_ok s'"
  by (simp add: moves_def)

section \<open>The interrupt routine\<close>

lemma rx_full:
  assumes "uart_ok s"
  shows "adv (rx_in s) 1 = rx_out s \<longleftrightarrow> length (rx_q s) = 2047"
proof -
  note l = uart_ok_less [OF assms]
  have "adv (rx_in s) 1 = rx_out s \<longleftrightarrow> (unat (rx_in s) + 1) mod 2048 = unat (rx_out s)"
    by (simp add: word_unat_eq_iff unat_adv)
  also have "\<dots> \<longleftrightarrow> length (rx_q s) = 2047"
    using l by (auto simp: rx_q_def used_def mod_if)
  finally show ?thesis .
qed

lemma rx_q_bound: "uart_ok s \<Longrightarrow> length (rx_q s) \<le> 2047"
  using uart_ok_less [of s] used_less [of "unat (rx_in s)" 2048 "unat (rx_out s)"]
  by (simp add: rx_q_def)

lemma rx_fill_step:
  "rx_fill H data s =
     (if adv (rx_in s) 1 = rx_out s then Some (Inr (data, s))
      else if fst (iord_data H s) AND DATA_RVALID = 0 then Some (Inr (iord_data H s))
      else if length (rx_buf s) \<le> unat (rx_in s) then Some (Inl OutOfBounds)
      else rx_fill H (fst (iord_data H s)) (rx_put (ucast (fst (iord_data H s))) (snd (iord_data H s))))"
  by (rule rx_fill.simps)

lemma iord_data_fields [simp]:
  "rx_buf (snd (iord_data H s)) = rx_buf s" "rx_in (snd (iord_data H s)) = rx_in s"
  "rx_out (snd (iord_data H s)) = rx_out s" "tx_buf (snd (iord_data H s)) = tx_buf s"
  "tx_in (snd (iord_data H s)) = tx_in s" "tx_out (snd (iord_data H s)) = tx_out s"
  "sent (snd (iord_data H s)) = sent s" "timeout (snd (iord_data H s)) = timeout s"
  "host_inactive (snd (iord_data H s)) = host_inactive s"
  "got (snd (iord_data H s)) =
     got s @ (if fst (iord_data H s) AND DATA_RVALID = 0 then [] else [ucast (fst (iord_data H s))])"
  by (simp_all add: iord_data_def split_beta Let_def)

lemma rx_put_logs [simp]: "got (rx_put c s) = got s" "sent (rx_put c s) = sent s"
  "timeout (rx_put c s) = timeout s" "host_inactive (rx_put c s) = host_inactive s"
  by (simp_all add: rx_put_def)

lemma moves_receive:
  assumes "uart_ok s" "length (rx_q s) < 2047" "fst (iord_data H s) AND DATA_RVALID \<noteq> 0"
  shows "moves s [] [] (rx_put (ucast (fst (iord_data H s))) (snd (iord_data H s)))"
proof -
  let ?t = "snd (iord_data H s)"
  have t: "uart_ok ?t" "rx_q ?t = rx_q s" "tx_q ?t = tx_q s"
    using assms(1) by (simp_all add: uart_ok_def rx_q_def tx_q_def)
  show ?thesis
    using rx_put_ok [OF t(1)] t assms(2,3) unfolding moves_def
    by (intro conjI exI [of _ "[ucast (fst (iord_data H s))]"] exI [of _ "[]"]) (simp_all add: calm_def)
qed

lemma rx_fill_ok:
  "uart_ok s \<Longrightarrow> \<exists>d s'. rx_fill H data s = Some (Inr (d, s')) \<and> moves s [] [] s'
     \<and> (length (rx_q s') = 2047 \<or> d AND DATA_RVALID = 0)"
proof (induction "2047 - length (rx_q s)" arbitrary: s data)
  case 0
  then have "length (rx_q s) = 2047" using rx_q_bound [of s] by simp
  with 0 rx_full [of s] show ?case by (subst rx_fill_step) (simp add: moves_refl)
next
  case (Suc n)
  let ?d = "fst (iord_data H s)" and ?t = "snd (iord_data H s)"
  let ?u = "rx_put (ucast ?d) ?t"
  have nf: "length (rx_q s) < 2047" using Suc.hyps(2) by simp
  then have a: "adv (rx_in s) 1 \<noteq> rx_out s" using rx_full [OF Suc.prems] by simp
  show ?case
  proof (cases "?d AND DATA_RVALID = 0")
    case True
    then have "moves s [] [] ?t" using Suc.prems by (intro same_rings) (simp_all add: calm_def)
    with True a show ?thesis by (subst rx_fill_step) (simp, metis prod.collapse)
  next
    case False
    have m: "moves s [] [] ?u" using moves_receive [OF Suc.prems nf False] .
    have "rx_q ?t = rx_q s" "uart_ok ?t" using Suc.prems by (simp_all add: rx_q_def uart_ok_def)
    then have "length (rx_q ?u) = Suc (length (rx_q s))"
      using rx_put_ok(2) [of ?t "ucast ?d"] nf by simp
    then have "n = 2047 - length (rx_q ?u)" using Suc.hyps(2) by simp
    from Suc.hyps(1) [OF this moves_ok [OF m], of ?d] obtain d s' where
      "rx_fill H ?d ?u = Some (Inr (d, s'))" "moves ?u [] [] s'"
      "length (rx_q s') = 2047 \<or> d AND DATA_RVALID = 0" by blast
    moreover have "\<not> length (rx_buf s) \<le> unat (rx_in s)" using uart_ok_less [OF Suc.prems] by simp
    ultimately show ?thesis using a False moves_then_quiet [OF m]
      by (subst rx_fill_step) auto
  qed
qed

lemma tx_empty: "uart_ok s \<Longrightarrow> tx_out s = tx_in s \<longleftrightarrow> tx_q s = []"
  using uart_ok_less [of s] contents_empty [of "unat (tx_in s)" 2048 "unat (tx_out s)" "tx_buf s"]
  by (auto simp: tx_q_def word_unat_eq_iff)

lemma tx_drain_ok:
  "uart_ok s \<Longrightarrow> \<exists>left s'. tx_drain H space s = Inr (left, s') \<and> moves s [] [] s'
     \<and> tx_q s' = drop space (tx_q s) \<and> left = space - length (tx_q s)"
proof (induction space arbitrary: s)
  case (Suc n)
  note l = uart_ok_less [OF Suc.prems]
  show ?case
  proof (cases "tx_out s = tx_in s")
    case True
    with Suc.prems tx_empty [OF Suc.prems] show ?thesis by (simp add: moves_refl)
  next
    case False
    then have ne: "tx_q s \<noteq> []" using tx_empty [OF Suc.prems] by simp
    then have av: "1 \<le> tx_avail s" by (cases "tx_q s") (auto simp: tx_avail_def)
    let ?c = "tx_buf s ! unat (tx_out s)"
    let ?t = "(iowr_data H ?c s)\<lparr>tx_out := adv (tx_out s) 1\<rparr>"
    have hd: "[?c] = take 1 (tx_q s)"
      using tx.get_q [OF Suc.prems av] l by (simp add: tx_get_def Cons_nth_drop_Suc [symmetric])
    have t: "uart_ok ?t" "tx_q ?t = drop 1 (tx_q s)" "rx_q ?t = rx_q s" "got ?t = got s"
      "sent ?t = sent s @ [?c]"
      using tx.get_good [OF Suc.prems av] tx.get_q [OF Suc.prems av]
      by (simp_all add: uart_ok_def tx_q_def rx_q_def tx_get_def iowr_data_def)
    have "[?c] @ tx_q ?t = tx_q s" unfolding hd t(2) by (rule append_take_drop_id)
    moreover have "calm s ?t" by (simp add: calm_def iowr_data_def)
    ultimately have m: "moves s [] [] ?t" using t by (auto simp: moves_def)
    obtain lft s' where r: "tx_drain H n ?t = Inr (lft, s')" "moves ?t [] [] s'"
      "tx_q s' = drop n (tx_q ?t)" "lft = n - length (tx_q ?t)" using Suc.IH [OF t(1)] by blast
    have "tx_drain H (Suc n) s = Inr (lft, s')" using False l r(1) by (simp add: iowr_data_def)
    moreover have "lft = Suc n - length (tx_q s)" using r(4) t(2) ne by (cases "tx_q s") simp_all
    moreover have "tx_q s' = drop (Suc n) (tx_q s)" using r(3) t(2) by simp
    ultimately show ?thesis using moves_then_quiet [OF m r(2)] by blast
  qed
qed (simp add: moves_refl)

lemma rx_irq_ok:
  assumes "uart_ok s"
  shows "\<exists>s'. rx_irq H s = Some (Inr s') \<and> moves s [] [] s'"
proof -
  from rx_fill_ok [OF assms, of H "0x10000"] obtain d s' where
    r: "rx_fill H 0x10000 s = Some (Inr (d, s'))" "moves s [] [] s'" by blast
  then show ?thesis
    using moves_then_quiet [OF r(2) moves_disable [OF moves_ok [OF r(2)]], of H CONTROL_RE]
    by (simp add: rx_irq_def)
qed

lemma tx_irq_ok:
  assumes "uart_ok s"
  shows "\<exists>s'. tx_irq H c s = Inr s' \<and> moves s [] [] s'"
proof -
  from tx_drain_ok [OF assms, of H "unat (drop_bit 16 c)"] obtain l s' where
    r: "tx_drain H (unat (drop_bit 16 c)) s = Inr (l, s')" "moves s [] [] s'" by blast
  then show ?thesis
    using moves_then_quiet [OF r(2) moves_disable [OF moves_ok [OF r(2)]], of H CONTROL_WE]
    by (simp add: tx_irq_def)
qed

lemma irq_body_ok:
  assumes ok: "uart_ok s"
  shows "\<exists>s'. irq_body H c s = Some (Inr s') \<and> moves s [] [] s'"
proof -
  obtain s1 where s1: "(if c AND CONTROL_RI \<noteq> 0 then rx_irq H s else Some (Inr s)) = Some (Inr s1)"
    "moves s [] [] s1"
    using rx_irq_ok [OF ok, of H] moves_refl [OF ok] by (cases "c AND CONTROL_RI = 0") auto
  obtain s2 where s2: "(if c AND CONTROL_WI \<noteq> 0 then tx_irq H c s1 else Inr s1) = Inr s2"
    "moves s1 [] [] s2"
    using tx_irq_ok [OF moves_ok [OF s1(2)], of H c] moves_refl [OF moves_ok [OF s1(2)]]
    by (cases "c AND CONTROL_WI = 0") auto
  have "irq_body H c s = Some (Inr s2)" unfolding irq_body_def s1(1) by (simp add: s2(1))
  then show ?thesis using moves_then_quiet [OF s1(2) s2(2)] by blast
qed

lemma irq_ok:
  assumes "altera_avalon_jtag_uart_irq H s = Some r" "uart_ok s"
  shows "\<exists>s'. r = Inr s' \<and> moves s [] [] s'"
  using assms
proof (induction H s r rule: altera_avalon_jtag_uart_irq.raw_induct [rotated, consumes 1, case_names step])
  case (step irq H s r)
  obtain c t where ct: "iord_control H s = (c, t)" by fastforce
  have t: "moves s [] [] t" using moves_iord_control [OF step.prems, of H] by (simp add: ct)
  obtain u where u: "irq_body H c t = Some (Inr u)" "moves t [] [] u"
    using irq_body_ok [OF moves_ok [OF t]] by blast
  show ?case
  proof (cases "c AND (CONTROL_RI OR CONTROL_WI) = 0")
    case True
    with step(2) ct have "r = Inr t" by auto
    with t show ?thesis by blast
  next
    case False
    with step(2) ct u(1) have "irq H u = Some r" by simp
    from step(1) [OF this moves_ok [OF u(2)]] t u(2) show ?thesis
      by (metis moves_then_quiet)
  qed
qed

section \<open>Waiting\<close>

lemma inc_bound: "i < INT_MAX - 2 \<Longrightarrow> i + 1 \<le> INT_MAX - (2 :: u32)"
  by (rule inc_le)

lemma serve_ok:
  assumes "serve H i s = Some r" "uart_ok s"
  shows "\<exists>s'. r = Inr s' \<and> moves s [] [] s'"
proof (cases i)
  case Irq
  then show ?thesis using assms irq_ok by (simp add: serve_def)
next
  case Second
  have "moves s [] [] (snd (altera_avalon_jtag_uart_timeout H 0 s))"
    by (rule same_rings [OF assms(2)])
      (auto simp: calm_def altera_avalon_jtag_uart_timeout_def inc_bound iord_control_def iowr_control_def Let_def split_beta)
  then show ?thesis using assms(1) Second by (auto simp: serve_def)
qed

lemma spin_ok:
  "spin H busy is s = Some r \<Longrightarrow> uart_ok s \<Longrightarrow>
   \<exists>is' s'. r = Inr (is', s') \<and> moves s [] [] s' \<and> \<not> (busy s' \<and> host_inactive s' < timeout s')"
proof (induction "is" arbitrary: s)
  case Nil
  then show ?case by (subst (asm) spin.simps) (auto split: if_splits simp: moves_refl)
next
  case (Cons i "is")
  show ?case
  proof (cases "busy s \<and> host_inactive s < timeout s")
    case False
    then have "r = Inr (i # is, s)" using Cons.prems(1) by (subst (asm) spin.simps) auto
    then show ?thesis using False Cons.prems(2) moves_refl by blast
  next
    case True
    obtain q where q: "serve H i s = Some q"
      using Cons.prems(1) True by (subst (asm) spin.simps) (auto split: option.splits)
    then obtain s1 where s1: "q = Inr s1" "moves s [] [] s1"
      using serve_ok [OF q Cons.prems(2)] by blast
    have "spin H busy is s1 = Some r"
      using Cons.prems(1) True q s1(1) by (subst (asm) spin.simps) simp
    from Cons.IH [OF this moves_ok [OF s1(2)]] show ?thesis
      using moves_then_quiet [OF s1(2)] by blast
  qed
qed

section \<open>Copying\<close>

lemma moves_take:
  assumes "uart_ok s" "n \<le> rx_avail s"
  shows "moves s (fst (rx_get n s)) [] (snd (rx_get n s))"
proof -
  have "got (snd (rx_get n s)) = got s" "sent (snd (rx_get n s)) = sent s"
    "tx_q (snd (rx_get n s)) = tx_q s" "calm s (snd (rx_get n s))"
    by (simp_all add: rx_get_def tx_q_def calm_def)
  with rx_get_ok [OF assms] show ?thesis by (simp add: moves_def)
qed

lemma read_copy_ok:
  "uart_ok s \<Longrightarrow> \<exists>s'. read_copy space s = Inr (take space (rx_q s), space - length (rx_q s), s')
     \<and> moves s (take space (rx_q s)) [] s' \<and> rx_q s' = drop space (rx_q s)"
proof (induction space s rule: read_copy.induct)
  case (1 space s)
  note ok = "1.prems"
  define n where "n = min (rx_avail s) space"
  have n: "n \<le> rx_avail s" "n \<le> space" by (simp_all add: n_def)
  note g = rx_get_ok [OF ok n(1)]
  note b = rx_avail_bounds [OF ok]
  have inb: "\<not> length (rx_buf s) < unat (rx_out s) + n" using g(4) uart_ok_less [OF ok] by simp
  obtain bs t where t: "rx_get n s = (bs, t)" by fastforce
  have gt: "uart_ok t" "bs = take n (rx_q s)" "rx_q t = drop n (rx_q s)" "moves s bs [] t"
    using g t moves_take [OF ok n(1)] by simp_all
  consider (empty) "rx_avail s = 0" | (more) "rx_avail s \<noteq> 0" "space - n > 0"
    | (full) "rx_avail s \<noteq> 0" "\<not> space - n > 0" by blast
  then show ?case
  proof cases
    case empty
    then show ?thesis using b(2) ok by (subst read_copy.simps) (simp add: moves_refl)
  next
    case more
    then have nn: "n = rx_avail s" by (simp add: n_def split: if_splits)
    from "1.IH" [OF n_def more(1) inb t [symmetric] refl more(2) gt(1)] obtain s' where
      s': "read_copy (space - n) t = Inr (take (space - n) (rx_q t), space - n - length (rx_q t), s')"
      "moves t (take (space - n) (rx_q t)) [] s'" "rx_q s' = drop (space - n) (rx_q t)" by blast
    have w: "take n (rx_q s) @ take (space - n) (drop n (rx_q s)) = take space (rx_q s)"
      using n(2) by (metis le_add_diff_inverse take_add)
    have "read_copy space s =
        map_sum id (\<lambda>(cs, r). (bs @ cs, r)) (read_copy (space - n) t)"
      using more inb t unfolding nn by (subst read_copy.simps) (auto simp: Let_def min_def nn [symmetric])
    also have "\<dots> = Inr (take space (rx_q s), space - length (rx_q s), s')"
      using s'(1) gt w b(1) nn by simp
    finally show ?thesis
      using moves_trans [OF gt(4) s'(2)] s'(3) gt w n(2) by (auto simp: add.commute)
  next
    case full
    then have nn: "n = space" using n(2) by simp
    have "read_copy space s = Inr (bs, 0, t)"
      using full inb t nn by (subst read_copy.simps) (simp add: Let_def n_def)
    moreover have "space - length (rx_q s) = 0" using b(1) n(1) nn by simp
    ultimately show ?thesis using gt nn by simp
  qed
qed

lemma write_copy_ok:
  "uart_ok s \<Longrightarrow> \<exists>s'. write_copy bs s = Inr (drop (2047 - length (tx_q s)) bs, s')
     \<and> moves s [] (take (2047 - length (tx_q s)) bs) s'
     \<and> host_inactive s' = host_inactive s \<and> timeout s' = timeout s"
proof (induction bs s rule: write_copy.induct)
  case (1 bs s)
  note ok = "1.prems"
  note l = uart_ok_less [OF ok]
  have room: "tx_room s \<le> 2047 - length (tx_q s)" "tx_room s = 0 \<longleftrightarrow> length (tx_q s) = 2047"
    using tx_room_eq [OF ok] l by (auto simp: tx_q_def used_def split: if_splits)
  have bound: "length (tx_q s) \<le> 2047"
    using used_less [of "unat (tx_in s)" 2048 "unat (tx_out s)"] l by (simp add: tx_q_def)
  show ?case
  proof (cases "bs = [] \<or> tx_room s = 0")
    case True
    then show ?thesis using ok room(2) by (subst write_copy.simps) (auto simp: moves_refl Let_def)
  next
    case False
    define n where "n = min (tx_room s) (length bs)"
    have n: "n \<le> tx_room s" "n \<le> length bs" "length (take n bs) = n" by (simp_all add: n_def)
    define t where "t = tx_put (take n bs) s"
    have p: "uart_ok t" "tx_q t = tx_q s @ take n bs" "rx_q t = rx_q s" "unat (tx_in s) + n \<le> 2048"
      using tx_put_ok [OF ok, of "take n bs"] n by (simp_all add: t_def)
    have f: "got t = got s" "sent t = sent s" "host_inactive t = host_inactive s" "timeout t = timeout s"
      by (simp_all add: t_def tx_put_def)
    have inb: "\<not> length (tx_buf s) < unat (tx_in s) + n" using p(4) l by simp
    from "1.IH" [OF n_def False inb] p(1) obtain s' where
      s': "write_copy (drop n bs) t = Inr (drop (2047 - length (tx_q t)) (drop n bs), s')"
      "moves t [] (take (2047 - length (tx_q t)) (drop n bs)) s'"
      "host_inactive s' = host_inactive t" "timeout s' = timeout t" unfolding t_def by blast
    have k: "n + (2047 - length (tx_q t)) = 2047 - length (tx_q s)"
      using p(2) n room(1) bound by simp
    have "write_copy bs s = write_copy (drop n bs) t"
      using False inb by (subst write_copy.simps) (simp add: Let_def n_def t_def)
    moreover have m: "moves s [] (take n bs) t" using p f by (simp add: moves_def calm_def)
    moreover have "take n bs @ take (2047 - length (tx_q t)) (drop n bs)
        = take (2047 - length (tx_q s)) bs" using k by (metis take_add)
    ultimately show ?thesis
      using s' moves_trans [OF m s'(2)] k f by (auto simp: add.commute)
  qed
qed


section \<open>The two loops\<close>

lemma host_fields [simp]:
  "host_inactive (enable_irq H m s) = host_inactive s" "timeout (enable_irq H m s) = timeout s"
  "rx_in (enable_irq H m s) = rx_in s" "tx_out (enable_irq H m s) = tx_out s"
  by (simp_all add: enable_irq_def iowr_control_def Let_def)

lemma read_loop_ok:
  assumes "read_loop H space flags is s = Some r" "uart_ok s"
  shows "\<exists>bs is' s'. r = Inr (bs, is', s') \<and> moves s bs [] s' \<and> length bs \<le> space
     \<and> (bs = [] \<longrightarrow> space = 0 \<or> flags AND NONBLOCK \<noteq> 0 \<or> timeout s' \<le> host_inactive s')"
  using assms
proof (induction H space flags "is" s r rule: read_loop.raw_induct [rotated, consumes 1, case_names step])
  case (step loop H space flags "is" s r)
  let ?bs = "take space (rx_q s)" and ?left = "space - length (rx_q s)"
  obtain t where t: "read_copy space s = Inr (?bs, ?left, t)" "moves s ?bs [] t"
    using read_copy_ok [OF step.prems, of space] by blast
  show ?case
  proof (cases "?bs \<noteq> [] \<or> flags AND NONBLOCK \<noteq> 0")
    case True
    then have r: "r = Inr (?bs, is, t)" using step(2) t(1) by auto
    have "length ?bs \<le> space" by simp
    with r t(2) True show ?thesis by blast
  next
    case False
    then have b: "?bs = []" by blast
    obtain q where q: "spin H (\<lambda>s'. rx_in s' = rx_in t) is t = Some q"
      using step(2) t(1) False by (auto split: option.splits)
    from spin_ok [OF q moves_ok [OF t(2)]] obtain is1 s1 where
      s1: "q = Inr (is1, s1)" "moves t [] [] s1"
      "\<not> (rx_in s1 = rx_in t \<and> host_inactive s1 < timeout s1)" by blast
    have m: "moves s [] [] s1" using moves_then_quiet [OF t(2) s1(2)] b by simp
    show ?thesis
    proof (cases "rx_in s1 = rx_in t")
      case True
      then have "r = Inr ([], is1, s1)" using step(2) t(1) False q s1(1) b by simp
      moreover have "timeout s1 \<le> host_inactive s1" using s1(3) True by simp
      ultimately show ?thesis using m by auto
    next
      case neq: False
      have "loop H ?left flags is1 s1 = Some r" using step(2) t(1) False q s1(1) neq b by simp
      from step(1) [OF this moves_ok [OF m]] obtain cs is' s' where
        c: "r = Inr (cs, is', s')" "moves s1 cs [] s'" "length cs \<le> ?left"
        "cs = [] \<longrightarrow> ?left = 0 \<or> flags AND NONBLOCK \<noteq> 0 \<or> timeout s' \<le> host_inactive s'" by blast
      have "?left = space" using b by (cases "rx_q s"; cases space) simp_all
      with c moves_trans [OF m c(2)] show ?thesis by auto
    qed
  qed
qed

lemma write_loop_ok:
  assumes "write_loop H bs flags is s = Some r" "uart_ok s"
  shows "\<exists>sent rest is' s'. r = Inr (rest, is', s') \<and> bs = sent @ rest \<and> moves s [] sent s'
     \<and> (rest = [] \<or> flags AND NONBLOCK \<noteq> 0 \<or> host_inactive s' \<noteq> 0)"
  using assms
proof (induction H bs flags "is" s r rule: write_loop.raw_induct [rotated, consumes 1, case_names step])
  case (step loop H bs flags "is" s r)
  define k where "k = 2047 - length (tx_q s)"
  obtain t where t: "write_copy bs s = Inr (drop k bs, t)" "moves s [] (take k bs) t"
    using write_copy_ok [OF step.prems, of bs] unfolding k_def by blast
  define u where "u = enable_irq H CONTROL_WE t"
  have u: "moves s [] (take k bs) u"
    using moves_then_quiet [OF t(2) moves_enable [OF moves_ok [OF t(2)]]] by (simp add: u_def)
  have split: "bs = take k bs @ drop k bs" by simp
  show ?case
  proof (cases "drop k bs = [] \<or> flags AND NONBLOCK \<noteq> 0")
    case True
    then have "r = Inr (drop k bs, is, u)" using step(2) t(1) by (auto simp: u_def Let_def)
    with u True split show ?thesis by blast
  next
    case False
    obtain q where q: "spin H (\<lambda>s'. tx_out s' = tx_out u) is u = Some q"
      using step(2) t(1) False by (auto simp: Let_def u_def split: option.splits)
    from spin_ok [OF q moves_ok [OF u]] obtain is1 s1 where
      s1: "q = Inr (is1, s1)" "moves u [] [] s1" by blast
    note m = moves_then_quiet [OF u s1(2)]
    show ?thesis
    proof (cases "host_inactive s1 \<noteq> 0")
      case True
      then have "r = Inr (drop k bs, is1, s1)"
        using step(2) t(1) False q s1(1) by (simp add: Let_def u_def)
      with m True split show ?thesis by blast
    next
      case act: False
      have "loop H (drop k bs) flags is1 s1 = Some r"
        using step(2) t(1) False q s1(1) act by (simp add: Let_def u_def)
      from step(1) [OF this moves_ok [OF m]] obtain sn rest is' s' where
        c: "r = Inr (rest, is', s')" "drop k bs = sn @ rest" "moves s1 [] sn s'"
        "rest = [] \<or> flags AND NONBLOCK \<noteq> 0 \<or> host_inactive s' \<noteq> 0" by blast
      have "bs = (take k bs @ sn) @ rest" using split c(2) by simp
      moreover have "moves s [] (take k bs @ sn) s'" using moves_trans [OF m c(3)] by simp
      ultimately show ?thesis using c(1,4) by blast
    qed
  qed
qed

end
