(* ===== verification/UartClaims.thy ===== *)
theory UartClaims
  imports UartProps
begin

text \<open>
  What the UART driver promises to its callers, over sessions: an initialised driver, then calls
  through the device table and interrupts in any order.
\<close>

section \<open>Sessions\<close>

text \<open>The state before initialisation: static storage, and the default timeout of the macro.\<close>

definition uart_static :: "'h \<Rightarrow> 'h uart" where
  "uart_static h = \<lparr>hw = h, timeout = 10, irq_enable = 0, host_inactive = 0, rx_in = 0, rx_out = 0,
     tx_in = 0, tx_out = 0, rx_buf = replicate BUF_LEN 0, tx_buf = replicate BUF_LEN 0,
     got = [], sent = []\<rparr>"

text \<open>
  \<open>session H a h rs ws s\<close>: after initialisation with the alarm result \<open>a\<close>, callers have read the
  bytes \<open>rs\<close> and been told that the bytes \<open>ws\<close> were accepted.
\<close>

inductive session :: "'h jtag \<Rightarrow> int \<Rightarrow> 'h \<Rightarrow> u8 list \<Rightarrow> u8 list \<Rightarrow> 'h uart \<Rightarrow> bool"
  for H :: "'h jtag" and a :: int and h :: 'h where
  boot: "session H a h [] [] (altera_avalon_jtag_uart_init H a (uart_static h))"
| read_call: "session H a h rs ws s \<Longrightarrow>
    altera_avalon_jtag_uart_read_fd H fd space is s = Some (Inr (v, bs, is', s')) \<Longrightarrow>
    session H a h (rs @ bs) ws s'"
| write_call: "session H a h rs ws s \<Longrightarrow>
    altera_avalon_jtag_uart_write_fd H fd bs is s = Some (Inr (v, is', s')) \<Longrightarrow>
    session H a h rs (ws @ take (nat v) bs) s'"
| close_call: "session H a h rs ws s \<Longrightarrow>
    altera_avalon_jtag_uart_close_fd H fd is s = Some (Inr (v, is', s')) \<Longrightarrow>
    session H a h rs ws s'"
| ioctl_call: "session H a h rs ws s \<Longrightarrow>
    altera_avalon_jtag_uart_ioctl_fd fd req arg s = (v, arg', s') \<Longrightarrow> session H a h rs ws s'"
| occur: "session H a h rs ws s \<Longrightarrow> serve H i s = Some (Inr s') \<Longrightarrow> session H a h rs ws s'"

section \<open>The calls\<close>

lemma read_ok:
  assumes "altera_avalon_jtag_uart_read H space flags is s = Some r" "uart_ok s"
  shows "\<exists>v bs is' s'. r = Inr (v, bs, is', s') \<and> moves s bs [] s'
     \<and> (if bs \<noteq> [] then v = int (length bs) \<and> v \<le> space
        else if flags AND NONBLOCK \<noteq> 0 then v = - EWOULDBLOCK
        else v = - EIO \<and> (space \<le> 0 \<or> timeout s' \<le> host_inactive s'))"
proof (cases "space > 0")
  case True
  then obtain q where q: "read_loop H (nat space) flags is s = Some q"
    using assms(1) by (auto simp: altera_avalon_jtag_uart_read_def)
  from read_loop_ok [OF q assms(2)] obtain bs is' s' where
    l: "q = Inr (bs, is', s')" "moves s bs [] s'" "length bs \<le> nat space"
    "bs = [] \<longrightarrow> nat space = 0 \<or> flags AND NONBLOCK \<noteq> 0 \<or> timeout s' \<le> host_inactive s'" by blast
  have e: "moves s bs [] (enable_irq H CONTROL_RE s')"
    using moves_then_quiet [OF l(2) moves_enable [OF moves_ok [OF l(2)]]] .
  show ?thesis
  proof (cases "bs = []")
    case True
    then have "r = Inr (if flags AND NONBLOCK \<noteq> 0 then - EWOULDBLOCK else - EIO, [], is', s')"
      using assms(1) q l(1) \<open>space > 0\<close> by (simp add: altera_avalon_jtag_uart_read_def)
    then show ?thesis using l(2,4) True \<open>space > 0\<close> by (intro exI conjI) auto
  next
    case False
    then have "r = Inr (int (length bs), bs, is', enable_irq H CONTROL_RE s')"
      using assms(1) q l(1) \<open>space > 0\<close> by (simp add: altera_avalon_jtag_uart_read_def)
    moreover have "int (length bs) \<le> space" using l(3) \<open>space > 0\<close> by linarith
    ultimately show ?thesis using e False by auto
  qed
next
  case False
  then have "r = Inr (if flags AND NONBLOCK \<noteq> 0 then - EWOULDBLOCK else - EIO, [], is, s)"
    using assms(1) by (simp add: altera_avalon_jtag_uart_read_def)
  then show ?thesis using moves_refl [OF assms(2)] False by (intro exI conjI) auto
qed

lemma write_ok:
  assumes "altera_avalon_jtag_uart_write H bs flags is s = Some r" "uart_ok s"
  shows "\<exists>v is' s'. r = Inr (v, is', s') \<and> moves s [] (take (nat v) bs) s' \<and> v \<le> int (length bs)
     \<and> (v = int (length bs) \<or> flags AND NONBLOCK \<noteq> 0 \<or> host_inactive s' \<noteq> 0 \<or> bs = [])
     \<and> (v \<le> 0 \<longrightarrow> v = (if flags AND NONBLOCK \<noteq> 0 then - EWOULDBLOCK else - EIO))"
proof -
  obtain q where q: "write_loop H bs flags is s = Some q"
    using assms(1) by (auto simp: altera_avalon_jtag_uart_write_def)
  from write_loop_ok [OF q assms(2)] obtain sn rest is' s' where
    w: "q = Inr (rest, is', s')" "bs = sn @ rest" "moves s [] sn s'"
    "rest = [] \<or> flags AND NONBLOCK \<noteq> 0 \<or> host_inactive s' \<noteq> 0" by blast
  define v where "v = (if sn \<noteq> [] then int (length sn)
     else if flags AND NONBLOCK \<noteq> 0 then - EWOULDBLOCK else - EIO)"
  have "r = Inr (v, is', s')"
    using assms(1) q w(1,2) by (auto simp: altera_avalon_jtag_uart_write_def v_def)
  moreover have "take (nat v) bs = sn" using w(2) by (simp add: v_def)
  ultimately show ?thesis using w by (auto simp: v_def)
qed

lemma close_ok:
  assumes "altera_avalon_jtag_uart_close H flags is s = Some r" "uart_ok s"
  shows "\<exists>v is' s'. r = Inr (v, is', s') \<and> moves s [] [] s'
     \<and> (v = 0 \<and> (tx_q s' = [] \<or> timeout s' \<le> host_inactive s')
        \<or> v = - EWOULDBLOCK \<and> flags AND NONBLOCK \<noteq> 0 \<and> tx_q s \<noteq> [] \<and> s' = s)"
proof (cases "tx_out s \<noteq> tx_in s \<and> host_inactive s < timeout s \<and> flags AND NONBLOCK \<noteq> 0")
  case True
  then show ?thesis
    using assms tx_empty [OF assms(2)] by (auto simp: altera_avalon_jtag_uart_close_def moves_refl)
next
  case False
  then obtain q where q: "spin H (\<lambda>s. tx_out s \<noteq> tx_in s) is s = Some q"
    using assms(1) by (auto simp: altera_avalon_jtag_uart_close_def)
  from spin_ok [OF q assms(2)] obtain is' s' where
    p: "q = Inr (is', s')" "moves s [] [] s'"
    "\<not> (tx_out s' \<noteq> tx_in s' \<and> host_inactive s' < timeout s')" by blast
  then show ?thesis
    using assms(1) False q tx_empty [OF moves_ok [OF p(2)]]
    by (auto simp: altera_avalon_jtag_uart_close_def)
qed

lemma ioctl_fields:
  "altera_avalon_jtag_uart_ioctl req arg s = (v, arg', s') \<Longrightarrow>
   \<exists>t. s' = s\<lparr>timeout := t\<rparr> \<and> (timeout s = INT_MAX \<longrightarrow> t = INT_MAX)"
  by (auto simp: altera_avalon_jtag_uart_ioctl_def split: if_splits
      intro: exI [of _ "timeout s"])

section \<open>Every state of a session\<close>

definition faithful :: "u8 list \<Rightarrow> u8 list \<Rightarrow> 'h uart \<Rightarrow> bool" where
  "faithful rs ws s \<longleftrightarrow> uart_ok s \<and> rs @ rx_q s = got s \<and> sent s @ tx_q s = ws"

lemma faithful_moves:
  "faithful rs ws s \<Longrightarrow> moves s r a s' \<Longrightarrow> faithful (rs @ r) (ws @ a) s'"
  unfolding faithful_def moves_def by (metis append_assoc)

lemma faithful_init: "faithful [] [] (altera_avalon_jtag_uart_init H a (uart_static h))"
  by (simp add: faithful_def altera_avalon_jtag_uart_init_def uart_static_def iowr_control_def
      uart_ok_def ring_ok_def rx_q_def tx_q_def contents_def used_def Let_def)

lemma session_faithful: "session H a h rs ws s \<Longrightarrow> faithful rs ws s"
proof (induction rule: session.induct)
  case boot
  then show ?case by (rule faithful_init)
next
  case (read_call rs ws s fd space "is" v bs is' s')
  then show ?case
    using read_ok [of H space "fd_flags fd" "is" s] faithful_moves [OF read_call.IH]
    by (fastforce simp: altera_avalon_jtag_uart_read_fd_def faithful_def)
next
  case (write_call rs ws s fd bs "is" v is' s')
  then show ?case
    using write_ok [of H bs "fd_flags fd" "is" s] faithful_moves [OF write_call.IH]
    by (fastforce simp: altera_avalon_jtag_uart_write_fd_def faithful_def)
next
  case (close_call rs ws s fd "is" v is' s')
  then show ?case
    using close_ok [of H "fd_flags fd" "is" s] faithful_moves [OF close_call.IH]
    by (fastforce simp: altera_avalon_jtag_uart_close_fd_def faithful_def)
next
  case (ioctl_call rs ws s fd req arg v arg' s')
  then obtain t where "s' = s\<lparr>timeout := t\<rparr>"
    using ioctl_fields [of req arg s v arg' s'] by (auto simp: altera_avalon_jtag_uart_ioctl_fd_def)
  with ioctl_call.IH show ?case by (simp add: faithful_def uart_ok_def rx_q_def tx_q_def)
next
  case (occur rs ws s i s')
  then show ?case
    using serve_ok [of H i s] faithful_moves [OF occur.IH] by (fastforce simp: faithful_def)
qed

lemma session_ok: "session H a h rs ws s \<Longrightarrow> uart_ok s"
  by (drule session_faithful) (simp add: faithful_def)

text \<open>Without an alarm the host always counts as present.\<close>

definition patient :: "'h uart \<Rightarrow> bool" where
  "patient s \<longleftrightarrow> timeout s = INT_MAX \<and> host_inactive s \<le> INT_MAX - 2"

lemma patient_moves: "patient s \<Longrightarrow> moves s r b s' \<Longrightarrow> patient s'"
  by (simp add: patient_def moves_def calm_def)

lemma patient_waits: "patient s \<Longrightarrow> host_inactive s < timeout s"
  by (auto simp: patient_def INT_MAX_def intro: le_less_trans [of _ "0x7FFFFFFD"])

lemma session_patient: "session H a h rs ws s \<Longrightarrow> a < 0 \<Longrightarrow> patient s"
proof (induction rule: session.induct)
  case boot
  then show ?case
    by (simp add: patient_def altera_avalon_jtag_uart_init_def uart_static_def iowr_control_def)
next
  case (read_call rs ws s fd space "is" v bs is' s')
  then show ?case
    using read_ok [of H space "fd_flags fd" "is" s] patient_moves session_ok
    by (fastforce simp: altera_avalon_jtag_uart_read_fd_def)
next
  case (write_call rs ws s fd bs "is" v is' s')
  then show ?case
    using write_ok [of H bs "fd_flags fd" "is" s] patient_moves session_ok
    by (fastforce simp: altera_avalon_jtag_uart_write_fd_def)
next
  case (close_call rs ws s fd "is" v is' s')
  then show ?case
    using close_ok [of H "fd_flags fd" "is" s] patient_moves session_ok
    by (fastforce simp: altera_avalon_jtag_uart_close_fd_def)
next
  case (ioctl_call rs ws s fd req arg v arg' s')
  then show ?case
    using ioctl_fields by (fastforce simp: altera_avalon_jtag_uart_ioctl_fd_def patient_def)
next
  case (occur rs ws s i s')
  then show ?case using serve_ok [of H i s] patient_moves session_ok by fastforce
qed

section \<open>A silent host\<close>

lemma silent_second:
  assumes "\<forall>h. fst (rd_control H h) AND CONTROL_AC = 0" "host_inactive s < timeout s"
    "timeout s \<le> INT_MAX - 2"
  shows "serve H Second s =
    Some (Inr (s\<lparr>hw := snd (rd_control H (hw s)), host_inactive := host_inactive s + 1\<rparr>))"
  using assms less_le_trans [OF assms(2,3)]
  by (simp add: serve_def altera_avalon_jtag_uart_timeout_def iord_control_def split_beta Let_def)

lemma spin_silent:
  assumes "\<forall>h. fst (rd_control H h) AND CONTROL_AC = 0"
  shows "timeout s \<le> INT_MAX - 2 \<Longrightarrow> \<forall>h i. busy (s\<lparr>hw := h, host_inactive := i\<rparr>) \<Longrightarrow>
    unat (timeout s) - unat (host_inactive s) \<le> n \<Longrightarrow>
    \<exists>is' h i. spin H busy (replicate n Second) s = Some (Inr (is', s\<lparr>hw := h, host_inactive := i\<rparr>))
      \<and> timeout s \<le> i"
proof (induction n arbitrary: s)
  case 0
  then have "timeout s \<le> host_inactive s" by (simp add: word_le_nat_alt)
  then have "spin H busy [] s = Some (Inr ([], s\<lparr>hw := hw s, host_inactive := host_inactive s\<rparr>))"
    by (subst spin.simps) (simp add: not_less)
  then show ?case using \<open>timeout s \<le> host_inactive s\<close> by (metis replicate_0)
next
  case (Suc n)
  show ?case
  proof (cases "host_inactive s < timeout s")
    case False
    then have "spin H busy (replicate (Suc n) Second) s =
        Some (Inr (replicate (Suc n) Second, s\<lparr>hw := hw s, host_inactive := host_inactive s\<rparr>))"
      by (subst spin.simps) simp
    then show ?thesis using False by (metis not_less)
  next
    case True
    let ?t = "s\<lparr>hw := snd (rd_control H (hw s)), host_inactive := host_inactive s + 1\<rparr>"
    have "unat (host_inactive s + 1) = Suc (unat (host_inactive s))"
      using True unsigned_less [of "timeout s", where ?'a = nat]
      by (simp add: word_less_nat_alt unat_word_ariths)
    then have n: "unat (timeout ?t) - unat (host_inactive ?t) \<le> n" using Suc.prems(3) by simp
    have "busy (s\<lparr>hw := hw s, host_inactive := host_inactive s\<rparr>)" using Suc.prems(2) by blast
    then have step: "spin H busy (replicate (Suc n) Second) s = spin H busy (replicate n Second) ?t"
      using True silent_second [OF assms True Suc.prems(1)] by (subst spin.simps) simp
    have "\<exists>is' h i. spin H busy (replicate n Second) ?t =
        Some (Inr (is', ?t\<lparr>hw := h, host_inactive := i\<rparr>)) \<and> timeout ?t \<le> i"
      by (rule Suc.IH [OF _ _ n]) (use Suc.prems in simp_all)
    then show ?thesis unfolding step by simp
  qed
qed

lemma read_loop_silent:
  assumes "uart_ok s" "\<forall>h. fst (rd_control H h) AND CONTROL_AC = 0" "timeout s \<le> INT_MAX - 2"
    "unat (timeout s) - unat (host_inactive s) \<le> n" "flags AND NONBLOCK = 0" "rx_q s = []"
  shows "\<exists>is' s'. read_loop H space flags (replicate n Second) s = Some (Inr ([], is', s'))"
proof -
  have c: "read_copy space s = Inr ([], space, s)"
    using rx_avail_bounds(2) [OF assms(1)] assms(6) by (subst read_copy.simps) simp
  have "\<forall>h i. rx_in (s\<lparr>hw := h, host_inactive := i\<rparr>) = rx_in s" by simp
  from spin_silent [OF assms(2,3) this assms(4)] obtain is' h i where
    "spin H (\<lambda>s'. rx_in s' = rx_in s) (replicate n Second) s
       = Some (Inr (is', s\<lparr>hw := h, host_inactive := i\<rparr>))" by blast
  then show ?thesis using c assms(5) by (subst read_loop.simps) simp
qed

lemma write_loop_silent:
  assumes "uart_ok s" "\<forall>h. fst (rd_control H h) AND CONTROL_AC = 0" "timeout s \<le> INT_MAX - 2"
    "unat (timeout s) - unat (host_inactive s) \<le> n" "flags AND NONBLOCK = 0" "0 < timeout s"
  shows "\<exists>is' s'. write_loop H bs flags (replicate n Second) s =
    Some (Inr (drop (2047 - length (tx_q s)) bs, is', s'))"
proof -
  define k where "k = 2047 - length (tx_q s)"
  obtain t where t: "write_copy bs s = Inr (drop k bs, t)" "host_inactive t = host_inactive s"
    "timeout t = timeout s" using write_copy_ok [OF assms(1), of bs] unfolding k_def by blast
  let ?u = "enable_irq H CONTROL_WE t"
  show ?thesis
  proof (cases "drop k bs = []")
    case True
    then show ?thesis using t(1) by (subst write_loop.simps) (simp add: k_def Let_def)
  next
    case False
    have u: "timeout ?u \<le> INT_MAX - 2" "unat (timeout ?u) - unat (host_inactive ?u) \<le> n"
      "\<forall>h i. tx_out (?u\<lparr>hw := h, host_inactive := i\<rparr>) = tx_out ?u"
      using assms(3,4) t by simp_all
    from spin_silent [OF assms(2) u(1,3,2)] obtain is' h i where
      p: "spin H (\<lambda>s'. tx_out s' = tx_out ?u) (replicate n Second) ?u
         = Some (Inr (is', ?u\<lparr>hw := h, host_inactive := i\<rparr>))" "timeout ?u \<le> i" by blast
    have "i \<noteq> 0" using p(2) t assms(6) by auto
    then show ?thesis using p(1) t False assms(5) unfolding k_def
      by (subst write_loop.simps) (simp add: Let_def)
  qed
qed

section \<open>Concrete device\<close>

text \<open>A device without host: no character arrives, nothing is sent, no activity is seen.\<close>

definition dead_host :: "unit jtag" where
  "dead_host = \<lparr>rd_control = \<lambda>h. (0, h), rd_data = \<lambda>h. (0, h), wr_control = \<lambda>v h. h, wr_data = \<lambda>v h. h\<rparr>"

definition nonblocking_fd :: alt_fd where
  "nonblocking_fd = \<lparr>fd_dev = Some 1, fd_priv = 0, fd_flags = NONBLOCK OR 2\<rparr>"

definition blocking_fd :: alt_fd where
  "blocking_fd = \<lparr>fd_dev = Some 1, fd_priv = 0, fd_flags = 2\<rparr>"

lemma static_queues [simp]:
  "uart_ok (uart_static h)" "rx_q (uart_static h) = []" "tx_q (uart_static h) = []"
  "timeout (uart_static h) = 10" "host_inactive (uart_static h) = 0"
  by (simp_all add: uart_static_def uart_ok_def ring_ok_def rx_q_def tx_q_def contents_def used_def)

lemma init_queues [simp]:
  "uart_ok (altera_avalon_jtag_uart_init H a (uart_static h))"
  "tx_q (altera_avalon_jtag_uart_init H a (uart_static h)) = []"
  "rx_q (altera_avalon_jtag_uart_init H a (uart_static h)) = []"
  using faithful_init [of H a h]
  by (simp_all add: faithful_def altera_avalon_jtag_uart_init_def uart_static_def iowr_control_def
      Let_def tx_q_def rx_q_def contents_def used_def)

lemma ready_read:
  assumes "uart_ok s" "flags AND NONBLOCK \<noteq> 0 \<or> 0 < space \<and> rx_q s \<noteq> []"
  shows "\<exists>s'. altera_avalon_jtag_uart_read H space flags is s =
      Some (Inr (if take (nat space) (rx_q s) = [] then - EWOULDBLOCK
                 else int (length (take (nat space) (rx_q s))), take (nat space) (rx_q s), is, s'))
    \<and> rx_q s' = drop (nat space) (rx_q s)"
proof (cases "space > 0")
  case True
  obtain t where t: "read_copy (nat space) s =
      Inr (take (nat space) (rx_q s), nat space - length (rx_q s), t)"
    "rx_q t = drop (nat space) (rx_q s)"
    using read_copy_ok [OF assms(1), of "nat space"] by blast
  have "read_loop H (nat space) flags is s = Some (Inr (take (nat space) (rx_q s), is, t))"
    using t(1) assms(2) True by (subst read_loop.simps) (auto simp: take_eq_Nil)
  moreover have "rx_q (enable_irq H CONTROL_RE t) = rx_q t"
    by (simp add: rx_q_def enable_irq_def iowr_control_def Let_def)
  ultimately show ?thesis
    using t(2) True assms(2) by (cases "take (nat space) (rx_q s) = []")
      (auto simp: altera_avalon_jtag_uart_read_def)
next
  case False
  then show ?thesis using assms by (simp add: altera_avalon_jtag_uart_read_def)
qed

lemma nonblocking_write:
  assumes "uart_ok s" "flags AND NONBLOCK \<noteq> 0"
  shows "\<exists>s'. altera_avalon_jtag_uart_write H bs flags is s =
      Some (Inr (if take (2047 - length (tx_q s)) bs = [] then - EWOULDBLOCK
                 else int (length (take (2047 - length (tx_q s)) bs)), is, s'))
    \<and> moves s [] (take (2047 - length (tx_q s)) bs) s'"
proof -
  define k where "k = 2047 - length (tx_q s)"
  obtain t where t: "write_copy bs s = Inr (drop k bs, t)" "moves s [] (take k bs) t"
    using write_copy_ok [OF assms(1), of bs] unfolding k_def by blast
  have l: "write_loop H bs flags is s = Some (Inr (drop k bs, is, enable_irq H CONTROL_WE t))"
    using t(1) assms(2) by (subst write_loop.simps) (simp add: Let_def)
  have "altera_avalon_jtag_uart_write H bs flags is s =
      Some (Inr (if take k bs = [] then - EWOULDBLOCK else int (length (take k bs)), is,
                 enable_irq H CONTROL_WE t))"
    using assms(2) by (cases "take k bs = []") (auto simp: altera_avalon_jtag_uart_write_def l min_def)
  then show ?thesis
    using moves_then_quiet [OF t(2) moves_enable [OF moves_ok [OF t(2)]]] unfolding k_def by blast
qed

section \<open>Properties\<close>


lemma session_two_bytes:
  "\<exists>s. session dead_host (- 1) () [] [72, 105] s"
proof -
  let ?s = "altera_avalon_jtag_uart_init dead_host (- 1) (uart_static ())"
  have f: "fd_flags nonblocking_fd AND NONBLOCK \<noteq> 0" by (simp add: nonblocking_fd_def)
  obtain s' where "altera_avalon_jtag_uart_write_fd dead_host nonblocking_fd [72, 105] [] ?s
      = Some (Inr (2, [], s'))"
    using nonblocking_write [OF init_queues(1) f, where H = dead_host and bs = "[72, 105]" and ?is = "[]"]
    by (auto simp: altera_avalon_jtag_uart_write_fd_def)
  from session.write_call [OF session.boot this] show ?thesis by auto
qed




text \<open>
  In non-blocking mode both calls return at once, without waiting for any interrupt:
  read delivers the first bytes of the receive ring, as many as there are up to the space given,
  and write accepts as many of the first bytes as the transmit ring has room for; -EWOULDBLOCK
  is returned exactly when that is none.
\<close>

theorem uart_nonblocking_calls:
  assumes "uart_ok s" "fd_flags fd AND NONBLOCK \<noteq> 0"
  shows "\<exists>s' s''.
      (let bs = take (nat space) (rx_q s)
       in altera_avalon_jtag_uart_read_fd H fd space is s =
            Some (Inr (if bs = [] then - EWOULDBLOCK else int (length bs), bs, is, s'))
          \<and> rx_q s' = drop (nat space) (rx_q s))
    \<and> (let bs = take (2047 - length (tx_q s)) buffer
       in altera_avalon_jtag_uart_write_fd H fd buffer is s =
            Some (Inr (if bs = [] then - EWOULDBLOCK else int (length bs), is, s''))
          \<and> moves s [] bs s'')"
  using ready_read [OF assms(1) disjI1 [OF assms(2)], of H space "is"] nonblocking_write [OF assms, of H buffer "is"]
  unfolding altera_avalon_jtag_uart_read_fd_def altera_avalon_jtag_uart_write_fd_def Let_def by blast

lemma uart_nonblocking_calls_witness:
  "\<exists>s'. altera_avalon_jtag_uart_write_fd dead_host nonblocking_fd [7, 8, 9] [] (uart_static ()) =
     Some (Inr (3, [], s'))"
  using uart_nonblocking_calls [OF static_queues(1), where fd = nonblocking_fd and H = dead_host and space = 0 and
      ?is = "[]" and buffer = "[7, 8, 9]"]
  by (auto simp: nonblocking_fd_def Let_def)



text \<open>
  Without a system clock, where the alarm cannot be started, the driver never gives up:
  in every session a blocking read with space, when it returns, returns data, and the requests to set
  or query the timeout fail with -ENOTTY.
\<close>

theorem uart_without_clock_waits:
  assumes "session H a h rs ws s" "a < 0" "fd_flags fd AND NONBLOCK = 0" "0 < space"
    "altera_avalon_jtag_uart_read_fd H fd space is s = Some r"
  shows "\<exists>v bs is' s'. r = Inr (v, bs, is', s') \<and> 0 < v \<and> v = int (length bs)
    \<and> altera_avalon_jtag_uart_ioctl_fd fd req arg s' = (- ENOTTY, arg, s')"
proof -
  have "altera_avalon_jtag_uart_read H space (fd_flags fd) is s = Some r"
    using assms(5) by (simp add: altera_avalon_jtag_uart_read_fd_def)
  from read_ok [OF this session_ok [OF assms(1)]] obtain v bs is' s' where
    r: "r = Inr (v, bs, is', s')" "moves s bs [] s'"
    "if bs \<noteq> [] then v = int (length bs) \<and> v \<le> space
     else if fd_flags fd AND NONBLOCK \<noteq> 0 then v = - EWOULDBLOCK
     else v = - EIO \<and> (space \<le> 0 \<or> timeout s' \<le> host_inactive s')" by blast
  have p: "patient s'" using patient_moves [OF session_patient [OF assms(1,2)] r(2)] .
  then have "bs \<noteq> []" using r(3) assms(3,4) patient_waits [OF p] by (auto split: if_splits)
  then show ?thesis using r p
    by (auto simp: patient_def altera_avalon_jtag_uart_ioctl_fd_def altera_avalon_jtag_uart_ioctl_def)
qed

text \<open>A device with one character to deliver.\<close>

definition one_char :: "bool jtag" where
  "one_char = \<lparr>rd_control = \<lambda>b. (if b then CONTROL_RI else 0, b),
     rd_data = \<lambda>b. (if b then 0x8041 else 0, False), wr_control = \<lambda>v b. b, wr_data = \<lambda>v b. b\<rparr>"

lemma one_char_received:
  "\<exists>s. session one_char (- 1) True [] [] s \<and> rx_q s = [0x41]"
proof -
  let ?s = "altera_avalon_jtag_uart_init one_char (- 1) (uart_static True)"
  have s: "?s = (uart_static True)\<lparr>timeout := INT_MAX, irq_enable := 1\<rparr>"
    by (simp add: altera_avalon_jtag_uart_init_def iowr_control_def one_char_def uart_static_def Let_def)
  let ?t = "?s\<lparr>hw := False, got := [0x41], rx_in := 1, rx_buf := (replicate BUF_LEN 0)[0 := 0x41]\<rparr>"
  have c: "(0x8041 :: u8) = 0x41" by simp
  have "rx_fill one_char 0x10000 ?s = Some (Inr (0, ?t))"
    unfolding s by (subst rx_fill_step, subst rx_fill_step)
      (simp add: one_char_def iord_data_def rx_put_def adv_def uart_static_def c)
  then have "rx_irq one_char ?s = Some (Inr ?t)" by (simp add: rx_irq_def)
  then have "irq_body one_char CONTROL_RI ?s = Some (Inr ?t)" by (simp add: irq_body_def)
  moreover have "altera_avalon_jtag_uart_irq one_char ?t = Some (Inr ?t)"
    unfolding s by (subst altera_avalon_jtag_uart_irq.simps)
      (simp add: one_char_def iord_control_def uart_static_def)
  moreover have "iord_control one_char ?s = (CONTROL_RI, ?s)"
    unfolding s by (simp add: one_char_def iord_control_def uart_static_def)
  ultimately have "altera_avalon_jtag_uart_irq one_char ?s = Some (Inr ?t)"
    by (subst altera_avalon_jtag_uart_irq.simps) simp
  then have "serve one_char Irq ?s = Some (Inr ?t)" by (simp add: serve_def)
  with session.boot have "session one_char (- 1) True [] [] ?t" by (rule session.occur)
  moreover have "rx_q ?t = [0x41]"
    unfolding s by (simp add: rx_q_def contents_def used_def uart_static_def)
  ultimately show ?thesis by blast
qed

lemma uart_without_clock_waits_witness:
  "\<exists>s s'. session one_char (- 1) True [] [] s
     \<and> altera_avalon_jtag_uart_read_fd one_char blocking_fd 16 [] s = Some (Inr (1, [0x41], [], s'))
     \<and> altera_avalon_jtag_uart_ioctl_fd blocking_fd 0x6A02 0 s' = (- ENOTTY, 0, s')"
proof -
  obtain s where s: "session one_char (- 1) True [] [] s" "rx_q s = [0x41]"
    using one_char_received by blast
  obtain s' where r: "altera_avalon_jtag_uart_read_fd one_char blocking_fd 16 [] s = Some (Inr (1, [0x41], [], s'))"
    using ready_read [OF session_ok [OF s(1)], of "fd_flags blocking_fd" 16 one_char "[]"] s(2)
    by (auto simp: altera_avalon_jtag_uart_read_fd_def)
  have "fd_flags blocking_fd AND NONBLOCK = 0" by (simp add: blocking_fd_def)
  from uart_without_clock_waits [OF s(1) _ this _ r, of "0x6A02" 0] s(1) r show ?thesis by auto
qed

text \<open>
  In every session, close returns 0 only when every accepted byte has been given to the device
  or the host has been silent for the timeout, and -EWOULDBLOCK, with nothing changed, only in
  non-blocking mode with bytes left.
\<close>

theorem uart_close_drains:
  assumes "session H a h rs ws s" "altera_avalon_jtag_uart_close_fd H fd is s = Some r"
  shows "\<exists>v is' s'. r = Inr (v, is', s')
    \<and> (v = 0 \<and> (sent s' = ws \<or> timeout s' \<le> host_inactive s')
       \<or> v = - EWOULDBLOCK \<and> fd_flags fd AND NONBLOCK \<noteq> 0 \<and> sent s \<noteq> ws \<and> s' = s)"
proof -
  have f: "faithful rs ws s" using session_faithful [OF assms(1)] .
  then have "uart_ok s" by (simp add: faithful_def)
  moreover have "altera_avalon_jtag_uart_close H (fd_flags fd) is s = Some r"
    using assms(2) by (simp add: altera_avalon_jtag_uart_close_fd_def)
  ultimately obtain v is' s' where r: "r = Inr (v, is', s')" "moves s [] [] s'"
    "v = 0 \<and> (tx_q s' = [] \<or> timeout s' \<le> host_inactive s')
     \<or> v = - EWOULDBLOCK \<and> fd_flags fd AND NONBLOCK \<noteq> 0 \<and> tx_q s \<noteq> [] \<and> s' = s"
    using close_ok by blast
  have "sent s' @ tx_q s' = ws" using faithful_moves [OF f r(2)] by (simp add: faithful_def)
  moreover have "sent s @ tx_q s = ws" using f by (simp add: faithful_def)
  ultimately show ?thesis using r(1,3) by auto
qed

lemma uart_close_drains_witness:
  "\<exists>s'. altera_avalon_jtag_uart_close_fd dead_host nonblocking_fd []
      (altera_avalon_jtag_uart_init dead_host (- 1) (uart_static ())) = Some (Inr (0, [], s')) \<and> sent s' = []"
proof -
  let ?s = "altera_avalon_jtag_uart_init dead_host (- 1) (uart_static ())"
  have i: "tx_out ?s = tx_in ?s" "sent ?s = []"
    by (simp_all add: altera_avalon_jtag_uart_init_def uart_static_def iowr_control_def Let_def)
  then have c: "altera_avalon_jtag_uart_close_fd dead_host nonblocking_fd [] ?s = Some (Inr (0, [], ?s))"
    by (subst altera_avalon_jtag_uart_close_fd_def, subst altera_avalon_jtag_uart_close_def,
        subst spin.simps) simp
  with uart_close_drains [OF session.boot c] i show ?thesis by auto
qed

end
