(* ===== verification/Syscalls.thy ===== *)
theory Syscalls
  imports FdTable
begin

text \<open>
  The file system calls of the HAL, one function per file of \<^verbatim>\<open>HAL/src\<close>: \<^verbatim>\<open>alt_open.c\<close>,
  \<^verbatim>\<open>alt_close.c\<close>, \<^verbatim>\<open>alt_read.c\<close>, \<^verbatim>\<open>alt_write.c\<close>, \<^verbatim>\<open>alt_lseek.c\<close>, \<^verbatim>\<open>alt_fstat.c\<close>,
  \<^verbatim>\<open>alt_isatty.c\<close>, \<^verbatim>\<open>alt_ioctl.c\<close>, \<^verbatim>\<open>alt_fcntl.c\<close> and \<^verbatim>\<open>alt_io_redirect.c\<close>, in the
  configuration of the BSP (no direct drivers, one thread).
\<close>

abbreviation (input) O_ACCMODE :: u32 where "O_ACCMODE \<equiv> 3"
abbreviation (input) O_RDONLY :: u32 where "O_RDONLY \<equiv> 0"
abbreviation (input) O_WRONLY :: u32 where "O_WRONLY \<equiv> 1"
abbreviation (input) O_APPEND :: u32 where "O_APPEND \<equiv> 8"
abbreviation (input) O_NONBLOCK :: u32 where "O_NONBLOCK \<equiv> 0x4000"
abbreviation (input) IFCHR :: u32 where "IFCHR \<equiv> 0x2000"
abbreviation (input) TIOCEXCL :: int where "TIOCEXCL \<equiv> 0x740D"
abbreviation (input) TIOCNXCL :: int where "TIOCNXCL \<equiv> 0x740E"
abbreviation (input) F_GETFL :: int where "F_GETFL \<equiv> 3"
abbreviation (input) F_SETFL :: int where "F_SETFL \<equiv> 4"

text \<open>
  \<^verbatim>\<open>fd = (file < 0) ? NULL : &alt_fd_list[file]\<close>: \<open>Inr None\<close> is the null pointer; an index
  behind the pool is a fault (the code does not check it).
\<close>

definition fd_of :: "int \<Rightarrow> 's sys \<Rightarrow> fault + (nat \<times> alt_fd) option" where
  "fd_of file y =
     (if file < 0 then Inr None
      else if nat file < length (alt_fd_list y)
           then Inr (Some (nat file, alt_fd_list y ! nat file))
           else Inl OutOfBounds)"

text \<open>\<^verbatim>\<open>ALT_ERRNO = e; return -1;\<close>\<close>

definition fail :: "int \<Rightarrow> 's sys \<Rightarrow> int \<times> 's sys" where
  "fail e y = (- 1, y\<lparr>errno := e\<rparr>)"

section \<open>open and close\<close>

text \<open>
  \<^verbatim>\<open>alt_open.c\<close> once a device \<open>d\<close> is found: the result is \<^verbatim>\<open>index\<close>, \<^verbatim>\<open>status\<close> and the
  state. The driver's own \<open>open\<close> comes last.
\<close>

definition call_open ::
  "nat \<Rightarrow> nat \<Rightarrow> string \<Rightarrow> u32 \<Rightarrow> u32 \<Rightarrow> 's sys \<Rightarrow> int \<times> int \<times> 's sys" where
  "call_open d i file flags mode y =
     (case dev_open (devices y d) of
        None \<Rightarrow> (int i, 0, y)
      | Some opn \<Rightarrow>
          (let (status, p, s) = opn (alt_fd_list y ! i) file flags mode (drivers y);
               y = set_fd i ((alt_fd_list y ! i)\<lparr>fd_priv := p\<rparr>) y
           in (int i, status, y\<lparr>drivers := s\<rparr>)))"

definition set_flags :: "nat \<Rightarrow> u32 \<Rightarrow> 's sys \<Rightarrow> 's sys" where
  "set_flags i flags y =
     set_fd i ((alt_fd_list y ! i)\<lparr>fd_flags := flags AND NOT ALT_FD_FLAGS_MASK\<rparr>) y"

definition open_on ::
  "nat \<Rightarrow> bool \<Rightarrow> string \<Rightarrow> u32 \<Rightarrow> u32 \<Rightarrow> 's sys \<Rightarrow> fault + (int \<times> int \<times> 's sys)" where
  "open_on d isafs file flags mode y =
     (let (index, y) = alt_get_fd d y
      in if index < 0 then Inr (index, index, y)
         else
           (let i = nat index; y = set_flags i flags y
            in if isafs then Inr (call_open d i file flags mode y)
               else
                 (case alt_file_locked i y of
                    Inl f \<Rightarrow> Inl f
                  | Inr (status, y) \<Rightarrow>
                      if status < 0 then Inr (index, status, y)
                      else Inr (call_open d i file flags mode y))))"

text \<open>The end of \<^verbatim>\<open>open\<close>: clean up and report an error, or return the index.\<close>

definition open_result :: "int \<times> int \<times> 's sys \<Rightarrow> int \<times> 's sys" where
  "open_result r =
     (let (index, status, y) = r
      in if status < 0 then fail (- status) (alt_release_fd index y) else (index, y))"

definition alt_open :: "string \<Rightarrow> u32 \<Rightarrow> u32 \<Rightarrow> 's sys \<Rightarrow> fault + (int \<times> 's sys)" where
  "alt_open file flags mode y =
     (case alt_find_dev y file (alt_dev_list y) of
        Inl f \<Rightarrow> Inl f
      | Inr (Some d) \<Rightarrow> map_sum id open_result (open_on d False file flags mode y)
      | Inr None \<Rightarrow>
          (case alt_find_file y file of
             Inl f \<Rightarrow> Inl f
           | Inr (Some d) \<Rightarrow> map_sum id open_result (open_on d True file flags mode y)
           | Inr None \<Rightarrow> Inr (open_result (- 1, - ENODEV, y))))"

definition alt_close :: "int \<Rightarrow> 's sys \<Rightarrow> fault + (int \<times> 's sys)" where
  "alt_close fildes y =
     (case fd_of fildes y of
        Inl f \<Rightarrow> Inl f
      | Inr None \<Rightarrow> Inr (fail EBADFD y)
      | Inr (Some (i, fd)) \<Rightarrow>
          (case fd_dev fd of
             None \<Rightarrow> Inl NullDeref
           | Some d \<Rightarrow>
               (let (rval, s) = (case dev_close (devices y d) of
                                   None \<Rightarrow> (0, drivers y) | Some cls \<Rightarrow> cls fd (drivers y));
                    y = alt_release_fd fildes (y\<lparr>drivers := s\<rparr>)
                in Inr (if rval < 0 then fail (- rval) y else (0, y)))))"

section \<open>Transfers\<close>

text \<open>
  \<open>read\<close> also gives the bytes that the driver put into the caller's buffer.
\<close>

definition alt_read :: "int \<Rightarrow> nat \<Rightarrow> 's sys \<Rightarrow> fault + (int \<times> u8 list \<times> 's sys)" where
  "alt_read file len y =
     (case fd_of file y of
        Inl f \<Rightarrow> Inl f
      | Inr None \<Rightarrow> Inr (- 1, [], y\<lparr>errno := EBADFD\<rparr>)
      | Inr (Some (i, fd)) \<Rightarrow>
          if fd_flags fd AND O_ACCMODE = O_WRONLY then Inr (- 1, [], y\<lparr>errno := EACCES\<rparr>)
          else
            (case fd_dev fd of
               None \<Rightarrow> Inl NullDeref
             | Some d \<Rightarrow>
                 (case dev_read (devices y d) of
                    None \<Rightarrow> Inr (- 1, [], y\<lparr>errno := EACCES\<rparr>)
                  | Some rd \<Rightarrow>
                      (let (rval, bytes, s) = rd fd len (drivers y); y = y\<lparr>drivers := s\<rparr>
                       in if rval < 0 then Inr (- 1, bytes, y\<lparr>errno := - rval\<rparr>)
                          else Inr (rval, bytes, y)))))"

definition alt_write :: "int \<Rightarrow> u8 list \<Rightarrow> 's sys \<Rightarrow> fault + (int \<times> 's sys)" where
  "alt_write file bytes y =
     (case fd_of file y of
        Inl f \<Rightarrow> Inl f
      | Inr None \<Rightarrow> Inr (fail EBADFD y)
      | Inr (Some (i, fd)) \<Rightarrow>
          if fd_flags fd AND O_ACCMODE = O_RDONLY then Inr (fail EACCES y)
          else
            (case fd_dev fd of
               None \<Rightarrow> Inl NullDeref
             | Some d \<Rightarrow>
                 (case dev_write (devices y d) of
                    None \<Rightarrow> Inr (fail EACCES y)
                  | Some wr \<Rightarrow>
                      (let (rval, s) = wr fd bytes (drivers y); y = y\<lparr>drivers := s\<rparr>
                       in Inr (if rval < 0 then fail (- rval) y else (rval, y))))))"

definition alt_lseek :: "int \<Rightarrow> int \<Rightarrow> int \<Rightarrow> 's sys \<Rightarrow> fault + (int \<times> 's sys)" where
  "alt_lseek file ptr dir y =
     (let finish = (\<lambda>(rc, y). if rc < 0 then fail (- rc) y else (rc, y))
      in case fd_of file y of
           Inl f \<Rightarrow> Inl f
         | Inr None \<Rightarrow> Inr (finish (- EBADFD, y))
         | Inr (Some (i, fd)) \<Rightarrow>
             (case fd_dev fd of
                None \<Rightarrow> Inl NullDeref
              | Some d \<Rightarrow>
                  (case dev_lseek (devices y d) of
                     None \<Rightarrow> Inr (finish (- ENOTSUP, y))
                   | Some sk \<Rightarrow>
                       (let (rc, s) = sk fd ptr dir (drivers y)
                        in Inr (finish (rc, y\<lparr>drivers := s\<rparr>))))))"

section \<open>Status and control\<close>

text \<open>\<open>fstat\<close> takes and returns the mode field of the caller's buffer.\<close>

definition alt_fstat :: "int \<Rightarrow> u32 \<Rightarrow> 's sys \<Rightarrow> fault + (int \<times> u32 \<times> 's sys)" where
  "alt_fstat file st y =
     (case fd_of file y of
        Inl f \<Rightarrow> Inl f
      | Inr None \<Rightarrow> Inr (- 1, st, y\<lparr>errno := EBADFD\<rparr>)
      | Inr (Some (i, fd)) \<Rightarrow>
          (case fd_dev fd of
             None \<Rightarrow> Inl NullDeref
           | Some d \<Rightarrow>
               (case dev_fstat (devices y d) of
                  None \<Rightarrow> Inr (0, IFCHR, y)
                | Some fs \<Rightarrow>
                    (let (rc, st, s) = fs fd st (drivers y) in Inr (rc, st, y\<lparr>drivers := s\<rparr>)))))"

text \<open>The local \<^verbatim>\<open>struct stat\<close> of \<open>isatty\<close> is not initialised: \<open>st0\<close> is what it holds.\<close>

definition alt_isatty :: "int \<Rightarrow> u32 \<Rightarrow> 's sys \<Rightarrow> fault + (int \<times> 's sys)" where
  "alt_isatty file st0 y =
     (case fd_of file y of
        Inl f \<Rightarrow> Inl f
      | Inr None \<Rightarrow> Inr (0, y\<lparr>errno := EBADFD\<rparr>)
      | Inr (Some (i, fd)) \<Rightarrow>
          (case fd_dev fd of
             None \<Rightarrow> Inl NullDeref
           | Some d \<Rightarrow>
               if dev_fstat (devices y d) = None then Inr (1, y)
               else map_sum id (\<lambda>(rc, st, y). (if st = IFCHR then 1 else 0, y))
                      (alt_fstat file st0 y)))"

text \<open>\<open>arg\<close> is the word behind the argument pointer, returned as the driver leaves it.\<close>

definition alt_ioctl :: "int \<Rightarrow> int \<Rightarrow> u32 \<Rightarrow> 's sys \<Rightarrow> fault + (int \<times> u32 \<times> 's sys)" where
  "alt_ioctl file req arg y =
     (let finish = (\<lambda>rc a y. (rc, a, if rc < 0 then y\<lparr>errno := - rc\<rparr> else y))
      in case fd_of file y of
           Inl f \<Rightarrow> Inl f
         | Inr None \<Rightarrow> Inr (finish (- EBADFD) arg y)
         | Inr (Some (i, fd)) \<Rightarrow>
             if fd_flags fd AND ALT_FD_DEV \<noteq> 0 \<and> req = TIOCEXCL
             then map_sum id (\<lambda>(rc, y). finish rc arg y) (alt_fd_lock i y)
             else if fd_flags fd AND ALT_FD_DEV \<noteq> 0 \<and> req = TIOCNXCL
             then (let (rc, y) = alt_fd_unlock i y in Inr (finish rc arg y))
             else
               (case fd_dev fd of
                  None \<Rightarrow> Inl NullDeref
                | Some d \<Rightarrow>
                    (case dev_ioctl (devices y d) of
                       None \<Rightarrow> Inr (finish (- ENOTTY) arg y)
                     | Some ctl \<Rightarrow>
                         (let (rc, a, s) = ctl fd req arg (drivers y)
                          in Inr (finish rc a (y\<lparr>drivers := s\<rparr>))))))"

abbreviation (input) ALT_FCNTL_FLAGS_MASK :: u32 where
  "ALT_FCNTL_FLAGS_MASK \<equiv> O_APPEND OR O_NONBLOCK"

definition alt_fcntl :: "int \<Rightarrow> int \<Rightarrow> u32 \<Rightarrow> 's sys \<Rightarrow> fault + (int \<times> 's sys)" where
  "alt_fcntl file cmd flags y =
     (case fd_of file y of
        Inl f \<Rightarrow> Inl f
      | Inr None \<Rightarrow> Inr (fail EBADFD y)
      | Inr (Some (i, fd)) \<Rightarrow>
          if cmd = F_GETFL then Inr (sint (fd_flags fd AND NOT ALT_FD_FLAGS_MASK), y)
          else if cmd = F_SETFL then
            Inr (0, set_fd i (fd\<lparr>fd_flags := (fd_flags fd AND NOT ALT_FCNTL_FLAGS_MASK)
                                  OR (flags AND ALT_FCNTL_FLAGS_MASK)\<rparr>) y)
          else Inr (fail EINVAL y))"

section \<open>Redirection of the standard streams\<close>

definition alt_open_fd :: "nat \<Rightarrow> string \<Rightarrow> u32 \<Rightarrow> u32 \<Rightarrow> 's sys \<Rightarrow> fault + 's sys" where
  "alt_open_fd i name flags mode y =
     (case alt_open name flags mode y of
        Inl f \<Rightarrow> Inl f
      | Inr (old, y) \<Rightarrow>
          if old \<ge> 0 then
            (let src = alt_fd_list y ! nat old;
                 y = set_fd i \<lparr>fd_dev = fd_dev src, fd_priv = fd_priv src, fd_flags = fd_flags src\<rparr> y
             in Inr (alt_release_fd old y))
          else Inr y)"

definition alt_io_redirect :: "string \<Rightarrow> string \<Rightarrow> string \<Rightarrow> 's sys \<Rightarrow> fault + 's sys" where
  "alt_io_redirect stdout_dev stdin_dev stderr_dev y =
     (case alt_open_fd 1 stdout_dev O_WRONLY 0x1FF y of
        Inl f \<Rightarrow> Inl f
      | Inr y \<Rightarrow>
          (case alt_open_fd 0 stdin_dev O_RDONLY 0x1FF y of
             Inl f \<Rightarrow> Inl f
           | Inr y \<Rightarrow> alt_open_fd 2 stderr_dev O_WRONLY 0x1FF y))"

end
