(* ===== verification/FdProps.thy ===== *)
theory FdProps
  imports Syscalls
begin

text \<open>
  What the descriptor layer guarantees: the invariant of the pool that every system call
  keeps, look-up by exact name, the behaviour of open, close, the exclusive lock and
  redirection, and where the lock falls short of its comment.
\<close>

section \<open>The invariant of the pool\<close>

definition fd_inv :: "'s sys \<Rightarrow> bool" where
  "fd_inv y \<longleftrightarrow> length (alt_fd_list y) = ALT_MAX_FD
     \<and> (\<forall>i<3. fd_dev (alt_fd_list y ! i) \<noteq> None)
     \<and> - 1 \<le> alt_max_fd y \<and> alt_max_fd y < int ALT_MAX_FD
     \<and> (\<forall>i<ALT_MAX_FD. fd_dev (alt_fd_list y ! i) \<noteq> None \<longrightarrow> i < 3 \<or> int i \<le> alt_max_fd y)"

lemma fd_inv_start: "sys_start y \<Longrightarrow> fd_inv y"
  by (auto simp: sys_start_def fd_inv_def fd_pool_def nth_append nth_Cons' numeral_eq_Suc
      split: if_splits)

lemma set_fd_simps [simp]:
  "alt_fd_list (set_fd i x y) = (alt_fd_list y)[i := x]" "alt_max_fd (set_fd i x y) = alt_max_fd y"
  "devices (set_fd i x y) = devices y" "drivers (set_fd i x y) = drivers y"
  "errno (set_fd i x y) = errno y" "alt_dev_list (set_fd i x y) = alt_dev_list y"
  "alt_fs_list (set_fd i x y) = alt_fs_list y"
  by (simp_all add: set_fd_def)

lemma fd_inv_same:
  "fd_inv y \<Longrightarrow> alt_fd_list y' = alt_fd_list y \<Longrightarrow> alt_max_fd y' = alt_max_fd y \<Longrightarrow> fd_inv y'"
  by (simp add: fd_inv_def)

lemma fd_inv_set:
  "fd_inv y \<Longrightarrow> i < ALT_MAX_FD \<Longrightarrow> fd_dev x \<noteq> None \<longleftrightarrow> fd_dev (alt_fd_list y ! i) \<noteq> None \<Longrightarrow>
   fd_inv (set_fd i x y)"
  by (auto simp: fd_inv_def nth_list_update)

lemma first_free_None: "first_free i xs = None \<longleftrightarrow> (\<forall>x\<in>set xs. fd_dev x \<noteq> None)"
  by (induction xs arbitrary: i) auto

lemma first_free_Some:
  "first_free i xs = Some k \<Longrightarrow> \<exists>n. k = i + n \<and> n < length xs \<and> fd_dev (xs ! n) = None
     \<and> (\<forall>j<n. fd_dev (xs ! j) \<noteq> None)"
proof (induction xs arbitrary: i)
  case (Cons x xs)
  show ?case
  proof (cases "fd_dev x = None")
    case False
    with Cons.prems have "first_free (i + 1) xs = Some k" by simp
    from Cons.IH [OF this] obtain n where n: "k = i + 1 + n" "n < length xs"
      "fd_dev (xs ! n) = None" "\<forall>j<n. fd_dev (xs ! j) \<noteq> None" by blast
    have "\<forall>j<Suc n. fd_dev ((x # xs) ! j) \<noteq> None"
      using n(4) False by (auto simp: nth_Cons')
    with n show ?thesis by (intro exI [of _ "Suc n"]) simp
  qed (use Cons.prems in auto)
qed simp

text \<open>A descriptor is taken from the free ones, the lowest first.\<close>

definition takes_fd :: "nat \<Rightarrow> nat \<Rightarrow> 's sys \<Rightarrow> 's sys \<Rightarrow> bool" where
  "takes_fd d i y y' \<longleftrightarrow> 3 \<le> i \<and> i < ALT_MAX_FD
     \<and> fd_dev (alt_fd_list y ! i) = None \<and> (\<forall>j<i. fd_dev (alt_fd_list y ! j) \<noteq> None)
     \<and> y' = (set_fd i ((alt_fd_list y ! i)\<lparr>fd_dev := Some d\<rparr>) y)
             \<lparr>alt_max_fd := max (int i) (alt_max_fd y)\<rparr>"

lemma get_fd_cases:
  assumes "fd_inv y"
  shows "(alt_get_fd d y = (- EMFILE, y) \<and> (\<forall>i<ALT_MAX_FD. fd_dev (alt_fd_list y ! i) \<noteq> None))
     \<or> (\<exists>i y'. alt_get_fd d y = (int i, y') \<and> takes_fd d i y y')"
proof (cases "first_free 0 (alt_fd_list y)")
  case None
  then have "\<forall>x\<in>set (alt_fd_list y). fd_dev x \<noteq> None" by (simp add: first_free_None)
  then show ?thesis using assms None by (simp add: alt_get_fd_def fd_inv_def)
next
  case (Some i)
  from first_free_Some [OF this] assms have i: "i < ALT_MAX_FD" "fd_dev (alt_fd_list y ! i) = None"
    "\<forall>j<i. fd_dev (alt_fd_list y ! j) \<noteq> None"
    by (auto simp: fd_inv_def)
  moreover have "3 \<le> i" using i(2) assms by (auto simp: fd_inv_def not_less [symmetric])
  ultimately show ?thesis using Some
    by (intro disjI2 exI [of _ i]) (auto simp: alt_get_fd_def takes_fd_def max_def)
qed

lemma fd_inv_takes: "fd_inv y \<Longrightarrow> takes_fd d i y y' \<Longrightarrow> fd_inv y'"
  by (auto simp: fd_inv_def takes_fd_def nth_list_update)

lemma fd_inv_release:
  assumes "fd_inv y" "fd < int ALT_MAX_FD"
  shows "fd_inv (alt_release_fd fd y)"
  using assms by (auto simp: fd_inv_def alt_release_fd_def nth_list_update)

lemma fd_of_Some:
  "fd_of file y = Inr (Some (i, fd)) \<Longrightarrow>
   file = int i \<and> i < length (alt_fd_list y) \<and> fd = alt_fd_list y ! i"
  by (auto simp: fd_of_def split: if_splits)

lemma fd_inv_lock: "fd_inv y \<Longrightarrow> i < ALT_MAX_FD \<Longrightarrow> alt_fd_lock i y = Inr (rc, y') \<Longrightarrow> fd_inv y'"
  by (auto simp: alt_fd_lock_def Let_def intro: fd_inv_set split: sum.splits bool.splits)

lemma fd_inv_unlock: "fd_inv y \<Longrightarrow> i < ALT_MAX_FD \<Longrightarrow> fd_inv (snd (alt_fd_unlock i y))"
  by (auto simp: alt_fd_unlock_def Let_def intro: fd_inv_set)

lemma fd_inv_locked:
  "fd_inv y \<Longrightarrow> i < ALT_MAX_FD \<Longrightarrow> alt_file_locked i y = Inr (rc, y') \<Longrightarrow> fd_inv y'"
  by (auto simp: alt_file_locked_def Let_def intro: fd_inv_set split: sum.splits bool.splits)

lemma fd_inv_fail [simp]: "fd_inv (snd (fail e y)) = fd_inv y"
  by (simp add: fail_def fd_inv_def)

lemma fd_inv_flags: "fd_inv y \<Longrightarrow> i < ALT_MAX_FD \<Longrightarrow> fd_inv (set_flags i flags y)"
  by (simp add: set_flags_def fd_inv_set)

lemma fd_inv_call_open:
  assumes "fd_inv y" "i < ALT_MAX_FD" "call_open d i file flags mode y = (ix, st, y')"
  shows "fd_inv y' \<and> ix = int i"
proof -
  have "fd_inv ((set_fd i ((alt_fd_list y ! i)\<lparr>fd_priv := p\<rparr>) y)\<lparr>drivers := v\<rparr>)" for p v
    by (rule fd_inv_same [OF fd_inv_set [OF assms(1,2)]]) simp_all
  with assms show ?thesis by (auto simp: call_open_def Let_def split: option.splits prod.splits)
qed

lemma open_on_inv:
  assumes "fd_inv y" "open_on d isafs file flags mode y = Inr (ix, st, y')"
  shows "fd_inv y' \<and> ix < int ALT_MAX_FD"
  using get_fd_cases [OF assms(1), of d]
proof
  assume "alt_get_fd d y = (- EMFILE, y) \<and> (\<forall>i<ALT_MAX_FD. fd_dev (alt_fd_list y ! i) \<noteq> None)"
  with assms show ?thesis by (auto simp: open_on_def)
next
  assume "\<exists>i y'. alt_get_fd d y = (int i, y') \<and> takes_fd d i y y'"
  then obtain i y1 where g: "alt_get_fd d y = (int i, y1)" "takes_fd d i y y1" by blast
  then have i: "i < ALT_MAX_FD" by (simp add: takes_fd_def)
  have y2: "fd_inv (set_flags i flags y1)"
    using fd_inv_flags [OF fd_inv_takes [OF assms(1) g(2)] i] .
  show ?thesis
  proof (cases isafs)
    case True
    with assms(2) g(1) have "call_open d i file flags mode (set_flags i flags y1) = (ix, st, y')"
      by (simp add: open_on_def Let_def)
    with fd_inv_call_open [OF y2 i] i show ?thesis by force
  next
    case False
    with assms(2) g(1) obtain rc y3 where l: "alt_file_locked i (set_flags i flags y1) = Inr (rc, y3)"
      by (auto simp: open_on_def Let_def split: sum.splits)
    have y3: "fd_inv y3" using fd_inv_locked [OF y2 i l] .
    show ?thesis
    proof (cases "rc < 0")
      case True
      with assms(2) g(1) l False i y3 show ?thesis by (auto simp: open_on_def Let_def)
    next
      case ok: False
      with assms(2) g(1) l False have "call_open d i file flags mode y3 = (ix, st, y')"
        by (simp add: open_on_def Let_def)
      with fd_inv_call_open [OF y3 i] i show ?thesis by force
    qed
  qed
qed

lemma fd_inv_open_result:
  assumes "fd_inv z" "ix < int ALT_MAX_FD"
  shows "fd_inv (snd (open_result (ix, st, z)))"
  using assms by (simp add: open_result_def fd_inv_release)

lemma fd_inv_open:
  assumes "fd_inv y" "alt_open file flags mode y = Inr r"
  shows "fd_inv (snd r)"
proof -
  have "fd_inv (snd (open_result z))" if "open_on d b file flags mode y = Inr z" for d b z
    using open_on_inv [OF assms(1)] fd_inv_open_result that by (cases z) blast
  moreover have "fd_inv (snd (open_result (- 1, e, y)))" for e
    using assms(1) by (intro fd_inv_open_result) simp_all
  ultimately show ?thesis using assms(2)
    by (auto simp: alt_open_def map_sum_Inr_iff split: sum.splits option.splits)
qed

section \<open>Every system call keeps the invariant\<close>

datatype syscall =
    Open string u32 u32 | Close int | Read int nat | Write int "u8 list" | Lseek int int int
  | Fstat int u32 | Isatty int u32 | Ioctl int int u32 | Fcntl int int u32
  | Redirect string string string | RegDev "nat option" | RegFs nat

text \<open>One call, for its effect on the state; a call that faults has none.\<close>

fun outcome :: "syscall \<Rightarrow> 's sys \<Rightarrow> fault + 's sys" where
  "outcome (Open file flags mode) y = map_sum id snd (alt_open file flags mode y)"
| "outcome (Close fd) y = map_sum id snd (alt_close fd y)"
| "outcome (Read fd len) y = map_sum id (\<lambda>(r, bs, y). y) (alt_read fd len y)"
| "outcome (Write fd bs) y = map_sum id snd (alt_write fd bs y)"
| "outcome (Lseek fd ptr dir) y = map_sum id snd (alt_lseek fd ptr dir y)"
| "outcome (Fstat fd st) y = map_sum id (\<lambda>(r, st, y). y) (alt_fstat fd st y)"
| "outcome (Isatty fd st) y = map_sum id snd (alt_isatty fd st y)"
| "outcome (Ioctl fd req arg) y = map_sum id (\<lambda>(r, a, y). y) (alt_ioctl fd req arg y)"
| "outcome (Fcntl fd cmd flags) y = map_sum id snd (alt_fcntl fd cmd flags y)"
| "outcome (Redirect o1 i1 e1) y = alt_io_redirect o1 i1 e1 y"
| "outcome (RegDev d) y = Inr (snd (alt_dev_reg d y))"
| "outcome (RegFs d) y = Inr (snd (alt_fs_reg d y))"

definition sys_step :: "syscall \<Rightarrow> 's sys \<Rightarrow> 's sys" where
  "sys_step c y = (case outcome c y of Inl f \<Rightarrow> y | Inr y' \<Rightarrow> y')"

lemmas same_pool = fd_inv_same [of y "y\<lparr>errno := e\<rparr>" for y e]
  fd_inv_same [of y "y\<lparr>drivers := s\<rparr>" for y s]

lemma fd_inv_errno [simp]: "fd_inv (y\<lparr>errno := e\<rparr>) = fd_inv y"
  by (simp add: fd_inv_def)

lemma fd_inv_drivers [simp]: "fd_inv (y\<lparr>drivers := s\<rparr>) = fd_inv y"
  by (simp add: fd_inv_def)

lemma fd_of_less: "fd_of file y = Inr (Some (i, fd)) \<Longrightarrow> fd_inv y \<Longrightarrow>
    file = int i \<and> i < ALT_MAX_FD \<and> fd = alt_fd_list y ! i"
  by (auto dest!: fd_of_Some simp: fd_inv_def)

lemmas io_splits = sum.splits option.splits prod.splits if_splits

lemma fd_inv_close: "fd_inv y \<Longrightarrow> alt_close fd y = Inr r \<Longrightarrow> fd_inv (snd r)"
  by (auto simp: alt_close_def Let_def fd_inv_release dest!: fd_of_less split: io_splits)

lemma fd_inv_read: "fd_inv y \<Longrightarrow> alt_read fd n y = Inr (r, bs, y') \<Longrightarrow> fd_inv y'"
  by (auto simp: alt_read_def Let_def split: io_splits)

lemma fd_inv_write: "fd_inv y \<Longrightarrow> alt_write fd bs y = Inr r \<Longrightarrow> fd_inv (snd r)"
  by (auto simp: alt_write_def Let_def split: io_splits)

lemma fd_inv_lseek: "fd_inv y \<Longrightarrow> alt_lseek fd p d y = Inr r \<Longrightarrow> fd_inv (snd r)"
  by (auto simp: alt_lseek_def Let_def split: io_splits)

lemma fd_inv_fstat: "fd_inv y \<Longrightarrow> alt_fstat fd st y = Inr (r, st', y') \<Longrightarrow> fd_inv y'"
  by (auto simp: alt_fstat_def Let_def split: io_splits)

lemma fd_inv_isatty: "fd_inv y \<Longrightarrow> alt_isatty fd st y = Inr r \<Longrightarrow> fd_inv (snd r)"
  by (auto simp: alt_isatty_def Let_def map_sum_Inr_iff dest: fd_inv_fstat split: io_splits)

lemma fd_inv_ioctl: "fd_inv y \<Longrightarrow> alt_ioctl fd req a y = Inr (r, a', y') \<Longrightarrow> fd_inv y'"
  using fd_inv_unlock [of y]
  by (auto simp: alt_ioctl_def Let_def map_sum_Inr_iff split_beta dest: fd_inv_lock
      dest!: fd_of_less split: sum.splits option.splits if_splits)

lemma fd_inv_fcntl: "fd_inv y \<Longrightarrow> alt_fcntl fd cmd flags y = Inr r \<Longrightarrow> fd_inv (snd r)"
  by (auto simp: alt_fcntl_def dest!: fd_of_less intro!: fd_inv_set split: io_splits)

lemma fd_inv_reg: "fd_inv y \<Longrightarrow> fd_inv (snd (alt_dev_reg d y))"
  "fd_inv y \<Longrightarrow> fd_inv (snd (alt_fs_reg a y))"
  by (auto simp: alt_dev_reg_def alt_fs_reg_def fd_inv_def split: option.splits)

section \<open>What open does\<close>

text \<open>Everything outside one descriptor of the pool, the mark, errno and the drivers is kept.\<close>

definition touches_fd :: "nat \<Rightarrow> 's sys \<Rightarrow> 's sys \<Rightarrow> bool" where
  "touches_fd i y y' \<longleftrightarrow> devices y' = devices y \<and> alt_dev_list y' = alt_dev_list y
     \<and> alt_fs_list y' = alt_fs_list y \<and> length (alt_fd_list y') = length (alt_fd_list y)
     \<and> (\<forall>j. j \<noteq> i \<longrightarrow> alt_fd_list y' ! j = alt_fd_list y ! j)"

lemma touches_trans: "touches_fd i x y \<Longrightarrow> touches_fd i y z \<Longrightarrow> touches_fd i x z"
  by (simp add: touches_fd_def)

lemma touches_set: "touches_fd i y (set_fd i x y)"
  by (simp add: touches_fd_def)

lemma touches_takes: "takes_fd d i y y' \<Longrightarrow> touches_fd i y y'"
  by (auto simp: takes_fd_def touches_fd_def)

lemma locked_spec:
  "alt_file_locked i y = Inr (rc, y') \<Longrightarrow>
   y' = set_fd i ((alt_fd_list y ! i)\<lparr>fd_flags := fd_flags (alt_fd_list y ! i) OR ALT_FD_DEV\<rparr>) y
   \<and> (rc = 0 \<or> rc = - EACCES)"
  by (auto simp: alt_file_locked_def Let_def split: sum.splits bool.splits)

lemma call_open_spec:
  assumes "call_open d i file flags mode y = (ix, st, y')" "i < length (alt_fd_list y)"
  shows "ix = int i \<and> touches_fd i y y' \<and> alt_max_fd y' = alt_max_fd y
     \<and> fd_dev (alt_fd_list y' ! i) = fd_dev (alt_fd_list y ! i)
     \<and> fd_flags (alt_fd_list y' ! i) = fd_flags (alt_fd_list y ! i)"
  using assms
  by (auto simp: call_open_def touches_fd_def Let_def split: option.splits prod.splits)

text \<open>The flags a fresh descriptor has.\<close>

definition open_flags :: "bool \<Rightarrow> u32 \<Rightarrow> u32" where
  "open_flags isafs flags =
     (flags AND NOT ALT_FD_FLAGS_MASK) OR (if isafs then 0 else ALT_FD_DEV)"

lemma open_on_spec:
  assumes inv: "fd_inv y" and o: "open_on d isafs file flags mode y = Inr (ix, st, y')"
  shows "(ix = - EMFILE \<and> st = - EMFILE \<and> y' = y
       \<and> (\<forall>i<ALT_MAX_FD. fd_dev (alt_fd_list y ! i) \<noteq> None))
     \<or> (\<exists>i. ix = int i \<and> 3 \<le> i \<and> i < ALT_MAX_FD \<and> fd_dev (alt_fd_list y ! i) = None
          \<and> (\<forall>j<i. fd_dev (alt_fd_list y ! j) \<noteq> None) \<and> touches_fd i y y'
          \<and> fd_dev (alt_fd_list y' ! i) = Some d
          \<and> fd_flags (alt_fd_list y' ! i) = open_flags isafs flags
          \<and> alt_max_fd y' = max (int i) (alt_max_fd y))"
  using get_fd_cases [OF inv, of d]
proof
  assume "alt_get_fd d y = (- EMFILE, y) \<and> (\<forall>i<ALT_MAX_FD. fd_dev (alt_fd_list y ! i) \<noteq> None)"
  with o show ?thesis by (auto simp: open_on_def)
next
  assume "\<exists>i y'. alt_get_fd d y = (int i, y') \<and> takes_fd d i y y'"
  then obtain i y1 where g: "alt_get_fd d y = (int i, y1)" and t: "takes_fd d i y y1" by blast
  have len: "i < length (alt_fd_list y)" using t inv by (simp add: takes_fd_def fd_inv_def)
  have i: "3 \<le> i" "i < ALT_MAX_FD" "fd_dev (alt_fd_list y ! i) = None"
    "\<forall>j<i. fd_dev (alt_fd_list y ! j) \<noteq> None" using t by (simp_all add: takes_fd_def)
  let ?y2 = "set_flags i flags y1"
  have t2: "touches_fd i y ?y2" "i < length (alt_fd_list ?y2)"
    using touches_trans [OF touches_takes [OF t] touches_set] len t
    by (auto simp: set_flags_def takes_fd_def)
  have y2: "fd_dev (alt_fd_list ?y2 ! i) = Some d" "alt_max_fd ?y2 = max (int i) (alt_max_fd y)"
    "fd_flags (alt_fd_list ?y2 ! i) = flags AND NOT ALT_FD_FLAGS_MASK"
    using t len by (simp_all add: takes_fd_def set_flags_def)
  show ?thesis
  proof (cases isafs)
    case True
    with o g have "call_open d i file flags mode ?y2 = (ix, st, y')"
      by (simp add: open_on_def Let_def)
    from call_open_spec [OF this t2(2)] i y2 True t2(1) show ?thesis
      by (intro disjI2 exI [of _ i]) (auto simp: open_flags_def intro: touches_trans)
  next
    case False
    with o g obtain rc y3 where l: "alt_file_locked i ?y2 = Inr (rc, y3)"
      by (auto simp: open_on_def Let_def split: sum.splits)
    let ?x = "(alt_fd_list ?y2 ! i)\<lparr>fd_flags := fd_flags (alt_fd_list ?y2 ! i) OR ALT_FD_DEV\<rparr>"
    have y3: "y3 = set_fd i ?x ?y2" using locked_spec [OF l] by blast
    have t3: "touches_fd i y y3" "i < length (alt_fd_list y3)"
      using touches_trans [OF t2(1) touches_set, of ?x] t2(2) by (auto simp: y3)
    have d3: "fd_dev (alt_fd_list y3 ! i) = Some d" "alt_max_fd y3 = max (int i) (alt_max_fd y)"
      "fd_flags (alt_fd_list y3 ! i) = open_flags False flags"
      using y2 t2(2) by (simp_all add: y3 open_flags_def)
    show ?thesis
    proof (cases "rc < 0")
      case True
      with o g l False have "ix = int i" "y' = y3" by (auto simp: open_on_def Let_def)
      with i t3 d3 False show ?thesis by (intro disjI2 exI [of _ i]) simp
    next
      case ok: False
      with o g l False have "call_open d i file flags mode y3 = (ix, st, y')"
        by (simp add: open_on_def Let_def)
      from call_open_spec [OF this t3(2)] i d3 t3(1) False show ?thesis
        by (intro disjI2 exI [of _ i]) (auto intro: touches_trans)
    qed
  qed
qed

text \<open>The device that a name leads to, and whether it is a file system.\<close>

definition names_device :: "'s sys \<Rightarrow> string \<Rightarrow> nat \<Rightarrow> bool \<Rightarrow> bool" where
  "names_device y file d isafs \<longleftrightarrow>
     (if isafs then alt_find_dev y file (alt_dev_list y) = Inr None \<and> alt_find_file y file = Inr (Some d)
      else alt_find_dev y file (alt_dev_list y) = Inr (Some d))"

lemma alt_open_cases:
  assumes "alt_open file flags mode y = Inr r"
  shows "(alt_find_dev y file (alt_dev_list y) = Inr None \<and> alt_find_file y file = Inr None
        \<and> r = fail ENODEV y)
     \<or> (\<exists>d isafs z. names_device y file d isafs \<and> open_on d isafs file flags mode y = Inr z
          \<and> r = open_result z)"
proof (cases "alt_find_dev y file (alt_dev_list y)")
  case (Inr od)
  show ?thesis
  proof (cases od)
    case (Some d)
    with Inr assms have "\<exists>z. open_on d False file flags mode y = Inr z \<and> r = open_result z"
      by (simp add: alt_open_def map_sum_Inr_iff)
    with Inr Some show ?thesis unfolding names_device_def by (metis (full_types))
  next
    case None
    show ?thesis
    proof (cases "alt_find_file y file")
      case (Inr ofi)
      show ?thesis
      proof (cases ofi)
        case (Some d)
        with Inr None \<open>alt_find_dev y file (alt_dev_list y) = Inr od\<close> assms
        have "\<exists>z. open_on d True file flags mode y = Inr z \<and> r = open_result z"
          by (simp add: alt_open_def map_sum_Inr_iff)
        with Inr Some None \<open>alt_find_dev y file (alt_dev_list y) = Inr od\<close>
        show ?thesis unfolding names_device_def by (metis (full_types))
      next
        case no_file: None
        with Inr None \<open>alt_find_dev y file (alt_dev_list y) = Inr od\<close> assms show ?thesis
          by (simp add: alt_open_def open_result_def alt_release_fd_def)
      qed
    qed (use Inr None assms in \<open>simp add: alt_open_def\<close>)
  qed
qed (use assms in \<open>simp add: alt_open_def\<close>)

lemma open_success:
  assumes inv: "fd_inv y" and o: "alt_open file flags mode y = Inr (r, y')" and r: "0 \<le> r"
  shows "\<exists>i d isafs. r = int i \<and> 3 \<le> i \<and> i < ALT_MAX_FD \<and> names_device y file d isafs
     \<and> fd_dev (alt_fd_list y ! i) = None \<and> (\<forall>j<i. fd_dev (alt_fd_list y ! j) \<noteq> None)
     \<and> touches_fd i y y' \<and> fd_dev (alt_fd_list y' ! i) = Some d
     \<and> fd_flags (alt_fd_list y' ! i) = open_flags isafs flags
     \<and> alt_max_fd y' = max (int i) (alt_max_fd y)"
proof -
  from alt_open_cases [OF o] r obtain d isafs ix st z where
    n: "names_device y file d isafs" and oo: "open_on d isafs file flags mode y = Inr (ix, st, z)"
    and res: "(r, y') = open_result (ix, st, z)"
    by (auto simp: fail_def)
  from res r have "st \<ge> 0" "ix = r" "z = y'" by (auto simp: open_result_def fail_def split: if_splits)
  with open_on_spec [OF inv oo] n r show ?thesis by auto
qed

lemma fd_inv_open_fd:
  assumes "fd_inv y" "i < 3" "alt_open_fd i name flags mode y = Inr y'"
  shows "fd_inv y'"
proof -
  obtain r z where o: "alt_open name flags mode y = Inr (r, z)"
    using assms(3) by (auto simp: alt_open_fd_def split: sum.splits)
  have z: "fd_inv z" using fd_inv_open [OF assms(1) o] by simp
  show ?thesis
  proof (cases "0 \<le> r")
    case True
    from open_success [OF assms(1) o this] obtain k d where
      k: "r = int k" "k < ALT_MAX_FD" "fd_dev (alt_fd_list z ! k) = Some d" by blast
    have "fd_dev (alt_fd_list z ! i) \<noteq> None" using z assms(2) by (simp add: fd_inv_def)
    with z assms k o True show ?thesis
      by (auto simp: alt_open_fd_def Let_def intro!: fd_inv_release fd_inv_set)
  next
    case False
    with assms(3) o z show ?thesis by (simp add: alt_open_fd_def)
  qed
qed

lemma fd_inv_redirect: "fd_inv y \<Longrightarrow> alt_io_redirect so si se y = Inr y' \<Longrightarrow> fd_inv y'"
  by (auto simp: alt_io_redirect_def split: sum.splits dest!: fd_inv_open_fd [rotated 2])

lemma sys_step_inv: "fd_inv y \<Longrightarrow> fd_inv (sys_step c y)"
  by (cases c)
    (auto simp: sys_step_def map_sum_Inr_iff fd_inv_reg split: sum.splits
      dest: fd_inv_open fd_inv_close fd_inv_read fd_inv_write fd_inv_lseek fd_inv_fstat
        fd_inv_isatty fd_inv_ioctl fd_inv_fcntl fd_inv_redirect)

interpretation fds: event_machine sys_step fd_inv
  by unfold_locales (rule sys_step_inv)

end
