(* ===== verification/FdClaims.thy ===== *)
theory FdClaims
  imports FdProps
begin

text \<open>
  The properties of the descriptor layer, stated over the system calls: descriptors are
  allocated and released as documented, names are matched exactly, the exclusive lock keeps
  other opens out, access modes are enforced; and where the code departs from its comments.
\<close>

section \<open>The pool\<close>

text \<open>
  Claim C8. Whatever system calls a program makes after start-up, in whatever order, the pool
  has its 32 descriptors, the three standard ones always refer to a device, and every other
  descriptor in use is at or below the high-water mark \<open>alt_max_fd\<close>, which stays inside the pool.
\<close>

theorem descriptor_pool_invariant:
  assumes "sys_start y" and "z = fold sys_step cs y"
  shows "length (alt_fd_list z) = 32
     \<and> (\<forall>i<3. fd_dev (alt_fd_list z ! i) \<noteq> None)
     \<and> - 1 \<le> alt_max_fd z \<and> alt_max_fd z < 32
     \<and> (\<forall>i<32. fd_dev (alt_fd_list z ! i) = None \<or> i < 3 \<or> int i \<le> alt_max_fd z)"
proof -
  have "fd_inv z" using fds.inv_events [OF fd_inv_start [OF assms(1)]] assms(2) by simp
  then show ?thesis by (auto simp: fd_inv_def)
qed

definition demo_uart :: "nat alt_dev" where
  "demo_uart =
     \<lparr>dev_name = Some ''/dev/jtag_uart_0'', dev_open = None, dev_close = None,
      dev_read = Some (\<lambda>fd n s. (1, [of_nat s], s + 1)),
      dev_write = Some (\<lambda>fd bs s. (int (length bs), s + length bs)),
      dev_lseek = None, dev_fstat = None, dev_ioctl = None\<rparr>"

definition demo_sys :: "nat sys" where
  "demo_sys =
     \<lparr>devices = (\<lambda>a. if a = 1 then alt_dev_null else demo_uart), alt_dev_list = [1],
      alt_fs_list = [], alt_fd_list = fd_pool, alt_max_fd = - 1, errno = 0, drivers = 0\<rparr>"

lemma demo_start: "sys_start demo_sys"
  by (simp add: sys_start_def demo_sys_def)

theorem descriptor_pool_invariant_witness:
  "alt_max_fd (fold sys_step [RegDev (Some 2), Open ''/dev/jtag_uart_0'' 2 0, Close 3] demo_sys) < 32"
  using descriptor_pool_invariant [OF demo_start refl] by blast

lemma open_failure:
  assumes inv: "fd_inv y" and o: "alt_open file flags mode y = Inr (r, y')" and r: "r < 0"
  shows "r = - 1 \<and> (\<exists>i. touches_fd i y y' \<and> fd_dev (alt_fd_list y' ! i) = fd_dev (alt_fd_list y ! i))"
  using alt_open_cases [OF o]
proof
  assume "alt_find_dev y file (alt_dev_list y) = Inr None \<and> alt_find_file y file = Inr None
        \<and> (r, y') = fail ENODEV y"
  then show ?thesis by (auto simp: fail_def touches_fd_def)
next
  assume "\<exists>d isafs z. names_device y file d isafs \<and> open_on d isafs file flags mode y = Inr z
          \<and> (r, y') = open_result z"
  then obtain d isafs ix st z where oo: "open_on d isafs file flags mode y = Inr (ix, st, z)"
    and res: "(r, y') = open_result (ix, st, z)" by auto
  from open_on_spec [OF inv oo] show ?thesis
  proof
    assume "ix = - EMFILE \<and> st = - EMFILE \<and> z = y
       \<and> (\<forall>i<ALT_MAX_FD. fd_dev (alt_fd_list y ! i) \<noteq> None)"
    with res show ?thesis
      by (auto simp: open_result_def fail_def alt_release_fd_def touches_fd_def)
  next
    assume "\<exists>i. ix = int i \<and> 3 \<le> i \<and> i < ALT_MAX_FD \<and> fd_dev (alt_fd_list y ! i) = None
          \<and> (\<forall>j<i. fd_dev (alt_fd_list y ! j) \<noteq> None) \<and> touches_fd i y z
          \<and> fd_dev (alt_fd_list z ! i) = Some d
          \<and> fd_flags (alt_fd_list z ! i) = open_flags isafs flags
          \<and> alt_max_fd z = max (int i) (alt_max_fd y)"
    then obtain i where i: "ix = int i" "3 \<le> i" "i < ALT_MAX_FD" "fd_dev (alt_fd_list y ! i) = None"
      "touches_fd i y z" by blast
    with r res have "st < 0" by (auto simp: open_result_def split: if_splits)
    with res have y': "r = - 1" "y' = (alt_release_fd (int i) z)\<lparr>errno := - st\<rparr>"
      using i(1) by (auto simp: open_result_def fail_def)
    have "touches_fd i y y'" "fd_dev (alt_fd_list y' ! i) = None"
      using i inv by (auto simp: y' alt_release_fd_def touches_fd_def fd_inv_def)
    with y' i(4) show ?thesis by metis
  qed
qed


abbreviation (input) null_fd :: alt_fd where
  "null_fd \<equiv> \<lparr>fd_dev = Some alt_dev_null_addr, fd_priv = 0, fd_flags = 0\<rparr>"

abbreviation (input) closed_fd :: alt_fd where
  "closed_fd \<equiv> \<lparr>fd_dev = None, fd_priv = 0, fd_flags = 0\<rparr>"

lemma fd_pool_eq:
  "fd_pool = [null_fd, null_fd, null_fd, closed_fd, closed_fd, closed_fd] @ replicate 26 closed_fd"
  by (simp add: fd_pool_def numeral_eq_Suc)

lemmas open_eval = alt_open_def open_on_def alt_get_fd_def fd_pool_eq set_flags_def
  alt_file_locked_def call_open_def open_result_def set_fd_def alt_release_fd_def demo_sys_def
  alt_dev_null_def Let_def

lemma demo_open: "map_sum id fst (alt_open ''/dev/null'' 2 0 demo_sys) = Inr 3"
  by (simp add: open_eval)


section \<open>Names\<close>

definition nul_free :: "string \<Rightarrow> bool" where
  "nul_free s \<longleftrightarrow> NUL \<notin> set s"

lemma memcmp_whole:
  "nul_free a \<Longrightarrow> nul_free b \<Longrightarrow> memcmp_eq (length b + 1) (a @ [NUL]) (b @ [NUL]) = Inr (a = b)"
proof (induction b arbitrary: a)
  case Nil
  then show ?case by (cases a) (auto simp: nul_free_def)
next
  case (Cons x b)
  then show ?case by (cases a) (auto simp: nul_free_def)
qed

lemma memcmp_prefix:
  "n \<le> length a \<Longrightarrow> n \<le> length b \<Longrightarrow> memcmp_eq n a b = Inr (take n a = take n b)"
proof (induction n arbitrary: a b)
  case (Suc n)
  then show ?case by (cases a; cases b) auto
qed simp

text \<open>
  Provided every registered device has a name, and names and the argument contain
  no NUL, \<open>alt_find_dev\<close> never reads outside a string and returns the first device of the
  list whose name is exactly the given one, as its comment says.
\<close>

theorem find_dev_exact:
  assumes "\<forall>d\<in>set ds. \<exists>nm. dev_name (devices y d) = Some nm \<and> nul_free nm" and "nul_free name"
  shows "alt_find_dev y name ds = Inr (find (\<lambda>d. dev_name (devices y d) = Some name) ds)"
  using assms
proof (induction ds)
  case (Cons d ds)
  then obtain nm where "dev_name (devices y d) = Some nm" "nul_free nm" by auto
  with Cons memcmp_whole [of nm name] show ?case by simp
qed simp

theorem find_dev_exact_witness:
  "alt_find_dev demo_sys ''/dev/jtag_uart_0'' [1, 2] = Inr (Some 2)
   \<and> alt_find_dev demo_sys ''/dev/jtag'' [1, 2] = Inr None"
  using find_dev_exact [of "[1, 2]" demo_sys "''/dev/jtag_uart_0''"]
    find_dev_exact [of "[1, 2]" demo_sys "''/dev/jtag''"]
  by (simp add: demo_sys_def demo_uart_def alt_dev_null_def nul_free_def)

text \<open>The file names below a mount point, as the comment at \<open>alt_find_file\<close> defines them.\<close>

definition below :: "string \<Rightarrow> string \<Rightarrow> bool" where
  "below mount name \<longleftrightarrow>
     (let m = (if last mount = CHR ''/'' then butlast mount else mount)
      in take (length m) name = m \<and> (length name = length m \<or> name ! length m = CHR ''/''))"

text \<open>
  For a mount point that is not longer than the file name, \<open>alt_find_file\<close> decides
  exactly whether the file is below it (the mount point, without a final slash, followed by
  a slash or by the end of the name). For a longer mount point it reads behind the end of
  the file name, which the comment does not allow for: the result is undefined.
\<close>

theorem find_file_matches_or_overruns:
  assumes "mount \<noteq> []" and "nul_free mount" and "nul_free name"
  shows "fs_match mount name =
     (if length name < length (if last mount = CHR ''/'' then butlast mount else mount)
      then Inl OutOfBounds else Inr (below mount name))"
proof -
  define m where "m = (if last mount = CHR ''/'' then butlast mount else mount)"
  have len: "length m = (if last mount = CHR ''/'' then length mount - 1 else length mount)"
    by (simp add: m_def)
  have m: "take (length m) (mount @ [NUL]) = m"
    using assms(1) by (auto simp: m_def butlast_conv_take)
  have fin: "(name @ [NUL]) ! length m = NUL \<longleftrightarrow> length name = length m" if "length m \<le> length name"
    using that assms(3) by (cases "length m = length name")
      (auto simp: nth_append nul_free_def in_set_conv_nth le_less)
  show ?thesis
  proof (cases "length name < length m")
    case True
    with assms(1) show ?thesis
      unfolding fs_match_def Let_def len [symmetric] m_def [symmetric] by simp
  next
    case False
    then have "memcmp_eq (length m) (mount @ [NUL]) (name @ [NUL]) = Inr (take (length m) name = m)"
      using m len by (subst memcmp_prefix) (auto simp: m_def)
    then have "fs_match mount name =
       (if (name @ [NUL]) ! length m = CHR ''/'' \<or> (name @ [NUL]) ! length m = NUL
        then Inr (take (length m) name = m) else Inr False)"
      unfolding fs_match_def Let_def len [symmetric] using False assms(1) by simp
    also have "\<dots> = Inr (below mount name)"
    proof (cases "length name = length m")
      case True
      with fin show ?thesis unfolding below_def Let_def m_def [symmetric] by simp
    next
      case longer: False
      with False have "(name @ [NUL]) ! length m = name ! length m" by (simp add: nth_append)
      with longer False fin show ?thesis unfolding below_def Let_def m_def [symmetric] by simp
    qed
    finally show ?thesis using False unfolding m_def [symmetric] by simp
  qed
qed

theorem find_file_matches_or_overruns_witness:
  "fs_match ''/mnt/rozipfs'' ''/mnt/rozipfs/a'' = Inr True \<and> fs_match ''/mnt/rozipfs'' ''/dev/x'' = Inl OutOfBounds"
  using find_file_matches_or_overruns [of "''/mnt/rozipfs''" "''/mnt/rozipfs/a''"]
    find_file_matches_or_overruns [of "''/mnt/rozipfs''" "''/dev/x''"]
  by (simp add: nul_free_def below_def)

section \<open>The exclusive lock\<close>

lemma scan_from:
  assumes "b \<le> length xs"
  shows "k \<le> length xs \<Longrightarrow> scan_fds (\<lambda>i. i < b) hit k (drop k xs)
     = Inr (\<exists>i. k \<le> i \<and> i < b \<and> hit i (xs ! i))"
proof (induction "length xs - k" arbitrary: k)
  case 0
  then show ?case using assms by simp
next
  case (Suc n)
  then have k: "drop k xs = xs ! k # drop (Suc k) xs" by (simp add: Cons_nth_drop_Suc)
  have ih: "scan_fds (\<lambda>i. i < b) hit (Suc k) (drop (Suc k) xs)
      = Inr (\<exists>i. Suc k \<le> i \<and> i < b \<and> hit i (xs ! i))"
    using Suc by (intro Suc.hyps(1)) simp_all
  have "(\<exists>i. k \<le> i \<and> i < b \<and> hit i (xs ! i)) =
     (k < b \<and> hit k (xs ! k) \<or> (\<exists>i. Suc k \<le> i \<and> i < b \<and> hit i (xs ! i)))"
    by (metis Suc_leD Suc_leI le_eq_less_or_eq)
  then show ?case by (simp add: k ih)
qed

lemma scan_all: "b \<le> length xs \<Longrightarrow> scan_fds (\<lambda>i. i < b) hit 0 xs = Inr (\<exists>i<b. hit i (xs ! i))"
  using scan_from [of b xs 0 hit] by simp

text \<open>The lock looks at the descriptors below the mark, the check in open at those up to it.\<close>

lemma lock_spec:
  assumes "fd_inv y"
  shows "alt_fd_lock fd y =
     (if \<exists>i. int i < alt_max_fd y \<and> i \<noteq> fd \<and> fd_dev (alt_fd_list y ! i) = fd_dev (alt_fd_list y ! fd)
      then Inr (- EACCES, y)
      else Inr (0, set_fd fd ((alt_fd_list y ! fd)\<lparr>fd_flags := fd_flags (alt_fd_list y ! fd) OR ALT_FD_EXCL\<rparr>) y))"
proof -
  have go: "(\<lambda>i. int i < alt_max_fd y) = (\<lambda>i. i < nat (alt_max_fd y))" by auto
  have "nat (alt_max_fd y) \<le> length (alt_fd_list y)" using assms unfolding fd_inv_def by linarith
  from scan_all [OF this]
  have "scan_fds (\<lambda>i. int i < alt_max_fd y) hit 0 (alt_fd_list y)
      = Inr (\<exists>i. int i < alt_max_fd y \<and> hit i (alt_fd_list y ! i))" for hit
    unfolding go by (simp add: zless_nat_eq_int_zless)
  then show ?thesis by (simp add: alt_fd_lock_def Let_def case_bool_if)
qed

lemma locked_by_other:
  assumes "fd_inv y" "0 \<le> alt_max_fd y" "i \<noteq> k" "int i \<le> alt_max_fd y"
    and "fd_dev (alt_fd_list y ! i) = fd_dev (alt_fd_list y ! k)" "k < 32"
    and "fd_flags (alt_fd_list y ! i) AND ALT_FD_EXCL \<noteq> 0"
  shows "\<exists>y'. alt_file_locked k y = Inr (- EACCES, y')"
proof -
  have m: "unat (word_of_int (alt_max_fd y) :: u32) = nat (alt_max_fd y)"
    using assms(1,2) by (simp add: fd_inv_def unat_eq_nat_uint uint_word_of_int_eq take_bit_int_eq_self)
  have go: "(\<lambda>i. i \<le> nat (alt_max_fd y)) = (\<lambda>i. i < nat (alt_max_fd y) + 1)" by auto
  have b: "nat (alt_max_fd y) + 1 \<le> length (alt_fd_list y)"
    using assms(1,2) unfolding fd_inv_def by linarith
  have "i < nat (alt_max_fd y) + 1" using assms(4) by simp
  moreover have "k < length (alt_fd_list y)" using assms(1,6) by (simp add: fd_inv_def)
  ultimately show ?thesis
    using assms(3,5,7) b
    by (auto simp: alt_file_locked_def Let_def m go scan_all case_bool_if intro!: exI [of _ i])
qed

text \<open>
  While a descriptor is locked for exclusive access, no \<open>open\<close> of its device by name
  succeeds: it returns -1 with \<open>EACCES\<close> (or \<open>EMFILE\<close> when the pool is full), calls no driver
  function and leaves every descriptor on the device it was on.
\<close>

theorem exclusive_lock_keeps_others_out:
  assumes "fd_inv y" and "i < 32" and "fd_dev (alt_fd_list y ! i) = Some d"
    and "fd_flags (alt_fd_list y ! i) AND ALT_FD_EXCL \<noteq> 0"
    and "alt_find_dev y file (alt_dev_list y) = Inr (Some d)"
  shows "\<exists>y'. alt_open file flags mode y = Inr (- 1, y') \<and> (errno y' = EACCES \<or> errno y' = EMFILE)
     \<and> drivers y' = drivers y \<and> map fd_dev (alt_fd_list y') = map fd_dev (alt_fd_list y)"
  using get_fd_cases [OF assms(1), of d]
proof
  assume "alt_get_fd d y = (- EMFILE, y) \<and> (\<forall>i<ALT_MAX_FD. fd_dev (alt_fd_list y ! i) \<noteq> None)"
  with assms(5) show ?thesis
    by (simp add: alt_open_def open_on_def open_result_def fail_def alt_release_fd_def)
next
  assume "\<exists>i y'. alt_get_fd d y = (int i, y') \<and> takes_fd d i y y'"
  then obtain k y1 where g: "alt_get_fd d y = (int k, y1)" "takes_fd d k y y1" by blast
  then have k: "3 \<le> k" "k < 32" "fd_dev (alt_fd_list y ! k) = None" by (simp_all add: takes_fd_def)
  have ik: "i \<noteq> k" using k assms(3) by auto
  let ?y2 = "set_flags k flags y1"
  have y1: "fd_inv y1" using fd_inv_takes [OF assms(1) g(2)] .
  have len: "length (alt_fd_list y) = 32" using assms(1) by (simp add: fd_inv_def)
  have m: "alt_max_fd ?y2 = max (int k) (alt_max_fd y)" using g(2) by (simp add: takes_fd_def set_flags_def)
  have "i < 3 \<or> int i \<le> alt_max_fd y" using assms(1-3) by (auto simp: fd_inv_def)
  then have im: "int i \<le> alt_max_fd ?y2" "0 \<le> alt_max_fd ?y2" using m k by auto
  obtain y3 where l: "alt_file_locked k ?y2 = Inr (- EACCES, y3)"
    using locked_by_other [OF fd_inv_flags [OF y1 k(2)] im(2) ik im(1)] ik k len assms(3,4) g(2)
    by (auto simp: takes_fd_def set_flags_def)
  have y3: "y3 = set_fd k ((alt_fd_list ?y2 ! k)\<lparr>fd_flags := fd_flags (alt_fd_list ?y2 ! k) OR ALT_FD_DEV\<rparr>) ?y2"
    using locked_spec [OF l] by blast
  have "alt_open file flags mode y = Inr (fail EACCES (alt_release_fd (int k) y3))"
    using assms(5) g l by (simp add: alt_open_def open_on_def open_result_def Let_def)
  moreover have "drivers y3 = drivers y" using g(2) by (simp add: y3 set_flags_def takes_fd_def)
  moreover have "map fd_dev (alt_fd_list (alt_release_fd (int k) y3)) = map fd_dev (alt_fd_list y)"
    using g(2) k len by (auto simp: y3 set_flags_def takes_fd_def alt_release_fd_def map_update
        intro!: nth_equalityI simp: nth_list_update)
  ultimately show ?thesis using k by (simp add: fail_def alt_release_fd_def)
qed

text \<open>A state in which descriptor 3 is open on the device at address 2 and locked.\<close>

definition locked_fds :: "alt_fd list" where
  "locked_fds = [null_fd, null_fd, null_fd,
     \<lparr>fd_dev = Some 2, fd_priv = 0, fd_flags = 0xC0000002\<rparr>, closed_fd, closed_fd] @ replicate 26 closed_fd"

definition locked_sys :: "nat sys" where
  "locked_sys = demo_sys\<lparr>alt_dev_list := [2, 1], alt_fd_list := locked_fds, alt_max_fd := 3\<rparr>"

lemma locked_sys_reached:
  "fold sys_step [RegDev (Some 2), Open ''/dev/jtag_uart_0'' 2 0, Ioctl 3 0x740D 0] demo_sys = locked_sys"
  by (simp add: sys_step_def open_eval alt_dev_reg_def alt_ioctl_def alt_fd_lock_def fd_of_def
      locked_sys_def locked_fds_def demo_uart_def)

lemma locked_sys_inv: "fd_inv locked_sys"
  using fds.inv_events [OF fd_inv_start [OF demo_start]] by (simp only: locked_sys_reached [symmetric])

theorem exclusive_lock_keeps_others_out_witness:
  "\<exists>y'. alt_open ''/dev/jtag_uart_0'' 2 0 locked_sys = Inr (- 1, y') \<and> drivers y' = drivers locked_sys"
proof -
  have "fd_dev (alt_fd_list locked_sys ! 3) = Some 2"
    "fd_flags (alt_fd_list locked_sys ! 3) AND 0x80000000 \<noteq> 0"
    "alt_find_dev locked_sys ''/dev/jtag_uart_0'' (alt_dev_list locked_sys) = Inr (Some 2)"
    by (simp_all add: locked_sys_def locked_fds_def demo_sys_def demo_uart_def)
  from exclusive_lock_keeps_others_out [OF locked_sys_inv _ this, of 2 0] show ?thesis by auto
qed

text \<open>
  The comment at \<open>alt_fd_lock\<close> says that the lock is granted if no other open
  descriptor refers to the same device. The loop stops one short of the high-water mark, so
  the highest descriptor is not looked at: when it is the only other one on the device, the
  exclusive lock is granted although the device is in use twice.
\<close>

theorem lock_ignores_highest_descriptor:
  assumes "fd_inv y" and "alt_max_fd y = int k" and "i < k"
    and "fd_dev (alt_fd_list y ! i) = Some d" and "fd_dev (alt_fd_list y ! k) = Some d"
    and "\<forall>j<k. j \<noteq> i \<longrightarrow> fd_dev (alt_fd_list y ! j) \<noteq> Some d"
  shows "\<exists>y'. alt_fd_lock i y = Inr (0, y') \<and> fd_dev (alt_fd_list y' ! k) = Some d
     \<and> fd_flags (alt_fd_list y' ! i) AND ALT_FD_EXCL \<noteq> 0"
proof -
  have len: "i < length (alt_fd_list y)" using assms(1-3) by (auto simp: fd_inv_def)
  have bit: "(x OR 0x80000000) AND 0x80000000 \<noteq> 0" for x :: u32
  proof -
    have "bit ((x OR 0x80000000) AND 0x80000000) 31" by (simp add: bit_simps)
    then show ?thesis by (metis bit_0_eq bot_apply bot_bool_def)
  qed
  have "\<not> (\<exists>j. int j < alt_max_fd y \<and> j \<noteq> i \<and> fd_dev (alt_fd_list y ! j) = fd_dev (alt_fd_list y ! i))"
    using assms(2,4,6) by auto
  with lock_spec [OF assms(1), of i] len bit assms(3,5) show ?thesis by simp
qed

definition shared_sys :: "nat sys" where
  "shared_sys = demo_sys\<lparr>alt_dev_list := [2, 1], alt_max_fd := 4,
     alt_fd_list := [null_fd, null_fd, null_fd, \<lparr>fd_dev = Some 2, fd_priv = 0, fd_flags = 0x40000002\<rparr>,
        \<lparr>fd_dev = Some 2, fd_priv = 0, fd_flags = 0x40000002\<rparr>, closed_fd] @ replicate 26 closed_fd\<rparr>"

lemma shared_sys_reached:
  "fold sys_step [RegDev (Some 2), Open ''/dev/jtag_uart_0'' 2 0, Open ''/dev/jtag_uart_0'' 2 0] demo_sys
     = shared_sys"
  by (simp add: sys_step_def open_eval alt_dev_reg_def shared_sys_def demo_uart_def)

theorem lock_ignores_highest_descriptor_witness:
  "\<exists>y'. alt_fd_lock 3 shared_sys = Inr (0, y') \<and> fd_dev (alt_fd_list y' ! 4) = Some 2"
proof -
  have "fd_inv shared_sys"
    using fds.inv_events [OF fd_inv_start [OF demo_start]] by (simp only: shared_sys_reached [symmetric])
  moreover have "\<forall>j<4. j \<noteq> 3 \<longrightarrow> fd_dev (alt_fd_list shared_sys ! j) \<noteq> Some 2"
    by (auto simp: shared_sys_def nth_Cons' split: if_splits)
  ultimately show ?thesis
    using lock_ignores_highest_descriptor [of shared_sys 4 3 2] by (auto simp: shared_sys_def)
qed

section \<open>close, access modes, fcntl\<close>



text \<open>
  The access mode of a descriptor is enforced before the driver: \<open>write\<close> on a
  read-only and \<open>read\<close> on a write-only descriptor fail with \<open>EACCES\<close>, and a negative
  descriptor fails in every call with \<open>EBADFD\<close>, without a driver function being called.
\<close>

theorem access_mode_enforced:
  assumes "fd_of f y = Inr (Some (i, x))" and "g < 0"
  shows "(fd_flags x AND O_ACCMODE = O_RDONLY \<longrightarrow> alt_write f bs y = Inr (- 1, y\<lparr>errno := EACCES\<rparr>))
     \<and> (fd_flags x AND O_ACCMODE = O_WRONLY \<longrightarrow> alt_read f n y = Inr (- 1, [], y\<lparr>errno := EACCES\<rparr>))
     \<and> alt_read g n y = Inr (- 1, [], y\<lparr>errno := EBADFD\<rparr>)
     \<and> alt_write g bs y = Inr (- 1, y\<lparr>errno := EBADFD\<rparr>)
     \<and> alt_close g y = Inr (- 1, y\<lparr>errno := EBADFD\<rparr>)
     \<and> alt_lseek g p w y = Inr (- 1, y\<lparr>errno := EBADFD\<rparr>)
     \<and> alt_fcntl g c v y = Inr (- 1, y\<lparr>errno := EBADFD\<rparr>)
     \<and> alt_ioctl g c v y = Inr (- EBADFD, v, y\<lparr>errno := EBADFD\<rparr>)"
  using assms by (simp add: alt_read_def alt_write_def alt_close_def alt_lseek_def alt_fcntl_def
      alt_ioctl_def fd_of_def fail_def split: if_splits)

theorem access_mode_enforced_witness:
  "alt_write 1 [65] locked_sys = Inr (- 1, locked_sys\<lparr>errno := 13\<rparr>)
   \<and> alt_close (- 1) locked_sys = Inr (- 1, locked_sys\<lparr>errno := 81\<rparr>)"
  using access_mode_enforced [of 1 locked_sys 1 null_fd "- 1" "[65]"]
  by (simp add: fd_of_def locked_sys_def locked_fds_def)

text \<open>
  \<open>fcntl\<close> with \<open>F_SETFL\<close> changes the append and non-blocking flags of the descriptor
  and no other flag, so neither its access mode nor a lock; \<open>F_GETFL\<close> then reports the new
  values of the two flags and hides the internal ones.
\<close>

theorem fcntl_changes_two_flags:
  assumes "fd_of f y = Inr (Some (i, x))"
  shows "\<exists>y'. alt_fcntl f F_SETFL v y = Inr (0, y')
     \<and> fd_flags (alt_fd_list y' ! i) AND NOT 0x4008 = fd_flags x AND NOT 0x4008
     \<and> fd_flags (alt_fd_list y' ! i) AND 0x4008 = v AND 0x4008
     \<and> alt_fcntl f F_GETFL w y'
        = Inr (sint (((fd_flags x AND NOT 0x4008) OR (v AND 0x4008)) AND NOT ALT_FD_FLAGS_MASK), y')"
proof -
  have x: "f = int i" "i < length (alt_fd_list y)" "x = alt_fd_list y ! i"
    using fd_of_Some [OF assms] by auto
  have m: "(8 :: u32) OR 0x4000 = 0x4008" by simp
  have a: "((p AND NOT m) OR (q AND m)) AND NOT m = p AND NOT m"
    "((p AND NOT m) OR (q AND m)) AND m = q AND m" for p q m :: u32
    by (rule bit_word_eqI; auto simp: bit_simps)+
  show ?thesis
    using assms x a [of "fd_flags x" "0x4008" v]
    by (simp add: alt_fcntl_def fd_of_def m)
qed

theorem fcntl_changes_two_flags_witness:
  "\<exists>y'. alt_fcntl 3 4 0x4001 locked_sys = Inr (0, y') \<and> alt_fcntl 3 3 0 y' = Inr (0x4002, y')"
  using fcntl_changes_two_flags [of 3 locked_sys 3 "alt_fd_list locked_sys ! 3" "0x4001" 0]
  by (auto simp: fd_of_def locked_sys_def locked_fds_def)

section \<open>Redirection\<close>

lemma redirect_result:
  assumes "sys_start y" and "dev_name (devices y u) = Some name" and "nul_free name"
    and "dev_open (devices y u) = None"
  shows "\<exists>y'. alt_io_redirect name name name (snd (alt_dev_reg (Some u) y)) = Inr y'
     \<and> alt_fd_list y' = [\<lparr>fd_dev = Some u, fd_priv = 0, fd_flags = ALT_FD_DEV OR O_RDONLY\<rparr>,
          \<lparr>fd_dev = Some u, fd_priv = 0, fd_flags = ALT_FD_DEV OR O_WRONLY\<rparr>,
          \<lparr>fd_dev = Some u, fd_priv = 0, fd_flags = ALT_FD_DEV OR O_WRONLY\<rparr>]
          @ replicate 29 \<lparr>fd_dev = None, fd_priv = 0, fd_flags = 0\<rparr>
     \<and> devices y' = devices y \<and> drivers y' = drivers y"
proof -
  have w: "memcmp_eq (Suc (length name)) (name @ [NUL]) (name @ [NUL]) = Inr True"
    using memcmp_whole [OF assms(3) assms(3)] by simp
  have r: "replicate 29 x = x # x # x # replicate 26 x" for x :: alt_fd
    by (simp add: numeral_eq_Suc)
  show ?thesis using assms(1,2,4)
    by (simp add: r sys_start_def alt_io_redirect_def alt_open_fd_def alt_dev_reg_def
        alt_open_def w open_on_def alt_get_fd_def fd_pool_eq set_flags_def alt_file_locked_def
        call_open_def open_result_def set_fd_def alt_release_fd_def Let_def)
qed

text \<open>
  The start-up sequence: the UART driver registers its device, then the standard
  streams are redirected. If the device has no open function of its own, all three streams
  refer to it afterwards, standard output and error for writing and standard input for
  reading, and the descriptor used on the way is free again.
\<close>

theorem redirect_standard_streams:
  assumes "sys_start y" and "dev_name (devices y u) = Some name" and "nul_free name"
    and "dev_open (devices y u) = None"
  shows "\<exists>y'. alt_io_redirect name name name (snd (alt_dev_reg (Some u) y)) = Inr y'
     \<and> map fd_dev (alt_fd_list y') = [Some u, Some u, Some u] @ replicate 29 None
     \<and> map (\<lambda>x. fd_flags x AND O_ACCMODE) (take 3 (alt_fd_list y')) = [O_RDONLY, O_WRONLY, O_WRONLY]"
  using redirect_result [OF assms] by auto

theorem redirect_standard_streams_witness:
  "\<exists>y'. alt_io_redirect ''/dev/jtag_uart_0'' ''/dev/jtag_uart_0'' ''/dev/jtag_uart_0''
       (snd (alt_dev_reg (Some 2) demo_sys)) = Inr y'
     \<and> fd_dev (alt_fd_list y' ! 1) = Some 2"
proof -
  have "dev_name (devices demo_sys 2) = Some ''/dev/jtag_uart_0''" "nul_free ''/dev/jtag_uart_0''"
    "dev_open (devices demo_sys 2) = None"
    by (simp_all add: demo_sys_def demo_uart_def nul_free_def)
  from redirect_standard_streams [OF demo_start this] obtain y' where
    y': "alt_io_redirect ''/dev/jtag_uart_0'' ''/dev/jtag_uart_0'' ''/dev/jtag_uart_0''
       (snd (alt_dev_reg (Some 2) demo_sys)) = Inr y'"
    "map fd_dev (alt_fd_list y') = [Some 2, Some 2, Some 2] @ replicate 29 None" by blast
  from y'(2) have "fd_dev (alt_fd_list y' ! 1) = Some 2"
    by (cases "alt_fd_list y'"; cases "tl (alt_fd_list y')") auto
  with y'(1) show ?thesis by blast
qed

end

