(* ===== verification/Boot.thy ===== *)
theory Boot
  imports UartClaims FdClaims Irq Alarm
begin

text \<open>
  Start-up and exit, where the components meet: \<^verbatim>\<open>alt_sys_init.c\<close>, \<^verbatim>\<open>HAL/src/alt_main.c\<close>,
  \<^verbatim>\<open>alt_do_ctors.c\<close>, \<^verbatim>\<open>alt_do_dtors.c\<close>, \<^verbatim>\<open>alt_exit.c\<close>, the device table of
  \<^verbatim>\<open>altera_avalon_jtag_uart_fd.h\<close> and \<^verbatim>\<open>altera_nios2_gen2_irq.c\<close>. A board is the state of the
  interrupt, clock and file components around one UART driver. The lemmas follow the bytes a
  program writes through the descriptor table, the driver and the interrupt dispatcher to the
  device.
\<close>

section \<open>The UART driver as a device\<close>

text \<open>
  The driver of the board: running, with the interrupts that will arrive while its calls wait;
  or in a call that does not return; or gone wrong.
\<close>

datatype 'h uart_run = Running "interrupt list" "'h uart" | Waiting | Broken fault

text \<open>Carry on from the end of a call; \<open>d\<close> stands for a result that never comes.\<close>

definition settle :: "'r \<Rightarrow> (fault + ('r \<times> interrupt list \<times> 'h uart)) option \<Rightarrow> 'r \<times> 'h uart_run" where
  "settle d r =
     (case r of
        None \<Rightarrow> (d, Waiting)
      | Some (Inl f) \<Rightarrow> (d, Broken f)
      | Some (Inr (v, is, u)) \<Rightarrow> (v, Running is u))"

definition when_running ::
  "'r \<Rightarrow> (interrupt list \<Rightarrow> 'h uart \<Rightarrow> 'r \<times> 'h uart_run) \<Rightarrow> 'h uart_run \<Rightarrow> 'r \<times> 'h uart_run" where
  "when_running d f r = (case r of Running is u \<Rightarrow> f is u | _ \<Rightarrow> (d, r))"

definition uart_entry_read :: "'h jtag \<Rightarrow> alt_fd \<Rightarrow> nat \<Rightarrow> 'h uart_run \<Rightarrow> int \<times> u8 list \<times> 'h uart_run" where
  "uart_entry_read H fd len r =
     (let ((v, bs), r) = when_running (0, [])
            (\<lambda>is u. settle (0, []) (map_option (map_sum id (\<lambda>(v, bs, is, u). ((v, bs), is, u)))
                (altera_avalon_jtag_uart_read_fd H fd (int len) is u))) r
      in (v, bs, r))"

definition uart_entry_write :: "'h jtag \<Rightarrow> alt_fd \<Rightarrow> u8 list \<Rightarrow> 'h uart_run \<Rightarrow> int \<times> 'h uart_run" where
  "uart_entry_write H fd bs r =
     when_running 0 (\<lambda>is u. settle 0 (altera_avalon_jtag_uart_write_fd H fd bs is u)) r"

definition uart_entry_close :: "'h jtag \<Rightarrow> alt_fd \<Rightarrow> 'h uart_run \<Rightarrow> int \<times> 'h uart_run" where
  "uart_entry_close H fd r =
     when_running 0 (\<lambda>is u. settle 0 (altera_avalon_jtag_uart_close_fd H fd is u)) r"

definition uart_entry_ioctl :: "alt_fd \<Rightarrow> int \<Rightarrow> u32 \<Rightarrow> 'h uart_run \<Rightarrow> int \<times> u32 \<times> 'h uart_run" where
  "uart_entry_ioctl fd req arg r =
     (let ((v, a), r) = when_running (0, arg)
            (\<lambda>is u. case altera_avalon_jtag_uart_ioctl_fd fd req arg u of (v, a, u) \<Rightarrow> ((v, a), Running is u)) r
      in (v, a, r))"

abbreviation (input) JTAG_UART_0_NAME :: string where "JTAG_UART_0_NAME \<equiv> ''/dev/jtag_uart_0''"
abbreviation (input) JTAG_UART_0_IRQ :: u32 where "JTAG_UART_0_IRQ \<equiv> 5"
abbreviation (input) jtag_uart_0 :: nat where "jtag_uart_0 \<equiv> 2"

text \<open>\<^verbatim>\<open>ALTERA_AVALON_JTAG_UART_DEV_INSTANCE\<close>.\<close>

definition jtag_uart_dev :: "'h jtag \<Rightarrow> 'h uart_run alt_dev" where
  "jtag_uart_dev H =
     \<lparr>dev_name = Some JTAG_UART_0_NAME, dev_open = None, dev_close = Some (uart_entry_close H),
      dev_read = Some (uart_entry_read H), dev_write = Some (uart_entry_write H),
      dev_lseek = None, dev_fstat = None, dev_ioctl = Some uart_entry_ioctl\<rparr>"

text \<open>The entries of the interrupt table and of the alarm.\<close>

definition uart_isr :: "'h jtag \<Rightarrow> 'h uart_run isr" where
  "uart_isr H context r =
     snd (when_running () (\<lambda>is u. settle ()
       (map_option (map_sum id (\<lambda>u. ((), is, u))) (altera_avalon_jtag_uart_irq H u))) r)"

definition uart_alarm :: "'h jtag \<Rightarrow> u32 \<Rightarrow> nat \<Rightarrow> 'h uart_run \<Rightarrow> u32 \<times> 'h uart_run" where
  "uart_alarm H tps context r =
     when_running 0 (\<lambda>is u. case altera_avalon_jtag_uart_timeout H tps u of (n, u) \<Rightarrow> (n, Running is u)) r"

section \<open>The board\<close>

text \<open>
  The state of the drivers is kept once, with the interrupts; the file component gets it on
  entry and gives it back.
\<close>

record 'h board =
  irqs :: "'h uart_run irq_sys"
  clk :: "'h uart_run clock"
  files :: "'h uart_run sys"

definition on_irqs ::
  "('h uart_run irq_sys \<Rightarrow> fault + ('r \<times> 'h uart_run irq_sys)) \<Rightarrow> 'h board \<Rightarrow> fault + ('r \<times> 'h board)" where
  "on_irqs f b = map_sum id (\<lambda>(r, m). (r, b\<lparr>irqs := m\<rparr>)) (f (irqs b))"

definition on_files ::
  "('h uart_run sys \<Rightarrow> fault + ('r \<times> 'h uart_run sys)) \<Rightarrow> 'h board \<Rightarrow> fault + ('r \<times> 'h board)" where
  "on_files f b =
     map_sum id (\<lambda>(r, y). (r, b\<lparr>files := y, irqs := (irqs b)\<lparr>devs := drivers y\<rparr>\<rparr>))
       (f ((files b)\<lparr>drivers := devs (irqs b)\<rparr>))"

definition on_uart :: "('h uart \<Rightarrow> 'h uart) \<Rightarrow> 'h board \<Rightarrow> 'h board" where
  "on_uart f b =
     b\<lparr>irqs := (irqs b)\<lparr>devs := snd (when_running () (\<lambda>is u. ((), Running is (f u))) (devs (irqs b)))\<rparr>\<rparr>"

section \<open>Start-up\<close>

definition altera_nios2_gen2_irq_init :: "'s irq_sys \<Rightarrow> 's irq_sys" where
  "altera_nios2_gen2_irq_init m = m\<lparr>ienable := 0\<rparr>"

definition alt_irq_cpu_enable_interrupts :: "'s irq_sys \<Rightarrow> 's irq_sys" where
  "alt_irq_cpu_enable_interrupts m = m\<lparr>cpu_status := PIE\<rparr>"

definition alt_irq_init :: "'h board \<Rightarrow> 'h board" where
  "alt_irq_init b = b\<lparr>irqs := alt_irq_cpu_enable_interrupts (altera_nios2_gen2_irq_init (irqs b))\<rparr>"

text \<open>
  \<^verbatim>\<open>altera_avalon_jtag_uart_init\<close> with its registrations: enable the receive interrupt, register
  the handler, then reset the host timeout and start the alarm.
\<close>

definition uart_enable_rx :: "'h jtag \<Rightarrow> 'h uart \<Rightarrow> 'h uart" where
  "uart_enable_rx H s = (let s = s\<lparr>irq_enable := CONTROL_RE\<rparr> in iowr_control H (irq_enable s) s)"

definition uart_watch_host :: "int \<Rightarrow> 'h uart \<Rightarrow> 'h uart" where
  "uart_watch_host a s = (let s = s\<lparr>host_inactive := 0\<rparr> in if a < 0 then s\<lparr>timeout := INT_MAX\<rparr> else s)"

abbreviation (input) jtag_uart_0_alarm :: nat where "jtag_uart_0_alarm \<equiv> 1"

definition jtag_uart_0_init :: "'h jtag \<Rightarrow> 'h board \<Rightarrow> fault + 'h board" where
  "jtag_uart_0_init H b =
     (case on_irqs (alt_ic_isr_register 0 JTAG_UART_0_IRQ (Some (uart_isr H)) 0)
             (on_uart (uart_enable_rx H) b) of
        Inl f \<Rightarrow> Inl f
      | Inr (_, b) \<Rightarrow>
          (let tps = alt_ticks_per_second (clk b);
               (a, c) = alt_alarm_start (Some jtag_uart_0_alarm) tps (uart_alarm H tps) 0 (clk b)
           in Inr (on_uart (uart_watch_host a) (b\<lparr>clk := c\<rparr>))))"

definition alt_sys_init :: "'h jtag \<Rightarrow> 'h board \<Rightarrow> fault + 'h board" where
  "alt_sys_init H b =
     (case jtag_uart_0_init H b of
        Inl f \<Rightarrow> Inl f
      | Inr b \<Rightarrow> map_sum id snd (on_files (\<lambda>y. Inr (alt_dev_reg (Some jtag_uart_0) y)) b))"

text \<open>
  Constructors and destructors: from the end of the table down to its first entry.
\<close>

fun run_table :: "nat \<Rightarrow> ('s \<Rightarrow> 's) list \<Rightarrow> 's \<Rightarrow> 's" where
  "run_table 0 fs s = s"
| "run_table (Suc n) fs s = run_table n fs ((fs ! n) s)"

definition do_ctors :: "('s \<Rightarrow> 's) list \<Rightarrow> 's \<Rightarrow> 's" where
  "do_ctors fs s = run_table (length fs) fs s"

definition do_dtors :: "('s \<Rightarrow> 's) list \<Rightarrow> 's \<Rightarrow> 's" where
  "do_dtors fs s = run_table (length fs) fs s"

definition alt_boot :: "'h jtag \<Rightarrow> ('h board \<Rightarrow> 'h board) list \<Rightarrow> 'h board \<Rightarrow> fault + 'h board" where
  "alt_boot H ctors b =
     (case alt_sys_init H (alt_irq_init b) of
        Inl f \<Rightarrow> Inl f
      | Inr b \<Rightarrow>
          (case on_files (\<lambda>y. map_sum id (\<lambda>y. ((), y))
                  (alt_io_redirect JTAG_UART_0_NAME JTAG_UART_0_NAME JTAG_UART_0_NAME y)) b of
             Inl f \<Rightarrow> Inl f
           | Inr (_, b) \<Rightarrow> Inr (do_ctors ctors b)))"

text \<open>
  \<^verbatim>\<open>alt_main\<close>: boot, \<^verbatim>\<open>main\<close>, \<^verbatim>\<open>close(STDOUT_FILENO)\<close>, \<^verbatim>\<open>exit\<close>, which runs the destructors
  registered with \<^verbatim>\<open>atexit\<close> and calls \<^verbatim>\<open>_exit\<close>. The processor then spins: the result is the code
  and the state it does so with.
\<close>

definition alt_main ::
  "'h jtag \<Rightarrow> ('h board \<Rightarrow> 'h board) list \<Rightarrow> ('h board \<Rightarrow> 'h board) list
     \<Rightarrow> ('h board \<Rightarrow> fault + (int \<times> 'h board)) \<Rightarrow> 'h board \<Rightarrow> fault + (int \<times> 'h board)" where
  "alt_main H ctors dtors main b =
     (case alt_boot H ctors b of
        Inl f \<Rightarrow> Inl f
      | Inr b \<Rightarrow>
          (case main b of
             Inl f \<Rightarrow> Inl f
           | Inr (result, b) \<Rightarrow>
               (case on_files (alt_close 1) b of
                  Inl f \<Rightarrow> Inl f
                | Inr (_, b) \<Rightarrow> Inr (result, do_dtors dtors b))))"

text \<open>A program that only prints: the \<^verbatim>\<open>write\<close> calls that \<^verbatim>\<open>printf\<close> makes, results ignored.\<close>

fun prints :: "u8 list list \<Rightarrow> 'h board \<Rightarrow> fault + (int \<times> 'h board)" where
  "prints [] b = Inr (0, b)"
| "prints (bs # css) b =
     (case on_files (alt_write 1 bs) b of Inl f \<Rightarrow> Inl f | Inr (_, b) \<Rightarrow> prints css b)"

section \<open>The state after start-up\<close>

text \<open>Reset: the static data of the program and a device in state \<open>h\<close>.\<close>

definition board_start :: "'h jtag \<Rightarrow> interrupt list \<Rightarrow> 'h \<Rightarrow> 'h board \<Rightarrow> bool" where
  "board_start H is h b \<longleftrightarrow>
     sys_start (files b) \<and> devices (files b) jtag_uart_0 = jtag_uart_dev H
     \<and> length (alt_irq (irqs b)) = ALT_NIRQ \<and> alt_irq_active (irqs b) = 0
     \<and> devs (irqs b) = Running is (uart_static h)"

definition alarm_result :: "'h board \<Rightarrow> int" where
  "alarm_result b = (if tick_rate (clk b) = 0 then - ENOTSUP else 0)"

lemma uart_init_steps:
  "uart_watch_host a (uart_enable_rx H s) = altera_avalon_jtag_uart_init H a s"
  by (simp add: uart_watch_host_def uart_enable_rx_def altera_avalon_jtag_uart_init_def Let_def)

lemma when_running_simps [simp]:
  "when_running d f (Running is u) = f is u" "when_running d f Waiting = (d, Waiting)"
  "when_running d f (Broken e) = (d, Broken e)"
  by (simp_all add: when_running_def)

lemma settle_simps [simp]:
  "settle d None = (d, Waiting)" "settle d (Some (Inl e)) = (d, Broken e)"
  "settle d (Some (Inr (v, is, u))) = (v, Running is u)"
  by (simp_all add: settle_def)

lemma settle_running:
  "settle d r = (v, Running is u) \<longleftrightarrow> r = Some (Inr (v, is, u))"
  by (auto simp: settle_def split: option.splits sum.splits)

lemma alarm_start_result:
  "fst (alt_alarm_start (Some x) n cb ctx c) = (if tick_rate c = 0 then - ENOTSUP else 0)"
  "tick_rate c = 0 \<Longrightarrow> snd (alt_alarm_start (Some x) n cb ctx c) = c"
  by (simp_all add: alt_alarm_start_def alt_ticks_per_second_def Let_def)

lemma line_5: "line JTAG_UART_0_IRQ = 32"
  by (simp add: line_def push_bit_eq_mult)

lemma uart_registered:
  assumes "length (alt_irq m) = ALT_NIRQ"
  shows "alt_ic_isr_register 0 JTAG_UART_0_IRQ (Some f) ctx m =
     Inr (0, m\<lparr>alt_irq := (alt_irq m)[5 := (Some f, ctx)], alt_irq_active := alt_irq_active m OR 32,
       ienable := alt_irq_active m OR 32\<rparr>)"
proof -
  have "unat (5 :: u32) = 5" by simp
  then show ?thesis
    by (simp add: alt_ic_isr_register_def alt_iic_isr_register_def alt_ic_irq_enable_def
        alt_irq_enable_def alt_irq_disable_all_def alt_irq_enable_all_def set_isr_def line_5 Let_def)
qed

lemma jtag_uart_0_init_result:
  assumes "board_start H is h b" "irqs b' = alt_irq_cpu_enable_interrupts (altera_nios2_gen2_irq_init (irqs b))"
    "clk b' = clk b"
  shows "\<exists>c. jtag_uart_0_init H b' = Inr (b'\<lparr>clk := c,
       irqs := (irqs b')\<lparr>devs := Running is (altera_avalon_jtag_uart_init H (alarm_result b) (uart_static h)),
         alt_irq := (alt_irq (irqs b))[5 := (Some (uart_isr H), 0)], alt_irq_active := 32, ienable := 32\<rparr>\<rparr>)
     \<and> (tick_rate (clk b) = 0 \<longrightarrow> c = clk b)"
proof -
  obtain a c where a: "alt_alarm_start (Some jtag_uart_0_alarm) (alt_ticks_per_second (clk b))
      (uart_alarm H (alt_ticks_per_second (clk b))) 0 (clk b) = (a, c)" by fastforce
  then have "a = alarm_result b" "tick_rate (clk b) = 0 \<longrightarrow> c = clk b"
    using alarm_start_result [where x = jtag_uart_0_alarm and n = "alt_ticks_per_second (clk b)"
        and cb = "uart_alarm H (alt_ticks_per_second (clk b))" and ctx = 0 and c = "clk b"]
    by (auto simp: alarm_result_def)
  moreover have "length (alt_irq (irqs b)) = ALT_NIRQ" using assms(1) by (simp add: board_start_def)
  ultimately show ?thesis
    using assms a by (intro exI [of _ c]) (simp add: jtag_uart_0_init_def on_irqs_def on_uart_def uart_registered
        board_start_def altera_nios2_gen2_irq_init_def alt_irq_cpu_enable_interrupts_def
        uart_init_steps Let_def)
qed


lemma board_start_streams:
  assumes "board_start H is h b"
  shows "sys_start ((files b)\<lparr>drivers := s\<rparr>)"
    "dev_name (devices ((files b)\<lparr>drivers := s\<rparr>) jtag_uart_0) = Some JTAG_UART_0_NAME"
    "nul_free JTAG_UART_0_NAME" "dev_open (devices ((files b)\<lparr>drivers := s\<rparr>) jtag_uart_0) = None"
  using assms by (simp_all add: board_start_def sys_start_def jtag_uart_dev_def nul_free_def)

lemma boot_result:
  assumes "board_start H is h b"
  shows "\<exists>b'. alt_boot H ctors b = Inr (do_ctors ctors b')
     \<and> ienable (irqs b') = line JTAG_UART_0_IRQ \<and> cpu_status (irqs b') = PIE
     \<and> length (alt_irq (irqs b')) = ALT_NIRQ \<and> alt_irq (irqs b') ! 5 = (Some (uart_isr H), 0)
     \<and> devs (irqs b') = Running is (altera_avalon_jtag_uart_init H (alarm_result b) (uart_static h))
     \<and> alt_fd_list (files b') = [\<lparr>fd_dev = Some jtag_uart_0, fd_priv = 0, fd_flags = ALT_FD_DEV OR O_RDONLY\<rparr>,
          \<lparr>fd_dev = Some jtag_uart_0, fd_priv = 0, fd_flags = ALT_FD_DEV OR O_WRONLY\<rparr>,
          \<lparr>fd_dev = Some jtag_uart_0, fd_priv = 0, fd_flags = ALT_FD_DEV OR O_WRONLY\<rparr>]
          @ replicate 29 \<lparr>fd_dev = None, fd_priv = 0, fd_flags = 0\<rparr>
     \<and> devices (files b') jtag_uart_0 = jtag_uart_dev H
     \<and> (tick_rate (clk b) = 0 \<longrightarrow> clk b' = clk b)"
proof -
  let ?b = "alt_irq_init b" and ?u = "Running is (altera_avalon_jtag_uart_init H (alarm_result b) (uart_static h))"
  have p: "irqs ?b = alt_irq_cpu_enable_interrupts (altera_nios2_gen2_irq_init (irqs b))" "clk ?b = clk b"
    "files ?b = files b" by (simp_all add: alt_irq_init_def)
  obtain c b1 where b1: "jtag_uart_0_init H ?b = Inr b1" "clk b1 = c" "files b1 = files b"
    "irqs b1 = (irqs ?b)\<lparr>devs := ?u, alt_irq := (alt_irq (irqs b))[5 := (Some (uart_isr H), 0)],
       alt_irq_active := 32, ienable := 32\<rparr>" "tick_rate (clk b) = 0 \<longrightarrow> c = clk b"
    using jtag_uart_0_init_result [OF assms p(1,2)] p(3) by fastforce
  let ?y = "(files b)\<lparr>drivers := ?u\<rparr>"
  have dv: "devs (irqs b1) = ?u" using b1(4) by simp
  obtain y where y: "alt_io_redirect JTAG_UART_0_NAME JTAG_UART_0_NAME JTAG_UART_0_NAME
       (snd (alt_dev_reg (Some jtag_uart_0) ?y)) = Inr y"
    and fds: "alt_fd_list y = [\<lparr>fd_dev = Some jtag_uart_0, fd_priv = 0, fd_flags = ALT_FD_DEV OR O_RDONLY\<rparr>,
          \<lparr>fd_dev = Some jtag_uart_0, fd_priv = 0, fd_flags = ALT_FD_DEV OR O_WRONLY\<rparr>,
          \<lparr>fd_dev = Some jtag_uart_0, fd_priv = 0, fd_flags = ALT_FD_DEV OR O_WRONLY\<rparr>]
          @ replicate 29 \<lparr>fd_dev = None, fd_priv = 0, fd_flags = 0\<rparr>"
    and dy: "devices y = devices ?y" "drivers y = drivers ?y"
    using redirect_result [OF board_start_streams [OF assms]] by metis
  define b2 where "b2 = b1\<lparr>files := y, irqs := (irqs b1)\<lparr>devs := ?u\<rparr>\<rparr>"
  have rg: "(snd (alt_dev_reg (Some jtag_uart_0) ?y))\<lparr>drivers := ?u\<rparr> = snd (alt_dev_reg (Some jtag_uart_0) ?y)"
    by (simp add: alt_dev_reg_def)
  have boot: "alt_boot H ctors b = Inr (do_ctors ctors b2)"
    using b1(1,3) y dy(2) rg
    by (simp add: b2_def alt_boot_def alt_sys_init_def on_files_def dv split_beta rg)
  have "length (alt_irq (irqs b)) = ALT_NIRQ" "devices (files b) jtag_uart_0 = jtag_uart_dev H"
    using assms by (simp_all add: board_start_def)
  then show ?thesis
    using boot b1(2,4,5) p dy(1) fds
    by (intro exI [of _ b2] conjI)
      (simp_all add: b2_def line_5 alt_irq_cpu_enable_interrupts_def altera_nios2_gen2_irq_init_def)
qed

end
