(* ===== verification/BootClaims.thy ===== *)
theory BootClaims
  imports Boot
begin

text \<open>
  What the start-up code gives to the program: the standard streams on the UART, the UART's
  interrupt dispatched to its driver, and every byte written before \<^verbatim>\<open>main\<close> returns handed to the
  device before the processor stops.
\<close>

section \<open>Without timer interrupts\<close>

lemma map_sum_Inr: "map_sum id f z = Inr y \<longleftrightarrow> (\<exists>x. z = Inr x \<and> y = f x)"
  by (cases z) auto

text \<open>The interrupt routine leaves the count of silent seconds alone; only the alarm changes it.\<close>

lemma iord_data_host: "iord_data H s = (d, s') \<Longrightarrow> host_inactive s' = host_inactive s"
  by (auto simp: iord_data_def split_beta Let_def)

lemma rx_fill_host:
  "rx_fill H d s = Some r \<Longrightarrow> r = Inr (d', s') \<Longrightarrow> host_inactive s' = host_inactive s"
proof (induction H d s r rule: rx_fill.raw_induct [rotated, consumes 1, case_names step])
  case (step fill H d s r)
  then show ?case
    by (cases "adv (rx_in s) 1 = rx_out s"; cases "fst (iord_data H s) AND DATA_RVALID = 0";
        cases "length (rx_buf s) \<le> unat (rx_in s)") (auto dest: iord_data_host)
qed

lemma disable_host [simp]: "host_inactive (disable_irq H m s) = host_inactive s"
  by (simp add: disable_irq_def iowr_control_def iord_control_def Let_def split_beta)

lemma rx_irq_host:
  assumes "rx_irq H s = Some (Inr t)"
  shows "host_inactive t = host_inactive s"
proof -
  obtain d u where "rx_fill H 0x10000 s = Some (Inr (d, u))"
    "t = (if d AND DATA_RAVAIL \<noteq> 0 then disable_irq H CONTROL_RE u else u)"
    using assms by (auto simp: rx_irq_def map_sum_Inr)
  then show ?thesis using rx_fill_host [OF _ refl] by auto
qed

lemma tx_drain_host: "tx_drain H n s = Inr (k, s') \<Longrightarrow> host_inactive s' = host_inactive s"
  by (induction n arbitrary: s) (auto simp: Let_def iowr_data_def split: if_splits)

lemma irq_body_host:
  assumes "irq_body H c s = Some (Inr s')"
  shows "host_inactive s' = host_inactive s"
proof -
  obtain t where t: "(if c AND CONTROL_RI \<noteq> 0 then rx_irq H s else Some (Inr s)) = Some (Inr t)"
    "Inr s' = (if c AND CONTROL_WI \<noteq> 0 then tx_irq H c t else Inr t)"
    using assms by (auto simp: irq_body_def split: option.splits sum.splits)
  have "host_inactive t = host_inactive s"
    using t(1) rx_irq_host by (auto split: if_splits)
  moreover have "host_inactive s' = host_inactive t"
    using t(2) tx_drain_host [of H "unat (drop_bit 16 c)" t]
    by (auto simp: tx_irq_def map_sum_def split: if_splits sum.splits prod.splits)
  ultimately show ?thesis by simp
qed

lemma irq_host:
  "altera_avalon_jtag_uart_irq H s = Some r \<Longrightarrow> r = Inr s' \<Longrightarrow> host_inactive s' = host_inactive s"
proof (induction H s r rule: altera_avalon_jtag_uart_irq.raw_induct [rotated, consumes 1, case_names step])
  case (step irq H s r)
  obtain c t where ct: "iord_control H s = (c, t)" by fastforce
  then have "host_inactive t = host_inactive s" by (auto simp: iord_control_def split_beta Let_def)
  with step ct show ?case
    by (cases "c AND (CONTROL_RI OR CONTROL_WI) = 0"; cases "irq_body H c t")
      (auto split: sum.splits dest: irq_body_host)
qed

lemma spin_host:
  "spin H busy is s = Some (Inr (is', s')) \<Longrightarrow> set is \<subseteq> {Irq} \<Longrightarrow>
   host_inactive s' = host_inactive s \<and> set is' \<subseteq> {Irq}"
proof (induction "is" arbitrary: s)
  case Nil
  then show ?case by (subst (asm) spin.simps) (auto split: if_splits)
next
  case (Cons i "is")
  show ?case
  proof (cases "busy s \<and> host_inactive s < timeout s")
    case False
    then have "is' = i # is \<and> s' = s" using Cons.prems(1) by (subst (asm) spin.simps) auto
    then show ?thesis using Cons.prems(2) by simp
  next
    case True
    obtain t where t: "serve H i s = Some (Inr t)" "spin H busy is t = Some (Inr (is', s'))"
      using Cons.prems(1) True by (subst (asm) spin.simps) (auto split: option.splits sum.splits)
    have "host_inactive t = host_inactive s"
      using t(1) Cons.prems(2) irq_host by (auto simp: serve_def)
    then show ?thesis using Cons.IH [OF t(2)] Cons.prems(2) by simp
  qed
qed

lemma write_copy_host: "write_copy bs s = Inr (rest, s') \<Longrightarrow> host_inactive s' = host_inactive s"
proof (induction bs s rule: write_copy.induct)
  case (1 bs s)
  show ?case
  proof (cases "bs = [] \<or> tx_room s = 0 \<or> length (tx_buf s) < unat (tx_in s) + min (tx_room s) (length bs)")
    case True
    then show ?thesis using 1(2) by (subst (asm) write_copy.simps) (auto simp: Let_def split: if_splits)
  next
    case False
    then have "write_copy (drop (min (tx_room s) (length bs)) bs)
        (tx_put (take (min (tx_room s) (length bs)) bs) s) = Inr (rest, s')"
      using 1(2) by (subst (asm) write_copy.simps) (simp add: Let_def)
    from 1(1) [OF refl _ _ this] False show ?thesis by (simp add: tx_put_def)
  qed
qed

lemma write_loop_host:
  "write_loop H bs flags is s = Some r \<Longrightarrow> r = Inr (rest, is', s') \<Longrightarrow> set is \<subseteq> {Irq} \<Longrightarrow>
   host_inactive s' = host_inactive s \<and> set is' \<subseteq> {Irq}"
proof (induction H bs flags "is" s r rule: write_loop.raw_induct [rotated, consumes 1, case_names step])
  case (step loop H bs flags "is" s r)
  then obtain w t where t: "write_copy bs s = Inr (w, t)" by (cases "write_copy bs s") auto
  define u where "u = enable_irq H CONTROL_WE t"
  have u: "host_inactive u = host_inactive s" using write_copy_host [OF t] by (simp add: u_def)
  show ?case
  proof (cases "w = [] \<or> flags AND NONBLOCK \<noteq> 0")
    case True
    then show ?thesis using step.prems step(2) t u by (auto simp: u_def Let_def)
  next
    case False
    then obtain js v where v: "spin H (\<lambda>s'. tx_out s' = tx_out u) is u = Some (Inr (js, v))"
      using step.prems(1) step(2) t by (auto simp: u_def Let_def split: option.splits sum.splits)
    note h = spin_host [OF v step.prems(2)]
    show ?thesis
    proof (cases "host_inactive v \<noteq> 0")
      case True
      then show ?thesis using step.prems step(2) t False v h u by (auto simp: u_def Let_def)
    next
      case act: False
      then have "loop H w flags js v = Some r"
        using step(2) t False v by (simp add: u_def Let_def)
      from step(1) [OF this step.prems(1)] h u show ?thesis by simp
    qed
  qed
qed

section \<open>A program that prints\<close>

abbreviation (input) stdout_fd :: alt_fd where
  "stdout_fd \<equiv> \<lparr>fd_dev = Some jtag_uart_0, fd_priv = 0, fd_flags = ALT_FD_DEV OR O_WRONLY\<rparr>"

text \<open>
  Standard output is the UART in blocking mode, and if the driver is running the bytes \<open>ws\<close> are
  with it: handed to the device or queued.
\<close>

definition carries :: "u8 list \<Rightarrow> 'h uart_run \<Rightarrow> bool" where
  "carries ws r \<longleftrightarrow> (case r of
      Running is u \<Rightarrow> set is \<subseteq> {Irq} \<and> uart_ok u \<and> patient u \<and> host_inactive u = 0 \<and> sent u @ tx_q u = ws
    | Waiting \<Rightarrow> True
    | Broken f \<Rightarrow> False)"

definition printing :: "'h jtag \<Rightarrow> u8 list \<Rightarrow> 'h board \<Rightarrow> bool" where
  "printing H ws b \<longleftrightarrow> length (alt_fd_list (files b)) = ALT_MAX_FD \<and> alt_fd_list (files b) ! 1 = stdout_fd
     \<and> devices (files b) jtag_uart_0 = jtag_uart_dev H \<and> carries ws (devs (irqs b))"

lemma blocking_stdout: "(ALT_FD_DEV OR O_WRONLY) AND NONBLOCK = 0" "(ALT_FD_DEV OR O_WRONLY) AND O_ACCMODE \<noteq> O_RDONLY"
  by simp_all

lemma entry_write_carries:
  assumes "carries ws r" "uart_entry_write H stdout_fd bs r = (v, r')"
  shows "carries (ws @ bs) r'"
proof (cases r)
  case (Running "is" u)
  then have u: "set is \<subseteq> {Irq}" "uart_ok u" "patient u" "host_inactive u = 0" "sent u @ tx_q u = ws"
    using assms(1) by (simp_all add: carries_def)
  let ?w = "altera_avalon_jtag_uart_write H bs (ALT_FD_DEV OR O_WRONLY) is u"
  have r': "(v, r') = settle 0 ?w"
    using assms(2) Running by (simp add: uart_entry_write_def altera_avalon_jtag_uart_write_fd_def)
  show ?thesis
  proof (cases ?w)
    case None
    then show ?thesis using r' by (simp add: carries_def)
  next
    case (Some q)
    from write_ok [OF Some u(2)] obtain w is' u' where
      q: "q = Inr (w, is', u')" "moves u [] (take (nat w) bs) u'"
      "w = int (length bs) \<or> host_inactive u' \<noteq> 0 \<or> bs = []"
      using blocking_stdout(1) by blast
    obtain rest where "write_loop H bs (ALT_FD_DEV OR O_WRONLY) is u = Some (Inr (rest, is', u'))"
      using Some q(1) by (auto simp: altera_avalon_jtag_uart_write_def map_sum_Inr)
    from write_loop_host [OF this refl u(1)] have h: "host_inactive u' = 0" "set is' \<subseteq> {Irq}"
      using u(4) by simp_all
    have "take (nat w) bs = bs" using q(3) h(1) by auto
    then have "sent u' @ tx_q u' = ws @ bs" "uart_ok u'"
      using q(2) u(5) by (auto simp: moves_def)
    then show ?thesis using r' Some q(1) h patient_moves [OF u(3) q(2)] by (simp add: carries_def)
  qed
qed (use assms in \<open>simp_all add: uart_entry_write_def carries_def\<close>)

lemma entry_close_drains:
  assumes "carries ws r" "uart_entry_close H stdout_fd r = (v, r')"
  shows "carries ws r' \<and> (\<forall>is u. r' = Running is u \<longrightarrow> sent u = ws)"
proof (cases r)
  case (Running "is" u)
  then have u: "set is \<subseteq> {Irq}" "uart_ok u" "patient u" "host_inactive u = 0" "sent u @ tx_q u = ws"
    using assms(1) by (simp_all add: carries_def)
  let ?w = "altera_avalon_jtag_uart_close H (ALT_FD_DEV OR O_WRONLY) is u"
  have r': "(v, r') = settle 0 ?w"
    using assms(2) Running by (simp add: uart_entry_close_def altera_avalon_jtag_uart_close_fd_def)
  show ?thesis
  proof (cases ?w)
    case None
    then show ?thesis using r' by (simp add: carries_def)
  next
    case (Some q)
    from close_ok [OF Some u(2)] obtain w is' u' where
      q: "q = Inr (w, is', u')" "moves u [] [] u'" "tx_q u' = [] \<or> timeout u' \<le> host_inactive u'"
      using blocking_stdout(1) by blast
    have "spin H (\<lambda>s. tx_out s \<noteq> tx_in s) is u = Some (Inr (is', u'))"
      using Some q(1) blocking_stdout(1)
      by (auto simp: altera_avalon_jtag_uart_close_def map_sum_Inr split: if_splits)
    from spin_host [OF this u(1)] have h: "host_inactive u' = 0" "set is' \<subseteq> {Irq}" using u(4) by simp_all
    have p: "patient u'" using patient_moves [OF u(3) q(2)] .
    have "tx_q u' = []" using q(3) patient_waits [OF p] by (auto simp: not_le)
    moreover have "sent u' @ tx_q u' = ws" "uart_ok u'" using q(2) u(5) by (auto simp: moves_def)
    ultimately show ?thesis using r' Some q(1) h p by (simp add: carries_def)
  qed
qed (use assms in \<open>simp_all add: uart_entry_close_def carries_def\<close>)

lemma stdout_of:
  assumes "printing H ws b"
  shows "fd_of 1 ((files b)\<lparr>drivers := d\<rparr>) = Inr (Some (1, stdout_fd))"
  using assms by (simp add: printing_def fd_of_def)

lemma print_step:
  assumes "printing H ws b"
  shows "\<exists>v b'. on_files (alt_write 1 bs) b = Inr (v, b') \<and> printing H (ws @ bs) b'
     \<and> devs (irqs b') = snd (uart_entry_write H stdout_fd bs (devs (irqs b)))"
proof -
  let ?y = "(files b)\<lparr>drivers := devs (irqs b)\<rparr>"
  obtain v r where r: "uart_entry_write H stdout_fd bs (devs (irqs b)) = (v, r)" by fastforce
  have d: "dev_write (devices ?y jtag_uart_0) = Some (uart_entry_write H)"
    using assms by (simp add: printing_def jtag_uart_dev_def)
  have c: "carries (ws @ bs) r"
    using entry_write_carries [OF _ r] assms by (simp add: printing_def)
  have "alt_write 1 bs ?y = Inr (if v < 0 then fail (- v) (?y\<lparr>drivers := r\<rparr>) else (v, ?y\<lparr>drivers := r\<rparr>))"
    using stdout_of [OF assms] d r by (simp add: alt_write_def Let_def)
  then show ?thesis using assms c r
    by (cases "v < 0") (simp_all add: on_files_def fail_def printing_def)
qed

lemma prints_ok:
  "printing H ws b \<Longrightarrow> \<exists>b'. prints css b = Inr (0, b') \<and> printing H (ws @ concat css) b'"
proof (induction css arbitrary: ws b)
  case (Cons bs css)
  obtain v b1 where b1: "on_files (alt_write 1 bs) b = Inr (v, b1)" "printing H (ws @ bs) b1"
    using print_step [OF Cons.prems] by blast
  from Cons.IH [OF b1(2)] b1(1) show ?case by auto
qed simp

lemma stdout_closed:
  assumes "printing H ws b"
  shows "\<exists>v b'. on_files (alt_close 1) b = Inr (v, b') \<and> printing H ws b'
     \<and> (\<forall>is u. devs (irqs b') = Running is u \<longrightarrow> sent u = ws)
     \<and> devs (irqs b') = snd (uart_entry_close H stdout_fd (devs (irqs b)))"
proof -
  let ?y = "(files b)\<lparr>drivers := devs (irqs b)\<rparr>"
  obtain v r where r: "uart_entry_close H stdout_fd (devs (irqs b)) = (v, r)" by fastforce
  have d: "dev_close (devices ?y jtag_uart_0) = Some (uart_entry_close H)"
    using assms by (simp add: printing_def jtag_uart_dev_def)
  have c: "carries ws r" "\<forall>is u. r = Running is u \<longrightarrow> sent u = ws"
    using entry_close_drains [OF _ r] assms by (simp_all add: printing_def)
  have "alt_close 1 ?y = Inr (if v < 0 then fail (- v) (?y\<lparr>drivers := r\<rparr>) else (0, ?y\<lparr>drivers := r\<rparr>))"
    using stdout_of [OF assms] d r by (simp add: alt_close_def alt_release_fd_def Let_def)
  then show ?thesis using assms c r
    by (cases "v < 0") (simp_all add: on_files_def fail_def printing_def)
qed

text \<open>After start-up without a clock the program can print.\<close>

lemma no_tables [simp]: "do_ctors [] x = x" "do_dtors [] x = x"
  by (simp_all add: do_ctors_def do_dtors_def)

lemma boot_printing:
  assumes "board_start H is h b" "tick_rate (clk b) = 0" "set is \<subseteq> {Irq}"
  shows "\<exists>b1. alt_boot H [] b = Inr b1 \<and> printing H [] b1
     \<and> devs (irqs b1) = Running is (altera_avalon_jtag_uart_init H (- ENOTSUP) (uart_static h))
     \<and> patient (altera_avalon_jtag_uart_init H (- ENOTSUP) (uart_static h))"
proof -
  let ?u = "altera_avalon_jtag_uart_init H (- ENOTSUP) (uart_static h)"
  obtain b1 where b1: "alt_boot H [] b = Inr b1" "alt_fd_list (files b1) ! 1 = stdout_fd"
    "length (alt_fd_list (files b1)) = ALT_MAX_FD" "devices (files b1) jtag_uart_0 = jtag_uart_dev H"
    "devs (irqs b1) = Running is ?u"
    using boot_result [OF assms(1), of "[]"] assms(2) by (auto simp: alarm_result_def)
  have p: "patient ?u" by (rule session_patient [OF session.boot]) simp
  have "faithful [] [] ?u" "host_inactive ?u = 0"
    by (rule faithful_init) (simp add: altera_avalon_jtag_uart_init_def Let_def)
  then have "printing H [] b1"
    using b1 p assms(3) by (simp add: printing_def carries_def faithful_def)
  with b1(1,5) p show ?thesis by blast
qed

section \<open>Dispatch\<close>

text \<open>The interrupt line of the device, as the controller sees it.\<close>

definition uart_line :: "('h \<Rightarrow> bool) \<Rightarrow> 'h uart_run \<Rightarrow> u32" where
  "uart_line raised r =
     (case r of Running is u \<Rightarrow> if raised (hw u) then line JTAG_UART_0_IRQ else 0 | _ \<Rightarrow> 0)"

lemma irq_lowers_line:
  "altera_avalon_jtag_uart_irq H s = Some r \<Longrightarrow> r = Inr s' \<Longrightarrow>
   \<forall>h. raised h \<longleftrightarrow> fst (rd_control H h) AND (CONTROL_RI OR CONTROL_WI) \<noteq> 0 \<Longrightarrow>
   \<forall>h. raised (snd (rd_control H h)) = raised h \<Longrightarrow> \<not> raised (hw s')"
proof (induction H s r rule: altera_avalon_jtag_uart_irq.raw_induct [rotated, consumes 1, case_names step])
  case (step irq H s r)
  obtain c t where ct: "iord_control H s = (c, t)" by fastforce
  then have t: "c = fst (rd_control H (hw s))" "hw t = snd (rd_control H (hw s))"
    by (auto simp: iord_control_def split_beta Let_def)
  show ?case
  proof (cases "c AND (CONTROL_RI OR CONTROL_WI) = 0")
    case True
    then have "s' = t" using step(2) step.prems(1) ct by simp
    then show ?thesis using True t step.prems(2,3) by simp
  next
    case False
    then obtain u where "irq_body H c t = Some (Inr u)" "irq H u = Some r"
      using step(2) step.prems(1) ct by (cases "irq_body H c t") (auto split: sum.splits)
    then show ?thesis using step(1) step.prems by blast
  qed
qed

lemma uart_isr_result:
  "uart_isr H c (Running is u) =
     (case altera_avalon_jtag_uart_irq H u of
        None \<Rightarrow> Waiting | Some (Inl f) \<Rightarrow> Broken f | Some (Inr u') \<Rightarrow> Running is u')"
  by (simp add: uart_isr_def settle_def split: option.split sum.split)

text \<open>
  Claim C24. After start-up the interrupt line of the UART is served through the dispatcher: when
  the device raises it, \<^verbatim>\<open>alt_irq_handler\<close> finds the driver's entry in the table that start-up
  filled, calls the interrupt routine exactly once, and returns; the driver is then in the state
  that the event \<open>Irq\<close> of the driver model leads to. The device is asked only to raise its line
  when its control register shows an interrupt, and not to change that when the register is read.
\<close>

theorem interrupt_reaches_driver:
  assumes "board_start H is h b" and "alt_boot H [] b = Inr b'"
    and "\<forall>h. raised h \<longleftrightarrow> fst (rd_control H h) AND (CONTROL_RI OR CONTROL_WI) \<noteq> 0"
    and "\<forall>h. raised (snd (rd_control H h)) = raised h"
    and "m = (irqs b')\<lparr>devs := Running js u\<rparr>" and "raised (hw u)"
  shows "alt_irq_handler (uart_line raised) m =
      Some (Inr (m\<lparr>served := served m @ [5],
        devs := (case serve H Irq u of
                   None \<Rightarrow> Waiting | Some (Inl f) \<Rightarrow> Broken f | Some (Inr u') \<Rightarrow> Running js u')\<rparr>))"
proof -
  have t: "ienable m = 32" "length (alt_irq m) = 32" "alt_irq m ! 5 = (Some (uart_isr H), 0)"
    using boot_result [OF assms(1), of "[]"] assms(2,5) by (auto simp: line_5)
  have l: "lowest_active 32 1 0 = Some 5"
  proof -
    have b: "bit (32 :: u32) j \<longleftrightarrow> j = 5" for j
      using line_5 bit_push_bit_iff [of 5 "1 :: u32" j] by (auto simp: line_def bit_simps)
    have "bit (32 :: u32) 5" "\<forall>j<5. \<not> bit (32 :: u32) j" using b by (blast, metis less_irrefl)
    from lowest_active_first [OF _ this] show ?thesis by simp
  qed
  have a: "alt_irq_pending (uart_line raised) m = 32"
    using t(1) assms(5,6) by (simp add: alt_irq_pending_def uart_line_def line_5)
  have u5: "unat (5 :: u32) = 5" by simp
  let ?r = "uart_isr H 0 (Running js u)"
  let ?m = "m\<lparr>devs := ?r, served := served m @ [5]\<rparr>"
  have c: "call_isr 5 m = Inr ?m" using t(2,3) assms(5) by (simp add: call_isr_def)
  have "uart_line raised ?r = 0"
    using irq_lowers_line [OF _ refl assms(3,4)]
    by (auto simp: uart_isr_result uart_line_def split: option.splits sum.splits)
  then have "alt_irq_pending (uart_line raised) ?m = 0" by (simp add: alt_irq_pending_def)
  then have "alt_irq_handler (uart_line raised) m = Some (Inr ?m)"
    using a l c u5 by (simp add: alt_irq_handler_def) (subst irq_rounds.simps, simp)
  then show ?thesis by (simp add: uart_isr_result serve_def)
qed

section \<open>Start-up\<close>

text \<open>
  Start-up succeeds on every device: it leaves exactly the UART's interrupt enabled with
  the driver's routine and interrupts on in the processor, the driver initialised (with the
  timeout disabled when there is no system clock), the three standard streams on the UART with
  their access modes and every other descriptor free, and then runs the constructors, the last of
  the table first.
\<close>

theorem boot_binds_streams_to_uart:
  assumes "board_start H is h b"
  shows "\<exists>b'. alt_boot H ctors b = Inr (foldr (\<lambda>f. f) ctors b')
     \<and> ienable (irqs b') = line JTAG_UART_0_IRQ \<and> cpu_status (irqs b') = PIE
     \<and> alt_irq (irqs b') ! 5 = (Some (uart_isr H), 0)
     \<and> devs (irqs b') = Running is (altera_avalon_jtag_uart_init H
           (if tick_rate (clk b) = 0 then - ENOTSUP else 0) (uart_static h))
     \<and> map fd_dev (alt_fd_list (files b')) = replicate 3 (Some jtag_uart_0) @ replicate 29 None
     \<and> map (\<lambda>x. fd_flags x AND O_ACCMODE) (take 3 (alt_fd_list (files b'))) = [O_RDONLY, O_WRONLY, O_WRONLY]"
proof -
  have "run_table n fs s = foldr (\<lambda>f. f) (take n fs) s" if "n \<le> length fs"
    for n and fs :: "('a board \<Rightarrow> 'a board) list" and s
    using that by (induction n arbitrary: s) (simp_all add: take_Suc_conv_app_nth)
  then have "do_ctors fs s = foldr (\<lambda>f. f) fs s" for fs and s :: "'a board"
    by (simp add: do_ctors_def)
  moreover have "replicate 3 (Some jtag_uart_0) = [Some jtag_uart_0, Some jtag_uart_0, Some jtag_uart_0]"
    by (simp add: numeral_eq_Suc)
  ultimately show ?thesis using boot_result [OF assms, of ctors] by (auto simp: alarm_result_def)
qed

text \<open>
  Claim C23. From reset to the final loop of \<^verbatim>\<open>_exit\<close>, on a board without system clock and for a
  program that prints: nothing goes wrong, the exit code is that of \<open>main\<close>, and whenever the
  processor gets as far as the final loop, the characters handed to the device are exactly those
  printed, in order; if the device does not take them, \<^verbatim>\<open>close\<close> waits instead.
\<close>

theorem output_before_exit:
  assumes "board_start H is h b" and "tick_rate (clk b) = 0" and "set is \<subseteq> {Irq}"
  shows "\<exists>b'. alt_main H [] [] (prints css) b = Inr (0, b')
     \<and> (case devs (irqs b') of
          Running is' u \<Rightarrow> sent u = concat css
        | Waiting \<Rightarrow> True
        | Broken f \<Rightarrow> False)"
proof -
  obtain b1 where b1: "alt_boot H [] b = Inr b1" "printing H [] b1"
    using boot_printing [OF assms] by blast
  from prints_ok [OF b1(2)] obtain b2 where
    b2: "prints css b1 = Inr (0, b2)" "printing H (concat css) b2" by auto
  obtain v b3 where b3: "on_files (alt_close 1) b2 = Inr (v, b3)" "printing H (concat css) b3"
    "\<forall>is u. devs (irqs b3) = Running is u \<longrightarrow> sent u = concat css"
    using stdout_closed [OF b2(2)] by blast
  have "alt_main H [] [] (prints css) b = Inr (0, b3)"
    using b1(1) b2(1) b3(1) by (simp add: alt_main_def)
  then show ?thesis using b3(2,3)
    by (intro exI [of _ b3]) (auto simp: printing_def carries_def split: uart_run.splits)
qed

section \<open>A board at work\<close>

text \<open>A device that has room for 64 characters whenever the write interrupt is enabled.\<close>

definition eager :: "bool jtag" where
  "eager = \<lparr>rd_control = \<lambda>b. (if b then 0x400200 else 0, b), rd_data = \<lambda>b. (0, b),
     wr_control = \<lambda>v b. v AND CONTROL_WE \<noteq> 0, wr_data = \<lambda>v b. b\<rparr>"

definition demo_board :: "interrupt list \<Rightarrow> bool board" where
  "demo_board is =
     \<lparr>irqs = \<lparr>alt_irq = replicate 32 (None, 0), alt_irq_active = 0, ienable = 0, cpu_status = 0,
        devs = Running is (uart_static False), served = []\<rparr>,
      clk = \<lparr>tick_rate = 0, nticks = 0, alarm_links = alt_llist_head alt_alarm_list (\<lambda>a. \<lparr>l_next = a, l_prev = a\<rparr>),
        alarms = \<lambda>a. \<lparr>time = 0, callback = \<lambda>c r. (0, r), rollover = 0, context_arg = 0\<rparr>,
        drv = Waiting, calls = []\<rparr>,
      files = \<lparr>devices = (\<lambda>a. if a = jtag_uart_0 then jtag_uart_dev eager else alt_dev_null), alt_dev_list = [1],
        alt_fs_list = [], alt_fd_list = fd_pool, alt_max_fd = - 1, errno = 0, drivers = Waiting\<rparr>\<rparr>"

lemma demo_board_start: "board_start eager is False (demo_board is)" "tick_rate (clk (demo_board is)) = 0"
  by (simp_all add: board_start_def demo_board_def sys_start_def)

lemma eager_control: "iord_control eager s = (if hw s then 0x400200 else 0, s)"
  by (simp add: iord_control_def eager_def)

lemma eager_irq:
  assumes "uart_ok s" "hw s" "length (tx_q s) < 64"
  shows "\<exists>s'. altera_avalon_jtag_uart_irq eager s = Some (Inr s') \<and> tx_q s' = [] \<and> moves s [] [] s'"
proof -
  have u: "unat (drop_bit 16 (0x400200 :: u32)) = 64" by (simp add: drop_bit_eq_div)
  obtain k t where t: "tx_drain eager 64 s = Inr (k, t)" "moves s [] [] t" "tx_q t = drop 64 (tx_q s)"
    "k = 64 - length (tx_q s)" using tx_drain_ok [OF assms(1)] by blast
  let ?d = "disable_irq eager CONTROL_WE t"
  have z: "(x AND - 3) AND 2 = 0" for x :: u32 by (simp add: and.assoc)
  have "irq_body eager 0x400200 s = Some (Inr ?d)"
    using t(1,4) assms(3) by (simp add: irq_body_def tx_irq_def u)
  moreover have "\<not> hw ?d"
    by (simp add: disable_irq_def iowr_control_def eager_control Let_def) (simp add: eager_def z)
  then have "altera_avalon_jtag_uart_irq eager ?d = Some (Inr ?d)"
    by (subst altera_avalon_jtag_uart_irq.simps) (simp add: eager_control)
  ultimately have "altera_avalon_jtag_uart_irq eager s = Some (Inr ?d)"
    using assms(2) by (subst altera_avalon_jtag_uart_irq.simps) (simp add: eager_control)
  moreover have m: "moves t [] [] ?d" using moves_disable [OF moves_ok [OF t(2)]] .
  moreover have "tx_q ?d = []"
  proof -
    have "tx_q ?d = tx_q t"
      by (simp add: tx_q_def disable_irq_def iowr_control_def eager_control Let_def)
    then show ?thesis using t(3) assms(3) by simp
  qed
  ultimately show ?thesis using moves_then_quiet [OF t(2)] by blast
qed

lemma eager_write:
  assumes "uart_ok s" "length bs \<le> 2047 - length (tx_q s)"
  shows "\<exists>v s'. uart_entry_write eager fd bs (Running is s) = (v, Running is s') \<and> hw s' \<and> moves s [] bs s'"
proof -
  obtain t where t: "write_copy bs s = Inr ([], t)" "moves s [] bs t"
    using write_copy_ok [OF assms(1), of bs] assms(2) by auto
  let ?s = "enable_irq eager CONTROL_WE t"
  have "write_loop eager bs (fd_flags fd) is s = Some (Inr ([], is, ?s))"
    using t(1) by (subst write_loop.simps) (simp add: Let_def)
  then have "uart_entry_write eager fd bs (Running is s) =
      (if bs = [] then if fd_flags fd AND NONBLOCK \<noteq> 0 then - EWOULDBLOCK else - EIO else int (length bs), Running is ?s)"
    by (simp add: uart_entry_write_def altera_avalon_jtag_uart_write_fd_def altera_avalon_jtag_uart_write_def)
  moreover have "hw ?s"
  proof -
    have "(x OR 2) AND 2 \<noteq> (0 :: u32)" for x
    proof
      assume "(x OR 2) AND 2 = 0"
      then have "bit ((x OR 2) AND 2) 1 = bit (0 :: u32) 1" by simp
      then show False by (simp add: bit_simps)
    qed
    then show ?thesis by (simp add: enable_irq_def iowr_control_def eager_def Let_def)
  qed
  ultimately show ?thesis using moves_then_quiet [OF t(2) moves_enable [OF moves_ok [OF t(2)]]] by blast
qed

lemma eager_close:
  assumes "uart_ok s" "patient s" "hw s" "length (tx_q s) < 64"
  shows "\<exists>v is' s'. uart_entry_close eager stdout_fd (Running [Irq] s) = (v, Running is' s')"
proof -
  have w: "host_inactive s < timeout s" using patient_waits [OF assms(2)] .
  obtain s' where s': "altera_avalon_jtag_uart_irq eager s = Some (Inr s')" "tx_q s' = []" "moves s [] [] s'"
    using eager_irq [OF assms(1,3,4)] by blast
  then have e: "tx_out s' = tx_in s'" using tx_empty [OF moves_ok [OF s'(3)]] by simp
  have "\<exists>is' u. spin eager (\<lambda>s. tx_out s \<noteq> tx_in s) [Irq] s = Some (Inr (is', u))"
  proof (cases "tx_out s \<noteq> tx_in s")
    case True
    have "spin eager (\<lambda>s. tx_out s \<noteq> tx_in s) [] s' = Some (Inr ([], s'))"
      by (subst spin.simps) (simp add: e)
    then show ?thesis using w s'(1) True
      by (subst spin.simps) (simp add: serve_def)
  next
    case False
    then show ?thesis by (subst spin.simps) simp
  qed
  then show ?thesis
    by (auto simp: uart_entry_close_def altera_avalon_jtag_uart_close_fd_def altera_avalon_jtag_uart_close_def)
qed


theorem interrupt_reaches_driver_witness:
  "\<exists>b' m'. alt_boot eager [] (demo_board []) = Inr b'
     \<and> alt_irq_handler (uart_line (\<lambda>h. h)) ((irqs b')\<lparr>devs := Running [] (uart_static True)\<rparr>) = Some (Inr m')
     \<and> served m' = served (irqs b') @ [5]"
proof -
  obtain b' where b': "alt_boot eager [] (demo_board []) = Inr b'"
    using boot_result [OF demo_board_start(1), of "[]"] by blast
  have r: "\<forall>h. h \<longleftrightarrow> fst (rd_control eager h) AND (CONTROL_RI OR CONTROL_WI) \<noteq> 0"
    "\<forall>h. snd (rd_control eager h) = h" by (simp_all add: eager_def)
  have "hw (uart_static True)" by (simp add: uart_static_def)
  from interrupt_reaches_driver [OF demo_board_start(1) b' r refl this] b' show ?thesis by simp
qed

theorem boot_binds_streams_to_uart_witness:
  "\<exists>b'. alt_boot eager [] (demo_board []) = Inr b' \<and> ienable (irqs b') = 32"
  using boot_binds_streams_to_uart [OF demo_board_start(1), of "[]"] by (auto simp: line_5)

theorem output_before_exit_witness:
  "\<exists>b' is' u. alt_main eager [] [] (prints [[72, 105]]) (demo_board [Irq]) = Inr (0, b')
     \<and> devs (irqs b') = Running is' u \<and> sent u = [72, 105]"
proof -
  let ?b = "demo_board [Irq]" and ?u = "altera_avalon_jtag_uart_init eager (- ENOTSUP) (uart_static False)"
  obtain b1 where b1: "alt_boot eager [] ?b = Inr b1" "devs (irqs b1) = Running [Irq] ?u"
    and pr: "printing eager [] b1" and p: "patient ?u"
    using boot_printing [OF demo_board_start, of "[Irq]"] by auto
  then have u: "uart_ok ?u" "length (tx_q ?u) = 0" by (simp_all add: printing_def carries_def)
  obtain v u1 where w: "uart_entry_write eager stdout_fd [72, 105] (Running [Irq] ?u) = (v, Running [Irq] u1)"
    "hw u1" "moves ?u [] [72, 105] u1" using eager_write [OF u(1), of "[72, 105]" stdout_fd "[Irq]"] u(2) by auto
  obtain v2 b2 where b2: "on_files (alt_write 1 [72, 105]) b1 = Inr (v2, b2)" "printing eager [72, 105] b2"
    "devs (irqs b2) = Running [Irq] u1" using print_step [OF pr, of "[72, 105]"] b1(2) w(1) by auto
  have "tx_q u1 = [72, 105] \<or> length (tx_q u1) < 3"
  proof -
    have "sent u1 @ tx_q u1 = [72, 105]" using b2(2,3) by (simp add: printing_def carries_def)
    from arg_cong [OF this, of length] show ?thesis by simp
  qed
  then have l: "length (tx_q u1) < 64" by auto
  obtain v3 is' u2 where c: "uart_entry_close eager stdout_fd (Running [Irq] u1) = (v3, Running is' u2)"
    using eager_close [OF moves_ok [OF w(3)] patient_moves [OF p w(3)] w(2) l] by blast
  obtain v4 b3 where b3: "on_files (alt_close 1) b2 = Inr (v4, b3)" "devs (irqs b3) = Running is' u2"
    using stdout_closed [OF b2(2)] b2(3) c by auto
  have m: "alt_main eager [] [] (prints [[72, 105]]) ?b = Inr (0, b3)"
    using b1(1) b2(1) b3(1) by (simp add: alt_main_def)
  from output_before_exit [OF demo_board_start, of "[Irq]" "[[72, 105]]"] m b3(2)
  show ?thesis by simp
qed

end
