(* ===== verification/Load.thy ===== *)
theory Load
  imports Prelude
begin

text \<open>
  \<^verbatim>\<open>HAL/src/alt_load.c\<close> and \<^verbatim>\<open>sys/alt_load.h\<close>: sections of a program that runs from flash are
  copied to RAM before \<^verbatim>\<open>main\<close>, word by word, until the destination pointer equals the end. Memory
  maps byte addresses of words to words; addresses wrap around.
\<close>

section \<open>Model\<close>

type_synonym memory = "u32 \<Rightarrow> u32"

partial_function (option) load_loop :: "u32 \<Rightarrow> u32 \<Rightarrow> u32 \<Rightarrow> memory \<Rightarrow> memory option" where
  "load_loop src dst stop mem =
     (if dst \<noteq> stop then load_loop (src + 4) (dst + 4) stop (mem(dst := mem src)) else Some mem)"

definition alt_load_section :: "u32 \<Rightarrow> u32 \<Rightarrow> u32 \<Rightarrow> memory \<Rightarrow> memory option" where
  "alt_load_section src dst stop mem = (if dst \<noteq> src then load_loop src dst stop mem else Some mem)"

text \<open>The linker's symbols; the processor has no caches, so the flushes at the end do nothing.\<close>

record sections =
  flash_rwdata_start :: u32
  ram_rwdata_start :: u32
  ram_rwdata_end :: u32
  flash_exceptions_start :: u32
  ram_exceptions_start :: u32
  ram_exceptions_end :: u32
  flash_rodata_start :: u32
  ram_rodata_start :: u32
  ram_rodata_end :: u32

definition alt_load :: "sections \<Rightarrow> memory \<Rightarrow> memory option" where
  "alt_load L mem =
     Option.bind (alt_load_section (flash_rwdata_start L) (ram_rwdata_start L) (ram_rwdata_end L) mem)
       (\<lambda>mem. Option.bind
          (alt_load_section (flash_exceptions_start L) (ram_exceptions_start L) (ram_exceptions_end L) mem)
          (\<lambda>mem. alt_load_section (flash_rodata_start L) (ram_rodata_start L) (ram_rodata_end L) mem))"

section \<open>What is copied\<close>

text \<open>No word is overwritten before it is read.\<close>

definition forward_safe :: "u32 \<Rightarrow> u32 \<Rightarrow> nat \<Rightarrow> bool" where
  "forward_safe src dst n \<longleftrightarrow> (\<forall>j<n. \<forall>i<j. src + 4 * of_nat j \<noteq> dst + 4 * of_nat i)"

definition copied :: "u32 \<Rightarrow> u32 \<Rightarrow> nat \<Rightarrow> memory \<Rightarrow> memory" where
  "copied src dst n mem = (\<lambda>a. if \<exists>i<n. a = dst + 4 * of_nat i then mem (src + (a - dst)) else mem a)"

lemma forward_safe_Suc: "forward_safe src dst (Suc n) \<Longrightarrow> forward_safe (src + 4) (dst + 4) n"
proof -
  assume s: "forward_safe src dst (Suc n)"
  have "src + 4 + 4 * of_nat j \<noteq> dst + 4 + 4 * of_nat i" if "j < n" "i < j" for i j
  proof -
    have "src + 4 * of_nat (Suc j) \<noteq> dst + 4 * of_nat (Suc i)"
      using s that unfolding forward_safe_def by (metis Suc_mono)
    then show ?thesis by (simp add: algebra_simps)
  qed
  then show ?thesis by (simp add: forward_safe_def)
qed

lemma word_multiple_nonzero: "0 < n \<Longrightarrow> n < 2 ^ 30 \<Longrightarrow> 4 * of_nat n \<noteq> (0 :: u32)"
proof
  assume n: "0 < n" "n < 2 ^ 30" and "4 * of_nat n = (0 :: u32)"
  then have "of_nat (4 * n) = (0 :: u32)" by simp
  then have "4 * n mod 2 ^ 32 = 0" by (simp only: of_nat_eq_0_iff word_of_nat_eq_0_iff dvd_eq_mod_eq_0) simp
  with n show False by simp
qed

lemma copied_step:
  assumes "forward_safe src dst (Suc n)"
  shows "copied (src + 4) (dst + 4) n (mem(dst := mem src)) = copied src dst (Suc n) mem"
proof (rule ext)
  fix a
  have e: "(\<exists>i<Suc n. a = dst + 4 * of_nat i) \<longleftrightarrow> a = dst \<or> (\<exists>i<n. a = dst + 4 + 4 * of_nat i)"
  proof -
    have "a = dst + 4 * of_nat (Suc i) \<longleftrightarrow> a = dst + 4 + 4 * of_nat i" for i by (simp add: algebra_simps)
    then show ?thesis by (auto simp: less_Suc_eq_0_disj)
  qed
  show "copied (src + 4) (dst + 4) n (mem(dst := mem src)) a = copied src dst (Suc n) mem a"
  proof (cases "\<exists>i<n. a = dst + 4 + 4 * of_nat i")
    case True
    then obtain i where i: "i < n" "a = dst + 4 * of_nat (Suc i)" by (auto simp: algebra_simps)
    have "src + 4 * of_nat (Suc i) \<noteq> dst + 4 * of_nat 0"
      using assms i(1) unfolding forward_safe_def by blast
    then have "src + (a - dst) \<noteq> dst" using i(2) by simp
    moreover have "src + 4 + (a - (dst + 4)) = src + (a - dst)" by simp
    ultimately show ?thesis using True e by (simp add: copied_def)
  next
    case False
    then show ?thesis using e by (auto simp: copied_def)
  qed
qed

lemma load_loop_copies:
  "n < 2 ^ 30 \<Longrightarrow> forward_safe src dst n \<Longrightarrow>
   load_loop src dst (dst + 4 * of_nat n) mem = Some (copied src dst n mem)"
proof (induction n arbitrary: src dst mem)
  case 0
  then show ?case by (subst load_loop.simps) (simp add: copied_def)
next
  case (Suc n)
  have ne: "dst \<noteq> dst + 4 * of_nat (Suc n)" using word_multiple_nonzero [of "Suc n"] Suc.prems(1) by simp
  have st: "dst + 4 * of_nat (Suc n) = dst + 4 + 4 * of_nat n" by (simp add: algebra_simps)
  have "load_loop (src + 4) (dst + 4) (dst + 4 + 4 * of_nat n) (mem(dst := mem src)) =
      Some (copied (src + 4) (dst + 4) n (mem(dst := mem src)))"
    by (rule Suc.IH) (use Suc.prems forward_safe_Suc in simp_all)
  then have "load_loop src dst (dst + 4 * of_nat (Suc n)) mem =
      Some (copied (src + 4) (dst + 4) n (mem(dst := mem src)))"
    using ne by (subst load_loop.simps) (simp only: st if_True simp_thms)
  then show ?case using copied_step [OF Suc.prems(2)] by simp
qed

lemma unat_add_4: "unat (x + 4 :: u32) = (unat x + 4) mod 2 ^ 32"
  by (simp add: unat_word_ariths)

lemma load_loop_aligned: "load_loop src dst stop mem = Some r \<Longrightarrow> unat (stop - dst) mod 4 = 0"
proof (induction src dst stop mem r rule: load_loop.raw_induct [rotated, consumes 1, case_names step])
  case (step loop src dst stop mem r)
  show ?case
  proof (cases "dst = stop")
    case False
    then have "unat (stop - (dst + 4)) mod 4 = 0" using step by simp
    moreover have "unat (stop - dst) = (unat (stop - (dst + 4)) + 4) mod 2 ^ 32"
      using unat_add_4 [of "stop - (dst + 4)"] by (simp add: algebra_simps)
    ultimately show ?thesis by (simp add: mod_mod_cancel mod_add_left_eq)
  qed simp
qed

section \<open>Properties\<close>

lemma multiple_of_4:
  assumes "unat (x :: u32) mod 4 = 0"
  shows "x = 4 * of_nat (unat x div 4)" "unat x div 4 < 2 ^ 30"
proof -
  have "unat x = 4 * (unat x div 4)" using assms by presburger
  moreover have "x = of_nat (unat x)" by simp
  ultimately have "x = of_nat (4 * (unat x div 4))" by metis
  then show "x = 4 * of_nat (unat x div 4)" by simp
  show "unat x div 4 < 2 ^ 30" using unat_u32 [of x] by simp
qed

text \<open>
  Loading a section ends exactly when the section is in place already or its length is a
  multiple of four; otherwise the pointer steps over the end and the loop runs for ever, also when
  the end lies below the start, in which case it wraps around. When it ends, and no source word is
  overwritten before it is read, the words of the section are the source words and nothing else
  has changed.
\<close>

theorem load_section_copies:
  assumes "forward_safe src dst (unat (stop - dst) div 4)"
  shows "alt_load_section src dst stop mem =
     (if src = dst then Some mem
      else if unat (stop - dst) mod 4 = 0
      then Some (\<lambda>a. if \<exists>i < unat (stop - dst) div 4. a = dst + 4 * of_nat i
                      then mem (src + (a - dst)) else mem a)
      else None)"
proof (cases "src \<noteq> dst \<and> unat (stop - dst) mod 4 = 0")
  case True
  note m = multiple_of_4 [of "stop - dst"]
  have "stop = dst + 4 * of_nat (unat (stop - dst) div 4)"
    using m(1) True by (metis add.commute diff_add_cancel)
  then show ?thesis
    using load_loop_copies [OF m(2) assms, of mem] True
    by (auto simp: alt_load_section_def copied_def)
next
  case False
  then show ?thesis
    using load_loop_aligned [of src dst stop mem]
    by (cases "load_loop src dst stop mem") (auto simp: alt_load_section_def)
qed

theorem load_section_copies_witness:
  "alt_load_section 0x1000 0x2000 0x2006 (\<lambda>a. a) = None
   \<and> (\<exists>m. alt_load_section 0x1000 0x2000 0x2008 (\<lambda>a. a) = Some m \<and> m 0x2004 = 0x1004 \<and> m 0x2008 = 0x2008)"
proof -
  have f: "forward_safe 0x1000 0x2000 1" "forward_safe 0x1000 0x2000 2"
    by (auto simp: forward_safe_def less_2_cases_iff)
  have e: "(\<exists>i<2. P i) \<longleftrightarrow> P 0 \<or> P (1 :: nat)" for P by (auto simp: less_2_cases_iff)
  show ?thesis
    using load_section_copies [of "0x1000" "0x2000" "0x2006" "\<lambda>a. a"] load_section_copies [of "0x1000" "0x2000" "0x2008" "\<lambda>a. a"] f
    by (simp add: e)
qed

end
