(* ===== verification/Crt0.thy ===== *)
theory Crt0
  imports Load
begin

text \<open>
  \<^verbatim>\<open>HAL/src/crt0.S\<close>, in the configuration of the board (no caches, no shadow registers, no stack
  check, no ECC): from the reset vector to the call of \<^verbatim>\<open>alt_main\<close>. The stack and the global pointer are
  set, the BSS is cleared, and sections are copied by \<^verbatim>\<open>alt_load\<close>. The lemmas give the memory with
  which the C program starts.
\<close>

section \<open>Model\<close>

text \<open>An address is put together from its halves.\<close>

definition movhi_ori :: "u32 \<Rightarrow> u32" where
  "movhi_ori a = push_bit 16 (drop_bit 16 a) OR (a AND 0xFFFF)"

text \<open>\<open>r2\<close> runs from the start of the BSS; the test is at the end of the loop.\<close>

partial_function (option) bss_loop :: "u32 \<Rightarrow> u32 \<Rightarrow> memory \<Rightarrow> memory option" where
  "bss_loop r2 r3 mem =
     (let mem = mem(r2 := 0); r2 = r2 + 4
      in if r2 < r3 then bss_loop r2 r3 mem else Some mem)"

definition clear_bss :: "u32 \<Rightarrow> u32 \<Rightarrow> memory \<Rightarrow> memory option" where
  "clear_bss bss_start bss_end mem =
     (let r2 = movhi_ori bss_start; r3 = movhi_ori bss_end
      in if r2 = r3 then Some mem else bss_loop r2 r3 mem)"

record linker_symbols =
  alt_stack_pointer :: u32
  global_pointer :: u32
  bss_start :: u32
  bss_end :: u32
  load_sections :: sections

record start_state =
  sp :: u32
  gp :: u32
  ram :: memory

text \<open>The state in which \<^verbatim>\<open>alt_main\<close> is called; what comes after its return is an endless loop.\<close>

definition crt0_start :: "linker_symbols \<Rightarrow> memory \<Rightarrow> start_state option" where
  "crt0_start L mem =
     Option.bind (clear_bss (bss_start L) (bss_end L) mem)
       (\<lambda>mem. map_option (\<lambda>mem. \<lparr>sp = movhi_ori (alt_stack_pointer L), gp = movhi_ori (global_pointer L), ram = mem\<rparr>)
          (alt_load (load_sections L) mem))"

section \<open>The BSS\<close>

lemma movhi_ori [simp]: "movhi_ori a = a"
proof (rule bit_word_eqI)
  fix i assume i: "i < LENGTH(32)"
  have m: "(0xFFFF :: u32) = mask 16" by (simp add: mask_eq_exp_minus_1)
  show "bit (movhi_ori a) i = bit a i"
    using i unfolding movhi_ori_def m by (auto simp: bit_or_iff bit_push_bit_iff bit_drop_bit_eq bit_and_iff bit_mask_iff)
qed

definition zeroed :: "u32 \<Rightarrow> nat \<Rightarrow> memory \<Rightarrow> memory" where
  "zeroed start n mem = (\<lambda>a. if \<exists>i<n. a = start + 4 * of_nat i then 0 else mem a)"

lemma zeroed_step: "zeroed (start + 4) n (mem(start := 0)) = zeroed start (Suc n) mem"
proof
  fix a
  have "(\<exists>i<Suc n. a = start + 4 * of_nat i) \<longleftrightarrow> a = start \<or> (\<exists>i<n. a = start + 4 + 4 * of_nat i)"
  proof -
    have "a = start + 4 * of_nat (Suc i) \<longleftrightarrow> a = start + 4 + 4 * of_nat i" for i by (simp add: algebra_simps)
    then show ?thesis by (auto simp: less_Suc_eq_0_disj)
  qed
  then show "zeroed (start + 4) n (mem(start := 0)) a = zeroed start (Suc n) mem a"
    by (auto simp: zeroed_def)
qed

lemma bss_loop_clears:
  "unat start + 4 * Suc n < 2 ^ 32 \<Longrightarrow>
   bss_loop start (start + 4 * of_nat (Suc n)) mem = Some (zeroed start (Suc n) mem)"
proof (induction n arbitrary: start mem)
  case 0
  then show ?case
    by (subst bss_loop.simps) (simp add: Let_def zeroed_def fun_upd_def)
next
  case (Suc n)
  have e: "start + 4 * of_nat (Suc (Suc n)) = start + 4 + 4 * of_nat (Suc n)" by (simp add: algebra_simps)
  have u: "unat (start + 4) = unat start + 4" using Suc.prems by (simp add: unat_add_4)
  have "unat (start + 4 + 4 * of_nat (Suc n)) = unat start + 4 + 4 * Suc n"
  proof -
    have "start + 4 + 4 * of_nat (Suc n) = of_nat (unat start + 4 + 4 * Suc n)" by simp
    then show ?thesis using Suc.prems by (simp only: unsigned_of_nat) (simp add: take_bit_nat_eq_self)
  qed
  then have "start + 4 < start + 4 + 4 * of_nat (Suc n)" by (simp add: word_less_nat_alt u)
  moreover have "bss_loop (start + 4) (start + 4 + 4 * of_nat (Suc n)) (mem(start := 0)) =
      Some (zeroed (start + 4) (Suc n) (mem(start := 0)))"
    by (rule Suc.IH) (use Suc.prems u in simp)
  ultimately show ?case unfolding e by (subst bss_loop.simps) (simp add: Let_def zeroed_step del: of_nat_Suc)
qed

text \<open>A BSS of whole words, start not behind its end, is cleared and the loop ends.\<close>

lemma clear_bss_result:
  assumes "bss_start' \<le> bss_end'" "unat (bss_end' - bss_start') mod 4 = 0"
  shows "clear_bss bss_start' bss_end' mem = Some (zeroed bss_start' (unat (bss_end' - bss_start') div 4) mem)"
proof (cases "unat (bss_end' - bss_start') div 4")
  case 0
  then have "bss_end' - bss_start' = 0" using multiple_of_4(1) [OF assms(2)] by simp
  then show ?thesis using 0 by (simp add: clear_bss_def Let_def zeroed_def)
next
  case (Suc n)
  have d: "unat (bss_end' - bss_start') = unat bss_end' - unat bss_start'" by (rule unat_sub [OF assms(1)])
  have four: "4 * Suc n = unat (bss_end' - bss_start')" using Suc assms(2) by presburger
  have le: "unat bss_start' \<le> unat bss_end'" using assms(1) by (simp add: word_le_nat_alt)
  have "bss_end' = bss_start' + (bss_end' - bss_start')" by simp
  then have e: "bss_end' = bss_start' + 4 * of_nat (Suc n)" using multiple_of_4(1) [OF assms(2)] Suc by metis
  have "unat bss_start' + 4 * Suc n < 2 ^ 32" using four d le unat_u32 [of bss_end'] by simp
  from bss_loop_clears [OF this, of mem] have "bss_loop bss_start' bss_end' mem = Some (zeroed bss_start' (Suc n) mem)"
    unfolding e .
  moreover have "bss_start' \<noteq> bss_end'" using four d by auto
  ultimately show ?thesis unfolding Suc by (simp add: clear_bss_def Let_def)
qed

section \<open>The memory at the start of the program\<close>

text \<open>
  With a linker script that keeps the BSS a whole number of words and apart from the image of the
  initialised data, and copies nothing but these data: the C program starts with stack and global
  pointer as linked, its initialised data copied, its BSS zero and everything else as it was.
\<close>

theorem program_starts_initialised:
  assumes "bss_start L \<le> bss_end L" and "unat (bss_end L - bss_start L) mod 4 = 0"
    and "S = load_sections L" and "flash_exceptions_start S = ram_exceptions_start S"
    and "flash_rodata_start S = ram_rodata_start S" and "flash_rwdata_start S \<noteq> ram_rwdata_start S"
    and "n = unat (ram_rwdata_end S - ram_rwdata_start S) div 4"
    and "unat (ram_rwdata_end S - ram_rwdata_start S) mod 4 = 0"
    and "forward_safe (flash_rwdata_start S) (ram_rwdata_start S) n"
    and "k = unat (bss_end L - bss_start L) div 4"
    and "\<forall>i<n. \<forall>j<k. flash_rwdata_start S + 4 * of_nat i \<noteq> bss_start L + 4 * of_nat j"
  shows "\<exists>st. crt0_start L mem = Some st \<and> sp st = alt_stack_pointer L \<and> gp st = global_pointer L
     \<and> (\<forall>a. ram st a =
          (if \<exists>i<n. a = ram_rwdata_start S + 4 * of_nat i then mem (flash_rwdata_start S + (a - ram_rwdata_start S))
           else if \<exists>j<k. a = bss_start L + 4 * of_nat j then 0 else mem a))"
proof -
  let ?z = "zeroed (bss_start L) k mem"
  have b: "clear_bss (bss_start L) (bss_end L) mem = Some ?z"
    using clear_bss_result [OF assms(1,2)] by (simp add: assms(10))
  have rw: "alt_load_section (flash_rwdata_start S) (ram_rwdata_start S) (ram_rwdata_end S) ?z =
      Some (copied (flash_rwdata_start S) (ram_rwdata_start S) n ?z)"
  proof -
    note m = multiple_of_4 [OF assms(8)]
    have "ram_rwdata_end S = ram_rwdata_start S + 4 * of_nat n"
      using m(1) unfolding assms(7) by (metis add.commute diff_add_cancel)
    then show ?thesis
      using load_loop_copies [OF _ assms(9), of ?z] m(2) assms(6) by (simp add: alt_load_section_def assms(7))
  qed
  then have load: "alt_load S ?z = Some (copied (flash_rwdata_start S) (ram_rwdata_start S) n ?z)"
    using assms(4,5) by (simp add: alt_load_def alt_load_section_def)
  have "copied (flash_rwdata_start S) (ram_rwdata_start S) n ?z a =
      (if \<exists>i<n. a = ram_rwdata_start S + 4 * of_nat i then mem (flash_rwdata_start S + (a - ram_rwdata_start S))
       else if \<exists>j<k. a = bss_start L + 4 * of_nat j then 0 else mem a)" for a
  proof (cases "\<exists>i<n. a = ram_rwdata_start S + 4 * of_nat i")
    case True
    then obtain i where i: "i < n" "a = ram_rwdata_start S + 4 * of_nat i" by blast
    then have "?z (flash_rwdata_start S + (a - ram_rwdata_start S)) = mem (flash_rwdata_start S + (a - ram_rwdata_start S))"
      using assms(11) by (auto simp: zeroed_def)
    then show ?thesis using True by (simp add: copied_def)
  next
    case False
    then have "copied (flash_rwdata_start S) (ram_rwdata_start S) n ?z a = ?z a" by (simp only: copied_def if_False)
    then show ?thesis unfolding if_not_P [OF False] by (simp only: zeroed_def)
  qed
  then show ?thesis using b load by (simp add: crt0_start_def assms(3) [symmetric])
qed

text \<open>If the BSS ended below its start one word would be cleared all the same.\<close>

lemma reversed_bss: "bss_end' < bss_start' \<Longrightarrow> bss_end' \<le> bss_start' + 4 \<Longrightarrow>
  clear_bss bss_start' bss_end' mem = Some (mem(bss_start' := 0))"
  by (auto simp: clear_bss_def Let_def bss_loop.simps [of bss_start'])

end
