(* ===== verification/CharIO.thy ===== *)
theory CharIO
  imports UartClaims Syscalls
begin

text \<open>
  Single characters and strings on the standard streams (\<^verbatim>\<open>alt_putchar.c\<close>, \<^verbatim>\<open>alt_putstr.c\<close>,
  \<^verbatim>\<open>alt_getchar.c\<close>) in their three variants. The board is built with the last, one call of the C
  library, which is a parameter; the other two go to the system calls (\<^verbatim>\<open>ALT_SEMIHOSTING\<close>) or straight to
  the driver of the UART (\<^verbatim>\<open>ALT_USE_DIRECT_DRIVERS\<close>, \<^verbatim>\<open>sys/alt_driver.h\<close>). The lemmas show what becomes of
  an error in the variants of this code.
\<close>

section \<open>The configured variant\<close>

definition alt_putchar :: "(int \<Rightarrow> 's \<Rightarrow> int \<times> 's) \<Rightarrow> int \<Rightarrow> 's \<Rightarrow> int \<times> 's" where
  "alt_putchar putchar c s = putchar c s"

definition alt_putstr :: "(u8 list \<Rightarrow> 's \<Rightarrow> int \<times> 's) \<Rightarrow> u8 list \<Rightarrow> 's \<Rightarrow> int \<times> 's" where
  "alt_putstr fputs_stdout str s = fputs_stdout str s"

definition alt_getchar :: "('s \<Rightarrow> int \<times> 's) \<Rightarrow> 's \<Rightarrow> int \<times> 's" where
  "alt_getchar getchar s = getchar s"

section \<open>Semihosting\<close>

definition alt_putchar_semihosting :: "int \<Rightarrow> 's sys \<Rightarrow> fault + (int \<times> 's sys)" where
  "alt_putchar_semihosting c y = alt_write 1 [word_of_int c] y"

definition alt_putstr_semihosting :: "u8 list \<Rightarrow> 's sys \<Rightarrow> fault + (int \<times> 's sys)" where
  "alt_putstr_semihosting str y = alt_write 1 str y"

text \<open>
  The result of \<^verbatim>\<open>read\<close> is not looked at: what the variable held before, \<open>garbage\<close>, is returned if
  nothing was read. A \<^verbatim>\<open>char\<close> is signed on this processor.
\<close>

definition alt_getchar_semihosting :: "u8 \<Rightarrow> 's sys \<Rightarrow> fault + (int \<times> 's sys)" where
  "alt_getchar_semihosting garbage y =
     map_sum id (\<lambda>(rval, bytes, y). (sint (case bytes of c # _ \<Rightarrow> c | [] \<Rightarrow> garbage), y)) (alt_read 0 1 y)"

section \<open>Direct drivers\<close>

text \<open>\<^verbatim>\<open>ALT_DRIVER_WRITE\<close> and \<^verbatim>\<open>ALT_DRIVER_READ\<close> for the class of the standard streams.\<close>

definition ALT_DRIVER_WRITE ::
  "'h jtag \<Rightarrow> u8 list \<Rightarrow> u32 \<Rightarrow> interrupt list \<Rightarrow> 'h uart \<Rightarrow> (fault + (int \<times> interrupt list \<times> 'h uart)) option" where
  "ALT_DRIVER_WRITE H buffer flags is s = altera_avalon_jtag_uart_write H buffer flags is s"

definition ALT_DRIVER_READ ::
  "'h jtag \<Rightarrow> int \<Rightarrow> u32 \<Rightarrow> interrupt list \<Rightarrow> 'h uart
     \<Rightarrow> (fault + (int \<times> u8 list \<times> interrupt list \<times> 'h uart)) option" where
  "ALT_DRIVER_READ H len flags is s = altera_avalon_jtag_uart_read H len flags is s"

definition alt_putchar_direct ::
  "'h jtag \<Rightarrow> int \<Rightarrow> interrupt list \<Rightarrow> 'h uart \<Rightarrow> (fault + (int \<times> interrupt list \<times> 'h uart)) option" where
  "alt_putchar_direct H c is s =
     map_option (map_sum id (\<lambda>(r, is, s). (if r = - 1 then - 1 else c, is, s)))
       (ALT_DRIVER_WRITE H [word_of_int c] 0 is s)"

definition alt_putstr_direct ::
  "'h jtag \<Rightarrow> u8 list \<Rightarrow> interrupt list \<Rightarrow> 'h uart \<Rightarrow> (fault + (int \<times> interrupt list \<times> 'h uart)) option" where
  "alt_putstr_direct H str is s = ALT_DRIVER_WRITE H str 0 is s"

definition alt_getchar_direct ::
  "'h jtag \<Rightarrow> u32 \<Rightarrow> interrupt list \<Rightarrow> 'h uart \<Rightarrow> (fault + (int \<times> interrupt list \<times> 'h uart)) option" where
  "alt_getchar_direct H stdin_flags is s =
     map_option (map_sum id (\<lambda>(r, bytes, is, s). (if r \<le> 0 then - 1 else sint (hd bytes), is, s)))
       (ALT_DRIVER_READ H 1 stdin_flags is s)"

section \<open>What becomes of an error\<close>

text \<open>
  The driver reports an error by a negative error number, never by -1, so \<^verbatim>\<open>alt_putchar\<close> always
  returns the character, also when the driver has not accepted it.
\<close>

lemma putchar_hides_errors:
  assumes "session H a h rs ws s" "alt_putchar_direct H c is s = Some r"
  shows "\<exists>is' s'. r = Inr (c, is', s')"
proof -
  obtain q where q: "altera_avalon_jtag_uart_write H [word_of_int c] 0 is s = Some q"
      "r = map_sum id (\<lambda>(r, is, s). (if r = - 1 then - 1 else c, is, s)) q"
    using assms(2) by (auto simp: alt_putchar_direct_def ALT_DRIVER_WRITE_def)
  from write_ok [OF q(1) session_ok [OF assms(1)]] obtain v is' s' where
    w: "q = Inr (v, is', s')" "v \<le> 0 \<longrightarrow> v = - EIO" by auto
  then have "v \<noteq> - 1" by auto
  then show ?thesis using q(2) w(1) by simp
qed

text \<open>A character that was received comes back as a signed number, and 0xFF like the end of the stream.\<close>

lemma getchar_result:
  assumes "session H a h rs ws s" "alt_getchar_direct H flags is s = Some r"
  shows "\<exists>is' s' bs. r = Inr (if bs = [] then - 1 else sint (hd bs), is', s') \<and> moves s bs [] s' \<and> length bs \<le> 1"
proof -
  obtain q where q: "altera_avalon_jtag_uart_read H 1 flags is s = Some q"
      "r = map_sum id (\<lambda>(r, bytes, is, s). (if r \<le> 0 then - 1 else sint (hd bytes), is, s)) q"
    using assms(2) by (auto simp: alt_getchar_direct_def ALT_DRIVER_READ_def)
  from read_ok [OF q(1) session_ok [OF assms(1)]] obtain v bs is' s' where
    w: "q = Inr (v, bs, is', s')" "moves s bs [] s'"
    "if bs \<noteq> [] then v = int (length bs) \<and> v \<le> 1
     else if flags AND NONBLOCK \<noteq> 0 then v = - EWOULDBLOCK else v = - EIO \<and> (1 \<le> (0 :: int) \<or> timeout s' \<le> host_inactive s')"
    by blast
  then have "r = Inr (if bs = [] then - 1 else sint (hd bs), is', s')" "length bs \<le> 1"
    using q(2) by (auto split: if_splits)
  then show ?thesis using w(2) by blast
qed

lemma last_byte_like_end: "sint (0xFF :: u8) = - 1"
  by simp

end
