(* ===== verification/Heap.thy ===== *)
theory Heap
  imports Prelude
begin

text \<open>
  \<^verbatim>\<open>HAL/src/alt_sbrk.c\<close>: the end of the heap moves up by the requested number of bytes, after it
  has been aligned. Addresses and the increment are 32-bit words; the two linker symbols are
  arguments. The variants with a stack check or a maximum size are not configured.
\<close>

section \<open>Model\<close>

definition align_up :: "u32 \<Rightarrow> u32" where
  "align_up a = (a + 3) AND NOT 3"

text \<open>The result of the call and the new \<^verbatim>\<open>heap_end\<close>.\<close>

definition alt_sbrk :: "u32 \<Rightarrow> u32 \<Rightarrow> u32 \<Rightarrow> u32 \<times> u32" where
  "alt_sbrk heap_limit incr heap_end =
     (let heap_end = align_up heap_end
      in if heap_end + incr > heap_limit then (- 1, heap_end)
         else (heap_end, heap_end + incr))"

text \<open>A sequence of calls: the blocks that were granted, with their sizes, and the last heap end.\<close>

fun sbrk_calls :: "u32 \<Rightarrow> u32 list \<Rightarrow> u32 \<Rightarrow> (u32 \<times> u32) list \<times> u32" where
  "sbrk_calls heap_limit [] heap_end = ([], heap_end)"
| "sbrk_calls heap_limit (n # ns) heap_end =
     (let (r, heap_end) = alt_sbrk heap_limit n heap_end;
          (bs, last_end) = sbrk_calls heap_limit ns heap_end
      in (if r = - 1 then bs else (r, n) # bs, last_end))"

section \<open>Blocks\<close>

lemma and_not_mask: "x AND NOT (mask n) = push_bit n (drop_bit n x)" for x :: u32
  by (rule bit_word_eqI) (auto simp: bit_simps not_less)

lemma unat_align_up:
  assumes "unat a \<le> 2 ^ 32 - 4"
  shows "unat (align_up a) = (unat a + 3) div 4 * 4"
proof -
  have "(3 :: u32) = mask 2" by (simp add: mask_eq_exp_minus_1)
  then have "align_up a = push_bit 2 (drop_bit 2 (a + 3))"
    unfolding align_up_def using and_not_mask [of "a + 3" 2] by simp
  moreover have "unat (a + 3) = unat a + 3"
    using assms unat_u32 [of a] by (simp add: unat_word_ariths)
  moreover have "(unat a + 3) div 4 * 4 < 2 ^ 32" 
    using assms div_times_less_eq_dividend [of "unat a + 3" 4] by simp
  ultimately show ?thesis
    by (simp add: push_bit_eq_mult drop_bit_eq_div unat_word_ariths unat_div_distrib)
qed

text \<open>The side conditions of the link map of the system: a limit in the lower half of the address space.\<close>

definition heap_range :: "u32 \<Rightarrow> u32 \<Rightarrow> bool" where
  "heap_range heap_limit heap_end \<longleftrightarrow>
     unat heap_limit < 2 ^ 31 \<and> unat heap_limit mod 4 = 0 \<and> heap_end \<le> heap_limit"

lemma sbrk_result:
  assumes "heap_range L e" "unat n < 2 ^ 31"
  shows "alt_sbrk L n e =
      (if unat L < unat (align_up e) + unat n then (- 1, align_up e) else (align_up e, align_up e + n))"
    and "unat e \<le> unat (align_up e)" "unat (align_up e) \<le> unat L" "unat (align_up e) mod 4 = 0"
    and "unat (align_up e + n) = unat (align_up e) + unat n"
proof -
  have L: "unat L < 2 ^ 31" "unat L mod 4 = 0" "unat e \<le> unat L"
    using assms(1) by (simp_all add: heap_range_def word_le_nat_alt)
  have a: "unat (align_up e) = (unat e + 3) div 4 * 4" using L by (intro unat_align_up) simp
  then show "unat e \<le> unat (align_up e)" "unat (align_up e) mod 4 = 0" by simp_all
  from a show le: "unat (align_up e) \<le> unat L" using L(2,3) by presburger
  show add: "unat (align_up e + n) = unat (align_up e) + unat n"
    using le L(1) assms(2) by (simp add: unat_word_ariths)
  show "alt_sbrk L n e =
      (if unat L < unat (align_up e) + unat n then (- 1, align_up e) else (align_up e, align_up e + n))"
    by (simp add: alt_sbrk_def Let_def word_less_nat_alt add)
qed

lemma not_minus_one: "unat x < 2 ^ 31 \<Longrightarrow> x \<noteq> (- 1 :: u32)"
proof
  assume "unat x < 2 ^ 31" "x = - 1"
  then have "x = 0xFFFFFFFF" by simp
  with \<open>unat x < 2 ^ 31\<close> show False by simp
qed

text \<open>The end never moves down and stays within the limit.\<close>

lemma sbrk_range:
  assumes "heap_range L e" "unat n < 2 ^ 31"
  shows "heap_range L (snd (alt_sbrk L n e))" "e \<le> snd (alt_sbrk L n e)"
  using sbrk_result [OF assms] assms(1) by (auto simp: heap_range_def word_le_nat_alt)

text \<open>A granted block starts on a word boundary at or after the old end and ends at the new one.\<close>

lemma sbrk_block:
  assumes "heap_range L e" "unat n < 2 ^ 31" "fst (alt_sbrk L n e) \<noteq> - 1"
  shows "unat (fst (alt_sbrk L n e)) mod 4 = 0" "e \<le> fst (alt_sbrk L n e)"
    "unat (fst (alt_sbrk L n e)) + unat n = unat (snd (alt_sbrk L n e))"
  using sbrk_result [OF assms(1,2)] assms(3) by (auto simp: word_le_nat_alt split: if_splits)

definition apart_blocks :: "u32 \<times> u32 \<Rightarrow> u32 \<times> u32 \<Rightarrow> bool" where
  "apart_blocks p q \<longleftrightarrow> unat (fst p) + unat (snd p) \<le> unat (fst q)"

lemma sbrk_calls_ok:
  "heap_range L e \<Longrightarrow> \<forall>n\<in>set ns. unat n < 2 ^ 31 \<Longrightarrow>
   sorted_wrt apart_blocks (fst (sbrk_calls L ns e))
   \<and> (\<forall>(a, n)\<in>set (fst (sbrk_calls L ns e)).
        unat a mod 4 = 0 \<and> e \<le> a \<and> unat a + unat n \<le> unat L)"
proof (induction ns arbitrary: e)
  case (Cons n ns)
  have n: "unat n < 2 ^ 31" using Cons.prems(2) by simp
  obtain r e' where r: "alt_sbrk L n e = (r, e')" by fastforce
  have e': "heap_range L e'" "e \<le> e'" using sbrk_range [OF Cons.prems(1) n] r by simp_all
  obtain bs l where bs: "sbrk_calls L ns e' = (bs, l)" by fastforce
  from Cons.IH [OF e'(1)] Cons.prems(2) have IH: "sorted_wrt apart_blocks bs"
    "\<forall>(a, n)\<in>set bs. unat a mod 4 = 0 \<and> e' \<le> a \<and> unat a + unat n \<le> unat L" by (simp_all add: bs)
  have later: "\<forall>(a, n)\<in>set bs. e \<le> a" using IH(2) e'(2) by (auto dest: order_trans)
  show ?case
  proof (cases "r = - 1")
    case True
    then show ?thesis using IH later r bs by auto
  next
    case False
    have b: "unat r mod 4 = 0" "e \<le> r" "unat r + unat n = unat e'"
      using sbrk_block [OF Cons.prems(1) n] r False by simp_all
    have "\<forall>q\<in>set bs. apart_blocks (r, n) q"
      using IH(2) b(3) by (auto simp: apart_blocks_def word_le_nat_alt)
    then show ?thesis
      using IH later r bs b False e'(1) by (auto simp: heap_range_def word_le_nat_alt)
  qed
qed simp

section \<open>Properties\<close>

text \<open>
  With a heap limit in the lower half of the address space, as in the link map, and
  increments that are not negative, the blocks that any sequence of calls of \<open>sbrk\<close> grants start
  on word boundaries, do not overlap, lie in increasing order between the start and the limit;
  and a request is refused exactly when the aligned end plus its size exceeds the limit, although
  the comment at the function says that it does not check any bounds.
\<close>

theorem heap_blocks_disjoint:
  assumes "heap_range L e" and "\<forall>n\<in>set ns. unat n < 2 ^ 31" and "unat m < 2 ^ 31"
  shows "sorted_wrt apart_blocks (fst (sbrk_calls L ns e))
   \<and> (\<forall>(a, n)\<in>set (fst (sbrk_calls L ns e)).
        unat a mod 4 = 0 \<and> e \<le> a \<and> unat a + unat n \<le> unat L)
   \<and> (fst (alt_sbrk L m e) = - 1) = (unat L < unat (align_up e) + unat m)"
proof -
  have "align_up e \<noteq> - 1"
    using sbrk_result(3) [OF assms(1,3)] assms(1) by (intro not_minus_one) (simp add: heap_range_def)
  then show ?thesis using sbrk_calls_ok [OF assms(1,2)] sbrk_result(1) [OF assms(1,3)] by auto
qed

theorem heap_blocks_disjoint_witness:
  "unat (0x18000000 :: u32) < unat (align_up 0x10004002) + 0x7FFFFFFF
   \<and> fst (alt_sbrk 0x18000000 0x7FFFFFFF 0x10004002) = - 1
   \<and> fst (sbrk_calls 0x18000000 [5, 0x10000000, 16] 0x10004002)
       = [(0x10004004, 5), (0x1000400C, 16)]"
  using heap_blocks_disjoint [of "0x18000000" "0x10004002" "[5, 0x10000000, 16]" "0x7FFFFFFF"]
  by (simp add: heap_range_def align_up_def alt_sbrk_def Let_def)

text \<open>A negative increment has no lower bound: the heap can end below its start.\<close>

lemma sbrk_below_start: "alt_sbrk 0x18000000 (- 16) 0x10004000 = (0x10004000, 0x10003FF0)"
  by (simp add: alt_sbrk_def align_up_def)

end
