(* ===== verification/Gmon.thy ===== *)
theory Gmon
  imports Heap Alarm
begin

text \<open>
  The profiler of the HAL: \<^verbatim>\<open>HAL/src/alt_gmon.c\<close> with the look-up of \<^verbatim>\<open>alt_mcount.S\<close> that calls it.
  Every instrumented function call is counted for its pair of callee and caller, in lists that hang
  off a hash table and whose entries come from slabs of \<^verbatim>\<open>sbrk\<close> memory; a timer samples the
  program counter into a histogram.
\<close>

section \<open>State\<close>

text \<open>
  The entries of the lists carry the address they were allocated at; the lists grow at the front
  only, so a list of entries stands for the chain of \<^verbatim>\<open>next\<close> pointers.
\<close>

record mcount_fn_arc =
  arc_at :: u32
  from_pc :: u32
  count :: u32

record mcount_fn_entry =
  fn_at :: u32
  self_pc :: u32
  arc_head :: "mcount_fn_arc list"

abbreviation (input) HASH_BUCKETS :: nat where "HASH_BUCKETS \<equiv> 64"
abbreviation (input) MCOUNT_SLAB_INCREMENT :: u32 where "MCOUNT_SLAB_INCREMENT \<equiv> 1020"
abbreviation (input) PCSAMPLE_BYTES_PER_BUCKET :: u32 where "PCSAMPLE_BYTES_PER_BUCKET \<equiv> 32"

text \<open>
  The sampler, which the timer interrupt runs: the exception return address the processor shows
  it, the histogram, and whether a sample was counted outside the histogram.
\<close>

record sampler =
  ea :: u32
  s_pcsamples :: u32
  histogram :: "u16 list"
  overrun :: bool

record gmon =
  mcount_fn_head :: "mcount_fn_entry list list"
  mcount_slab_ptr :: u32
  mcount_slab_size :: u32
  gmon_heap_end :: u32
  pcsample_need_init :: bool
  profile_data :: u32
  profile_rate :: u32
  pclock :: "sampler clock"

text \<open>The symbols of the linker: the text section and the limit of the heap.\<close>

record link_map =
  stext :: u32
  etext :: u32
  heap_limit :: u32

section \<open>Allocation\<close>

definition mcount_allocate :: "link_map \<Rightarrow> u32 \<Rightarrow> gmon \<Rightarrow> u32 \<times> gmon" where
  "mcount_allocate M bytes g =
     (let g = (if bytes > mcount_slab_size g then
                 (let (p, e) = alt_sbrk (heap_limit M) MCOUNT_SLAB_INCREMENT (gmon_heap_end g)
                  in g\<lparr>gmon_heap_end := e, mcount_slab_ptr := p, mcount_slab_size := MCOUNT_SLAB_INCREMENT\<rparr>)
               else g)
      in (mcount_slab_ptr g,
          g\<lparr>mcount_slab_ptr := mcount_slab_ptr g + bytes, mcount_slab_size := mcount_slab_size g - bytes\<rparr>))"

section \<open>Sampling\<close>

definition nios2_pcsample :: "link_map \<Rightarrow> nat \<Rightarrow> sampler \<Rightarrow> u32 \<times> sampler" where
  "nios2_pcsample M context s =
     (1, if ea s \<ge> stext M \<and> ea s < etext M \<and> s_pcsamples s \<noteq> 0 then
           (let bucket = unat ((ea s - stext M) div PCSAMPLE_BYTES_PER_BUCKET)
            in if bucket < length (histogram s)
               then s\<lparr>histogram := (histogram s)[bucket := histogram s ! bucket + 1]\<rparr>
               else s\<lparr>overrun := True\<rparr>)
         else s)"

abbreviation (input) s_nios2_pcsample_alarm :: nat where "s_nios2_pcsample_alarm \<equiv> 2"

text \<open>Clearing a buffer that \<^verbatim>\<open>sbrk\<close> refused, at the address -1, is a fault.\<close>

definition nios2_pcsample_init :: "link_map \<Rightarrow> gmon \<Rightarrow> fault + (bool \<times> gmon)" where
  "nios2_pcsample_init M g =
     (let prof_rate = alt_ticks_per_second (pclock g)
      in if prof_rate = 0 then Inr (True, g)
         else
           (let pcsamples_size = (etext M - stext M) div PCSAMPLE_BYTES_PER_BUCKET;
                (p, e) = alt_sbrk (heap_limit M) (pcsamples_size * 2) (gmon_heap_end g);
                g = g\<lparr>gmon_heap_end := e, pclock := (pclock g)\<lparr>drv := (drv (pclock g))\<lparr>s_pcsamples := p\<rparr>\<rparr>\<rparr>
            in if p \<noteq> 0 then
                 (if p = - 1 \<and> pcsamples_size * 2 \<noteq> 0 then Inl OutOfBounds
                  else
                    (let s = (drv (pclock g))\<lparr>histogram := replicate (unat pcsamples_size) 0\<rparr>;
                         (r, c) = alt_alarm_start (Some s_nios2_pcsample_alarm) 1 (nios2_pcsample M) 0
                                    ((pclock g)\<lparr>drv := s\<rparr>)
                     in Inr (False, g\<lparr>profile_data := p, profile_rate := prof_rate, pclock := c\<rparr>)))
               else Inr (False, g)))"

section \<open>Counting calls\<close>

text \<open>\<^verbatim>\<open>mcount\<close>: the bucket, the entry of the function and the arc of the caller.\<close>

definition fn_bucket :: "u32 \<Rightarrow> nat" where
  "fn_bucket self = unat (drop_bit 3 self AND 0xFC) div 4"

text \<open>Count one more call on the first arc with this caller, if there is one.\<close>

fun bump_arc :: "u32 \<Rightarrow> mcount_fn_arc list \<Rightarrow> mcount_fn_arc list option" where
  "bump_arc from [] = None"
| "bump_arc from (a # as) =
     (if from_pc a = from then Some (a\<lparr>count := count a + 1\<rparr> # as)
      else map_option (\<lambda>as. a # as) (bump_arc from as))"

text \<open>
  \<^verbatim>\<open>__mcount_record\<close>. The entry of the function is given by its position in the list, \<open>None\<close> for
  the null pointer; an entry at the address -1 cannot be written.
\<close>

definition mcount_add ::
  "link_map \<Rightarrow> u32 \<Rightarrow> u32 \<Rightarrow> nat option \<Rightarrow> nat \<Rightarrow> gmon \<Rightarrow> fault + gmon" where
  "mcount_add M self from fn_entry head g =
     (case (case fn_entry of
              Some k \<Rightarrow> Inr (k, g)
            | None \<Rightarrow>
                (let (p, g) = mcount_allocate M 12 g
                 in if p = - 1 then Inl OutOfBounds
                    else Inr (0, g\<lparr>mcount_fn_head := (mcount_fn_head g)[head :=
                           \<lparr>fn_at = p, self_pc = self, arc_head = []\<rparr> # mcount_fn_head g ! head]\<rparr>))) of
        Inl f \<Rightarrow> Inl f
      | Inr (k, g) \<Rightarrow>
          (let (p, g) = mcount_allocate M 12 g
           in if p = - 1 then Inl OutOfBounds
              else
                (let fns = mcount_fn_head g ! head; f = fns ! k
                 in Inr (g\<lparr>mcount_fn_head := (mcount_fn_head g)[head := fns[k :=
                      f\<lparr>arc_head := \<lparr>arc_at = p, from_pc = from, count = 1\<rparr> # arc_head f\<rparr>]]\<rparr>))))"

definition mcount_record ::
  "link_map \<Rightarrow> u32 \<Rightarrow> u32 \<Rightarrow> nat option \<Rightarrow> nat \<Rightarrow> gmon \<Rightarrow> fault + gmon" where
  "mcount_record M self from fn_entry head g =
     (case (if pcsample_need_init g then nios2_pcsample_init M (g\<lparr>pcsample_need_init := False\<rparr>)
            else Inr (False, g)) of
        Inl f \<Rightarrow> Inl f
      | Inr (again, g) \<Rightarrow>
          mcount_add M self from fn_entry head (if again then g\<lparr>pcsample_need_init := True\<rparr> else g))"

text \<open>The position of the function in its bucket.\<close>

fun find_fn :: "u32 \<Rightarrow> mcount_fn_entry list \<Rightarrow> nat option" where
  "find_fn self [] = None"
| "find_fn self (f # fs) = (if self_pc f = self then Some 0 else map_option Suc (find_fn self fs))"

definition mcount :: "link_map \<Rightarrow> u32 \<Rightarrow> u32 \<Rightarrow> gmon \<Rightarrow> fault + gmon" where
  "mcount M self from g =
     (let head = fn_bucket self; fns = mcount_fn_head g ! head
      in case find_fn self fns of
           None \<Rightarrow> mcount_record M self from None head g
         | Some k \<Rightarrow>
             (case bump_arc from (arc_head (fns ! k)) of
                Some as \<Rightarrow>
                  Inr (g\<lparr>mcount_fn_head := (mcount_fn_head g)[head := fns[k := (fns ! k)\<lparr>arc_head := as\<rparr>]]\<rparr>)
              | None \<Rightarrow> mcount_record M self from (Some k) head g))"

text \<open>A run of the instrumented program: callee and caller of each call.\<close>

fun mcounts :: "link_map \<Rightarrow> (u32 \<times> u32) list \<Rightarrow> gmon \<Rightarrow> fault + gmon" where
  "mcounts M [] g = Inr g"
| "mcounts M ((self, from) # cs) g =
     (case mcount M self from g of Inl f \<Rightarrow> Inl f | Inr g \<Rightarrow> mcounts M cs g)"

section \<open>What the profile says\<close>

text \<open>The count that a look-up finds for a caller and for a pair of callee and caller.\<close>

definition arc_calls :: "mcount_fn_arc list \<Rightarrow> u32 \<Rightarrow> nat" where
  "arc_calls as from =
     (case map_of (map (\<lambda>a. (from_pc a, count a)) as) from of None \<Rightarrow> 0 | Some c \<Rightarrow> unat c)"

definition fn_calls :: "mcount_fn_entry list \<Rightarrow> u32 \<Rightarrow> u32 \<Rightarrow> nat" where
  "fn_calls fns self from =
     (case find_fn self fns of None \<Rightarrow> 0 | Some k \<Rightarrow> arc_calls (arc_head (fns ! k)) from)"

definition calls_of :: "gmon \<Rightarrow> u32 \<Rightarrow> u32 \<Rightarrow> nat" where
  "calls_of g self from = fn_calls (mcount_fn_head g ! fn_bucket self) self from"

text \<open>Every function is in its bucket and only once, every caller of it only once.\<close>

definition bucket_ok :: "nat \<Rightarrow> mcount_fn_entry list \<Rightarrow> bool" where
  "bucket_ok b fns \<longleftrightarrow> distinct (map self_pc fns)
     \<and> (\<forall>f\<in>set fns. fn_bucket (self_pc f) = b \<and> distinct (map from_pc (arc_head f)))"

definition profile_ok :: "gmon \<Rightarrow> bool" where
  "profile_ok g \<longleftrightarrow> length (mcount_fn_head g) = HASH_BUCKETS
     \<and> (\<forall>b<HASH_BUCKETS. bucket_ok b (mcount_fn_head g ! b))"

lemma fn_bucket_less: "fn_bucket self < HASH_BUCKETS"
proof -
  have "drop_bit 3 self AND 0xFC \<le> (0xFC :: u32)" by (rule word_and_le1)
  then have "unat (drop_bit 3 self AND 0xFC) \<le> 252" by (simp add: word_le_nat_alt)
  then show ?thesis by (simp add: fn_bucket_def)
qed

lemma find_fn_names: "map self_pc fs = map self_pc gs \<Longrightarrow> find_fn s fs = find_fn s gs"
proof (induction fs arbitrary: gs)
  case (Cons f fs)
  then show ?case by (cases gs) (auto dest: Cons.IH)
qed simp

lemma find_fn_Some: "find_fn s fs = Some k \<Longrightarrow> k < length fs \<and> self_pc (fs ! k) = s"
  by (induction fs arbitrary: k) (auto split: if_splits)

lemma find_fn_None: "find_fn s fs = None \<longleftrightarrow> s \<notin> self_pc ` set fs"
  by (induction fs) auto

lemma find_fn_inj: "find_fn s fs = Some k \<Longrightarrow> find_fn t fs = Some k \<Longrightarrow> s = t"
  by (drule find_fn_Some, drule find_fn_Some) simp

lemma bump_arc_None: "bump_arc from as = None \<longleftrightarrow> from \<notin> from_pc ` set as"
  by (induction as) auto

lemma bump_arc_Some:
  "bump_arc from as = Some bs \<Longrightarrow> map from_pc bs = map from_pc as
   \<and> (arc_calls as from < 2 ^ 32 - 1 \<longrightarrow> arc_calls bs = (arc_calls as)(from := Suc (arc_calls as from)))"
proof (induction as arbitrary: bs)
  case (Cons a as)
  show ?case
  proof (cases "from_pc a = from")
    case True
    then have bs: "bs = a\<lparr>count := count a + 1\<rparr> # as" using Cons.prems by simp
    have "unat (count a) < 2 ^ 32 - 1 \<Longrightarrow> unat (count a + 1) = Suc (unat (count a))"
      by (simp add: unat_word_ariths)
    then show ?thesis using True bs by (auto simp: arc_calls_def fun_eq_iff)
  next
    case False
    then obtain cs where cs: "bump_arc from as = Some cs" "bs = a # cs" using Cons.prems by auto
    have e: "arc_calls (a # ds) x = (if x = from_pc a then unat (count a) else arc_calls ds x)" for ds x
      by (simp add: arc_calls_def)
    show ?thesis using Cons.IH [OF cs(1)] cs(2) False by (auto simp: e fun_eq_iff)
  qed
qed simp

lemma arc_calls_Cons:
  "arc_calls (a # as) = (arc_calls as)(from_pc a := unat (count a))"
  by (rule ext) (simp add: arc_calls_def)

lemma arc_calls_absent: "from \<notin> from_pc ` set as \<Longrightarrow> arc_calls as from = 0"
  by (auto simp: arc_calls_def split: option.split dest!: map_of_SomeD)

text \<open>A change of one entry, and a new entry.\<close>

lemma fn_calls_update:
  assumes "find_fn self fns = Some k" "self_pc f = self"
  shows "fn_calls (fns[k := f]) s from = (if s = self then arc_calls (arc_head f) from else fn_calls fns s from)"
proof -
  note k = find_fn_Some [OF assms(1)]
  have "map self_pc (fns[k := f]) = map self_pc fns"
    using k assms(2) by (simp add: map_update list_update_same_conv)
  then have "find_fn s (fns[k := f]) = find_fn s fns" by (rule find_fn_names)
  then have e: "fn_calls (fns[k := f]) s from =
      (case find_fn s fns of None \<Rightarrow> 0 | Some j \<Rightarrow> arc_calls (arc_head (fns[k := f] ! j)) from)"
    by (simp add: fn_calls_def)
  show ?thesis
  proof (cases "s = self")
    case True
    then show ?thesis using e assms(1) k by simp
  next
    case False
    then have "find_fn s fns \<noteq> Some k" using find_fn_inj assms(1) by blast
    then show ?thesis using e False by (cases "find_fn s fns") (simp_all add: fn_calls_def)
  qed
qed

lemma bucket_ok_update:
  assumes "bucket_ok b fns" "find_fn self fns = Some k" "self_pc f = self" "distinct (map from_pc (arc_head f))"
  shows "bucket_ok b (fns[k := f])"
proof -
  note k = find_fn_Some [OF assms(2)]
  have "map self_pc (fns[k := f]) = map self_pc fns"
    using k assms(3) by (simp add: map_update list_update_same_conv)
  moreover have "fn_bucket self = b" using assms(1) k nth_mem [of k fns] by (auto simp: bucket_ok_def)
  moreover have "\<forall>g\<in>set (fns[k := f]). g = f \<or> g \<in> set fns"
    using set_update_subset_insert [of fns k f] by blast
  moreover have "distinct (map self_pc fns)"
    "\<forall>g\<in>set fns. fn_bucket (self_pc g) = b \<and> distinct (map from_pc (arc_head g))"
    using assms(1) by (simp_all add: bucket_ok_def)
  ultimately show ?thesis
    using assms(3,4) unfolding bucket_ok_def by metis
qed

lemma fn_calls_new:
  "find_fn self fns = None \<Longrightarrow> self_pc f = self \<Longrightarrow>
   fn_calls (f # fns) s from = (if s = self then arc_calls (arc_head f) from else fn_calls fns s from)"
  by (auto simp: fn_calls_def split: option.split)

lemma bucket_ok_new:
  "bucket_ok b fns \<Longrightarrow> find_fn self fns = None \<Longrightarrow> self_pc f = self \<Longrightarrow> fn_bucket self = b \<Longrightarrow>
   distinct (map from_pc (arc_head f)) \<Longrightarrow> bucket_ok b (f # fns)"
  by (auto simp: bucket_ok_def find_fn_None)

text \<open>The allocator and the sampler leave the lists alone.\<close>

lemma allocate_heads [simp]:
  "mcount_fn_head (snd (mcount_allocate M n g)) = mcount_fn_head g"
  by (simp add: mcount_allocate_def Let_def split_beta)

lemma init_heads:
  "nios2_pcsample_init M g = Inr (again, g') \<Longrightarrow> mcount_fn_head g' = mcount_fn_head g"
  by (auto simp: nios2_pcsample_init_def Let_def split_beta split: if_splits)

text \<open>One more call of \<open>self\<close> from \<open>from\<close>; nothing else changes.\<close>

definition one_more :: "u32 \<Rightarrow> u32 \<Rightarrow> gmon \<Rightarrow> gmon \<Rightarrow> bool" where
  "one_more self from g g' \<longleftrightarrow> profile_ok g' \<and>
     (\<forall>s f. calls_of g' s f = calls_of g s f + (if s = self \<and> f = from then 1 else 0))"

lemma one_more_bucket:
  assumes "profile_ok g" "mcount_fn_head g' = (mcount_fn_head g)[fn_bucket self := fns']"
    "bucket_ok (fn_bucket self) fns'"
    "\<And>s f. fn_calls fns' s f =
       fn_calls (mcount_fn_head g ! fn_bucket self) s f + (if s = self \<and> f = from then 1 else 0)"
  shows "one_more self from g g'"
proof -
  have "profile_ok g'"
    using assms(1-3) fn_bucket_less [of self] by (simp add: profile_ok_def nth_list_update)
  moreover have "calls_of g' s f = calls_of g s f + (if s = self \<and> f = from then 1 else 0)" for s f
    using assms(1,2,4) fn_bucket_less [of self]
    by (cases "fn_bucket s = fn_bucket self") (auto simp: calls_of_def profile_ok_def nth_list_update)
  ultimately show ?thesis by (simp add: one_more_def)
qed

lemma mcount_add_new_arc:
  assumes "profile_ok g" "find_fn self (mcount_fn_head g ! fn_bucket self) = Some k"
    "from \<notin> from_pc ` set (arc_head (mcount_fn_head g ! fn_bucket self ! k))"
    "mcount_add M self from (Some k) (fn_bucket self) g = Inr g'"
  shows "one_more self from g g'"
proof -
  let ?b = "fn_bucket self" and ?fns = "mcount_fn_head g ! fn_bucket self"
  obtain p where p: "mcount_fn_head g' = (mcount_fn_head g)[?b := ?fns[k :=
      (?fns ! k)\<lparr>arc_head := \<lparr>arc_at = p, from_pc = from, count = 1\<rparr> # arc_head (?fns ! k)\<rparr>]]"
    using assms(4) allocate_heads [of M 12 g]
    by (auto simp: mcount_add_def Let_def split_beta split: if_splits)
  have ok: "bucket_ok ?b ?fns" using assms(1) fn_bucket_less by (simp add: profile_ok_def)
  note k = find_fn_Some [OF assms(2)]
  have d: "distinct (map from_pc (arc_head (?fns ! k)))"
    using ok k nth_mem [of k ?fns] by (auto simp: bucket_ok_def)
  show ?thesis
  proof (rule one_more_bucket [OF assms(1) p])
    show "bucket_ok ?b (?fns[k := (?fns ! k)\<lparr>arc_head :=
        \<lparr>arc_at = p, from_pc = from, count = 1\<rparr> # arc_head (?fns ! k)\<rparr>])"
      using k d assms(3) by (intro bucket_ok_update [OF ok assms(2)]) simp_all
    show "fn_calls (?fns[k := (?fns ! k)\<lparr>arc_head :=
        \<lparr>arc_at = p, from_pc = from, count = 1\<rparr> # arc_head (?fns ! k)\<rparr>]) s f
      = fn_calls ?fns s f + (if s = self \<and> f = from then 1 else 0)" for s f
      using k assms(2) arc_calls_absent [OF assms(3)]
      by (subst fn_calls_update [OF assms(2)]) (simp_all add: arc_calls_Cons fn_calls_def)
  qed
qed

lemma mcount_add_new_fn:
  assumes "profile_ok g" "find_fn self (mcount_fn_head g ! fn_bucket self) = None"
    "mcount_add M self from None (fn_bucket self) g = Inr g'"
  shows "one_more self from g g'"
proof -
  let ?b = "fn_bucket self" and ?fns = "mcount_fn_head g ! fn_bucket self"
  have l: "?b < length (mcount_fn_head g)" using assms(1) fn_bucket_less by (simp add: profile_ok_def)
  obtain p q where p: "mcount_fn_head g' = (mcount_fn_head g)[?b :=
      \<lparr>fn_at = p, self_pc = self, arc_head = [\<lparr>arc_at = q, from_pc = from, count = 1\<rparr>]\<rparr> # ?fns]"
    using assms(3) l by (auto simp: mcount_add_def Let_def split_beta split: if_splits)
  have ok: "bucket_ok ?b ?fns" using assms(1) fn_bucket_less by (simp add: profile_ok_def)
  show ?thesis
  proof (rule one_more_bucket [OF assms(1) p])
    show "bucket_ok ?b (\<lparr>fn_at = p, self_pc = self, arc_head = [\<lparr>arc_at = q, from_pc = from, count = 1\<rparr>]\<rparr> # ?fns)"
      by (rule bucket_ok_new [OF ok assms(2)]) simp_all
    show "fn_calls (\<lparr>fn_at = p, self_pc = self, arc_head = [\<lparr>arc_at = q, from_pc = from, count = 1\<rparr>]\<rparr> # ?fns) s f
      = fn_calls ?fns s f + (if s = self \<and> f = from then 1 else 0)" for s f
      using assms(2) by (subst fn_calls_new [OF assms(2)]) (simp_all add: fn_calls_def arc_calls_def)
  qed
qed

lemma one_more_same_heads:
  "mcount_fn_head h = mcount_fn_head g \<Longrightarrow> one_more self from h g' \<Longrightarrow> one_more self from g g'"
  by (simp add: one_more_def calls_of_def)

lemma mcount_record_step:
  assumes "profile_ok g" "mcount_record M self from e (fn_bucket self) g = Inr g'"
    "\<And>h. mcount_fn_head h = mcount_fn_head g \<Longrightarrow> mcount_add M self from e (fn_bucket self) h = Inr g' \<Longrightarrow>
       one_more self from h g'"
  shows "one_more self from g g'"
proof -
  obtain again h where h: "(if pcsample_need_init g then nios2_pcsample_init M (g\<lparr>pcsample_need_init := False\<rparr>)
      else Inr (False, g)) = Inr (again, h)"
    "mcount_add M self from e (fn_bucket self) (if again then h\<lparr>pcsample_need_init := True\<rparr> else h) = Inr g'"
    using assms(2) by (auto simp: mcount_record_def split: sum.splits)
  have "mcount_fn_head h = mcount_fn_head g"
    using h(1) init_heads [of M "g\<lparr>pcsample_need_init := False\<rparr>" again h] by (auto split: if_splits)
  then have e: "mcount_fn_head (if again then h\<lparr>pcsample_need_init := True\<rparr> else h) = mcount_fn_head g"
    by simp
  show ?thesis by (rule one_more_same_heads [OF e assms(3) [OF e h(2)]])
qed

lemma profile_ok_heads: "mcount_fn_head h = mcount_fn_head g \<Longrightarrow> profile_ok g \<Longrightarrow> profile_ok h"
  by (simp add: profile_ok_def)

lemma mcount_step:
  assumes "profile_ok g" "mcount M self from g = Inr g'" "calls_of g self from < 2 ^ 32 - 1"
  shows "one_more self from g g'"
proof (cases "find_fn self (mcount_fn_head g ! fn_bucket self)")
  case None
  then have "mcount_record M self from None (fn_bucket self) g = Inr g'"
    using assms(2) by (simp add: mcount_def Let_def)
  then show ?thesis
    using None profile_ok_heads [OF _ assms(1)]
    by (intro mcount_record_step [OF assms(1)]) (auto intro!: mcount_add_new_fn)
next
  case (Some k)
  let ?b = "fn_bucket self" and ?fns = "mcount_fn_head g ! fn_bucket self"
  note k = find_fn_Some [OF Some]
  have ok: "bucket_ok ?b ?fns" using assms(1) fn_bucket_less by (simp add: profile_ok_def)
  show ?thesis
  proof (cases "bump_arc from (arc_head (?fns ! k))")
    case None
    then have "mcount_record M self from (Some k) ?b g = Inr g'"
      using assms(2) Some by (simp add: mcount_def Let_def)
    then show ?thesis
      using Some None profile_ok_heads [OF _ assms(1)]
      by (intro mcount_record_step [OF assms(1)])
        (auto intro!: mcount_add_new_arc [where k = k] simp: bump_arc_None)
  next
    case (Some as)
    let ?f = "(?fns ! k)\<lparr>arc_head := as\<rparr>"
    have g': "mcount_fn_head g' = (mcount_fn_head g)[?b := ?fns[k := ?f]]"
      using assms(2) \<open>find_fn self ?fns = Some k\<close> Some by (auto simp: mcount_def Let_def)
    have c: "calls_of g self from = arc_calls (arc_head (?fns ! k)) from"
      using \<open>find_fn self ?fns = Some k\<close> by (simp add: calls_of_def fn_calls_def)
    have as: "map from_pc as = map from_pc (arc_head (?fns ! k))"
      "arc_calls as = (arc_calls (arc_head (?fns ! k)))(from := Suc (arc_calls (arc_head (?fns ! k)) from))"
      using bump_arc_Some [OF Some] assms(3) c by simp_all
    have d: "distinct (map from_pc as)"
      using ok k nth_mem [of k ?fns] as(1) by (auto simp: bucket_ok_def)
    show ?thesis
    proof (rule one_more_bucket [OF assms(1) g'])
      show "bucket_ok ?b (?fns[k := ?f])"
        using k d by (intro bucket_ok_update [OF ok \<open>find_fn self ?fns = Some k\<close>]) simp_all
      show "fn_calls (?fns[k := ?f]) s f = fn_calls ?fns s f + (if s = self \<and> f = from then 1 else 0)" for s f
        using k as(2) \<open>find_fn self ?fns = Some k\<close>
        by (subst fn_calls_update [OF \<open>find_fn self ?fns = Some k\<close>]) (simp_all add: fn_calls_def)
    qed
  qed
qed

lemma mcounts_count:
  "profile_ok g \<Longrightarrow> mcounts M cs g = Inr g' \<Longrightarrow> \<forall>s f. calls_of g s f + length cs < 2 ^ 32 \<Longrightarrow>
   profile_ok g' \<and> (\<forall>s f. calls_of g' s f = calls_of g s f + count_list cs (s, f))"
proof (induction cs arbitrary: g)
  case (Cons c cs)
  obtain self frm where c: "c = (self, frm)" by fastforce
  obtain h where h: "mcount M self frm g = Inr h" "mcounts M cs h = Inr g'"
    using Cons.prems(2) c by (auto split: sum.splits)
  have "calls_of g self frm + length (c # cs) < 2 ^ 32" using Cons.prems(3) by blast
  then have "one_more self frm g h" using mcount_step [OF Cons.prems(1) h(1)] by simp
  then have m: "profile_ok h" "\<forall>s f. calls_of h s f = calls_of g s f + (if s = self \<and> f = frm then 1 else 0)"
    by (simp_all add: one_more_def)
  have "\<forall>s f. calls_of h s f + length cs < 2 ^ 32"
  proof (intro allI)
    fix s f
    have "calls_of g s f + length (c # cs) < 2 ^ 32" using Cons.prems(3) by blast
    then show "calls_of h s f + length cs < 2 ^ 32" using m(2) by (auto split: if_splits)
  qed
  from Cons.IH [OF m(1) h(2) this] m(2) show ?case by (auto simp: c)
qed simp

section \<open>Room for the entries\<close>

text \<open>
  The current slab lies below the end of the heap, and the heap has room for \<open>n\<close> more slabs.
\<close>

definition alloc_ok :: "link_map \<Rightarrow> nat \<Rightarrow> gmon \<Rightarrow> bool" where
  "alloc_ok M n g \<longleftrightarrow> heap_range (heap_limit M) (gmon_heap_end g)
     \<and> unat (gmon_heap_end g) + 1023 * n \<le> unat (heap_limit M)
     \<and> unat (mcount_slab_ptr g) + unat (mcount_slab_size g) \<le> unat (gmon_heap_end g)"

text \<open>An entry lies above all earlier ones and below the end of the heap.\<close>

lemma allocate_ok:
  assumes "alloc_ok M (Suc n) g"
  shows "\<exists>p g'. mcount_allocate M 12 g = (p, g') \<and> alloc_ok M n g' \<and> p \<noteq> - 1
     \<and> unat (mcount_slab_ptr g) \<le> unat p \<and> unat p + 12 = unat (mcount_slab_ptr g')
     \<and> mcount_fn_head g' = mcount_fn_head g \<and> pclock g' = pclock g"
proof -
  let ?L = "heap_limit M" and ?e = "gmon_heap_end g"
  have r: "heap_range ?L ?e" "unat ?e + 1023 * Suc n \<le> unat ?L"
    "unat (mcount_slab_ptr g) + unat (mcount_slab_size g) \<le> unat ?e"
    using assms by (simp_all add: alloc_ok_def)
  then have L: "unat ?L < 2 ^ 31" by (simp add: heap_range_def)
  show ?thesis
  proof (cases "12 > mcount_slab_size g")
    case True
    have inc: "unat (1020 :: u32) < 2 ^ 31" by simp
    note b = sbrk_result [OF r(1) inc]
    have e: "unat ?e \<le> 2 ^ 32 - 4" using r(2) L by simp
    have a: "unat (align_up ?e) \<le> unat ?e + 3" unfolding unat_align_up [OF e] by simp
    have s: "alt_sbrk ?L 1020 ?e = (align_up ?e, align_up ?e + 1020)"
      using b(1) a r(2) by simp
    have range: "heap_range ?L (align_up ?e + 1020)"
      using sbrk_range [OF r(1) inc] by (simp add: s)
    let ?g = "g\<lparr>gmon_heap_end := align_up ?e + 1020, mcount_slab_ptr := align_up ?e + 12, mcount_slab_size := 1020 - 12\<rparr>"
    have al: "mcount_allocate M 12 g = (align_up ?e, ?g)"
      using True by (simp add: mcount_allocate_def Let_def s)
    have p12: "unat (align_up ?e + 12) = unat (align_up ?e) + 12"
      using b(3) L by (simp add: unat_word_ariths)
    have "align_up ?e \<noteq> - 1" using b(3) L by (intro not_minus_one) simp
    moreover have "alloc_ok M n ?g"
      using range b(5) a r(2) p12 by (simp add: alloc_ok_def)
    ultimately show ?thesis using al p12 r(3) b(2)
      by (intro exI [of _ "align_up ?e"] exI [of _ ?g] conjI) simp_all
  next
    case False
    then have w: "12 \<le> unat (mcount_slab_size g)" by (simp add: word_less_nat_alt not_less)
    let ?g = "g\<lparr>mcount_slab_ptr := mcount_slab_ptr g + 12, mcount_slab_size := mcount_slab_size g - 12\<rparr>"
    have al: "mcount_allocate M 12 g = (mcount_slab_ptr g, ?g)"
      using False by (simp add: mcount_allocate_def Let_def)
    have lt: "unat (mcount_slab_ptr g) + 12 < 2 ^ 31" using w r(2,3) L by simp
    then have p12: "unat (mcount_slab_ptr g + 12) = unat (mcount_slab_ptr g) + 12"
      by (simp add: unat_word_ariths)
    have s12: "unat (mcount_slab_size g - 12) = unat (mcount_slab_size g) - 12"
      using w by (simp add: unat_sub word_le_nat_alt)
    have "mcount_slab_ptr g \<noteq> - 1" using lt by (intro not_minus_one) simp
    moreover have "alloc_ok M n ?g"
      using r p12 s12 w by (simp add: alloc_ok_def)
    ultimately show ?thesis using al p12
      by (intro exI [of _ "mcount_slab_ptr g"] exI [of _ ?g] conjI) simp_all
  qed
qed

lemma alloc_ok_heads: "alloc_ok M n (g\<lparr>mcount_fn_head := hs\<rparr>) = alloc_ok M n g"
  by (simp add: alloc_ok_def)

lemma alloc_ok_mono: "alloc_ok M (Suc n) g \<Longrightarrow> alloc_ok M n g"
  by (simp add: alloc_ok_def)

lemma mcount_add_total:
  assumes "alloc_ok M (Suc (Suc n)) g"
  shows "\<exists>g'. mcount_add M self from e h g = Inr g' \<and> alloc_ok M n g' \<and> pclock g' = pclock g"
proof (cases e)
  case None
  obtain p g1 where 1: "mcount_allocate M 12 g = (p, g1)" "alloc_ok M (Suc n) g1" "p \<noteq> - 1" "pclock g1 = pclock g"
    using allocate_ok [OF assms] by blast
  let ?g = "g1\<lparr>mcount_fn_head := (mcount_fn_head g1)[h := \<lparr>fn_at = p, self_pc = self, arc_head = []\<rparr> # mcount_fn_head g1 ! h]\<rparr>"
  have "alloc_ok M (Suc n) ?g" using 1(2) by (simp add: alloc_ok_heads)
  from allocate_ok [OF this] obtain q g2 where
    2: "mcount_allocate M 12 ?g = (q, g2)" "alloc_ok M n g2" "q \<noteq> - 1" "pclock g2 = pclock ?g" by blast
  show ?thesis using 1 2 None by (simp add: mcount_add_def Let_def alloc_ok_heads)
next
  case (Some k)
  obtain p g1 where 1: "mcount_allocate M 12 g = (p, g1)" "alloc_ok M (Suc n) g1" "p \<noteq> - 1" "pclock g1 = pclock g"
    using allocate_ok [OF assms] by blast
  then show ?thesis using Some alloc_ok_mono by (simp add: mcount_add_def Let_def alloc_ok_heads)
qed

text \<open>Without a system clock the sampler never starts.\<close>

lemma mcount_record_total:
  assumes "alloc_ok M (Suc (Suc n)) g" "tick_rate (pclock g) = 0"
  shows "\<exists>g'. mcount_record M self from e h g = Inr g' \<and> alloc_ok M n g' \<and> tick_rate (pclock g') = 0"
proof -
  define g1 where "g1 = (if pcsample_need_init g then g\<lparr>pcsample_need_init := False, pcsample_need_init := True\<rparr> else g)"
  have "mcount_record M self from e h g = mcount_add M self from e h g1"
    using assms(2) by (simp add: g1_def mcount_record_def nios2_pcsample_init_def alt_ticks_per_second_def)
  moreover have "alloc_ok M (Suc (Suc n)) g1" "pclock g1 = pclock g"
    using assms(1) by (simp_all add: g1_def alloc_ok_def)
  ultimately show ?thesis using mcount_add_total [of M n g1 self "from" e h] assms(2) by auto
qed

lemma mcount_total:
  assumes "alloc_ok M (Suc (Suc n)) g" "tick_rate (pclock g) = 0"
  shows "\<exists>g'. mcount M self from g = Inr g' \<and> alloc_ok M n g' \<and> tick_rate (pclock g') = 0"
proof -
  let ?h = "fn_bucket self"
  let ?fns = "mcount_fn_head g ! ?h"
  note rec = mcount_record_total [OF assms, of self "from" _ ?h]
  show ?thesis
  proof (cases "find_fn self ?fns")
    case None
    then have "mcount M self from g = mcount_record M self from None ?h g"
      by (simp add: mcount_def Let_def)
    then show ?thesis using rec [of None] by simp
  next
    case (Some k)
    show ?thesis
    proof (cases "bump_arc from (arc_head (?fns ! k))")
      case None
      then have "mcount M self from g = mcount_record M self from (Some k) ?h g"
        using Some by (simp add: mcount_def Let_def)
      then show ?thesis using rec [of "Some k"] by simp
    next
      case (Some as)
      have "alloc_ok M n g" by (rule alloc_ok_mono [OF alloc_ok_mono [OF assms(1)]])
      then show ?thesis using Some \<open>find_fn self ?fns = Some k\<close> assms(2)
        by (simp add: mcount_def Let_def alloc_ok_heads)
    qed
  qed
qed

lemma mcounts_total:
  "alloc_ok M (2 * length cs) g \<Longrightarrow> tick_rate (pclock g) = 0 \<Longrightarrow> \<exists>g'. mcounts M cs g = Inr g'"
proof (induction cs arbitrary: g)
  case (Cons c cs)
  obtain self frm where c: "c = (self, frm)" by fastforce
  have "alloc_ok M (Suc (Suc (2 * length cs))) g" using Cons.prems(1) by simp
  from mcount_total [OF this Cons.prems(2), of self frm] obtain g1 where
    "mcount M self frm g = Inr g1" "alloc_ok M (2 * length cs) g1" "tick_rate (pclock g1) = 0" by blast
  with Cons.IH [of g1] show ?case by (simp add: c)
qed simp

section \<open>Samples\<close>

definition take_samples :: "link_map \<Rightarrow> u32 list \<Rightarrow> sampler \<Rightarrow> sampler" where
  "take_samples M pcs s = fold (\<lambda>pc s. snd (nios2_pcsample M 0 (s\<lparr>ea := pc\<rparr>))) pcs s"

definition in_text :: "link_map \<Rightarrow> u32 \<Rightarrow> bool" where
  "in_text M pc \<longleftrightarrow> stext M \<le> pc \<and> pc < etext M"

definition sample_bucket :: "link_map \<Rightarrow> u32 \<Rightarrow> nat" where
  "sample_bucket M pc = unat (pc - stext M) div 32"

lemma one_sample:
  assumes "s_pcsamples s \<noteq> 0" "s' = snd (nios2_pcsample M 0 (s\<lparr>ea := pc\<rparr>))"
  shows "s_pcsamples s' = s_pcsamples s" "length (histogram s') = length (histogram s)"
    "overrun s' = (overrun s \<or> in_text M pc \<and> length (histogram s) \<le> sample_bucket M pc)"
    "i < length (histogram s) \<Longrightarrow> histogram s' ! i =
       histogram s ! i + (if in_text M pc \<and> sample_bucket M pc = i then 1 else 0)"
proof -
  have b: "unat ((pc - stext M) div 32) = sample_bucket M pc"
    by (simp add: sample_bucket_def unat_div_distrib)
  have s': "s' = (if in_text M pc then
      if sample_bucket M pc < length (histogram s)
      then s\<lparr>ea := pc, histogram := (histogram s)[sample_bucket M pc := histogram s ! sample_bucket M pc + 1]\<rparr>
      else s\<lparr>ea := pc, overrun := True\<rparr> else s\<lparr>ea := pc\<rparr>)"
    using assms by (simp add: nios2_pcsample_def in_text_def Let_def b)
  show "s_pcsamples s' = s_pcsamples s" "length (histogram s') = length (histogram s)"
    "overrun s' = (overrun s \<or> in_text M pc \<and> length (histogram s) \<le> sample_bucket M pc)"
    by (simp_all add: s')
  show "i < length (histogram s) \<Longrightarrow> histogram s' ! i =
       histogram s ! i + (if in_text M pc \<and> sample_bucket M pc = i then 1 else 0)"
    by (auto simp: s' nth_list_update)
qed

lemma take_samples_counts:
  "s_pcsamples s \<noteq> 0 \<Longrightarrow>
   length (histogram (take_samples M pcs s)) = length (histogram s)
   \<and> overrun (take_samples M pcs s) =
       (overrun s \<or> (\<exists>pc\<in>set pcs. in_text M pc \<and> length (histogram s) \<le> sample_bucket M pc))
   \<and> (\<forall>i<length (histogram s). histogram (take_samples M pcs s) ! i =
       histogram s ! i + of_nat (length (filter (\<lambda>pc. in_text M pc \<and> sample_bucket M pc = i) pcs)))"
proof (induction pcs arbitrary: s)
  case (Cons pc pcs)
  define t where "t = snd (nios2_pcsample M 0 (s\<lparr>ea := pc\<rparr>))"
  note t = one_sample [OF Cons.prems t_def]
  have "s_pcsamples t \<noteq> 0" using t(1) Cons.prems by simp
  from Cons.IH [OF this] show ?case
    using t(2,3,4) by (auto simp: take_samples_def t_def [symmetric])
qed (simp add: take_samples_def)

lemma start_keeps_driver [simp]: "drv (snd (alt_alarm_start a n cb ctx c)) = drv c"
  by (simp add: alt_alarm_start_def set_alarm_def Let_def split: option.split)

section \<open>Properties\<close>


definition gmon_start :: "u32 \<Rightarrow> gmon" where
  "gmon_start tps =
     \<lparr>mcount_fn_head = replicate HASH_BUCKETS [], mcount_slab_ptr = 0, mcount_slab_size = 0,
      gmon_heap_end = 0x10004000, pcsample_need_init = True, profile_data = 0, profile_rate = 0,
      pclock = \<lparr>tick_rate = tps, nticks = 0, alarm_links = \<lambda>a. \<lparr>l_next = a, l_prev = a\<rparr>,
        alarms = \<lambda>a. \<lparr>time = 0, callback = \<lambda>c s. (0, s), rollover = 0, context_arg = 0\<rparr>,
        drv = \<lparr>ea = 0, s_pcsamples = 0, histogram = [], overrun = False\<rparr>, calls = []\<rparr>\<rparr>"

definition demo_map :: link_map where
  "demo_map = \<lparr>stext = 0x10000120, etext = 0x10000190, heap_limit = 0x18000000\<rparr>"


text \<open>
  Once the sampler has started, every bucket of the histogram counts, modulo \<open>2 ^ 16\<close>, the
  samples whose address falls into its 32 bytes of the text section, and a sample is counted
  outside the histogram exactly when it falls into the last bytes of a text section whose size is
  not a multiple of 32: the buffer has no bucket for them.
\<close>

theorem histogram_misses_last_bucket:
  assumes "nios2_pcsample_init M g = Inr (False, g')" and "s_pcsamples (drv (pclock g')) \<noteq> 0"
    and "overrun (drv (pclock g)) = False"
  shows "length (histogram (take_samples M pcs (drv (pclock g')))) = unat (etext M - stext M) div 32
     \<and> (\<forall>i < unat (etext M - stext M) div 32.
          histogram (take_samples M pcs (drv (pclock g'))) ! i =
            of_nat (length (filter (\<lambda>pc. in_text M pc \<and> unat (pc - stext M) div 32 = i) pcs)))
     \<and> overrun (take_samples M pcs (drv (pclock g'))) =
         (\<exists>pc\<in>set pcs. in_text M pc \<and> unat (etext M - stext M) div 32 * 32 \<le> unat (pc - stext M))"
proof -
  have "histogram (drv (pclock g')) = replicate (unat ((etext M - stext M) div 32)) 0"
    "overrun (drv (pclock g')) = overrun (drv (pclock g))"
    using assms(1,2) by (auto simp: nios2_pcsample_init_def Let_def split_beta split: if_splits)
  then have h: "histogram (drv (pclock g')) = replicate (unat (etext M - stext M) div 32) 0"
    "\<not> overrun (drv (pclock g'))" using assms(3) by (simp_all add: unat_div_distrib)
  have "n \<le> x div 32 \<longleftrightarrow> n * 32 \<le> x" for n x :: nat by (simp add: less_eq_div_iff_mult_less_eq)
  then show ?thesis
    using take_samples_counts [OF assms(2), of M pcs] h by (simp add: sample_bucket_def)
qed

theorem histogram_misses_last_bucket_witness:
  "\<exists>g'. nios2_pcsample_init demo_map (gmon_start 1000) = Inr (False, g')
     \<and> overrun (take_samples demo_map [0x10000124, 0x10000184] (drv (pclock g')))
     \<and> histogram (take_samples demo_map [0x10000124, 0x10000184] (drv (pclock g'))) ! 0 = 1"
proof -
  obtain g' where g': "nios2_pcsample_init demo_map (gmon_start 1000) = Inr (False, g')"
    "s_pcsamples (drv (pclock g')) \<noteq> 0"
    by (auto simp: nios2_pcsample_init_def gmon_start_def demo_map_def Let_def alt_sbrk_def align_up_def
        alt_ticks_per_second_def split_beta)
  have "overrun (drv (pclock (gmon_start 1000))) = False" by (simp add: gmon_start_def)
  from histogram_misses_last_bucket [OF g' this, of "[0x10000124, 0x10000184]"] g'(1)
  show ?thesis by (auto simp: demo_map_def in_text_def)
qed

end
