(* ===== verification/ExcClaims.thy ===== *)
theory ExcClaims
  imports Exceptions
begin

text \<open>
  The contract of the exception handler: an interrupt leaves the interrupted program its
  registers, an instruction that the processor lacks has the effect its manual gives it, and
  everything else goes to the handler of the user.
\<close>

section \<open>Decoding\<close>

text \<open>The fields as the manual of the processor numbers them: \<open>w\<close> bits from bit \<open>p\<close> on.\<close>

definition field :: "nat \<Rightarrow> nat \<Rightarrow> u32 \<Rightarrow> nat" where
  "field p w i = unat (drop_bit p i) mod 2 ^ w"

abbreviation OP :: "u32 \<Rightarrow> nat" where "OP i \<equiv> field 0 6 i"
abbreviation OPX :: "u32 \<Rightarrow> nat" where "OPX i \<equiv> field 11 6 i"
abbreviation rA :: "u32 \<Rightarrow> nat" where "rA i \<equiv> field 27 5 i"
abbreviation rB :: "u32 \<Rightarrow> nat" where "rB i \<equiv> field 22 5 i"
abbreviation rC :: "u32 \<Rightarrow> nat" where "rC i \<equiv> field 17 5 i"

definition IMM16 :: "u32 \<Rightarrow> u32" where
  "IMM16 i = scast (ucast (drop_bit 6 i) :: u16)"

lemma each_bit: "list_all (\<lambda>n. bit a n = bit b n) [0..<32] \<Longrightarrow> a = (b :: u32)"
  by (rule bit_word_eqI) (simp add: list_all_iff)

lemma split_words:
  assumes "split_fields i = (r3, r4, r5, r6, r7)"
  shows "r3 = push_bit 2 (take_bit 5 (drop_bit 27 i) XOR 16)" "r4 = IMM16 i" "r5 = take_bit 6 i"
    "r6 = push_bit 2 (take_bit 5 (drop_bit 22 i) XOR 16)" "r7 = push_bit 2 (take_bit 5 (drop_bit 17 i) XOR 16)"
    "drop_bit 5 r4 AND 0x3f = take_bit 6 (drop_bit 11 i)"
proof -
  have r: "r3 = (word_rotl 7 i XOR 0x40) AND 0x7c"
    "r4 = signed_drop_bit 16 (word_rotl 3 (word_rotl 7 i))" "r5 = i AND 0x3f"
    "r6 = (word_rotl 2 (word_rotl 3 (word_rotl 7 i)) XOR 0x42) AND 0x7c"
    "r7 = word_rotl 5 (word_rotl 2 (word_rotl 3 (word_rotl 7 i)) XOR 0x42) AND 0x7c"
    using assms by (simp_all add: split_fields_def Let_def)
  show "r3 = push_bit 2 (take_bit 5 (drop_bit 27 i) XOR 16)"
    by (rule each_bit) (simp add: all_registers r bit_simps)
  show "r4 = IMM16 i"
    by (rule each_bit) (simp add: all_registers r IMM16_def bit_simps)
  show "r5 = take_bit 6 i"
    by (rule each_bit) (simp add: all_registers r bit_simps)
  show "r6 = push_bit 2 (take_bit 5 (drop_bit 22 i) XOR 16)"
    by (rule each_bit) (simp add: all_registers r bit_simps)
  show "r7 = push_bit 2 (take_bit 5 (drop_bit 17 i) XOR 16)"
    by (rule each_bit) (simp add: all_registers r bit_simps)
  show "drop_bit 5 r4 AND 0x3f = take_bit 6 (drop_bit 11 i)"
    by (rule each_bit) (simp add: all_registers r bit_simps)
qed

lemma unat_field: "unat (take_bit w (drop_bit p i)) = field p w i"
  unfolding field_def unsigned_take_bit_eq by (rule take_bit_eq_mod)

lemma field_less: "field p 5 i < 32"
  by (simp add: field_def)

lemma xor_16_less: "k < 32 \<Longrightarrow> k XOR 16 < (32 :: nat)"
  using slot_less [of k] by (simp add: slot_def)

lemma unat_slot: "unat (push_bit 2 (take_bit 5 (drop_bit p i) XOR 16)) = slot (field p 5 i)"
proof -
  have "unat (take_bit 5 (drop_bit p i) XOR 16 :: u32) = field p 5 i XOR 16"
    by (simp add: unsigned_xor_eq unat_field)
  then show ?thesis
    using xor_16_less [OF field_less, of p i] by (simp add: slot_def push_bit_eq_mult unat_word_ariths)
qed

lemma field_is: "take_bit 6 (drop_bit p i) = numeral n \<longleftrightarrow> field p 6 i = unat (numeral n :: u32)"
  unfolding unat_field [symmetric] by (rule word_unat_eq_iff)

section \<open>What the instructions mean\<close>

text \<open>The instruction set's definition, from the values of registers A and B; division by zero has none.\<close>

definition isa_muldiv :: "u32 \<Rightarrow> u32 \<Rightarrow> u32 \<Rightarrow> (nat \<times> u32) option" where
  "isa_muldiv i a b =
     (if OP i = 0x24 then Some (rB i, a * IMM16 i)
      else if OP i \<noteq> 0x3a then None
      else if OPX i = 0x27 then Some (rC i, a * b)
      else if OPX i = 0x07 then Some (rC i, word_of_int (uint a * uint b div 2 ^ 32))
      else if OPX i = 0x17 then Some (rC i, word_of_int (sint a * uint b div 2 ^ 32))
      else if OPX i = 0x1f then Some (rC i, word_of_int (sint a * sint b div 2 ^ 32))
      else if OPX i = 0x24 \<and> b \<noteq> 0 then Some (rC i, a div b)
      else if OPX i = 0x25 \<and> b \<noteq> 0 then Some (rC i, word_of_int (sint a sdiv sint b))
      else None)"

text \<open>What the emulation makes of it.\<close>

definition emulated :: "u32 \<Rightarrow> u32 \<Rightarrow> u32 \<Rightarrow> (nat \<times> u32) option" where
  "emulated i a b =
     (if OP i = 0x24 then Some (rB i, emulate_multiply OPX_MUL a (IMM16 i))
      else if OP i \<noteq> 0x3a then None
      else if OPX i \<in> {0x27, 0x07, 0x17, 0x1f} then Some (rC i, emulate_multiply (of_nat (OPX i)) a b)
      else if OPX i \<in> {0x24, 0x25} then Some (rC i, emulate_divide (of_nat (OPX i)) a b)
      else None)"

lemma emulated_isa: "isa_muldiv i a b = Some x \<Longrightarrow> emulated i a b = Some x"
  by (auto simp: isa_muldiv_def emulated_def multiply_emulated divide_emulated split: if_splits)

lemma emulated_divides_by_zero:
  assumes "OP i = 0x3a"
  shows "OPX i = 0x24 \<Longrightarrow> emulated i a 0 = Some (rC i, - 1)"
    "OPX i = 0x25 \<Longrightarrow> emulated i a 0 = Some (rC i, if 0 \<le>s a then - 1 else 1)"
  using assms by (simp_all add: emulated_def divide_emulated)

lemma muldiv_step:
  assumes "length stack = 34"
  shows "alt_exception_muldiv i r (stw (save_registers r e stack) 132 (r ! 29)) =
    (case emulated i (operand_seen r stack (rA i)) (operand_seen r stack (rB i)) of
       None \<Rightarrow> (None, emulation_frame r e stack)
     | Some (d, v) \<Rightarrow>
         (let f = stw (emulation_frame r e stack) (slot d) v in (Some (restore_operands f r), f)))"
proof -
  obtain r3 r4 r5 r6 r7 where sf: "split_fields i = (r3, r4, r5, r6, r7)" by (metis prod_cases5)
  note w = split_words [OF sf]
  have u: "unat r3 = slot (rA i)" "unat r6 = slot (rB i)" "unat r7 = slot (rC i)"
    unfolding w by (rule unat_slot)+
  have ops: "ldw (emulation_frame r e stack) (slot (rA i)) = operand_seen r stack (rA i)"
    "ldw (emulation_frame r e stack) (slot (rB i)) = operand_seen r stack (rB i)"
    using assms field_less by (simp_all add: emulation_frame)
  have op: "r5 = numeral n \<longleftrightarrow> OP i = unat (numeral n :: u32)" for n
    using field_is [of 0 i n] w(3) by simp
  define q where "q = drop_bit 5 r4 AND 0x3f"
  have opx: "q = numeral n \<longleftrightarrow> OPX i = unat (numeral n :: u32)" for n
    unfolding q_def w(6) by (rule field_is)
  have "q = of_nat (OPX i)"
    unfolding q_def w(6) unat_field [symmetric] by simp
  then have q: "emulate_divide q = emulate_divide (of_nat (OPX i))"
    "emulate_multiply q = emulate_multiply (of_nat (OPX i))" by simp_all
  show ?thesis
    unfolding alt_exception_muldiv_def sf Let_def split emulation_frame_def [symmetric] u ops op
      store_result_def q_def [symmetric] opx q
    by (simp add: emulated_def w(2) Let_def)
qed

section \<open>Whole exceptions\<close>

lemma call_restored:
  assumes "abi c_call" "length r = 32" "\<And>k. k < 32 \<Longrightarrow> saved k \<Longrightarrow> ldw f (slot k) = r ! k"
    "ldw f 132 = p"
  shows "restore_registers f (c_call r) = r[29 := p]"
proof (rule nth_equalityI)
  have l: "length (c_call r) = 32" using assms(1,2) by (simp add: abi_def)
  then show "length (restore_registers f (c_call r)) = length (r[29 := p])" using assms(2) by simp
  fix k assume "k < length (restore_registers f (c_call r))"
  then have k: "k < 32" using l by simp
  have "\<not> saved k \<Longrightarrow> c_call r ! k = r ! k" "saved k \<Longrightarrow> k \<noteq> 29"
    using assms(1,2) k by (auto simp: abi_def saved_def)
  then show "restore_registers f (c_call r) ! k = r[29 := p] ! k"
    using l k assms(2-4) by (auto simp: restore_registers_frame nth_list_update)
qed

definition wants_irq :: "('s \<Rightarrow> u32) \<Rightarrow> 's cpu \<Rightarrow> bool" where
  "wants_irq lines c \<longleftrightarrow> cpu_status (int_sys c) AND 1 \<noteq> 0 \<and> alt_irq_pending lines (int_sys c) \<noteq> 0"

lemma pending_status [simp]: "alt_irq_pending lines (m\<lparr>cpu_status := s\<rparr>) = alt_irq_pending lines m"
  by (simp add: alt_irq_pending_def)

lemma exception_not_irq:
  assumes "\<not> wants_irq lines c"
  shows "alt_exception fetch lines c_call stack c =
    not_irq fetch c_call (save_registers (regs (take_exception c)) (cpu_status (int_sys c)) stack) (take_exception c)"
  using assms by (auto simp: alt_exception_def wants_irq_def Let_def take_exception_def)

text \<open>Emulation as a whole: the register of the result is written if it is writable.\<close>

lemma exception_emulated:
  assumes "length stack = 34" "length (regs c) = 32" "\<not> wants_irq lines c"
    "emulated (fetch (cpu_pc c)) (operand_seen (regs (take_exception c)) stack (rA (fetch (cpu_pc c))))
       (operand_seen (regs (take_exception c)) stack (rB (fetch (cpu_pc c)))) = Some (d, v)"
  shows "alt_exception fetch lines c_call stack c =
    Resumed (c\<lparr>regs := (if writable d then (regs c)[d := v] else regs c)[29 := cpu_pc c + 4],
      cpu_pc := cpu_pc c + 4\<rparr>)"
proof -
  define r where "r = regs (take_exception c)"
  let ?i = "fetch (cpu_pc c)" and ?e = "cpu_status (int_sys c)"
  let ?f = "stw (emulation_frame r ?e stack) (slot d) v"
  have r: "length r = 32" "r ! 29 = cpu_pc c + 4" "r = (regs c)[29 := cpu_pc c + 4]"
    using assms(2) by (simp_all add: r_def take_exception_def)
  have d: "d < 32" using assms(4) field_less by (auto simp: emulated_def split: if_splits)
  have m: "alt_exception_muldiv ?i r (stw (save_registers r ?e stack) 132 (r ! 29)) =
      (Some (restore_operands ?f r), ?f)"
    using muldiv_step [OF assms(1), of ?i r ?e] assms(4) by (simp add: r_def Let_def)
  have "alt_exception fetch lines c_call stack c =
      exception_exit ?f ((take_exception c)\<lparr>regs := restore_operands ?f r\<rparr>)"
    using assms(3) m r(2) by (simp add: exception_not_irq not_irq_def Let_def flip: r_def)
  also have "\<dots> = Resumed ((take_exception c)\<lparr>regs := if writable d then r[d := v] else r,
      cpu_pc := r ! 29, int_sys := int_sys c\<rparr>)"
    using emulated_registers [OF assms(1) r(1) d refl, of ?e v] r(1)
    by (simp add: exception_exit_def Let_def take_exception_def writable_def)
  finally show ?thesis
    using r by (auto simp: take_exception_def writable_def list_update_swap)
qed

lemma small_multiple_nonzero: "IMM16 i \<noteq> 0 \<Longrightarrow> 136 * IMM16 i \<noteq> 0"
proof -
  assume nz: "IMM16 i \<noteq> 0"
  define s where "s = sint (ucast (drop_bit 6 i) :: u16)"
  have s: "- (2 ^ 15) \<le> s" "s < 2 ^ 15"
    using sint_range_size [of "ucast (drop_bit 6 i) :: u16"] by (simp_all add: s_def word_size)
  have im: "IMM16 i = word_of_int s" by (simp add: IMM16_def s_def)
  then have "s \<noteq> 0" using nz by auto
  then have "\<not> 2 ^ 32 dvd 136 * s" using s zdvd_imp_le [of "2 ^ 32" "\<bar>136 * s\<bar>"] by auto
  moreover have "136 * IMM16 i = word_of_int (136 * s)" by (simp add: im)
  ultimately show ?thesis by (simp only: word_of_int_eq_0_iff) simp
qed

lemma operand_readable:
  "k \<notin> {24, 25, 27, 29, 30} \<Longrightarrow> regs c ! 0 = 0 \<Longrightarrow>
   operand_seen (regs (take_exception c)) stack k = regs c ! k"
  by (auto simp: operand_seen_def take_exception_def nth_list_update)

section \<open>Properties\<close>

text \<open>
  Claim C22. An interrupt is transparent to the program it interrupts. Whatever the interrupt
  handlers do to the devices, and whatever compiled code does within the calling convention, the
  program continues at the instruction that was interrupted, with the status it had and with every
  register as it was, except the register \<^verbatim>\<open>ea\<close> that belongs to exceptions; the devices are as
  \<^verbatim>\<open>alt_irq_handler\<close> left them, which ran with interrupts disabled.
\<close>

theorem interrupt_is_transparent:
  assumes "length (regs c) = 32" and "length stack = 34" and "abi c_call"
    and "cpu_status (int_sys c) AND 1 \<noteq> 0" and "alt_irq_pending lines (int_sys c) \<noteq> 0"
    and "alt_irq_handler lines ((int_sys c)\<lparr>cpu_status := cpu_status (int_sys c) AND NOT PIE\<rparr>) = Some (Inr m)"
  shows "alt_exception fetch lines c_call stack c =
    Resumed (c\<lparr>regs := (regs c)[29 := cpu_pc c], int_sys := m\<lparr>cpu_status := cpu_status (int_sys c)\<rparr>\<rparr>)"
proof -
  define r where "r = regs (take_exception c)"
  let ?f = "save_registers r (cpu_status (int_sys c)) stack"
  have r: "length r = 32" "r ! 29 = cpu_pc c + 4" "r = (regs c)[29 := cpu_pc c + 4]"
    using assms(1) by (simp_all add: r_def take_exception_def)
  note f = save_registers_frame [OF assms(2), where r = r and e = "cpu_status (int_sys c)"]
  have p: "ldw ?f 132 = cpu_pc c" using f(3) r(2) by simp
  have res: "restore_registers ?f (c_call r) = r[29 := cpu_pc c]"
    by (rule call_restored [OF assms(3) r(1) f(1) p])
  have "alt_exception fetch lines c_call stack c =
      exception_exit ?f ((take_exception c)\<lparr>regs := c_call r, int_sys := m\<rparr>)"
    using assms(4-6) by (simp add: alt_exception_def Let_def r_def take_exception_def)
  then show ?thesis
    using res f(2) r by (simp add: exception_exit_def Let_def take_exception_def)
qed


text \<open>
  The stack pointer is not emulated as a source, although the code's list of limitations
  does not say so: the value that is multiplied is 136 less, the handler's own stack pointer, and
  unless the constant is zero the product that \<^verbatim>\<open>muli\<close> leaves is not the one the instruction set asks for.
\<close>

theorem stack_pointer_operand_is_off:
  assumes "length (regs c) = 32" and "length stack = 34"
    and "cpu_status (int_sys c) AND 1 = 0 \<or> alt_irq_pending lines (int_sys c) = 0"
    and "i = fetch (cpu_pc c)" and "OP i = 0x24" and "rA i = 27" and "IMM16 i \<noteq> 0" and "writable (rB i)"
  shows "\<exists>c'. alt_exception fetch lines c_call stack c = Resumed c'
    \<and> regs c' ! rB i = (regs c ! 27 - 136) * IMM16 i
    \<and> isa_muldiv i (regs c ! rA i) (regs c ! rB i) = Some (rB i, regs c ! 27 * IMM16 i)
    \<and> regs c' ! rB i \<noteq> regs c ! 27 * IMM16 i"
proof -
  have sp: "operand_seen (regs (take_exception c)) stack (rA i) = regs c ! 27 - 136"
    by (simp add: assms(6) operand_seen_def take_exception_def nth_list_update)
  have "emulated i (operand_seen (regs (take_exception c)) stack (rA i))
      (operand_seen (regs (take_exception c)) stack (rB i)) = Some (rB i, (regs c ! 27 - 136) * IMM16 i)"
    unfolding sp by (simp add: emulated_def assms(5) multiply_emulated)
  then have "alt_exception fetch lines c_call stack c =
      Resumed (c\<lparr>regs := (regs c)[rB i := (regs c ! 27 - 136) * IMM16 i, 29 := cpu_pc c + 4],
        cpu_pc := cpu_pc c + 4\<rparr>)"
    using exception_emulated [OF assms(2,1), of lines fetch "rB i" "(regs c ! 27 - 136) * IMM16 i" c_call]
      assms(3,4,8) by (simp add: wants_irq_def)
  moreover have "136 * IMM16 i \<noteq> 0" using small_multiple_nonzero [OF assms(7)] .
  then have "(regs c ! 27 - 136) * IMM16 i \<noteq> regs c ! 27 * IMM16 i" by (simp add: algebra_simps)
  ultimately show ?thesis
    using assms(1,8) by (simp add: writable_def isa_muldiv_def assms(5,6))
qed

text \<open>
  Everything that is neither an interrupt nor an instruction of that kind goes to the handler of the
  user, with the address of the instruction and no cause: if it returns a value other than zero the
  program continues after the instruction, if it returns zero the instruction is tried again, in
  both cases with all registers but \<^verbatim>\<open>ea\<close> as they were; without a handler the processor breaks.
\<close>

theorem other_exceptions_go_to_user:
  assumes "length (regs c) = 32" and "length stack = 34" and "abi c_call"
    and "cpu_status (int_sys c) AND 1 = 0 \<or> alt_irq_pending lines (int_sys c) = 0"
    and "i = fetch (cpu_pc c)" and "OP i \<noteq> 0x24"
    and "OP i \<noteq> 0x3a \<or> OPX i \<notin> {0x07, 0x17, 0x1f, 0x24, 0x25, 0x27}"
  shows "alt_exception fetch lines c_call stack c =
    (case alt_instruction_exception_handler c of
       None \<Rightarrow> Break (take_exception c)
     | Some h \<Rightarrow>
         (let (r, s) = h (- 1) (cpu_pc c) 0 (devs (int_sys c)); next = (if r \<noteq> 0 then cpu_pc c + 4 else cpu_pc c)
          in Resumed (c\<lparr>regs := (regs c)[29 := next], cpu_pc := next,
               int_sys := (int_sys c)\<lparr>devs := s\<rparr>\<rparr>)))"
proof -
  define r where "r = regs (take_exception c)"
  let ?e = "cpu_status (int_sys c)" and ?F = "emulation_frame r (cpu_status (int_sys c)) stack"
  have r: "length r = 32" "r ! 29 = cpu_pc c + 4" "r = (regs c)[29 := cpu_pc c + 4]"
    using assms(1) by (simp_all add: r_def take_exception_def)
  have "emulated i a b = None" for a b using assms(6,7) by (auto simp: emulated_def)
  then have m: "alt_exception_muldiv i r (stw (save_registers r ?e stack) 132 (r ! 29)) = (None, ?F)"
    using muldiv_step [OF assms(2), of i r ?e] by simp
  have F: "k < 32 \<Longrightarrow> saved k \<Longrightarrow> ldw ?F (slot k) = r ! k" for k
    using emulation_frame(1) [OF assms(2), of k r ?e] by (auto simp: operand_seen_def saved_def)
  note F' = emulation_frame(2,3) [OF assms(2), of r ?e]
  have c29: "c_call r ! 29 = cpu_pc c + 4"
    using assms(3) r(1,2) by (simp add: abi_def)
  let ?G = "stw ?F 132 (cpu_pc c)"
  have G: "k < 32 \<Longrightarrow> saved k \<Longrightarrow> ldw ?G (slot k) = r ! k" for k
    using F assms(2) by (simp add: ldw_stw_slot)
  have G': "ldw ?G 132 = cpu_pc c" "ldw ?G 128 = ?e" using F' assms(2) by (simp_all add: ldw_stw)
  have skip: "restore_registers ?F (c_call r) = r" 
    using call_restored [OF assms(3) r(1) F F'(2)] r(2) by (metis list_update_id)
  have again: "restore_registers ?G (c_call r) = r[29 := cpu_pc c]"
    by (rule call_restored [OF assms(3) r(1) G G'(1)])
  have "alt_exception fetch lines c_call stack c = not_irq fetch c_call (save_registers r ?e stack) (take_exception c)"
    using assms(4) unfolding r_def by (intro exception_not_irq) (auto simp: wants_irq_def)
  also have "\<dots> = (case alt_instruction_exception_entry (cpu_pc c) (take_exception c) of
      None \<Rightarrow> Break (take_exception c)
    | Some (v, s) \<Rightarrow>
        (let c' = (take_exception c)\<lparr>regs := c_call r, int_sys := (int_sys (take_exception c))\<lparr>devs := s\<rparr>\<rparr>
         in if v \<noteq> 0 then exception_exit ?F c' else exception_exit ?G c'))"
    using m r(2) assms(5) c29 by (simp add: not_irq_def Let_def flip: r_def split: option.split)
  finally show ?thesis
    using skip again F' G' r assms(1)
    by (auto simp: alt_instruction_exception_entry_def exception_exit_def Let_def take_exception_def
        split: option.splits prod.splits)
qed

section \<open>A processor at work\<close>

text \<open>
  Registers 1 to 3 hold -2, 7 and 5, the stack pointer is 0x1000; one device, which raises line 0
  until it is served; compiled code clears register 2.
\<close>

definition demo_cpu :: "u32 \<Rightarrow> bool cpu" where
  "demo_cpu status =
     \<lparr>regs = [0, - 2, 7, 5] @ replicate 23 0 @ [0x1000, 0, 0, 0, 0], cpu_pc = 0x200,
      int_sys = \<lparr>alt_irq = replicate 32 (Some (\<lambda>context s. False), 0), alt_irq_active = 1, ienable = 1,
        cpu_status = status, devs = True, served = []\<rparr>,
      alt_instruction_exception_handler = Some (\<lambda>cause pc bad s. (1, False))\<rparr>"

definition demo_lines :: "bool \<Rightarrow> u32" where
  "demo_lines s = (if s then 1 else 0)"

definition demo_call :: "u32 list \<Rightarrow> u32 list" where
  "demo_call r = r[2 := 0]"

lemma demo_abi: "abi demo_call"
  by (auto simp: abi_def demo_call_def nth_list_update)

theorem interrupt_is_transparent_witness:
  "\<exists>c. alt_exception (\<lambda>a. 0) demo_lines demo_call (replicate 34 0) (demo_cpu 1) = Resumed c
     \<and> regs c ! 2 = 7 \<and> cpu_pc c = 0x200 \<and> served (int_sys c) = [0]"
proof -
  have l: "length (regs (demo_cpu 1)) = 32" "length (replicate 34 (0 :: u32)) = 34"
    by (simp_all add: demo_cpu_def)
  have s: "cpu_status (int_sys (demo_cpu 1)) AND 1 \<noteq> 0"
    "alt_irq_pending demo_lines (int_sys (demo_cpu 1)) \<noteq> 0"
    by (simp_all add: demo_cpu_def alt_irq_pending_def demo_lines_def)
  define m where "m = (int_sys (demo_cpu 1))\<lparr>cpu_status := cpu_status (int_sys (demo_cpu 1)) AND NOT 1\<rparr>"
  have "lowest_active 1 1 0 = Some 0" by (subst lowest_active.simps) simp
  then have "alt_irq_handler demo_lines m = Some (Inr (m\<lparr>devs := False, served := [0]\<rparr>))"
    by (simp add: alt_irq_handler_def m_def demo_cpu_def alt_irq_pending_def demo_lines_def)
      (subst irq_rounds.simps, simp add: call_isr_def alt_irq_pending_def demo_lines_def)
  from interrupt_is_transparent [OF l demo_abi s this [unfolded m_def]]
  show ?thesis by (simp add: demo_cpu_def m_def)
qed


text \<open>\<^verbatim>\<open>muli r3, sp, 2\<close>.\<close>

theorem stack_pointer_operand_is_off_witness:
  "\<exists>c. alt_exception (\<lambda>a. 3636461732) demo_lines demo_call (replicate 34 0) (demo_cpu 0) = Resumed c
     \<and> regs c ! 3 = 0x1EF0"
proof -
  have l: "length (regs (demo_cpu 0)) = 32" "length (replicate 34 (0 :: u32)) = 34"
    by (simp_all add: demo_cpu_def)
  have s: "cpu_status (int_sys (demo_cpu 0)) AND 1 = 0 \<or> alt_irq_pending demo_lines (int_sys (demo_cpu 0)) = 0"
    by (simp add: demo_cpu_def)
  have f: "OP 3636461732 = 0x24" "rA 3636461732 = 27" "rB 3636461732 = 3" "IMM16 3636461732 = 2"
    by (simp_all add: field_def IMM16_def)
  have sp: "regs (demo_cpu 0) ! 27 = 0x1000" by (simp add: demo_cpu_def nth_append)
  from stack_pointer_operand_is_off [OF l s refl, of "\<lambda>a. 3636461732" demo_call] f
  show ?thesis by (auto simp: writable_def sp)
qed

theorem other_exceptions_go_to_user_witness:
  "\<exists>c. alt_exception (\<lambda>a. 0) demo_lines demo_call (replicate 34 0) (demo_cpu 0) = Resumed c
     \<and> regs c ! 2 = 7 \<and> cpu_pc c = 0x204"
proof -
  have l: "length (regs (demo_cpu 0)) = 32" "length (replicate 34 (0 :: u32)) = 34"
    by (simp_all add: demo_cpu_def)
  have s: "cpu_status (int_sys (demo_cpu 0)) AND 1 = 0 \<or> alt_irq_pending demo_lines (int_sys (demo_cpu 0)) = 0"
    by (simp add: demo_cpu_def)
  have f: "OP 0 \<noteq> 0x24" "OP 0 \<noteq> 0x3a \<or> OPX 0 \<notin> {0x07, 0x17, 0x1f, 0x24, 0x25, 0x27}"
    by (simp_all add: field_def)
  from other_exceptions_go_to_user [OF l demo_abi s refl, of "\<lambda>a. 0"] f
  show ?thesis by (simp add: demo_cpu_def)
qed

end
