(* ===== verification/Cache.thy ===== *)
theory Cache
  imports Prelude
begin

text \<open>
  Cache control: \<^verbatim>\<open>alt_icache_flush.c\<close>, \<^verbatim>\<open>alt_icache_flush_all.c\<close>, \<^verbatim>\<open>alt_dcache_flush.c\<close>,
  \<^verbatim>\<open>alt_dcache_flush_all.c\<close> and \<^verbatim>\<open>alt_dcache_flush_no_writeback.c\<close> under \<^verbatim>\<open>HAL/src\<close>. The result of
  a function is the sequence of cache instructions it executes. The sizes of the caches and of
  their lines come from the processor's configuration (\<^verbatim>\<open>system.h\<close>) and are arguments; a size of 0,
  as on the board, is a processor without that cache. Pointers are compared as unsigned words.
\<close>

section \<open>Model\<close>

datatype cache_op = Flushda u32 | Initda u32 | Flushd u32 | Flushi u32 | Flushp

text \<open>
  The loop \<^verbatim>\<open>for (i = start; i < end; i += LINE_SIZE)\<close>: the final \<^verbatim>\<open>i\<close> and the values it had in
  the body. It may not end.
\<close>

partial_function (option) flush_lines :: "u32 \<Rightarrow> u32 \<Rightarrow> u32 \<Rightarrow> u32 list \<Rightarrow> (u32 \<times> u32 list) option" where
  "flush_lines line i stop visited =
     (if i < stop then flush_lines line (i + line) stop (visited @ [i]) else Some (i, visited))"

definition flush_region :: "(u32 \<Rightarrow> cache_op) \<Rightarrow> u32 \<Rightarrow> u32 \<Rightarrow> u32 \<Rightarrow> cache_op list option" where
  "flush_region op line start len =
     (case flush_lines line start (start + len) [] of
        None \<Rightarrow> None
      | Some (i, visited) \<Rightarrow>
          Some (map op visited @ (if start AND (line - 1) \<noteq> 0 then [op i] else [])))"

definition alt_dcache_flush :: "u32 \<Rightarrow> u32 \<Rightarrow> u32 \<Rightarrow> u32 \<Rightarrow> cache_op list option" where
  "alt_dcache_flush csize line start len =
     (if csize > 0 then flush_region Flushda line start len else Some [])"

definition alt_dcache_flush_no_writeback :: "u32 \<Rightarrow> u32 \<Rightarrow> u32 \<Rightarrow> cache_op list option" where
  "alt_dcache_flush_no_writeback line start len = flush_region Initda line start len"

definition alt_dcache_flush_all :: "u32 \<Rightarrow> u32 \<Rightarrow> cache_op list option" where
  "alt_dcache_flush_all csize line =
     (if csize > 0 then map_option (\<lambda>(i, visited). map Flushd visited) (flush_lines line 0 csize [])
      else Some [])"

definition alt_icache_flush :: "u32 \<Rightarrow> u32 \<Rightarrow> u32 \<Rightarrow> u32 \<Rightarrow> cache_op list option" where
  "alt_icache_flush csize line start len =
     (if csize > 0 then
        (let len = (if len > csize then csize else len)
         in map_option (\<lambda>ops. ops @ [Flushp]) (flush_region Flushi line start len))
      else Some [])"

definition alt_icache_flush_all :: "u32 \<Rightarrow> u32 \<Rightarrow> cache_op list option" where
  "alt_icache_flush_all csize line = (if csize > 0 then alt_icache_flush csize line 0 csize else Some [])"

text \<open>
  Memory that the data cache does not hold: with a bypass bit in the address (\<^verbatim>\<open>bypass\<close>) a pointer
  is its block with the bit set. Newlib's allocators are arguments; the result is the sequence of
  cache instructions and the pointer, 0 for none.
\<close>

definition alt_uncached_malloc ::
  "u32 \<Rightarrow> u32 option \<Rightarrow> u32 \<Rightarrow> (u32 \<Rightarrow> u32) \<Rightarrow> (u32 \<Rightarrow> u32 \<Rightarrow> u32) \<Rightarrow> u32 \<Rightarrow> (cache_op list \<times> u32) option" where
  "alt_uncached_malloc csize bypass line malloc memalign n =
     (if csize > 0 then
        (case bypass of
           None \<Rightarrow> Some ([], 0)
         | Some bit31 \<Rightarrow>
             (let num_lines = (n + line - 1) div line;
                  aligned_size = num_lines * line;
                  ptr = memalign line aligned_size
              in if ptr = 0 then Some ([], 0)
                 else map_option (\<lambda>ops. (ops, ptr OR bit31)) (alt_dcache_flush csize line ptr aligned_size)))
      else Some ([], malloc n))"

text \<open>The pointer that is handed to \<^verbatim>\<open>free\<close>, if it is called.\<close>

definition alt_uncached_free :: "u32 \<Rightarrow> u32 option \<Rightarrow> u32 \<Rightarrow> u32 option" where
  "alt_uncached_free csize bypass ptr =
     (if csize > 0 then map_option (\<lambda>bit31. ptr AND NOT bit31) bypass else Some ptr)"

definition alt_remap_cached :: "u32 \<Rightarrow> u32 option \<Rightarrow> u32 \<Rightarrow> u32 \<Rightarrow> u32" where
  "alt_remap_cached csize bypass ptr len =
     (if csize > 0 then (case bypass of Some bit31 \<Rightarrow> ptr AND NOT bit31 | None \<Rightarrow> 0) else ptr)"

definition alt_remap_uncached :: "u32 \<Rightarrow> u32 \<Rightarrow> u32" where
  "alt_remap_uncached ptr len = 0"

text \<open>The handler of a fatal memory error is stored, and its variable flushed from the cache.\<close>

definition alt_ecc_fatal_exception_register ::
  "u32 \<Rightarrow> u32 \<Rightarrow> u32 \<Rightarrow> u32 \<Rightarrow> u32 \<times> cache_op list option" where
  "alt_ecc_fatal_exception_register csize line variable handler =
     (handler, alt_dcache_flush csize line variable 4)"

lemma mask_round_trip: "(p :: u32) AND m = 0 \<Longrightarrow> (p OR m) AND NOT m = p"
proof -
  assume z: "p AND m = 0"
  have d: "\<not> (bit p n \<and> bit m n)" for n
    using arg_cong [OF z, of "\<lambda>w. bit w n"] by (simp add: bit_and_iff)
  show ?thesis by (rule bit_word_eqI) (use d in \<open>auto simp: bit_simps\<close>)
qed

text \<open>What is allocated is what is freed, as long as blocks do not lie in the bypass region.\<close>

lemma uncached_free_returns_block:
  assumes "alt_uncached_malloc csize bypass line malloc memalign n = Some (ops, q)" and "q \<noteq> 0"
    and "\<And>a s m. bypass = Some m \<Longrightarrow> memalign a s AND m = 0"
  shows "\<exists>p. alt_uncached_free csize bypass q = Some p
     \<and> (p = malloc n \<or> (\<exists>s. p = memalign line s)) \<and> alt_remap_cached csize bypass q len = p"
  using assms(1,2) mask_round_trip [OF assms(3)]
  by (auto simp: alt_uncached_malloc_def alt_uncached_free_def alt_remap_cached_def Let_def
      split: if_splits option.splits)

section \<open>The loop\<close>

lemma flush_lines_run:
  assumes "0 < unat line" "unat stop + unat line \<le> 2 ^ 32"
  shows "\<exists>n. flush_lines line i stop visited =
           Some (i + of_nat n * line, visited @ map (\<lambda>j. i + of_nat j * line) [0..<n])
     \<and> unat stop \<le> unat i + n * unat line \<and> (n = 0 \<or> unat i + (n - 1) * unat line < unat stop)"
proof (induction "unat stop - unat i" arbitrary: i visited rule: less_induct)
  case less
  show ?case
  proof (cases "i < stop")
    case False
    then show ?thesis by (subst flush_lines.simps) (auto simp: word_less_nat_alt intro!: exI [of _ 0])
  next
    case True
    then have lt: "unat i < unat stop" by (simp add: word_less_nat_alt)
    then have ui: "unat (i + line) = unat i + unat line" using assms(2) by (simp add: unat_word_ariths)
    have "unat stop - unat (i + line) < unat stop - unat i" using lt ui assms(1) by simp
    from less.hyps [OF this, of "visited @ [i]", unfolded ui]
    obtain n where n: "flush_lines line (i + line) stop (visited @ [i]) =
        Some (i + line + of_nat n * line, (visited @ [i]) @ map (\<lambda>j. i + line + of_nat j * line) [0..<n])"
      "unat stop \<le> unat i + unat line + n * unat line"
      "n = 0 \<or> unat i + unat line + (n - 1) * unat line < unat stop"
      by blast
    have "[0..<Suc n] = 0 # map Suc [0..<n]" by (simp add: map_Suc_upt upt_conv_Cons del: upt_Suc)
    then have m: "map (\<lambda>j. i + of_nat j * line) [0..<Suc n] = i # map (\<lambda>j. i + line + of_nat j * line) [0..<n]"
      by (simp add: algebra_simps del: upt_Suc)
    have "unat i + (Suc n - 1) * unat line < unat stop" using n(3) lt by (cases n) auto
    moreover have "flush_lines line i stop visited =
        Some (i + of_nat (Suc n) * line, visited @ map (\<lambda>j. i + of_nat j * line) [0..<Suc n])"
      unfolding m using n(1) True by (subst flush_lines.simps) (simp add: algebra_simps)
    ultimately show ?thesis using n(2) by (intro exI [of _ "Suc n"]) simp
  qed
qed

lemma flush_lines_stuck: "flush_lines 0 i stop visited = Some r \<Longrightarrow> \<not> i < stop"
  by (induction "0 :: u32" i stop visited r
      rule: flush_lines.raw_induct [rotated, consumes 1, case_names step])
    (auto split: if_splits)

lemma unat_power_2: "k < 32 \<Longrightarrow> unat (2 ^ k :: u32) = 2 ^ k"
proof -
  assume k: "k < 32"
  then have "(2 :: nat) ^ k < 2 ^ 32" by (intro power_strict_increasing) simp_all
  then have "unat (of_nat (2 ^ k) :: u32) = 2 ^ k"
    unfolding unsigned_of_nat using k by (simp add: take_bit_nat_eq_self)
  then show ?thesis by simp
qed

lemma line_offset: "k < 32 \<Longrightarrow> (start :: u32) AND (2 ^ k - 1) = 0 \<longleftrightarrow> unat start mod 2 ^ k = 0"
proof -
  have "start AND (2 ^ k - 1) = take_bit k start" by (simp add: take_bit_eq_mask mask_eq_exp_minus_1)
  moreover have "unat (take_bit k start) = unat start mod 2 ^ k"
    unfolding unsigned_take_bit_eq by (simp add: take_bit_eq_mod)
  ultimately show ?thesis by (metis unsigned_eq_0_iff)
qed

text \<open>
  The addresses that a flush of a region names: one per step of a line, and one more when the
  start is inside a line.
\<close>

lemma flush_region_addresses:
  assumes k: "k < 32" and fits: "unat start + unat len + 2 ^ k \<le> 2 ^ 32"
  shows "\<exists>n. flush_region op (2 ^ k) start len = Some (map (\<lambda>j. op (start + of_nat j * 2 ^ k)) [0..<n])
     \<and> unat len + (if unat start mod 2 ^ k = 0 then 0 else 2 ^ k) \<le> n * 2 ^ k
     \<and> n * 2 ^ k < unat len + (if unat start mod 2 ^ k = 0 then 1 else 2) * 2 ^ k"
proof -
  note L = unat_power_2 [OF k]
  have e: "unat (start + len) = unat start + unat len"
  proof -
    have "0 < (2 :: nat) ^ k" by simp
    then have "unat start + unat len < 2 ^ 32" using fits by linarith
    then show ?thesis by (simp add: unat_word_ariths)
  qed
  have "0 < unat (2 ^ k :: u32)" "unat (start + len) + unat (2 ^ k :: u32) \<le> 2 ^ 32"
    using fits unfolding e L by simp_all
  from flush_lines_run [OF this, of start "[]"] obtain n where
    n: "flush_lines (2 ^ k) start (start + len) [] =
          Some (start + of_nat n * 2 ^ k, map (\<lambda>j. start + of_nat j * 2 ^ k) [0..<n])"
      "unat len \<le> n * 2 ^ k" "n = 0 \<or> (n - 1) * 2 ^ k < unat len"
    unfolding e L by auto
  have up: "n * 2 ^ k < unat len + 2 ^ k"
    using n(3) by (cases n) auto
  show ?thesis
  proof (cases "unat start mod 2 ^ k = 0")
    case True
    then show ?thesis
      using n(1,2) up line_offset [OF k, of start]
      by (intro exI [of _ n]) (simp add: flush_region_def comp_def)
  next
    case False
    then show ?thesis
      using n(1,2) up line_offset [OF k, of start]
      by (intro exI [of _ "Suc n"]) (simp add: flush_region_def comp_def)
  qed
qed

text \<open>Two addresses less than a line apart are in the same line or in neighbouring ones.\<close>

lemma line_or_next:
  fixes x a m :: nat
  assumes "x \<le> a" "a < x + m" "0 < m"
  shows "a div m = x div m \<or> x mod m \<noteq> 0 \<and> a div m = (x + m) div m"
proof -
  have "x div m \<le> a div m" using assms by (intro div_le_mono) simp
  moreover have "a div m \<le> (x + m) div m" using assms by (intro div_le_mono) simp
  moreover have "(x + m) div m = Suc (x div m)" using assms(3) div_add_self2 [of m x] by simp
  moreover have "a div m = x div m" if "x mod m = 0"
  proof -
    have "m * (x div m) = x" using that mult_div_mod_eq [of m x] by simp
    then have "a < m * Suc (x div m)" using assms(2) by simp
    then have "a div m < Suc (x div m)" using assms(3) by (simp add: less_mult_imp_div_less mult.commute)
    then show ?thesis using calculation(1) by simp
  qed
  ultimately show ?thesis by (metis le_Suc_eq le_antisym)
qed

definition same_line :: "u32 \<Rightarrow> u32 \<Rightarrow> u32 \<Rightarrow> bool" where
  "same_line line x a \<longleftrightarrow> x div line = a div line"

lemma flush_region_covers:
  assumes k: "k < 32" and fits: "unat start + unat len + 2 ^ k \<le> 2 ^ 32"
  shows "\<exists>xs. flush_region op (2 ^ k) start len = Some (map op xs)
     \<and> (\<forall>a. unat start \<le> unat a \<and> unat a < unat start + unat len \<longrightarrow> (\<exists>x\<in>set xs. same_line (2 ^ k) x a))
     \<and> (\<forall>x\<in>set xs. unat start \<le> unat x \<and> unat x < unat start + unat len + 2 ^ k)"
proof -
  define m :: nat where "m = 2 ^ k"
  define o' where "o' = (if unat start mod m = 0 then 0 else m)"
  have m0: "0 < m" by (simp add: m_def)
  note L = unat_power_2 [OF k, folded m_def]
  from flush_region_addresses [OF assms, of op] obtain n where
    n: "flush_region op (2 ^ k) start len = Some (map (\<lambda>j. op (start + of_nat j * 2 ^ k)) [0..<n])"
      "unat len + o' \<le> n * m" "n * m < unat len + o' + m"
    unfolding o'_def m_def by (auto split: if_splits)
  define xs where "xs = map (\<lambda>j. start + of_nat j * (2 ^ k)) [0..<n]"
  have adr: "unat (start + of_nat j * 2 ^ k) = unat start + j * m" if "unat start + j * m < 2 ^ 32" for j
  proof -
    have "start + of_nat j * 2 ^ k = of_nat (unat start + j * m)" by (simp add: m_def)
    then show ?thesis using that unfolding unsigned_of_nat by (simp only: unsigned_of_nat) (simp add: take_bit_nat_eq_self)
  qed
  have jm: "unat start + j * m < unat start + unat len + m" if "j < n" for j
  proof -
    have "Suc j * m \<le> n * m" using that by (intro mult_le_mono1) simp
    moreover have "o' \<le> m" by (simp add: o'_def)
    ultimately show ?thesis using n(3) by simp
  qed
  have fit: "unat start + unat len + m \<le> 2 ^ 32" using fits by (simp add: m_def)
  have unat_x: "unat (start + of_nat j * 2 ^ k) = unat start + j * m" if "j < n" for j
    using adr [of j] jm [OF that] fit by linarith
  have "\<exists>x\<in>set xs. same_line (2 ^ k) x a" if a: "unat start \<le> unat a" "unat a < unat start + unat len" for a
  proof -
    define q where "q = (unat a - unat start) div m"
    have q: "unat start + q * m \<le> unat a" "unat a < unat start + q * m + m"
      using a(1) m0 div_times_less_eq_dividend [of "unat a - unat start" m] dividend_less_div_times [OF m0, of "unat a - unat start"]
      unfolding q_def by linarith+
    have qo: "q * m + o' < n * m" using q(1) a n(2) by linarith
    then have "q * m < n * m" by linarith
    then have lt: "q < n" by simp
    have lt': "Suc q < n" if "o' = m"
    proof -
      have "Suc q * m < n * m" using qo that by simp
      then show ?thesis by (simp only: mult_less_cancel2)
    qed
    have xm: "(unat start + q * m) mod m = unat start mod m" by simp
    have "\<exists>j<n. unat a div m = (unat start + j * m) div m"
      using line_or_next [OF q m0]
    proof
      assume "unat a div m = (unat start + q * m) div m"
      with lt show ?thesis by blast
    next
      assume h: "(unat start + q * m) mod m \<noteq> 0 \<and> unat a div m = (unat start + q * m + m) div m"
      then have "Suc q < n" using xm by (intro lt') (auto simp: o'_def)
      moreover have "unat a div m = (unat start + Suc q * m) div m" using h by (simp add: ac_simps)
      ultimately show ?thesis by blast
    qed
    then obtain j where j: "j < n" "unat a div m = (unat start + j * m) div m" by blast
    then have "same_line (2 ^ k) (start + of_nat j * 2 ^ k) a"
      unfolding same_line_def word_unat_eq_iff unat_div_distrib L unat_x [OF j(1)] by simp
    then show ?thesis using j(1) by (auto simp: xs_def)
  qed
  moreover have "flush_region op (2 ^ k) start len = Some (map op xs)" using n(1) by (simp add: xs_def comp_def)
  moreover have "\<forall>x\<in>set xs. unat start \<le> unat x \<and> unat x < unat start + unat len + m"
    using unat_x jm by (auto simp: xs_def)
  ultimately show ?thesis unfolding m_def by blast
qed

text \<open>
  The instruction cache is flushed by position: a line is out of it when its position is flushed.
  The region is cut to the size of the cache, after which the positions repeat.
\<close>

definition same_position :: "u32 \<Rightarrow> u32 \<Rightarrow> u32 \<Rightarrow> u32 \<Rightarrow> bool" where
  "same_position csize line x a \<longleftrightarrow> x div line mod (csize div line) = a div line mod (csize div line)"

lemma position_mod: "0 < L \<Longrightarrow> a mod (L * n) div L = a div L mod n" for a L n :: nat
  by (simp add: mod_mult2_eq)

lemma same_position_nat:
  assumes "k < 32" "unat csize = 2 ^ k * n"
  shows "same_position csize (2 ^ k) x a \<longleftrightarrow> unat x mod unat csize div 2 ^ k = unat a mod unat csize div 2 ^ k"
proof -
  have "unat (y div 2 ^ k mod (csize div 2 ^ k)) = unat y mod unat csize div 2 ^ k" for y :: u32
    unfolding unat_mod_distrib unat_div_distrib unat_power_2 [OF assms(1)] assms(2)
    by (simp add: position_mod)
  then show ?thesis unfolding same_position_def word_unat_eq_iff by simp
qed

lemma icache_positions:
  assumes k: "k < 32" and fits: "unat start + unat len + 2 ^ k \<le> 2 ^ 32"
    and c: "unat csize = 2 ^ k * n" "0 < csize"
  shows "\<exists>xs. alt_icache_flush csize (2 ^ k) start len = Some (map Flushi xs @ [Flushp])
     \<and> (\<forall>a. unat start \<le> unat a \<and> unat a < unat start + unat len \<longrightarrow>
            (\<exists>x\<in>set xs. same_position csize (2 ^ k) x a))"
proof -
  define l where "l = (if len > csize then csize else len)"
  have l: "unat l = min (unat len) (unat csize)" by (auto simp: l_def word_less_nat_alt)
  have c0: "0 < unat csize" using c(2) by (simp add: word_less_nat_alt)
  have "unat start + unat l + 2 ^ k \<le> 2 ^ 32" using fits l by linarith
  from flush_region_covers [OF k this, of Flushi] obtain xs where
    xs: "flush_region Flushi (2 ^ k) start l = Some (map Flushi xs)"
      "\<forall>a. unat start \<le> unat a \<and> unat a < unat start + unat l \<longrightarrow> (\<exists>x\<in>set xs. same_line (2 ^ k) x a)"
    by blast
  have "\<exists>x\<in>set xs. same_position csize (2 ^ k) x a"
    if a: "unat start \<le> unat a" "unat a < unat start + unat len" for a
  proof -
    define d where "d = (unat a - unat start) mod unat csize"
    have d: "d \<le> unat a - unat start" "d < unat l" "(unat start + d) mod unat csize = unat a mod unat csize"
    proof -
      show dl: "d \<le> unat a - unat start" by (simp add: d_def)
      have "d < unat csize" using c0 by (simp add: d_def)
      with dl a show "d < unat l" unfolding l by linarith
      have "(unat start + d) mod unat csize = (unat start + (unat a - unat start)) mod unat csize"
        unfolding d_def by (rule mod_add_right_eq)
      then show "(unat start + d) mod unat csize = unat a mod unat csize" using a(1) by simp
    qed
    define b where "b = start + of_nat d"
    have "unat start + d < 2 ^ 32" using d(1) a(1) unat_u32 [of a] by linarith
    then have b: "unat b = unat start + d"
      unfolding b_def by (simp add: unat_word_ariths unsigned_of_nat take_bit_nat_eq_self)
    obtain x where x: "x \<in> set xs" "same_line (2 ^ k) x b" using spec [OF xs(2), of b] d(2) b by auto
    have "same_position csize (2 ^ k) x b" using x(2) by (simp add: same_line_def same_position_def)
    then have "same_position csize (2 ^ k) x a"
      unfolding same_position_nat [OF k c(1)] b d(3) .
    then show ?thesis using x(1) by blast
  qed
  then show ?thesis
    using xs(1) c(2) by (intro exI [of _ xs]) (simp add: alt_icache_flush_def Let_def flip: l_def)
qed

section \<open>Property\<close>

text \<open>
  For lines of a power of two bytes and a region that ends at least a line below the end
  of the address space, the flush functions return; the data cache instructions name an address
  in every line that the region touches and none more than a line behind its end, and the
  instruction cache instructions, although cut to the size of the cache, name every position
  that a line of the region can have and are followed by the flush of the pipeline. On a processor without a data
  cache, which has lines of 0 bytes, the function that discards lines never returns for a region
  that is not empty.
\<close>

theorem flush_reaches_region:
  assumes "k < 32" and "unat start + unat len + 2 ^ k \<le> 2 ^ 32"
  shows "(\<exists>xs. alt_dcache_flush_no_writeback (2 ^ k) start len = Some (map Initda xs)
         \<and> (\<forall>a. unat start \<le> unat a \<and> unat a < unat start + unat len \<longrightarrow> (\<exists>x\<in>set xs. same_line (2 ^ k) x a))
         \<and> (\<forall>x\<in>set xs. unat start \<le> unat x \<and> unat x < unat start + unat len + 2 ^ k))
     \<and> (\<forall>csize>0. \<exists>xs. alt_dcache_flush csize (2 ^ k) start len = Some (map Flushda xs)
         \<and> (\<forall>a. unat start \<le> unat a \<and> unat a < unat start + unat len \<longrightarrow> (\<exists>x\<in>set xs. same_line (2 ^ k) x a))
         \<and> (\<forall>x\<in>set xs. unat start \<le> unat x \<and> unat x < unat start + unat len + 2 ^ k))
     \<and> (\<forall>csize>0. csize mod 2 ^ k = 0 \<longrightarrow>
         (\<exists>xs. alt_icache_flush csize (2 ^ k) start len = Some (map Flushi xs @ [Flushp])
           \<and> (\<forall>a. unat start \<le> unat a \<and> unat a < unat start + unat len \<longrightarrow>
                  (\<exists>x\<in>set xs. same_position csize (2 ^ k) x a))))
     \<and> (alt_dcache_flush_no_writeback 0 start len = None \<longleftrightarrow> len \<noteq> 0)"
proof (intro conjI allI impI)
  show "\<exists>xs. alt_dcache_flush_no_writeback (2 ^ k) start len = Some (map Initda xs)
         \<and> (\<forall>a. unat start \<le> unat a \<and> unat a < unat start + unat len \<longrightarrow> (\<exists>x\<in>set xs. same_line (2 ^ k) x a))
         \<and> (\<forall>x\<in>set xs. unat start \<le> unat x \<and> unat x < unat start + unat len + 2 ^ k)"
    unfolding alt_dcache_flush_no_writeback_def by (rule flush_region_covers [OF assms])
next
  fix csize :: u32 assume "0 < csize"
  then show "\<exists>xs. alt_dcache_flush csize (2 ^ k) start len = Some (map Flushda xs)
         \<and> (\<forall>a. unat start \<le> unat a \<and> unat a < unat start + unat len \<longrightarrow> (\<exists>x\<in>set xs. same_line (2 ^ k) x a))
         \<and> (\<forall>x\<in>set xs. unat start \<le> unat x \<and> unat x < unat start + unat len + 2 ^ k)"
    using flush_region_covers [OF assms, of Flushda] by (simp add: alt_dcache_flush_def)
next
  fix csize :: u32 assume c: "0 < csize" "csize mod 2 ^ k = 0"
  have "unat csize mod 2 ^ k = 0"
    using arg_cong [OF c(2), of unat] unfolding unat_mod_distrib unat_power_2 [OF assms(1)] by simp
  then have "unat csize = 2 ^ k * (unat csize div 2 ^ k)" by auto
  from icache_positions [OF assms this c(1)]
  show "\<exists>xs. alt_icache_flush csize (2 ^ k) start len = Some (map Flushi xs @ [Flushp])
           \<and> (\<forall>a. unat start \<le> unat a \<and> unat a < unat start + unat len \<longrightarrow>
                  (\<exists>x\<in>set xs. same_position csize (2 ^ k) x a))" .
next
  have "0 < (2 :: nat) ^ k" by simp
  then have "unat start + unat len < 2 ^ 32" using assms(2) by linarith
  then have "unat (start + len) = unat start + unat len" by (simp add: unat_word_ariths)
  then have lt: "start < start + len \<longleftrightarrow> len \<noteq> 0"
    using unat_gt_0 [of len] by (auto simp: word_less_nat_alt)
  show "alt_dcache_flush_no_writeback 0 start len = None \<longleftrightarrow> len \<noteq> 0"
  proof (cases "len = 0")
    case True
    then show ?thesis
      by (simp add: alt_dcache_flush_no_writeback_def flush_region_def flush_lines.simps [of 0 start start])
  next
    case False
    then show ?thesis
      using lt flush_lines_stuck [of start "start + len" "[]"]
      by (cases "flush_lines 0 start (start + len) []")
        (auto simp: alt_dcache_flush_no_writeback_def flush_region_def)
  qed
qed

theorem flush_reaches_region_witness:
  "(\<exists>xs. alt_dcache_flush_no_writeback 32 0x1010 0x40 = Some (map Initda xs)
       \<and> (\<exists>x\<in>set xs. same_line 32 x 0x104F))
   \<and> alt_dcache_flush_no_writeback 0 0x1010 0x40 = None"
  using flush_reaches_region [of 5 "0x1010" "0x40"]
  by (auto dest!: spec [of _ "0x104F"] simp: word_less_nat_alt)

end
