(* ===== verification/Services.thy ===== *)
theory Services
  imports FdClaims
begin

text \<open>
  The remaining services of the HAL: signals and the process stubs (\<^verbatim>\<open>alt_kill.c\<close>, \<^verbatim>\<open>alt_getpid.c\<close>,
  \<^verbatim>\<open>alt_fork.c\<close>, \<^verbatim>\<open>alt_execve.c\<close>, \<^verbatim>\<open>alt_wait.c\<close>, \<^verbatim>\<open>alt_link.c\<close>, \<^verbatim>\<open>alt_unlink.c\<close>, \<^verbatim>\<open>alt_rename.c\<close>),
  \<^verbatim>\<open>stat\<close> as the composition of \<open>open\<close>, \<open>fstat\<close> and \<open>close\<close> (\<^verbatim>\<open>alt_stat.c\<close>), the look-up of DMA
  channels and flash devices, and the output buffer of \<^verbatim>\<open>alt_putcharbuf.c\<close>.
\<close>

section \<open>Signals and processes\<close>

abbreviation (input) ESRCH :: int where "ESRCH \<equiv> 3"
abbreviation (input) ECHILD :: int where "ECHILD \<equiv> 10"

text \<open>
  The signals the code names, with newlib's numbers: those whose default is to end the program
  and those that are ignored.
\<close>

definition fatal_signals :: "int list" where
  "fatal_signals =
     [6 \<comment> \<open>ABRT\<close>, 14 \<comment> \<open>ALRM\<close>, 8 \<comment> \<open>FPE\<close>, 4 \<comment> \<open>ILL\<close>, 9 \<comment> \<open>KILL\<close>, 13 \<comment> \<open>PIPE\<close>, 3 \<comment> \<open>QUIT\<close>,
      11 \<comment> \<open>SEGV\<close>, 15 \<comment> \<open>TERM\<close>, 30 \<comment> \<open>USR1\<close>, 31 \<comment> \<open>USR2\<close>, 10 \<comment> \<open>BUS\<close>, 23 \<comment> \<open>POLL\<close>, 27 \<comment> \<open>PROF\<close>,
      12 \<comment> \<open>SYS\<close>, 5 \<comment> \<open>TRAP\<close>, 26 \<comment> \<open>VTALRM\<close>, 24 \<comment> \<open>XCPU\<close>, 25 \<comment> \<open>XFSZ\<close>]"

definition ignored_signals :: "int list" where
  "ignored_signals = [20 \<comment> \<open>CHLD\<close>, 16 \<comment> \<open>URG\<close>]"

text \<open>\<^verbatim>\<open>_exit\<close> does not return.\<close>

datatype 's kill_result = Exits | Returns int "'s sys"

definition alt_kill :: "int \<Rightarrow> int \<Rightarrow> 's sys \<Rightarrow> 's kill_result" where
  "alt_kill pid sig y =
     (let finish = (\<lambda>status. if status \<noteq> 0 then Returns (- 1) (y\<lparr>errno := status\<rparr>) else Returns 0 y)
      in if pid \<le> 0 then
           (if sig = 0 then finish 0
            else if sig \<in> set fatal_signals then Exits
            else if sig \<in> set ignored_signals then finish 0
            else finish EINVAL)
         else finish ESRCH)"

definition alt_getpid :: int where
  "alt_getpid = 0"

definition alt_fork :: "'s sys \<Rightarrow> int \<times> 's sys" where
  "alt_fork y = fail ENOSYS y"

definition alt_execve :: "string \<Rightarrow> 's sys \<Rightarrow> int \<times> 's sys" where
  "alt_execve name y = fail ENOSYS y"

text \<open>\<open>wait\<close> also stores a status of 0 in the caller's variable.\<close>

definition alt_wait :: "'s sys \<Rightarrow> int \<times> int \<times> 's sys" where
  "alt_wait y = (0, fail ECHILD y)"

definition alt_link :: "string \<Rightarrow> string \<Rightarrow> 's sys \<Rightarrow> int \<times> 's sys" where
  "alt_link existing new y = fail ENOSYS y"

definition alt_unlink :: "string \<Rightarrow> 's sys \<Rightarrow> int \<times> 's sys" where
  "alt_unlink name y = fail ENOSYS y"

definition alt_rename :: "string \<Rightarrow> string \<Rightarrow> 's sys \<Rightarrow> int \<times> 's sys" where
  "alt_rename existing new y = fail ENOSYS y"

text \<open>
  A program can signal itself only: as long as \<^verbatim>\<open>kill\<close> returns, its result says whether the signal
  is known, and the only state it changes is \<^verbatim>\<open>errno\<close>.
\<close>

lemma kill_outcome:
  "alt_kill pid sig y =
     (if 0 < pid then Returns (- 1) (y\<lparr>errno := ESRCH\<rparr>)
      else if sig \<in> set fatal_signals then Exits
      else if sig = 0 \<or> sig \<in> set ignored_signals then Returns 0 y
      else Returns (- 1) (y\<lparr>errno := EINVAL\<rparr>))"
  by (simp add: alt_kill_def Let_def fatal_signals_def)

section \<open>stat\<close>

text \<open>
  \<open>open\<close> is called without a mode, so the driver gets what is in the argument register. The
  result of \<open>open\<close> is not tested.
\<close>

definition alt_stat :: "string \<Rightarrow> u32 \<Rightarrow> u32 \<Rightarrow> 's sys \<Rightarrow> fault + (int \<times> u32 \<times> 's sys)" where
  "alt_stat file mode st y =
     (case alt_open file 0 mode y of
        Inl f \<Rightarrow> Inl f
      | Inr (fd, y) \<Rightarrow>
          (case alt_fstat fd st y of
             Inl f \<Rightarrow> Inl f
           | Inr (rc, st, y) \<Rightarrow>
               (case alt_close fd y of Inl f \<Rightarrow> Inl f | Inr (_, y) \<Rightarrow> Inr (rc, st, y))))"

lemma fstat_keeps_pool:
  "alt_fstat fd st y = Inr (rc, st', y') \<Longrightarrow> alt_fd_list y' = alt_fd_list y \<and> devices y' = devices y"
  by (auto simp: alt_fstat_def split: io_splits)

lemma close_keeps_others:
  "alt_close fd y = Inr (r, y') \<Longrightarrow> i < length (alt_fd_list y) \<Longrightarrow> fd \<noteq> int i \<Longrightarrow>
   fd_dev (alt_fd_list y' ! i) = fd_dev (alt_fd_list y ! i)"
  by (auto simp: alt_close_def fail_def alt_release_fd_def Let_def nth_list_update split: io_splits)

lemma close_frees:
  "alt_close (int i) y = Inr (r, y') \<Longrightarrow> 3 \<le> i \<Longrightarrow> fd_dev (alt_fd_list y' ! i) = None"
  by (auto simp: alt_close_def fd_of_def fail_def alt_release_fd_def Let_def split: io_splits)

text \<open>
  \<open>stat\<close> gives its descriptor back: whatever it returns, every descriptor refers to the device
  it referred to before. For a name that leads nowhere it fails, but with the error number of a
  bad descriptor.
\<close>

lemma stat_keeps_descriptors:
  assumes inv: "fd_inv y" and s: "alt_stat file mode st y = Inr (rc, st', y')" and i: "i < ALT_MAX_FD"
  shows "fd_dev (alt_fd_list y' ! i) = fd_dev (alt_fd_list y ! i)"
proof -
  obtain fd y1 y2 r where o: "alt_open file 0 mode y = Inr (fd, y1)"
    and f: "alt_fstat fd st y1 = Inr (rc, st', y2)" and c: "alt_close fd y2 = Inr (r, y')"
    using s by (auto simp: alt_stat_def split: io_splits)
  have y1: "fd_inv y1" using fd_inv_open [OF inv o] by simp
  have pool: "alt_fd_list y2 = alt_fd_list y1" using fstat_keeps_pool [OF f] by simp
  have len: "i < length (alt_fd_list y2)" using y1 i pool by (simp add: fd_inv_def)
  show ?thesis
  proof (cases "fd < 0")
    case True
    then obtain k where k: "touches_fd k y y1" "fd_dev (alt_fd_list y1 ! k) = fd_dev (alt_fd_list y ! k)"
      using open_failure [OF inv o] by blast
    have "fd_dev (alt_fd_list y1 ! i) = fd_dev (alt_fd_list y ! i)"
      using k by (cases "i = k") (auto simp: touches_fd_def)
    moreover have "fd_dev (alt_fd_list y' ! i) = fd_dev (alt_fd_list y2 ! i)"
      using close_keeps_others [OF c len] True by simp
    ultimately show ?thesis using pool by simp
  next
    case False
    then obtain k where k: "fd = int k" "3 \<le> k" "fd_dev (alt_fd_list y ! k) = None" "touches_fd k y y1"
      using open_success [OF inv o] by auto
    show ?thesis
    proof (cases "i = k")
      case True
      then show ?thesis using close_frees [of k y2 r y'] c k by simp
    next
      case False
      then have "fd_dev (alt_fd_list y' ! i) = fd_dev (alt_fd_list y2 ! i)"
        using close_keeps_others [OF c len] k(1) by simp
      then show ?thesis using k(4) False pool by (simp add: touches_fd_def)
    qed
  qed
qed

lemma stat_unknown_name:
  assumes "alt_find_dev y file (alt_dev_list y) = Inr None" and "alt_find_file y file = Inr None"
  shows "alt_stat file mode st y = Inr (- 1, st, y\<lparr>errno := EBADFD\<rparr>)"
  using assms
  by (simp add: alt_stat_def alt_open_def open_result_def fail_def alt_release_fd_def alt_fstat_def
      alt_close_def fd_of_def)

section \<open>DMA channels and flash devices\<close>

text \<open>
  Both kinds of channel are found in their own list, by the look-up of the devices, which reads
  the name only.
\<close>

definition alt_dma_rxchan_open :: "nat list \<Rightarrow> string \<Rightarrow> 's sys \<Rightarrow> fault + (nat option \<times> 's sys)" where
  "alt_dma_rxchan_open rxchan_list name y =
     map_sum id (\<lambda>dev. (dev, if dev = None then y\<lparr>errno := ENODEV\<rparr> else y)) (alt_find_dev y name rxchan_list)"

definition alt_dma_txchan_open :: "nat list \<Rightarrow> string \<Rightarrow> 's sys \<Rightarrow> fault + (nat option \<times> 's sys)" where
  "alt_dma_txchan_open txchan_list name y =
     map_sum id (\<lambda>dev. (dev, if dev = None then y\<lparr>errno := ENODEV\<rparr> else y)) (alt_find_dev y name txchan_list)"

text \<open>The calls through a channel check for the null pointer, except for the depth.\<close>

record 's dma_txchan_dev =
  tx_space :: "'s \<Rightarrow> int \<times> 's"
  dma_send :: "u32 \<Rightarrow> u32 \<Rightarrow> u32 \<Rightarrow> u32 \<Rightarrow> 's \<Rightarrow> int \<times> 's"
  tx_ioctl :: "int \<Rightarrow> u32 \<Rightarrow> 's \<Rightarrow> int \<times> 's"

record 's dma_rxchan_dev =
  depth :: u32
  prepare :: "u32 \<Rightarrow> u32 \<Rightarrow> u32 \<Rightarrow> u32 \<Rightarrow> 's \<Rightarrow> int \<times> 's"
  rx_ioctl :: "int \<Rightarrow> u32 \<Rightarrow> 's \<Rightarrow> int \<times> 's"

definition alt_dma_txchan_send ::
  "'s dma_txchan_dev option \<Rightarrow> u32 \<Rightarrow> u32 \<Rightarrow> u32 \<Rightarrow> u32 \<Rightarrow> 's \<Rightarrow> int \<times> 's" where
  "alt_dma_txchan_send dma src len callback handle s =
     (case dma of Some d \<Rightarrow> dma_send d src len callback handle s | None \<Rightarrow> (- ENODEV, s))"

definition alt_dma_txchan_space :: "'s dma_txchan_dev option \<Rightarrow> 's \<Rightarrow> int \<times> 's" where
  "alt_dma_txchan_space dma s = (case dma of Some d \<Rightarrow> tx_space d s | None \<Rightarrow> (- ENODEV, s))"

definition alt_dma_txchan_ioctl :: "'s dma_txchan_dev option \<Rightarrow> int \<Rightarrow> u32 \<Rightarrow> 's \<Rightarrow> int \<times> 's" where
  "alt_dma_txchan_ioctl dma req arg s = (case dma of Some d \<Rightarrow> tx_ioctl d req arg s | None \<Rightarrow> (- ENODEV, s))"

definition alt_dma_rxchan_prepare ::
  "'s dma_rxchan_dev option \<Rightarrow> u32 \<Rightarrow> u32 \<Rightarrow> u32 \<Rightarrow> u32 \<Rightarrow> 's \<Rightarrow> int \<times> 's" where
  "alt_dma_rxchan_prepare dma data len callback handle s =
     (case dma of Some d \<Rightarrow> prepare d data len callback handle s | None \<Rightarrow> (- ENODEV, s))"

definition alt_dma_rxchan_ioctl :: "'s dma_rxchan_dev option \<Rightarrow> int \<Rightarrow> u32 \<Rightarrow> 's \<Rightarrow> int \<times> 's" where
  "alt_dma_rxchan_ioctl dma req arg s = (case dma of Some d \<Rightarrow> rx_ioctl d req arg s | None \<Rightarrow> (- ENODEV, s))"

definition alt_dma_rxchan_depth :: "'s dma_rxchan_dev option \<Rightarrow> fault + u32" where
  "alt_dma_rxchan_depth dma = (case dma of Some d \<Rightarrow> Inr (depth d) | None \<Rightarrow> Inl NullDeref)"

record 's flash_dev =
  flash_open :: "(nat \<Rightarrow> string \<Rightarrow> 's \<Rightarrow> nat option \<times> 's) option"
  flash_close :: "(nat \<Rightarrow> 's \<Rightarrow> int \<times> 's) option"
  flash_write :: "(nat \<Rightarrow> int \<Rightarrow> u32 \<Rightarrow> int \<Rightarrow> 's \<Rightarrow> int \<times> 's) option"
  flash_read :: "(nat \<Rightarrow> int \<Rightarrow> u32 \<Rightarrow> int \<Rightarrow> 's \<Rightarrow> int \<times> 's) option"
  flash_get_info :: "(nat \<Rightarrow> u32 \<Rightarrow> u32 \<Rightarrow> 's \<Rightarrow> int \<times> 's) option"
  flash_erase_block :: "(nat \<Rightarrow> int \<Rightarrow> 's \<Rightarrow> int \<times> 's) option"
  flash_write_block :: "(nat \<Rightarrow> int \<Rightarrow> int \<Rightarrow> u32 \<Rightarrow> int \<Rightarrow> 's \<Rightarrow> int \<times> 's) option"
  flash_lock :: "(nat \<Rightarrow> u32 \<Rightarrow> 's \<Rightarrow> int \<times> 's) option"

definition alt_flash_open_dev ::
  "(nat \<Rightarrow> 's flash_dev) \<Rightarrow> nat list \<Rightarrow> string \<Rightarrow> 's sys \<Rightarrow> fault + (nat option \<times> 's sys)" where
  "alt_flash_open_dev flashes flash_dev_list name y =
     (case alt_find_dev y name flash_dev_list of
        Inl f \<Rightarrow> Inl f
      | Inr None \<Rightarrow> Inr (None, y)
      | Inr (Some d) \<Rightarrow>
          (case flash_open (flashes d) of
             None \<Rightarrow> Inr (Some d, y)
           | Some opn \<Rightarrow> (let (fd, s) = opn d name (drivers y) in Inr (fd, y\<lparr>drivers := s\<rparr>))))"

definition alt_flash_close_dev :: "(nat \<Rightarrow> 's flash_dev) \<Rightarrow> nat option \<Rightarrow> 's \<Rightarrow> 's" where
  "alt_flash_close_dev flashes fd s =
     (case fd of
        None \<Rightarrow> s
      | Some d \<Rightarrow> (case flash_close (flashes d) of None \<Rightarrow> s | Some cls \<Rightarrow> snd (cls d s)))"

text \<open>
  The calls of \<^verbatim>\<open>sys/alt_flash.h\<close> go to the entry of the device without a test of the pointer to the
  device or of the entry.
\<close>

definition on_flash ::
  "(nat \<Rightarrow> 's flash_dev) \<Rightarrow> ('s flash_dev \<Rightarrow> (nat \<Rightarrow> 'a) option) \<Rightarrow> nat option \<Rightarrow> fault + 'a" where
  "on_flash flashes entry fd =
     (case fd of None \<Rightarrow> Inl NullDeref
      | Some d \<Rightarrow> (case entry (flashes d) of None \<Rightarrow> Inl NullDeref | Some f \<Rightarrow> Inr (f d)))"

definition alt_lock_flash :: "(nat \<Rightarrow> 's flash_dev) \<Rightarrow> nat option \<Rightarrow> u32 \<Rightarrow> 's \<Rightarrow> fault + (int \<times> 's)" where
  "alt_lock_flash flashes fd sectors_to_lock s =
     map_sum id (\<lambda>f. f sectors_to_lock s) (on_flash flashes flash_lock fd)"

definition alt_write_flash ::
  "(nat \<Rightarrow> 's flash_dev) \<Rightarrow> nat option \<Rightarrow> int \<Rightarrow> u32 \<Rightarrow> int \<Rightarrow> 's \<Rightarrow> fault + (int \<times> 's)" where
  "alt_write_flash flashes fd offset src_addr len s =
     map_sum id (\<lambda>f. f offset src_addr len s) (on_flash flashes flash_write fd)"

definition alt_read_flash ::
  "(nat \<Rightarrow> 's flash_dev) \<Rightarrow> nat option \<Rightarrow> int \<Rightarrow> u32 \<Rightarrow> int \<Rightarrow> 's \<Rightarrow> fault + (int \<times> 's)" where
  "alt_read_flash flashes fd offset dest_addr len s =
     map_sum id (\<lambda>f. f offset dest_addr len s) (on_flash flashes flash_read fd)"

definition alt_get_flash_info ::
  "(nat \<Rightarrow> 's flash_dev) \<Rightarrow> nat option \<Rightarrow> u32 \<Rightarrow> u32 \<Rightarrow> 's \<Rightarrow> fault + (int \<times> 's)" where
  "alt_get_flash_info flashes fd info number_of_regions s =
     map_sum id (\<lambda>f. f info number_of_regions s) (on_flash flashes flash_get_info fd)"

definition alt_erase_flash_block ::
  "(nat \<Rightarrow> 's flash_dev) \<Rightarrow> nat option \<Rightarrow> int \<Rightarrow> int \<Rightarrow> 's \<Rightarrow> fault + (int \<times> 's)" where
  "alt_erase_flash_block flashes fd offset len s =
     map_sum id (\<lambda>f. f offset s) (on_flash flashes flash_erase_block fd)"

definition alt_write_flash_block ::
  "(nat \<Rightarrow> 's flash_dev) \<Rightarrow> nat option \<Rightarrow> int \<Rightarrow> int \<Rightarrow> u32 \<Rightarrow> int \<Rightarrow> 's \<Rightarrow> fault + (int \<times> 's)" where
  "alt_write_flash_block flashes fd block_offset data_offset data len s =
     map_sum id (\<lambda>f. f block_offset data_offset data len s) (on_flash flashes flash_write_block fd)"

text \<open>Looking up in a list of named channels never faults and tells a missing one by \<^verbatim>\<open>errno\<close>.\<close>

lemma find_named:
  "\<forall>d\<in>set ds. \<exists>nm. dev_name (devices y d) = Some nm \<and> nul_free nm \<Longrightarrow> nul_free name \<Longrightarrow>
   alt_find_dev y name ds = Inr (find (\<lambda>d. dev_name (devices y d) = Some name) ds)"
proof (induction ds)
  case (Cons d ds)
  then obtain nm where "dev_name (devices y d) = Some nm" "nul_free nm" by auto
  with Cons memcmp_whole [of nm name] show ?case by simp
qed simp

lemma dma_open_by_name:
  assumes "\<forall>d\<in>set ds. \<exists>nm. dev_name (devices y d) = Some nm \<and> nul_free nm" and "nul_free name"
  shows "\<exists>y'. alt_dma_rxchan_open ds name y = Inr (find (\<lambda>d. dev_name (devices y d) = Some name) ds, y')
     \<and> (name \<notin> (\<lambda>d. the (dev_name (devices y d))) ` set ds \<longrightarrow> errno y' = ENODEV)"
proof -
  have "find (\<lambda>d. dev_name (devices y d) = Some name) ds = None"
    if "name \<notin> (\<lambda>d. the (dev_name (devices y d))) ` set ds"
    using that assms(1) by (force simp: find_None_iff)
  then show ?thesis by (simp add: alt_dma_rxchan_open_def find_named [OF assms])
qed

section \<open>Buffered output\<close>

text \<open>\<^verbatim>\<open>alt_putcharbuf.c\<close>, which is compiled for semihosting only: a buffer of 64 characters.\<close>

record putbuf =
  buf :: "u8 list"
  fill_index :: u32

definition alt_putbufflush :: "putbuf \<Rightarrow> 's sys \<Rightarrow> fault + (int \<times> putbuf \<times> 's sys)" where
  "alt_putbufflush b y =
     (case alt_write 1 (take (unat (fill_index b)) (buf b)) y of
        Inl f \<Rightarrow> Inl f
      | Inr (results, y) \<Rightarrow> Inr (results, b\<lparr>fill_index := 0\<rparr>, y))"

definition alt_putcharbuf :: "u32 \<Rightarrow> putbuf \<Rightarrow> 's sys \<Rightarrow> fault + (u32 \<times> putbuf \<times> 's sys)" where
  "alt_putcharbuf c b y =
     (if \<not> unat (fill_index b) < length (buf b) then Inl OutOfBounds
      else
        (let b = b\<lparr>buf := (buf b)[unat (fill_index b) := ucast (c AND 0xFF)], fill_index := fill_index b + 1\<rparr>
         in if fill_index b \<ge> 64
            then map_sum id (\<lambda>(results, b, y). (c, b, y)) (alt_putbufflush b y)
            else Inr (c, b, y)))"

definition pending :: "putbuf \<Rightarrow> u8 list" where
  "pending b = take (unat (fill_index b)) (buf b)"

definition putbuf_inv :: "putbuf \<Rightarrow> bool" where
  "putbuf_inv b \<longleftrightarrow> length (buf b) = 64 \<and> unat (fill_index b) < 64"

text \<open>
  The buffer holds less than 64 characters between two calls; a character is appended to it, and
  the sixty-fourth writes them all in one call of \<open>write\<close>, in order.
\<close>

lemma putcharbuf_step:
  assumes "putbuf_inv b"
  shows "alt_putcharbuf c b y =
     (let cs = pending b @ [ucast (c AND 0xFF)];
          b' = b\<lparr>buf := (buf b)[unat (fill_index b) := ucast (c AND 0xFF)], fill_index := of_nat (length cs)\<rparr>
      in if length cs < 64 then Inr (c, b', y)
         else map_sum id (\<lambda>(r, y). (c, b'\<lparr>fill_index := 0\<rparr>, y)) (alt_write 1 cs y))"
proof -
  have u: "unat (fill_index b + 1) = Suc (unat (fill_index b))"
    using assms by (simp add: putbuf_inv_def unat_word_ariths)
  have f: "fill_index b + 1 = of_nat (Suc (unat (fill_index b)))" by simp
  have l: "length (pending b) = unat (fill_index b)" using assms by (simp add: pending_def putbuf_inv_def)
  have t: "take (Suc (unat (fill_index b))) ((buf b)[unat (fill_index b) := x]) = pending b @ [x]" for x
    using assms by (simp add: putbuf_inv_def pending_def take_Suc_conv_app_nth)
  have g: "64 \<le> fill_index b + 1 \<longleftrightarrow> \<not> Suc (unat (fill_index b)) < 64"
    unfolding word_le_nat_alt u by auto
  show ?thesis
    using assms
    by (auto simp: alt_putcharbuf_def alt_putbufflush_def Let_def putbuf_inv_def g u t l
        map_sum_def split: sum.splits)
qed

end
