(* ===== verification/Spec2Isabelle.thy ===== *)
theory Spec2Isabelle
  imports GameEnds NiosRegs IrqNest ChipAccess HpiWired NiosSystem Draw TimeOfDay BusySleep LogConfig BootClaims Crt0 CharIO Gmon ExcClaims Cache Services
begin

text \<open>
  The Galaga console: a verification development.

  \<^bold>\<open>The program.\<close> The game itself is hardware, in SystemVerilog. A small Nios II processor beside it runs a C program
  that talks to a USB keyboard through a Cypress CY7C67200 chip and writes the code of each pressed
  key to a register that the game reads. The program is \<^verbatim>\<open>src/software/usb_kb\<close>; under it lies the
  hardware abstraction layer of the board, \<^verbatim>\<open>src/software/usb_kb_bsp\<close>, which starts the program,
  provides files, time, memory and interrupts, and carries the standard streams over a JTAG UART.
  Both are modelled in the configuration of the repository: no cache, no direct drivers, one thread,
  32 descriptors, the interrupt-driven UART driver on interrupt 5. The board has no system clock;
  the clock rate is a parameter all the same, because the code is written for both cases.

  \<^bold>\<open>The keyboard program.\<close>
  \<^item> \<open>HpiBus\<close> (\<^verbatim>\<open>io_handler.c\<close>): \<open>IO_init\<close>, \<open>IO_write\<close> and \<open>IO_read\<close> as sequences of accesses to the
    registers that drive the pins of the chip. The chip is a parameter, a function of the trace of
    accesses. The lemmas decode such a trace as the chip does and show that each access of the
    program is one transfer with the right strobes.
  \<^item> \<open>UsbOps\<close> (\<^verbatim>\<open>usb.c\<close>): every function; the polling loops are partial functions, so that not
    returning is a value of the model. \<open>TdList\<close> reads the nine descriptor lists the way the chip
    does and shows that each is a well-formed USB control transfer for the request it is named after.
  \<^item> \<open>UsbMain\<close> (\<^verbatim>\<open>main.c\<close>): \<^verbatim>\<open>main\<close> never returns and jumps back to one label from many places; it is
    the machine \<open>main_machine\<close> whose program points stand between its loops and whose step
    runs the statements up to the next one, one iteration of a polling loop at a time.
    \<open>UsbMonitor\<close> reads the transfers of a run as the stages of an enumeration, \<open>UsbMainProps\<close> holds
    the invariants of the machine (bus discipline, key codes only after a complete enumeration, the
    data toggle), \<open>UsbLive\<close> its progress against a chip that answers, the refinement of the
    polling functions by program points, and what happens when the keyboard is pulled out.
  \<^item> \<open>ChipTables\<close> (\<^verbatim>\<open>cy7c67200.h\<close>, \<^verbatim>\<open>lcp_data.h\<close>, \<^verbatim>\<open>lcp_cmd.h\<close>, \<^verbatim>\<open>usb.h\<close>): the registers, bits, memory
    maps and interrupt numbers of the chip as tables, section by section. \<open>ChipRegs\<close> compares the
    descriptions that the header gives of the same register and states all their differences;
    \<open>ChipAccess\<close> reads the accesses to the inside of the chip off a run of \<^verbatim>\<open>main\<close> and shows that
    each is one that the headers allow.
  \<^item> \<open>HpiIntf\<close> (\<^verbatim>\<open>hpi_io_intf.sv\<close>): the circuit between the registers of the processor and the pins of
    the chip, clock cycle by clock cycle, and a board that joins it with a chip; the board is one of the
    environments of the program. \<open>HpiWired\<close> shows that the chip takes what \<^verbatim>\<open>main\<close> writes.
  \<^item> \<open>NiosSystem\<close> (\<^verbatim>\<open>system.h\<close>, \<^verbatim>\<open>linker.h\<close>, \<^verbatim>\<open>io.h\<close>, \<^verbatim>\<open>io_handler.h\<close>, \<^verbatim>\<open>altera_avalon_sysid_qsys.c\<close> and
    \<^verbatim>\<open>src/nios_system\<close>): the address map that the software is built with, the address decoder and the
    parallel ports of the hardware, and the test of the system id. The decoder implements the map,
    and the levels of the ports are the pins and the key code that the trace of the program means.

  \<^bold>\<open>The game.\<close>
  \<^item> \<open>Game\<close> (\<^verbatim>\<open>game_controller.sv\<close>, \<^verbatim>\<open>signal_controller.sv\<close>, \<^verbatim>\<open>user_ship.sv\<close>, \<^verbatim>\<open>laser.sv\<close>,
    \<^verbatim>\<open>eship_row.sv\<close>, \<^verbatim>\<open>enemy-ship.sv\<close>, \<^verbatim>\<open>boss.sv\<close>, \<^verbatim>\<open>hit_controller.sv\<close>,
    \<^verbatim>\<open>hit_controller_boss.sv\<close>): the registers of each module as a record, one cycle of the 50 MHz clock
    as a function, with coordinates of ten bits. \<open>GameProps\<close> has the invariant of the game for any
    inputs and the flight of a shot, \<open>GameClaims\<close> the properties: where ships can be, what score and
    screens say, when the hit test holds, how a shot ends. \<open>GameRun\<close> follows a whole game: holding
    the space key wins it. \<open>GameEnds\<close> bounds every game.
  \<^item> \<open>Console\<close> (\<^verbatim>\<open>lab8.sv\<close>): the machine of \<^verbatim>\<open>main.c\<close> and the game, joined by the key-code register and
    interleaved in any order.
  \<^item> \<open>Vga\<close> and \<open>Video\<close> (\<^verbatim>\<open>VGA_controller.sv\<close>, \<^verbatim>\<open>lab8.sv\<close>): the video timing, with its state after any
    number of pixels in closed form, and the game on the frame clock that it makes: one frame for
    each picture, in the blanking interval, so that nothing moves while it is drawn.
  \<^item> \<open>Draw\<close> (\<^verbatim>\<open>ram.sv\<close>, \<^verbatim>\<open>galaga_logo.sv\<close>, \<^verbatim>\<open>sprite_rom.sv\<close>, \<^verbatim>\<open>HexDriver.sv\<close>, \<^verbatim>\<open>Color_Mapper.sv\<close> and what the
    modules of the game draw): addresses and colours of the sprites, the texts, the colour of a
    pixel, the score on the displays. The memories answer one cycle late; the colour is right
    nevertheless, because a pixel lasts two.

  \<^bold>\<open>The layer below.\<close>
  \<^item> \<open>Llist\<close> (\<^verbatim>\<open>sys/alt_llist.h\<close>): linked lists over a store of link pairs, refined to lists.
  \<^item> \<open>Alarm\<close> (\<^verbatim>\<open>alt_alarm_start.c\<close>, \<^verbatim>\<open>alt_tick.c\<close>, \<^verbatim>\<open>sys/alt_alarm.h\<close>): the list of alarms and the
    tick that visits it, with the roll-over flag of a tick counter that wraps. \<open>TimeOfDay\<close>
    (\<^verbatim>\<open>alt_gettod.c\<close>, \<^verbatim>\<open>alt_settod.c\<close>, \<^verbatim>\<open>alt_times.c\<close>) stands on it.
  \<^item> \<open>FdTable\<close> and \<open>Syscalls\<close> (\<^verbatim>\<open>alt_dev.c\<close>, \<^verbatim>\<open>alt_get_fd.c\<close>, \<^verbatim>\<open>alt_open.c\<close>, \<^verbatim>\<open>alt_close.c\<close> and their
    neighbours): devices, the descriptor pool and the system calls. \<open>FdProps\<close> has the invariant of
    the pool and the lemmas, \<open>FdClaims\<close> the properties. The entries of a device are functions on a
    state of all drivers.
  \<^item> \<open>Ring\<close> and \<open>Uart\<close> (\<^verbatim>\<open>altera_avalon_jtag_uart_init.c\<close>, \<^verbatim>\<open>_read.c\<close>, \<^verbatim>\<open>_write.c\<close>, \<^verbatim>\<open>_ioctl.c\<close>,
    \<^verbatim>\<open>_fd.c\<close>): the ring buffers as an interface that the two buffers of the driver interpret, and
    the driver. \<open>UartProps\<close> has the invariants, \<open>UartClaims\<close> what a session of calls and
    interrupts promises.
  \<^item> \<open>Irq\<close> (\<^verbatim>\<open>alt_iic.c\<close>, \<^verbatim>\<open>alt_iic_isr_register.c\<close>, \<^verbatim>\<open>alt_irq_register.c\<close>, \<^verbatim>\<open>alt_irq_handler.c\<close>,
    \<^verbatim>\<open>alt_irq.h\<close>, \<^verbatim>\<open>alt_legacy_irq.h\<close>): the table of handlers, the enable register, the dispatcher. \<open>IrqNest\<close>:
    interrupts within interrupt routines. \<open>NiosRegs\<close> (\<^verbatim>\<open>nios2.h\<close>, \<^verbatim>\<open>sys/alt_exceptions.h\<close>): the control
    registers of the processor and their fields.
  \<^item> \<open>MulDiv\<close>, \<open>Exceptions\<close> and \<open>ExcClaims\<close> (\<^verbatim>\<open>alt_exception_entry.S\<close>, \<^verbatim>\<open>alt_irq_entry.S\<close>,
    \<^verbatim>\<open>alt_exception_muldiv.S\<close>, \<^verbatim>\<open>alt_instruction_exception_entry.c\<close>): the exception handler between the
    program and the dispatcher, at the level of registers and its stack frame. Multiplication and
    division are emulated on this processor; the loops are refined to arithmetic and the whole
    handler to the instruction set.
  \<^item> \<open>Boot\<close> and \<open>BootClaims\<close> (\<^verbatim>\<open>alt_sys_init.c\<close>, \<^verbatim>\<open>alt_main.c\<close>, \<^verbatim>\<open>alt_exit.c\<close>, \<^verbatim>\<open>alt_do_ctors.c\<close>,
    \<^verbatim>\<open>alt_do_dtors.c\<close>, \<^verbatim>\<open>altera_nios2_gen2_irq.c\<close>): one board on which interrupts, clock, files and
    UART meet. Start-up, an interrupt on its way through the dispatcher to the driver, and what a
    program prints on its way from \<^verbatim>\<open>write\<close> to the device before the processor stops.
  \<^item> \<open>Load\<close> (\<^verbatim>\<open>alt_load.c\<close>, \<^verbatim>\<open>sys/alt_load.h\<close>): the copy of sections into RAM. \<open>Crt0\<close> (\<^verbatim>\<open>crt0.S\<close>): from the reset
    vector to the call of \<^verbatim>\<open>alt_main\<close>, and the memory with which the C program starts.
  \<^item> \<open>CharIO\<close> (\<^verbatim>\<open>alt_putchar.c\<close>, \<^verbatim>\<open>alt_putstr.c\<close>, \<^verbatim>\<open>alt_getchar.c\<close>, \<^verbatim>\<open>sys/alt_driver.h\<close>): their three
    variants, over the C library, the system calls and the driver.
  \<^item> \<open>Heap\<close> (\<^verbatim>\<open>alt_sbrk.c\<close>), \<open>BusySleep\<close> (\<^verbatim>\<open>alt_busy_sleep.c\<close>, \<^verbatim>\<open>alt_usleep.c\<close>), \<open>Printf\<close>
    (\<^verbatim>\<open>alt_printf.c\<close>): one routine each, with the arithmetic at its width.
  \<^item> \<open>LogPrintf\<close> (\<^verbatim>\<open>alt_log_printf.c\<close>): the log's \<^verbatim>\<open>printf\<close>, a state machine over the format string,
    against what each conversion means; the echo of writes and the clock message. The configuration
    leaves the log out; the theory is about the code as it is when the log is on. \<open>LogConfig\<close>
    (\<^verbatim>\<open>sys/alt_log_printf.h\<close>) has the levels of the log and the macros that test its flags.
  \<^item> \<open>Cache\<close> (\<^verbatim>\<open>alt_dcache_flush.c\<close>, \<^verbatim>\<open>alt_icache_flush.c\<close> and their neighbours): the functions as
    sequences of cache instructions, for every size of cache and line.
  \<^item> \<open>Services\<close> (\<^verbatim>\<open>alt_kill.c\<close>, \<^verbatim>\<open>alt_stat.c\<close>, the process stubs, \<^verbatim>\<open>alt_dma_rxchan_open.c\<close>,
    \<^verbatim>\<open>alt_dma_txchan_open.c\<close>, \<^verbatim>\<open>alt_flash_dev.c\<close>, \<^verbatim>\<open>sys/alt_dma.h\<close>, \<^verbatim>\<open>sys/alt_flash.h\<close>,
    \<^verbatim>\<open>alt_putcharbuf.c\<close>): the remaining
    calls, on the descriptor layer.
  \<^item> \<open>Gmon\<close> (\<^verbatim>\<open>alt_gmon.c\<close>, \<^verbatim>\<open>alt_mcount.S\<close>): the profiler, on heap and alarm: the count of each pair of
    callee and caller and the histogram of the sampler.
  \<^item> \<open>Prelude\<close>: the integer types, faults, rewrite collections, and the interface of a machine with
    an invariant, which the machines of the development interpret.

  \<^bold>\<open>Conventions.\<close> C integers are words of their width and wrap; a C \<^verbatim>\<open>int\<close> that only carries an
  error code or a small count is an \<open>int\<close>. A read or write through a null pointer or outside an
  array is a value of type \<open>fault\<close>, never an arbitrary result. Loops that may not end are partial
  functions with result \<open>None\<close>, and where a property says that a call returns, it says so by a result
  \<open>Some\<close>. There is no fuel: loops over words recurse on a measure, polling loops are partial. The 3211
  and 71 frames of \<open>GameRun\<close> are the length of that run, computed. The
  machine of \<^verbatim>\<open>main\<close> runs for a number of steps that the progress theorems bound by existence.

  \<^bold>\<open>Schedules.\<close> The UART driver is interrupted while it waits. Its calls take the list of interrupts
  that will arrive; each round of a waiting loop serves one, and when the list runs out the call has
  not returned. A safety property holds for every list, so also for every prefix of an endless one.
  Interrupts in the middle of the copying parts of the driver are not modelled: each index has
  one writer and is read once, and the code disables interrupts around the enable register.

  \<^bold>\<open>Parameters.\<close> The USB chip, the registers of the UART, the handlers of other interrupts, the user's
  constructors, destructors and \<^verbatim>\<open>main\<close> in \<open>Boot\<close>, linker symbols, and the C library where it is
  called (\<^verbatim>\<open>exit\<close> runs what \<^verbatim>\<open>atexit\<close> registered). Properties that need such code to behave state it as a
  hypothesis, and each has an instance where it does.

  \<^bold>\<open>Not modelled.\<close> Text output of the keyboard program, which changes none of its state. The
  locks of the C library, which are empty functions; the entry of the ECC handler. Of
  \<^verbatim>\<open>cy7c67200.h\<close> the masks, error codes and constants of the firmware of the chip in device mode, and
  four macros whose bodies are not C. The terminal settings of \<^verbatim>\<open>sys/termios.h\<close> and the stack check of
  \<^verbatim>\<open>sys/alt_stack.h\<close>, which nothing here uses. Of the hardware, the
  processor core, the handshake of its interconnect (a load or store is one step), the PLLs and the
  SDRAM controller; the contents of the sprite memories, which come from files, are a parameter.
  \<^verbatim>\<open>ball.sv\<close> is not used by the design, \<^verbatim>\<open>testbench.sv\<close> is a simulation harness.
\<close>

end
